(* ===== verification/Prelude.thy ===== *)
theory Prelude
  imports Main "HOL-Library.Word" "HOL-Library.Multiset" "HOL-Library.Char_ord"
    "HOL-Library.List_Lexorder" "HOL-Library.Code_Target_Nat"
begin

text \<open>
  Shared vocabulary of the development: results of fallible Go functions,
  and the generic facts on lists,
  association lists and sorting that several components use.

  A Go function returning \<open>(T, error)\<close> is a function into \<open>'e + 'a\<close>: \<open>Inl e\<close> is the
  error, \<open>Inr x\<close> the value.  A Go function returning only \<open>error\<close> is a function into
  \<open>'e + unit\<close>.  Strings are byte strings (\<open>string\<close>, a list of bytes), as in Go, and
  are ordered bytewise, which is what \<open><\<close> on Go strings and \<open>sort.Strings\<close> do.
\<close>

type_synonym ('e, 'a) result = "'e + 'a"


subsection \<open>Fallible computations\<close>

definition bindE :: "('e, 'a) result \<Rightarrow> ('a \<Rightarrow> ('e, 'b) result) \<Rightarrow> ('e, 'b) result" where
  "bindE m f = (case m of Inl e \<Rightarrow> Inl e | Inr x \<Rightarrow> f x)"

definition guardE :: "bool \<Rightarrow> 'e \<Rightarrow> ('e, unit) result" where
  "guardE ok e = (if ok then Inr () else Inl e)"

definition mapErr :: "('e \<Rightarrow> 'f) \<Rightarrow> ('e, 'a) result \<Rightarrow> ('f, 'a) result" where
  "mapErr f m = (case m of Inl e \<Rightarrow> Inl (f e) | Inr x \<Rightarrow> Inr x)"

definition of_option :: "'e \<Rightarrow> 'a option \<Rightarrow> ('e, 'a) result" where
  "of_option e m = (case m of None \<Rightarrow> Inl e | Some x \<Rightarrow> Inr x)"

definition isOk :: "('e, 'a) result \<Rightarrow> bool" where
  "isOk m = (case m of Inl _ \<Rightarrow> False | Inr _ \<Rightarrow> True)"

lemma bindE_simps [simp]: "bindE (Inl e) f = Inl e" "bindE (Inr x) f = f x"
  by (simp_all add: bindE_def)

lemma bindE_Inr_iff: "bindE m f = Inr y \<longleftrightarrow> (\<exists>x. m = Inr x \<and> f x = Inr y)"
  by (cases m) auto

lemma bindE_Inl_iff: "bindE m f = Inl e \<longleftrightarrow> m = Inl e \<or> (\<exists>x. m = Inr x \<and> f x = Inl e)"
  by (cases m) auto

lemma guardE_Inr_iff [simp]: "guardE ok e = Inr u \<longleftrightarrow> ok"
  by (simp add: guardE_def)

lemma guardE_Inl_iff [simp]: "guardE ok e = Inl e' \<longleftrightarrow> \<not> ok \<and> e' = e"
  by (auto simp: guardE_def)

lemma mapErr_simps [simp]: "mapErr f (Inl e) = Inl (f e)" "mapErr f (Inr x) = Inr x"
  by (simp_all add: mapErr_def)

lemma mapErr_Inr_iff [simp]: "mapErr f m = Inr x \<longleftrightarrow> m = Inr x"
  by (cases m) auto

lemma of_option_simps [simp]: "of_option e None = Inl e" "of_option e (Some x) = Inr x"
  by (simp_all add: of_option_def)

lemma of_option_Inr_iff [simp]: "of_option e m = Inr x \<longleftrightarrow> m = Some x"
  by (cases m) auto

lemma isOk_simps [simp]: "\<not> isOk (Inl e)" "isOk (Inr x)"
  by (simp_all add: isOk_def)

lemma isOk_iff: "isOk m \<longleftrightarrow> (\<exists>x. m = Inr x)"
  by (cases m) auto

lemma not_isOk_iff: "\<not> isOk m \<longleftrightarrow> (\<exists>e. m = Inl e)"
  by (cases m) auto

text \<open>A \<open>for\<close> loop that converts every element and returns at the first error.\<close>

fun mapE :: "('a \<Rightarrow> ('e, 'b) result) \<Rightarrow> 'a list \<Rightarrow> ('e, 'b list) result" where
  "mapE f [] = Inr []"
| "mapE f (x # xs) = bindE (f x) (\<lambda>y. bindE (mapE f xs) (\<lambda>ys. Inr (y # ys)))"

lemma mapE_Inr_iff: "mapE f xs = Inr ys \<longleftrightarrow> list_all2 (\<lambda>x y. f x = Inr y) xs ys"
  by (induction xs arbitrary: ys) (auto simp: bindE_Inr_iff list_all2_Cons1)

lemma mapE_length: "mapE f xs = Inr ys \<Longrightarrow> length ys = length xs"
  by (auto simp: mapE_Inr_iff dest: list_all2_lengthD)

lemma mapE_nth: "mapE f xs = Inr ys \<Longrightarrow> i < length xs \<Longrightarrow> f (xs ! i) = Inr (ys ! i)"
  by (auto simp: mapE_Inr_iff dest: list_all2_nthD)

lemma mapE_set: "mapE f xs = Inr ys \<Longrightarrow> y \<in> set ys \<longleftrightarrow> (\<exists>x \<in> set xs. f x = Inr y)"
proof (induction xs arbitrary: ys)
  case (Cons x xs)
  then obtain z zs where "f x = Inr z" "mapE f xs = Inr zs" "ys = z # zs"
    by (auto simp: bindE_Inr_iff)
  with Cons.IH[of zs] show ?case by auto
qed simp

lemma mapE_total: "(\<And>x. x \<in> set xs \<Longrightarrow> f x = Inr (g x)) \<Longrightarrow> mapE f xs = Inr (map g xs)"
  by (induction xs) auto

lemma mapE_map: "mapE f xs = Inr ys \<Longrightarrow> (\<And>x y. f x = Inr y \<Longrightarrow> h y = k x) \<Longrightarrow> map h ys = map k xs"
  by (induction xs arbitrary: ys) (auto simp: bindE_Inr_iff)

text \<open>A loop that checks every element and returns the first error.\<close>

fun checkAll :: "('a \<Rightarrow> ('e, unit) result) \<Rightarrow> 'a list \<Rightarrow> ('e, unit) result" where
  "checkAll f [] = Inr ()"
| "checkAll f (x # xs) = bindE (f x) (\<lambda>_. checkAll f xs)"

lemma checkAll_Inr_iff: "checkAll f xs = Inr u \<longleftrightarrow> (\<forall>x \<in> set xs. f x = Inr ())"
  by (induction xs) (auto simp: bindE_Inr_iff)

text \<open>A loop that threads state and returns at the first error.\<close>

fun foldE :: "('s \<Rightarrow> 'a \<Rightarrow> ('e, 's) result) \<Rightarrow> 's \<Rightarrow> 'a list \<Rightarrow> ('e, 's) result" where
  "foldE f s [] = Inr s"
| "foldE f s (x # xs) = bindE (f s x) (\<lambda>s'. foldE f s' xs)"

text \<open>
  When the state is a function \<open>st\<close> of the elements already seen and a step succeeds
  exactly when a predicate of them and the next element holds, the loop succeeds exactly
  when the predicate holds at every position.
\<close>

lemma foldE_history:
  assumes "\<And>ys x s'. (f (st ys) x = Inr s') = (P ys x \<and> s' = st (ys @ [x]))"
  shows "foldE f (st ys) xs = Inr t \<longleftrightarrow> (\<forall>i < length xs. P (ys @ take i xs) (xs ! i)) \<and> t = st (ys @ xs)"
proof (induction xs arbitrary: ys)
  case (Cons x xs)
  show ?case
    by (auto simp: bindE_Inr_iff assms Cons.IH All_less_Suc2)
qed auto

lemma foldE_fails_iff: "(\<exists>e. foldE f s xs = Inl e) \<longleftrightarrow> \<not> (\<exists>t. foldE f s xs = Inr t)"
  by (cases "foldE f s xs") auto

subsection \<open>Lists, association lists and sorting\<close>

lemma map_of_distinct_some:
  "distinct (map fst xs) \<Longrightarrow> (k, v) \<in> set xs \<Longrightarrow> map_of xs k = Some v"
  by (rule map_of_is_SomeI)

text \<open>Sorting by a key that separates the elements does not depend on the input order.\<close>

lemma sort_key_perm_eq:
  assumes "mset xs = mset ys" "inj_on f (set xs)"
  shows "sort_key f xs = sort_key f ys"
  using assms by (intro sort_key_inj_key_eq) auto

lemma sort_perm_eq: "mset xs = mset ys \<Longrightarrow> sort xs = sort (ys :: 'a::linorder list)"
  by (rule sort_key_perm_eq) auto

lemma distinct_inj_on_key: "distinct (map f xs) \<Longrightarrow> inj_on f (set xs)"
  by (simp add: distinct_map)

lemma distinct_map_sort_key: "distinct (map g (sort_key f xs)) \<longleftrightarrow> distinct (map g xs)"
  by (metis mset_map mset_sort mset_eq_imp_distinct_iff)

lemma sorted_distinct_strict:
  "sorted xs \<Longrightarrow> distinct xs \<Longrightarrow> i < j \<Longrightarrow> j < length xs \<Longrightarrow> xs ! i < (xs ! j :: 'a::linorder)"
  by (metis le_neq_trans less_imp_le_nat nth_eq_iff_index_eq order.strict_trans
      order_less_imp_not_eq sorted_nth_mono)

text \<open>A predicate between every element and each of its predecessors.\<close>

lemma sorted_wrt_take_iff:
  "sorted_wrt Q xs \<longleftrightarrow> (\<forall>i < length xs. \<forall>y \<in> set (take i xs). Q y (xs ! i))"
proof (induction xs rule: rev_induct)
  case (snoc x xs)
  have "(\<forall>i < length (xs @ [x]). \<forall>y \<in> set (take i (xs @ [x])). Q y ((xs @ [x]) ! i)) \<longleftrightarrow>
      (\<forall>i < length xs. \<forall>y \<in> set (take i xs). Q y (xs ! i)) \<and> (\<forall>y \<in> set xs. Q y x)"
    by (auto simp: nth_append less_Suc_eq)
  with snoc show ?case by (simp add: sorted_wrt_append)
qed simp

lemma distinct_take_iff: "distinct xs \<longleftrightarrow> (\<forall>i < length xs. xs ! i \<notin> set (take i xs))"
proof (induction xs rule: rev_induct)
  case (snoc x xs)
  have "(\<forall>i < length (xs @ [x]). (xs @ [x]) ! i \<notin> set (take i (xs @ [x]))) \<longleftrightarrow>
      (\<forall>i < length xs. xs ! i \<notin> set (take i xs)) \<and> x \<notin> set xs"
    by (auto simp: nth_append less_Suc_eq)
  with snoc show ?case by auto
qed simp

lemma distinct_map_take_iff:
  "distinct (map f xs) \<longleftrightarrow> (\<forall>i < length xs. f (xs ! i) \<notin> f ` set (take i xs))"
  by (simp add: distinct_take_iff take_map)

lemma all_nth_iff: "(\<forall>i < length xs. P (xs ! i)) \<longleftrightarrow> (\<forall>x \<in> set xs. P x)"
  by (simp add: all_set_conv_all_nth)

lemma all_positions_snoc:
  "(\<forall>i < length (xs @ [x]). P (take i (xs @ [x])) ((xs @ [x]) ! i)) \<longleftrightarrow>
     (\<forall>i < length xs. P (take i xs) (xs ! i)) \<and> P xs x"
  by (auto simp: All_less_Suc nth_append)

lemma sorted_wrt_concat_iff:
  "sorted_wrt Q (concat (map g xs)) \<longleftrightarrow>
     (\<forall>i < length xs. sorted_wrt Q (g (xs ! i)) \<and>
        (\<forall>a \<in> set (concat (map g (take i xs))). \<forall>b \<in> set (g (xs ! i)). Q a b))"
proof (induction xs rule: rev_induct)
  case (snoc x xs)
  have "sorted_wrt Q (concat (map g (xs @ [x]))) \<longleftrightarrow>
      sorted_wrt Q (concat (map g xs)) \<and> sorted_wrt Q (g x) \<and>
      (\<forall>a \<in> set (concat (map g xs)). \<forall>b \<in> set (g x). Q a b)"
    by (simp add: sorted_wrt_append)
  then show ?case
    unfolding all_positions_snoc[where P = "\<lambda>ys y. sorted_wrt Q (g y) \<and>
      (\<forall>a \<in> set (concat (map g ys)). \<forall>b \<in> set (g y). Q a b)"] snoc.IH .
qed simp

text \<open>
  A loop whose step checks the element and compares it with everything seen before, which
  starts as \<open>A\<close> and grows by the image of each element.
\<close>

lemma seen_positions_iff:
  "(\<forall>i < length xs. P (xs ! i) \<and> (\<forall>e \<in> g ` set (take i xs) \<union> A. Q e (xs ! i))) \<longleftrightarrow>
     (\<forall>x \<in> set xs. P x) \<and> sorted_wrt (\<lambda>a b. Q (g a) b) xs \<and> (\<forall>e \<in> A. \<forall>x \<in> set xs. Q e x)"
proof (induction xs rule: rev_induct)
  case (snoc x xs)
  show ?case
    unfolding all_positions_snoc[where P = "\<lambda>ys y. P y \<and> (\<forall>e \<in> g ` set ys \<union> A. Q e y)"] snoc.IH
    by (simp add: sorted_wrt_append) blast
qed simp

lemma foldE_seen:
  assumes "\<And>ys x s'. (f (st ys) x = Inr s') =
    ((P x \<and> (\<forall>e \<in> g ` set ys \<union> A. Q e x)) \<and> s' = st (ys @ [x]))"
  shows "foldE f (st []) xs = Inr t \<longleftrightarrow>
     ((\<forall>x \<in> set xs. P x) \<and> sorted_wrt (\<lambda>a b. Q (g a) b) xs \<and> (\<forall>e \<in> A. \<forall>x \<in> set xs. Q e x)) \<and> t = st xs"
  unfolding foldE_history[where ys = "[]" and st = st and f = f, OF assms] append_Nil
    seen_positions_iff[where P = P and A = A and g = g and Q = Q] ..

lemma find_fst_None_iff: "find (\<lambda>(a, _). P a) xs = None \<longleftrightarrow> (\<forall>e \<in> fst ` set xs. \<not> P e)"
  by (induction xs) auto

lemma find_snd_None_iff: "find (\<lambda>(_, b). P b) xs = None \<longleftrightarrow> (\<forall>e \<in> snd ` set xs. \<not> P e)"
  by (induction xs) auto

text \<open>Projections of a numbered list.\<close>

lemma map_enumerate:
  "(\<And>i x. h (F i x) = k x) \<Longrightarrow> map h (map (\<lambda>(i, x). F i x) (enumerate n xs)) = map k xs"
  by (rule nth_equalityI) (auto simp: nth_enumerate_eq)

lemma map_enumerate_index:
  "(\<And>i x. h (F i x) = k i) \<Longrightarrow> map h (map (\<lambda>(i, x). F i x) (enumerate 0 xs)) = map k [0..<length xs]"
  by (rule nth_equalityI) (auto simp: nth_enumerate_eq)

text \<open>Lookup in a map filled by a loop, newest entry first.\<close>

lemma map_of_rev_distinct:
  assumes "distinct (map f xs)"
  shows "map_of (rev (map (\<lambda>x. (f x, g x)) xs)) k = Some v \<longleftrightarrow> (\<exists>x \<in> set xs. f x = k \<and> g x = v)"
proof -
  have "distinct (map fst (rev (map (\<lambda>x. (f x, g x)) xs)))"
    using assms by (simp add: rev_map comp_def distinct_map)
  from map_of_eq_Some_iff[OF this, of k v] show ?thesis by auto
qed

lemma filter_map_key: "filter P (map f xs) = map f (filter (P \<circ> f) xs)"
  by (simp add: filter_map)

end
