(* ===== verification/GoStrings.thy ===== *)
theory GoStrings
  imports Prelude
begin

text \<open>
  The part of Go's \<open>strings\<close> and \<open>strconv\<close> packages the program uses, on byte strings.
  Separators and cut sets of the program are ASCII, so byte-wise scanning is what Go does.
  \<open>ToLower\<close> maps the ASCII letters and leaves the other bytes alone: the Unicode case
  tables are outside the model.  \<open>TrimSpace\<close> and \<open>Fields\<close> know the UTF-8 encodings of all
  runes \<open>unicode.IsSpace\<close> accepts.
\<close>

subsection \<open>Characters\<close>

definition code :: "char \<Rightarrow> nat" where
  "code c = of_char c"

definition is_digit :: "char \<Rightarrow> bool" where
  "is_digit c \<longleftrightarrow> 48 \<le> code c \<and> code c \<le> 57"

definition is_lower :: "char \<Rightarrow> bool" where
  "is_lower c \<longleftrightarrow> 97 \<le> code c \<and> code c \<le> 122"

definition is_upper :: "char \<Rightarrow> bool" where
  "is_upper c \<longleftrightarrow> 65 \<le> code c \<and> code c \<le> 90"

definition is_letter :: "char \<Rightarrow> bool" where
  "is_letter c \<longleftrightarrow> is_lower c \<or> is_upper c"

definition digit_val :: "char \<Rightarrow> nat" where
  "digit_val c = code c - 48"

definition digit_char :: "nat \<Rightarrow> char" where
  "digit_char n = char_of (48 + n)"

definition NL :: char where [simp]: "NL = CHR 0x0A"
definition CR :: char where [simp]: "CR = CHR 0x0D"
definition TAB :: char where [simp]: "TAB = CHR 0x09"

definition lower_char :: "char \<Rightarrow> char" where
  "lower_char c = (if is_upper c then char_of (code c + 32) else c)"

lemma code_inj: "code c = code d \<longleftrightarrow> c = d"
  unfolding code_def by (metis char_of_char)

lemma code_digit_char: "n < 10 \<Longrightarrow> code (digit_char n) = 48 + n"
  by (simp add: code_def digit_char_def)

lemma is_digit_digit_char [simp]: "n < 10 \<Longrightarrow> is_digit (digit_char n)"
  by (simp add: is_digit_def code_digit_char)

lemma digit_val_digit_char [simp]: "n < 10 \<Longrightarrow> digit_val (digit_char n) = n"
  by (simp add: digit_val_def code_digit_char)

lemma digit_char_inj: "m < 10 \<Longrightarrow> n < 10 \<Longrightarrow> digit_char m = digit_char n \<longleftrightarrow> m = n"
  by (metis digit_val_digit_char)

lemma lower_char_idem [simp]: "lower_char (lower_char c) = lower_char c"
  by (auto simp: lower_char_def is_upper_def code_def)

subsection \<open>Searching and cutting\<close>

definition HasPrefix :: "string \<Rightarrow> string \<Rightarrow> bool" where
  "HasPrefix s p \<longleftrightarrow> take (length p) s = p"

definition HasSuffix :: "string \<Rightarrow> string \<Rightarrow> bool" where
  "HasSuffix s p \<longleftrightarrow> HasPrefix (rev s) (rev p)"

definition TrimPrefix :: "string \<Rightarrow> string \<Rightarrow> string" where
  "TrimPrefix s p = (if HasPrefix s p then drop (length p) s else s)"

definition TrimSuffix :: "string \<Rightarrow> string \<Rightarrow> string" where
  "TrimSuffix s p = (if HasSuffix s p then take (length s - length p) s else s)"

definition ContainsAny :: "string \<Rightarrow> string \<Rightarrow> bool" where
  "ContainsAny s chars \<longleftrightarrow> list_ex (\<lambda>c. c \<in> set chars) s"

definition ToLower :: "string \<Rightarrow> string" where
  "ToLower s = map lower_char s"

definition TrimSet :: "string \<Rightarrow> string \<Rightarrow> string" where
  "TrimSet s cutset =
     rev (dropWhile (\<lambda>c. c \<in> set cutset) (rev (dropWhile (\<lambda>c. c \<in> set cutset) s)))"

definition TrimRight :: "string \<Rightarrow> string \<Rightarrow> string" where
  "TrimRight s cutset = rev (dropWhile (\<lambda>c. c \<in> set cutset) (rev s))"

definition ReplaceByte :: "char \<Rightarrow> char \<Rightarrow> string \<Rightarrow> string" where
  "ReplaceByte a b s = map (\<lambda>c. if c = a then b else c) s"

text \<open>The parts of \<open>s\<close> before and after the first and the last occurrence of a byte.\<close>

fun CutByte :: "char \<Rightarrow> string \<Rightarrow> (string \<times> string) option" where
  "CutByte x [] = None"
| "CutByte x (c # cs) =
     (if c = x then Some ([], cs) else map_option (\<lambda>(a, b). (c # a, b)) (CutByte x cs))"

definition CutLastByte :: "char \<Rightarrow> string \<Rightarrow> (string \<times> string) option" where
  "CutLastByte x s = map_option (\<lambda>(a, b). (rev b, rev a)) (CutByte x (rev s))"

text \<open>\<open>strings.Split\<close> at a one-byte separator: never empty.\<close>

fun Split :: "char \<Rightarrow> string \<Rightarrow> string list" where
  "Split x [] = [[]]"
| "Split x (c # cs) =
     (if c = x then [] # Split x cs
      else (case Split x cs of [] \<Rightarrow> [[c]] | w # ws \<Rightarrow> (c # w) # ws))"

fun Join :: "string \<Rightarrow> string list \<Rightarrow> string" where
  "Join sep [] = []"
| "Join sep [w] = w"
| "Join sep (w # ws) = w @ sep @ Join sep ws"

lemma HasPrefix_append [simp]: "HasPrefix (p @ s) p"
  by (simp add: HasPrefix_def)

lemma HasPrefix_iff: "HasPrefix s p \<longleftrightarrow> (\<exists>t. s = p @ t)"
  unfolding HasPrefix_def by (metis append_eq_conv_conj append_take_drop_id)

lemma HasSuffix_iff: "HasSuffix s p \<longleftrightarrow> (\<exists>t. s = t @ p)"
  unfolding HasSuffix_def HasPrefix_iff
  by (metis rev_append rev_rev_ident)

lemma CutByte_Some_iff: "CutByte x s = Some (a, b) \<longleftrightarrow> s = a @ x # b \<and> x \<notin> set a"
proof (induction s arbitrary: a b)
  case (Cons c s)
  show ?case
  proof (cases "c = x")
    case True
    then show ?thesis by (cases a) auto
  next
    case False
    then show ?thesis using Cons.IH by (cases a) auto
  qed
qed simp

lemma CutByte_None_iff: "CutByte x s = None \<longleftrightarrow> x \<notin> set s"
  by (induction s) auto

lemma CutByte_append: "x \<notin> set a \<Longrightarrow> CutByte x (a @ x # b) = Some (a, b)"
  by (simp add: CutByte_Some_iff)

lemma CutLastByte_Some_iff: "CutLastByte x s = Some (a, b) \<longleftrightarrow> s = a @ x # b \<and> x \<notin> set b"
proof -
  have "CutLastByte x s = Some (a, b) \<longleftrightarrow> CutByte x (rev s) = Some (rev b, rev a)"
    unfolding CutLastByte_def by (cases "CutByte x (rev s)") (auto simp: rev_swap)
  also have "\<dots> \<longleftrightarrow> rev s = rev b @ x # rev a \<and> x \<notin> set b"
    by (simp add: CutByte_Some_iff)
  also have "\<dots> \<longleftrightarrow> s = a @ x # b \<and> x \<notin> set b"
    by (auto simp: rev_swap)
  finally show ?thesis .
qed

lemma CutLastByte_append: "x \<notin> set b \<Longrightarrow> CutLastByte x (a @ x # b) = Some (a, b)"
  by (simp add: CutLastByte_Some_iff)

lemma Split_nonempty [simp]: "Split x s \<noteq> []"
  by (induction s) (auto split: list.splits)

lemma Split_no_sep: "x \<notin> set s \<Longrightarrow> Split x s = [s]"
  by (induction s) auto

lemma Split_append: "x \<notin> set a \<Longrightarrow> Split x (a @ x # b) = a # Split x b"
  by (induction a) auto

lemma Split_parts: "w \<in> set (Split x s) \<Longrightarrow> x \<notin> set w"
proof (induction s arbitrary: w)
  case (Cons c s)
  then show ?case
    by (cases "Split x s") (auto split: if_splits)
qed simp

lemma Split_subset: "w \<in> set (Split x s) \<Longrightarrow> set w \<subseteq> set s"
proof (induction s arbitrary: w)
  case (Cons c s)
  then show ?case
    by (cases "Split x s") (fastforce split: if_splits)+
qed simp

lemma Join_Split: "Join [x] (Split x s) = s"
proof (induction s)
  case (Cons c s)
  show ?case
  proof (cases "Split x s")
    case (Cons w ws)
    with Cons.IH show ?thesis by (cases ws) auto
  qed simp
qed simp

lemma Split_Join:
  assumes "ws \<noteq> []" "\<forall>w \<in> set ws. x \<notin> set w"
  shows "Split x (Join [x] ws) = ws"
  using assms
proof (induction ws rule: induct_list012)
  case (2 w)
  then show ?case by (simp add: Split_no_sep)
next
  case (3 w v ws)
  then show ?case by (simp add: Split_append)
qed simp

fun Contains :: "string \<Rightarrow> string \<Rightarrow> bool" where
  "Contains [] sub = (sub = [])"
| "Contains (c # cs) sub = (HasPrefix (c # cs) sub \<or> Contains cs sub)"

lemma Contains_iff: "Contains s sub \<longleftrightarrow> (\<exists>a b. s = a @ sub @ b)"
proof (induction s)
  case (Cons c s)
  have "(\<exists>a b. c # s = a @ sub @ b) \<longleftrightarrow> (\<exists>b. c # s = sub @ b) \<or> (\<exists>a b. s = a @ sub @ b)"
    by (metis Cons_eq_append_conv append_Cons self_append_conv2)
  with Cons show ?case by (simp add: HasPrefix_iff)
qed simp

subsection \<open>White space\<close>

text \<open>The UTF-8 encodings of the runes for which \<open>unicode.IsSpace\<close> holds.\<close>

definition space_runes :: "string list" where
  "space_runes =
     [[CHR 0x20], [CHR 0x09], [CHR 0x0A], [CHR 0x0B], [CHR 0x0C], [CHR 0x0D],
      [CHR 0xC2, CHR 0x85], [CHR 0xC2, CHR 0xA0], [CHR 0xE1, CHR 0x9A, CHR 0x80],
      [CHR 0xE2, CHR 0x80, CHR 0xA8], [CHR 0xE2, CHR 0x80, CHR 0xA9],
      [CHR 0xE2, CHR 0x80, CHR 0xAF], [CHR 0xE2, CHR 0x81, CHR 0x9F],
      [CHR 0xE3, CHR 0x80, CHR 0x80]]
     @ map (\<lambda>k. [CHR 0xE2, CHR 0x80, char_of (128 + k :: nat)]) [0..<11]"

text \<open>The rest of \<open>s\<close> after one leading rune of the list, if there is one.\<close>

fun eat :: "string list \<Rightarrow> string \<Rightarrow> string option" where
  "eat [] s = None"
| "eat (u # us) s = (if u \<noteq> [] \<and> HasPrefix s u then Some (drop (length u) s) else eat us s)"

lemma eat_shorter: "eat us s = Some t \<Longrightarrow> length t < length s"
proof (induction us)
  case (Cons u us)
  then show ?case
    by (auto simp: HasPrefix_iff split: if_splits)
qed simp

function trim_runes :: "string list \<Rightarrow> string \<Rightarrow> string" where
  "trim_runes us s = (case eat us s of None \<Rightarrow> s | Some t \<Rightarrow> trim_runes us t)"
  by pat_completeness auto
termination
  by (relation "measure (\<lambda>(us, s). length s)") (auto dest: eat_shorter)

declare trim_runes.simps [simp del]

definition TrimSpace :: "string \<Rightarrow> string" where
  "TrimSpace s = rev (trim_runes (map rev space_runes) (rev (trim_runes space_runes s)))"

text \<open>\<open>strings.Fields\<close>: the maximal runs of bytes between white space.\<close>

function fields_from :: "string \<Rightarrow> string \<Rightarrow> string list" where
  "fields_from w s =
     (case eat space_runes s of
        Some t \<Rightarrow> (if w = [] then fields_from [] t else rev w # fields_from [] t)
      | None \<Rightarrow> (case s of [] \<Rightarrow> (if w = [] then [] else [rev w])
                 | c # t \<Rightarrow> fields_from (c # w) t))"
  by pat_completeness auto
termination
  by (relation "measure (\<lambda>(w, s). length s)") (auto dest: eat_shorter)

declare fields_from.simps [simp del]

definition Fields :: "string \<Rightarrow> string list" where
  "Fields s = fields_from [] s"

lemma trim_runes_suffix: "\<exists>t. s = t @ trim_runes us s"
proof (induction us s rule: trim_runes.induct)
  case (1 us s)
  show ?case
  proof (cases "eat us s")
    case None
    then show ?thesis by (simp add: trim_runes.simps[of us s])
  next
    case (Some r)
    then obtain t where t: "r = t @ trim_runes us r" using 1 by blast
    have "\<exists>p. s = p @ r" using Some
    proof (induction us)
      case (Cons u us)
      then show ?case by (auto simp: HasPrefix_iff split: if_splits)
    qed simp
    then obtain p where "s = p @ r" by blast
    with t Some show ?thesis
      by (metis append_assoc option.simps(5) trim_runes.simps)
  qed
qed

lemma TrimSpace_infix: "\<exists>a b. s = a @ TrimSpace s @ b"
proof -
  define m where "m = trim_runes space_runes s"
  obtain a where a: "s = a @ m" using trim_runes_suffix[of s space_runes] m_def by auto
  obtain b where "rev m = b @ trim_runes (map rev space_runes) (rev m)"
    using trim_runes_suffix by blast
  then have "m = TrimSpace s @ rev b"
    unfolding TrimSpace_def m_def by (metis rev_append rev_rev_ident)
  with a show ?thesis by blast
qed

lemma TrimSpace_subset: "set (TrimSpace s) \<subseteq> set s"
  using TrimSpace_infix[of s] by (metis le_sup_iff set_append subset_refl sup.cobounded2)

subsection \<open>Numbers\<close>

text \<open>\<open>strconv.Itoa\<close> and \<open>%d\<close> on a natural number.\<close>

fun Itoa :: "nat \<Rightarrow> string" where
  "Itoa n = (if n < 10 then [digit_char n] else Itoa (n div 10) @ [digit_char (n mod 10)])"

declare Itoa.simps [simp del]

definition digits_val :: "nat \<Rightarrow> string \<Rightarrow> nat" where
  "digits_val acc s = foldl (\<lambda>a c. 10 * a + digit_val c) acc s"

text \<open>
  \<open>strconv.ParseUint(s, 10, bits)\<close>: no sign, no underscores, at least one digit; a value
  above \<open>2^bits - 1\<close> is a range error.
\<close>

definition ParseUint :: "nat \<Rightarrow> string \<Rightarrow> nat option" where
  "ParseUint bits s =
     (if s = [] \<or> \<not> list_all is_digit s then None
      else if digits_val 0 s < 2 ^ bits then Some (digits_val 0 s) else None)"

text \<open>\<open>strconv.ParseInt(s, 10, 64)\<close>, which is also \<open>strconv.Atoi\<close>: an optional sign.\<close>

definition ParseInt64 :: "string \<Rightarrow> int option" where
  "ParseInt64 s =
     (case s of
        [] \<Rightarrow> None
      | c # cs \<Rightarrow>
          (let neg = (c = CHR ''-''); ds = (if neg \<or> c = CHR ''+'' then cs else s) in
           if ds = [] \<or> \<not> list_all is_digit ds then None
           else if neg then (if digits_val 0 ds \<le> 2 ^ 63 then Some (- int (digits_val 0 ds)) else None)
           else if digits_val 0 ds < 2 ^ 63 then Some (int (digits_val 0 ds)) else None))"

lemma digits_val_append: "digits_val a (s @ t) = digits_val (digits_val a s) t"
  by (simp add: digits_val_def)

lemma Itoa_digits: "list_all is_digit (Itoa n)"
proof (induction n rule: Itoa.induct)
  case (1 n)
  then show ?case by (subst Itoa.simps) auto
qed

lemma Itoa_nonempty [simp]: "Itoa n \<noteq> []"
  by (subst Itoa.simps) simp

lemma digits_val_Itoa [simp]: "digits_val 0 (Itoa n) = n"
proof (induction n rule: Itoa.induct)
  case (1 n)
  show ?case
  proof (cases "n < 10")
    case True
    then show ?thesis by (subst Itoa.simps) (simp add: digits_val_def)
  next
    case False
    then have "digits_val 0 (Itoa n) = 10 * digits_val 0 (Itoa (n div 10)) + n mod 10"
      by (subst Itoa.simps) (simp add: digits_val_append, simp add: digits_val_def)
    with 1 False show ?thesis by simp
  qed
qed

lemma ParseUint_Itoa: "n < 2 ^ bits \<Longrightarrow> ParseUint bits (Itoa n) = Some n"
  by (simp add: ParseUint_def Itoa_digits)

lemma ParseUint_bound: "ParseUint bits s = Some n \<Longrightarrow> n < 2 ^ bits"
  by (auto simp: ParseUint_def split: if_splits)

lemma Itoa_inj: "Itoa m = Itoa n \<longleftrightarrow> m = n"
  by (metis digits_val_Itoa)

lemma Itoa_no_char: "\<not> is_digit c \<Longrightarrow> c \<notin> set (Itoa n)"
  using Itoa_digits[of n] by (auto simp: list_all_iff)

end
