(* ===== verification/GoNetip.thy ===== *)
theory GoNetip
  imports GoStrings
begin

text \<open>
  Go's \<open>net/netip\<close>: addresses, prefixes, their parsers and printers, and the three
  operations the program decides with: \<open>Contains\<close>, \<open>Overlaps\<close> and \<open>Next\<close>.  The last
  lemmas say what \<open>Masked\<close>, \<open>Contains\<close> and \<open>Overlaps\<close> mean in terms of sets of addresses,
  and that parsing a printed IPv4 address returns it.
\<close>

unbundle bit_operations_syntax

datatype ip_addr = IPv4 "32 word" | IPv6 "128 word" string | NoAddr

record ip_prefix =
  pfx_addr :: ip_addr
  pfx_bits :: nat

fun Is4 :: "ip_addr \<Rightarrow> bool" where
  "Is4 (IPv4 _) = True"
| "Is4 _ = False"

fun Is6 :: "ip_addr \<Rightarrow> bool" where
  "Is6 (IPv6 _ _) = True"
| "Is6 _ = False"

fun BitLen :: "ip_addr \<Rightarrow> nat" where
  "BitLen (IPv4 _) = 32"
| "BitLen (IPv6 _ _) = 128"
| "BitLen NoAddr = 0"

fun has_zone :: "ip_addr \<Rightarrow> bool" where
  "has_zone (IPv6 _ z) = (z \<noteq> [])"
| "has_zone _ = False"

subsection \<open>Parsing\<close>

text \<open>
  \<open>parseIPv4Fields\<close>: the value read so far, its number of digits, the finished octets and
  the rest of the text.
\<close>

fun v4_fields :: "nat \<Rightarrow> nat \<Rightarrow> nat list \<Rightarrow> string \<Rightarrow> nat list option" where
  "v4_fields val digLen acc [] = (if length acc < 3 then None else Some (acc @ [val]))"
| "v4_fields val digLen acc (c # cs) =
     (if is_digit c then
        (if digLen = 1 \<and> val = 0 then None
         else let v = val * 10 + digit_val c in
              if 255 < v then None else v4_fields v (Suc digLen) acc cs)
      else if c = CHR ''.'' then
        (if digLen = 0 \<or> cs = [] then None
         else if length acc = 3 then None
         else v4_fields 0 0 (acc @ [val]) cs)
      else None)"

definition v4_of_octets :: "nat list \<Rightarrow> 32 word" where
  "v4_of_octets os = foldl (\<lambda>a n. push_bit 8 a + word_of_nat n) 0 os"

definition parse_v4 :: "string \<Rightarrow> ip_addr option" where
  "parse_v4 s = map_option (\<lambda>os. IPv4 (v4_of_octets os)) (v4_fields 0 0 [] s)"

definition hex_val :: "char \<Rightarrow> nat option" where
  "hex_val c =
     (if is_digit c then Some (code c - 48)
      else if 97 \<le> code c \<and> code c \<le> 102 then Some (code c - 87)
      else if 65 \<le> code c \<and> code c \<le> 70 then Some (code c - 55)
      else None)"

text \<open>One group: its value, its number of digits and the rest; \<open>None\<close> after a fifth digit.\<close>

fun v6_group :: "nat \<Rightarrow> 32 word \<Rightarrow> string \<Rightarrow> (32 word \<times> nat \<times> string) option" where
  "v6_group off acc [] = Some (acc, off, [])"
| "v6_group off acc (c # cs) =
     (case hex_val c of
        None \<Rightarrow> Some (acc, off, c # cs)
      | Some d \<Rightarrow> (if 3 < off then None
                  else if 65535 < push_bit 4 acc + word_of_nat d then None
                  else v6_group (Suc off) (push_bit 4 acc + word_of_nat d) cs))"

text \<open>
  The loop of \<open>parseIPv6\<close>, in bytes of the address: \<open>bs\<close> holds the bytes written so far
  (\<open>i = length bs\<close>), \<open>ell\<close> the position of the ellipsis.  The fuel counts the groups; nine
  passes write more than sixteen bytes, so nine are enough.
\<close>

fun v6_loop :: "nat \<Rightarrow> nat option \<Rightarrow> nat list \<Rightarrow> string \<Rightarrow> (nat option \<times> nat list) option" where
  "v6_loop 0 ell bs s = None"
| "v6_loop (Suc fuel) ell bs s =
     (if 16 \<le> length bs then (if s = [] then Some (ell, bs) else None)
      else case v6_group 0 0 s of
        None \<Rightarrow> None
      | Some (acc, off, rest) \<Rightarrow>
          if off = 0 then None
          else if HasPrefix rest ''.'' then
            (if ell = None \<and> length bs \<noteq> 12 then None
             else if 16 < length bs + 4 then None
             else case v4_fields 0 0 [] s of
                    None \<Rightarrow> None
                  | Some os \<Rightarrow> Some (ell, bs @ os))
          else
            (let bs' = bs @ [unat (drop_bit 8 acc), unat (take_bit 8 acc)] in
             case rest of
               [] \<Rightarrow> Some (ell, bs')
             | c # t \<Rightarrow>
                 if c \<noteq> CHR '':'' then None
                 else (case t of
                         [] \<Rightarrow> None
                       | d # u \<Rightarrow>
                           if d = CHR '':'' then
                             (if ell \<noteq> None then None
                              else if u = [] then Some (Some (length bs'), bs')
                              else v6_loop fuel (Some (length bs')) bs' u)
                           else v6_loop fuel ell bs' t)))"

definition v6_of_bytes :: "nat list \<Rightarrow> 128 word" where
  "v6_of_bytes bs = foldl (\<lambda>a n. push_bit 8 a + word_of_nat n) 0 bs"

definition v6_finish :: "string \<Rightarrow> nat option \<times> nat list \<Rightarrow> ip_addr option" where
  "v6_finish zone r =
     (case r of (ell, bs) \<Rightarrow>
        if length bs < 16 then
          (case ell of
             None \<Rightarrow> None
           | Some e \<Rightarrow>
               Some (IPv6 (v6_of_bytes (take e bs @ replicate (16 - length bs) 0 @ drop e bs)) zone))
        else if ell \<noteq> None then None
        else Some (IPv6 (v6_of_bytes bs) zone))"

definition parse_v6 :: "string \<Rightarrow> ip_addr option" where
  "parse_v6 input =
     (let (s, zone, bad) = (case CutByte CHR ''%'' input of
                              None \<Rightarrow> (input, [], False)
                            | Some (a, z) \<Rightarrow> (a, z, z = [])) in
      if bad then None
      else if HasPrefix s ''::'' then
        (if drop 2 s = [] then Some (IPv6 0 zone)
         else Option.bind (v6_loop 9 (Some 0) [] (drop 2 s)) (v6_finish zone))
      else Option.bind (v6_loop 9 None [] s) (v6_finish zone))"

definition ParseAddr :: "string \<Rightarrow> ip_addr option" where
  "ParseAddr s =
     (case find (\<lambda>c. c = CHR ''.'' \<or> c = CHR '':'' \<or> c = CHR ''%'') s of
        None \<Rightarrow> None
      | Some c \<Rightarrow> if c = CHR ''.'' then parse_v4 s
                  else if c = CHR '':'' then parse_v6 s
                  else None)"

definition ParsePrefix :: "string \<Rightarrow> ip_prefix option" where
  "ParsePrefix s =
     (case CutLastByte CHR ''/'' s of
        None \<Rightarrow> None
      | Some (a, b) \<Rightarrow>
          (case ParseAddr a of
             None \<Rightarrow> None
           | Some ip \<Rightarrow>
               if has_zone ip then None
               else if 1 < length b \<and> (b ! 0 = CHR ''0'' \<or> \<not> is_digit (b ! 0)) then None
               else (case ParseInt64 b of
                       None \<Rightarrow> None
                     | Some n \<Rightarrow>
                         if n < 0 \<or> (if Is6 ip then 128 else 32) < n then None
                         else Some \<lparr>pfx_addr = ip, pfx_bits = nat n\<rparr>)))"

text \<open>\<open>net.ParseIP\<close>: an address without a zone.\<close>

definition ParseIP :: "string \<Rightarrow> bool" where
  "ParseIP s = (case ParseAddr s of None \<Rightarrow> False | Some (IPv6 _ z) \<Rightarrow> z = [] | Some _ \<Rightarrow> True)"

subsection \<open>Printing\<close>

definition v4_octet :: "32 word \<Rightarrow> nat \<Rightarrow> nat" where
  "v4_octet w i = unat (take_bit 8 (drop_bit (8 * (3 - i)) w))"

definition string_v4 :: "32 word \<Rightarrow> string" where
  "string_v4 w = Join ''.'' (map (\<lambda>i. Itoa (v4_octet w i)) [0..<4])"

definition hex_char :: "nat \<Rightarrow> char" where
  "hex_char n = char_of (if n < 10 then 48 + n else 87 + n)"

fun hex_nat :: "nat \<Rightarrow> string" where
  "hex_nat n = (if n < 16 then [hex_char n] else hex_nat (n div 16) @ [hex_char (n mod 16)])"

declare hex_nat.simps [simp del]

definition v6_field :: "128 word \<Rightarrow> nat \<Rightarrow> nat" where
  "v6_field w i = unat (take_bit 16 (drop_bit (16 * (7 - i)) w))"

text \<open>The longest run of two or more zero fields, the first one where several are longest.\<close>

definition zero_run :: "128 word \<Rightarrow> nat \<Rightarrow> nat" where
  "zero_run w i = length (takeWhile (\<lambda>j. v6_field w j = 0) [i..<8])"

definition longest_zeros :: "128 word \<Rightarrow> (nat \<times> nat) option" where
  "longest_zeros w =
     fold (\<lambda>i best. let n = zero_run w i in
             if n < 2 then best
             else case best of None \<Rightarrow> Some (i, n)
                             | Some (_, m) \<Rightarrow> if m < n then Some (i, n) else best)
       [0..<8] None"

definition string_v6 :: "128 word \<Rightarrow> string" where
  "string_v6 w =
     (let fs = (\<lambda>is. Join '':'' (map (\<lambda>i. hex_nat (v6_field w i)) is)) in
      case longest_zeros w of
        None \<Rightarrow> fs [0..<8]
      | Some (i, n) \<Rightarrow> fs [0..<i] @ ''::'' @ fs [i + n..<8])"

definition zone_suffix :: "string \<Rightarrow> string" where
  "zone_suffix z = (if z = [] then [] else CHR ''%'' # z)"

fun AddrString :: "ip_addr \<Rightarrow> string" where
  "AddrString (IPv4 w) = string_v4 w"
| "AddrString (IPv6 w z) =
     (if drop_bit 32 w = 65535 then ''::ffff:'' @ string_v4 (ucast w)
      else string_v6 w) @ zone_suffix z"
| "AddrString NoAddr = ''invalid IP''"

definition PrefixString :: "ip_prefix \<Rightarrow> string" where
  "PrefixString p = AddrString (pfx_addr p) @ ''/'' @ Itoa (pfx_bits p)"

subsection \<open>Operations\<close>

definition mask_word :: "nat \<Rightarrow> nat \<Rightarrow> 'a::len word \<Rightarrow> 'a word" where
  "mask_word len bits w = push_bit (len - bits) (drop_bit (len - bits) w)"

fun mask_addr :: "nat \<Rightarrow> ip_addr \<Rightarrow> ip_addr" where
  "mask_addr b (IPv4 w) = IPv4 (mask_word 32 b w)"
| "mask_addr b (IPv6 w z) = IPv6 (mask_word 128 b w) []"
| "mask_addr b NoAddr = NoAddr"

definition Masked :: "ip_prefix \<Rightarrow> ip_prefix" where
  "Masked p = p\<lparr>pfx_addr := mask_addr (pfx_bits p) (pfx_addr p)\<rparr>"

definition PrefixContains :: "ip_prefix \<Rightarrow> ip_addr \<Rightarrow> bool" where
  "PrefixContains p ip =
     (case (pfx_addr p, ip) of
        (IPv4 a, IPv4 b) \<Rightarrow> drop_bit (32 - pfx_bits p) (b XOR a) = 0
      | (IPv6 a _, IPv6 b z) \<Rightarrow> z = [] \<and> mask_word 128 (pfx_bits p) (b XOR a) = 0
      | _ \<Rightarrow> False)"

definition PrefixOverlaps :: "ip_prefix \<Rightarrow> ip_prefix \<Rightarrow> bool" where
  "PrefixOverlaps p q =
     (if p = q then True
      else if Is4 (pfx_addr p) \<noteq> Is4 (pfx_addr q) then False
      else let m = min (pfx_bits p) (pfx_bits q) in
           m = 0 \<or> mask_addr m (pfx_addr p) = mask_addr m (pfx_addr q))"

text \<open>\<open>Addr.Next\<close>: the successor, the zero \<open>Addr\<close> after the last address.\<close>

fun NextAddr :: "ip_addr \<Rightarrow> ip_addr" where
  "NextAddr (IPv4 w) = (if w + 1 = 0 then NoAddr else IPv4 (w + 1))"
| "NextAddr (IPv6 w z) = (if w + 1 = 0 then NoAddr else IPv6 (w + 1) z)"
| "NextAddr NoAddr = NoAddr"

subsection \<open>What the operations mean\<close>

definition wf_prefix :: "ip_prefix \<Rightarrow> bool" where
  "wf_prefix p \<longleftrightarrow> pfx_addr p \<noteq> NoAddr \<and> \<not> has_zone (pfx_addr p) \<and> pfx_bits p \<le> BitLen (pfx_addr p)"

lemma mask_word_eq_iff:
  "mask_word n b v = mask_word n b w \<longleftrightarrow> drop_bit (n - b) v = drop_bit (n - b) (w :: 'a::len word)"
  unfolding mask_word_def
proof
  assume eq: "push_bit (n - b) (drop_bit (n - b) v) = push_bit (n - b) (drop_bit (n - b) w)"
  show "drop_bit (n - b) v = drop_bit (n - b) w"
  proof (rule bit_eqI)
    fix i
    assume "possible_bit TYPE('a word) i"
    have "bit (push_bit (n - b) (drop_bit (n - b) v)) (n - b + i)
        = bit (push_bit (n - b) (drop_bit (n - b) w)) (n - b + i)"
      using eq by simp
    then show "bit (drop_bit (n - b) v) i = bit (drop_bit (n - b) w) i"
      by (cases "n - b + i < LENGTH('a)") (auto simp: bit_simps dest: bit_imp_le_length)
  qed
qed simp

lemma mask_word_zero_iff: "mask_word n b w = 0 \<longleftrightarrow> drop_bit (n - b) (w :: 'a::len word) = 0"
  using mask_word_eq_iff[of n b w 0] by (simp add: mask_word_def)

lemma xor_zero_iff: "v XOR w = 0 \<longleftrightarrow> v = (w :: 'a::len word)"
  by (auto simp: bit_eq_iff bit_simps)

lemma drop_bit_xor_zero_iff:
  "drop_bit n (v XOR w) = 0 \<longleftrightarrow> drop_bit n v = drop_bit n (w :: 'a::len word)"
  by (simp add: drop_bit_xor xor_zero_iff)

lemma drop_all_32 [simp]: "drop_bit 32 (w :: 32 word) = 0"
  by (rule bit_eqI) (auto simp: bit_simps dest: bit_imp_le_length)

lemma drop_all_128 [simp]: "drop_bit 128 (w :: 128 word) = 0"
  by (rule bit_eqI) (auto simp: bit_simps dest: bit_imp_le_length)

lemma mask_word_idem: "mask_word n b (mask_word n b w) = mask_word n b (w :: 'a::len word)"
  unfolding mask_word_def
  by (rule bit_eqI) (auto simp: bit_simps)

lemma drop_bit_mask_word: "drop_bit (n - b) (mask_word n b w) = drop_bit (n - b) (w :: 'a::len word)"
  using mask_word_eq_iff mask_word_idem by blast

lemma drop_bit_mono_eq:
  assumes "m \<le> n" "drop_bit m v = drop_bit m w"
  shows "drop_bit n v = drop_bit n (w :: 'a::len word)"
proof -
  have "drop_bit (n - m) (drop_bit m v) = drop_bit (n - m) (drop_bit m w)"
    using assms(2) by simp
  with assms(1) show ?thesis by simp
qed

lemma PrefixContains_v4:
  "PrefixContains p (IPv4 w) \<longleftrightarrow>
     (\<exists>a. pfx_addr p = IPv4 a \<and> drop_bit (32 - pfx_bits p) w = drop_bit (32 - pfx_bits p) a)"
  by (cases "pfx_addr p") (auto simp: PrefixContains_def drop_bit_xor xor_zero_iff)

lemma PrefixContains_v6:
  "PrefixContains p (IPv6 w z) \<longleftrightarrow>
     (\<exists>a y. pfx_addr p = IPv6 a y \<and> z = []
        \<and> drop_bit (128 - pfx_bits p) w = drop_bit (128 - pfx_bits p) a)"
  by (cases "pfx_addr p") (auto simp: PrefixContains_def drop_bit_xor xor_zero_iff mask_word_zero_iff)

lemma PrefixContains_None [simp]: "\<not> PrefixContains p NoAddr"
  by (simp add: PrefixContains_def split: ip_addr.splits)

lemma Masked_bits [simp]: "pfx_bits (Masked p) = pfx_bits p"
  by (simp add: Masked_def)

lemma Masked_contains [simp]: "PrefixContains (Masked p) ip = PrefixContains p ip"
proof (cases ip)
  case (IPv4 w)
  then show ?thesis
    by (cases "pfx_addr p") (auto simp: PrefixContains_v4 Masked_def drop_bit_mask_word)
next
  case (IPv6 w z)
  then show ?thesis
    by (cases "pfx_addr p") (auto simp: PrefixContains_v6 Masked_def drop_bit_mask_word)
qed simp

lemma prefix_contains_own_address: "wf_prefix p \<Longrightarrow> PrefixContains p (pfx_addr p)"
  by (cases "pfx_addr p") (auto simp: wf_prefix_def PrefixContains_v4 PrefixContains_v6)

lemma wf_Masked [simp]: "wf_prefix (Masked p) \<longleftrightarrow> pfx_addr p \<noteq> NoAddr \<and> pfx_bits p \<le> BitLen (pfx_addr p)"
  by (cases "pfx_addr p") (auto simp: wf_prefix_def Masked_def)

text \<open>\<open>Overlaps\<close> decides whether two prefixes share an address.\<close>

lemma overlaps_by_bits:
  fixes a b :: "'a::len word"
  assumes "m \<le> n" "k \<le> n"
  shows "(\<exists>w. drop_bit (n - m) w = drop_bit (n - m) a \<and> drop_bit (n - k) w = drop_bit (n - k) b)
     \<longleftrightarrow> drop_bit (n - min m k) a = drop_bit (n - min m k) b"
proof
  assume "\<exists>w. drop_bit (n - m) w = drop_bit (n - m) a \<and> drop_bit (n - k) w = drop_bit (n - k) b"
  then obtain w where w: "drop_bit (n - m) w = drop_bit (n - m) a"
    "drop_bit (n - k) w = drop_bit (n - k) b" by blast
  have "drop_bit (n - min m k) w = drop_bit (n - min m k) a"
    using w(1) by (rule drop_bit_mono_eq[rotated]) simp
  moreover have "drop_bit (n - min m k) w = drop_bit (n - min m k) b"
    using w(2) by (rule drop_bit_mono_eq[rotated]) simp
  ultimately show "drop_bit (n - min m k) a = drop_bit (n - min m k) b" by simp
next
  assume "drop_bit (n - min m k) a = drop_bit (n - min m k) b"
  then show "\<exists>w. drop_bit (n - m) w = drop_bit (n - m) a \<and> drop_bit (n - k) w = drop_bit (n - k) b"
    by (cases "m \<le> k") (auto simp: min_def)
qed

lemma PrefixOverlaps_bits_v4:
  assumes "pfx_addr p = IPv4 a" "pfx_addr q = IPv4 b" "pfx_bits p \<le> 32" "pfx_bits q \<le> 32"
  shows "PrefixOverlaps p q \<longleftrightarrow>
     drop_bit (32 - min (pfx_bits p) (pfx_bits q)) a = drop_bit (32 - min (pfx_bits p) (pfx_bits q)) b"
  using assms by (auto simp: PrefixOverlaps_def mask_word_eq_iff Let_def)

lemma PrefixOverlaps_bits_v6:
  assumes "pfx_addr p = IPv6 a []" "pfx_addr q = IPv6 b []" "pfx_bits p \<le> 128" "pfx_bits q \<le> 128"
  shows "PrefixOverlaps p q \<longleftrightarrow>
     drop_bit (128 - min (pfx_bits p) (pfx_bits q)) a = drop_bit (128 - min (pfx_bits p) (pfx_bits q)) b"
  using assms by (auto simp: PrefixOverlaps_def mask_word_eq_iff Let_def)

lemma PrefixOverlaps_iff:
  assumes p: "wf_prefix p" and q: "wf_prefix q"
  shows "PrefixOverlaps p q \<longleftrightarrow> (\<exists>ip. PrefixContains p ip \<and> PrefixContains q ip)"
proof (cases "pfx_addr p")
  case (IPv4 a)
  show ?thesis
  proof (cases "pfx_addr q")
    case (IPv4 b)
    have bits: "pfx_bits p \<le> 32" "pfx_bits q \<le> 32"
      using p q \<open>pfx_addr p = IPv4 a\<close> IPv4 by (auto simp: wf_prefix_def)
    have "(\<exists>ip. PrefixContains p ip \<and> PrefixContains q ip) \<longleftrightarrow>
        (\<exists>w. PrefixContains p (IPv4 w) \<and> PrefixContains q (IPv4 w))"
      using \<open>pfx_addr p = IPv4 a\<close>
      by (metis Is4.cases PrefixContains_None PrefixContains_v6 ip_addr.distinct(1))
    also have "\<dots> \<longleftrightarrow> PrefixOverlaps p q"
      using overlaps_by_bits[OF bits, of a b] \<open>pfx_addr p = IPv4 a\<close> IPv4 bits
      by (simp add: PrefixOverlaps_bits_v4 PrefixContains_v4)
    finally show ?thesis by simp
  next
    case (IPv6 b z)
    have "\<not> (PrefixContains p ip \<and> PrefixContains q ip)" for ip
      using \<open>pfx_addr p = IPv4 a\<close> IPv6 by (cases ip) (auto simp: PrefixContains_v4 PrefixContains_v6)
    then show ?thesis using \<open>pfx_addr p = IPv4 a\<close> IPv6 by (auto simp: PrefixOverlaps_def)
  qed (use q in \<open>simp add: wf_prefix_def\<close>)
next
  case (IPv6 a z)
  then have z: "z = []" using p by (simp add: wf_prefix_def)
  show ?thesis
  proof (cases "pfx_addr q")
    case (IPv4 b)
    have "\<not> (PrefixContains p ip \<and> PrefixContains q ip)" for ip
      using \<open>pfx_addr p = IPv6 a z\<close> IPv4 by (cases ip) (auto simp: PrefixContains_v4 PrefixContains_v6)
    then show ?thesis using \<open>pfx_addr p = IPv6 a z\<close> IPv4 by (auto simp: PrefixOverlaps_def)
  next
    case (IPv6 b y)
    have bits: "pfx_bits p \<le> 128" "pfx_bits q \<le> 128" "y = []"
      using p q \<open>pfx_addr p = IPv6 a z\<close> IPv6 by (auto simp: wf_prefix_def)
    have "(\<exists>ip. PrefixContains p ip \<and> PrefixContains q ip) \<longleftrightarrow>
        (\<exists>w. PrefixContains p (IPv6 w []) \<and> PrefixContains q (IPv6 w []))"
      using \<open>pfx_addr p = IPv6 a z\<close>
      by (metis Is4.cases PrefixContains_None PrefixContains_v4 PrefixContains_v6 ip_addr.distinct(1))
    also have "\<dots> \<longleftrightarrow> PrefixOverlaps p q"
      using overlaps_by_bits[OF bits(1,2), of a b] \<open>pfx_addr p = IPv6 a z\<close> IPv6 bits z
      by (simp add: PrefixOverlaps_bits_v6 PrefixContains_v6)
    finally show ?thesis by simp
  qed (use q in \<open>simp add: wf_prefix_def\<close>)
qed (use p in \<open>simp add: wf_prefix_def\<close>)

subsection \<open>Printing and parsing IPv4 addresses\<close>

lemma dot_not_digit [simp]: "\<not> is_digit CHR ''.''" "\<not> is_digit CHR ''/''" "\<not> is_digit CHR '':''"
    "\<not> is_digit CHR ''%''"
  by (simp_all add: is_digit_def code_def)

lemma Itoa_1: "n < 10 \<Longrightarrow> Itoa n = [digit_char n]"
  by (subst Itoa.simps) simp

lemma Itoa_2: "10 \<le> n \<Longrightarrow> n < 100 \<Longrightarrow> Itoa n = [digit_char (n div 10), digit_char (n mod 10)]"
  by (subst Itoa.simps) (simp add: Itoa_1)

lemma Itoa_3:
  "100 \<le> n \<Longrightarrow> n < 1000 \<Longrightarrow>
     Itoa n = [digit_char (n div 10 div 10), digit_char (n div 10 mod 10), digit_char (n mod 10)]"
  by (subst Itoa.simps) (simp add: Itoa_2)

lemma octet_cases:
  assumes "n < (256::nat)"
  obtains "n < 10" "Itoa n = [digit_char n]"
  | "10 \<le> n" "n < 100" "Itoa n = [digit_char (n div 10), digit_char (n mod 10)]"
  | "100 \<le> n" "Itoa n = [digit_char (n div 10 div 10), digit_char (n div 10 mod 10), digit_char (n mod 10)]"
  using assms Itoa_1[of n] Itoa_2[of n] Itoa_3[of n] by (cases "n < 10"; cases "n < 100") auto

lemma v4_fields_octet:
  assumes "n < 256" "length acc < 3" "rest \<noteq> []"
  shows "v4_fields 0 0 acc (Itoa n @ CHR ''.'' # rest) = v4_fields 0 0 (acc @ [n]) rest"
  using assms(1)
proof (cases rule: octet_cases)
  case 2
  have "n div 10 * 10 + n mod 10 = n" "0 < n div 10" "n div 10 < 10" using 2 by auto
  with 2 assms show ?thesis by (simp add: Let_def)
next
  case 3
  have "(n div 10 div 10 * 10 + n div 10 mod 10) * 10 + n mod 10 = n" "0 < n div 10 div 10"
    "n div 10 div 10 < 10" "\<not> 255 < n div 10" using 3 assms(1) by auto
  with 3 assms show ?thesis by (simp add: Let_def)
qed (use assms in \<open>simp_all add: Let_def\<close>)

lemma v4_fields_last:
  assumes "n < 256" "length acc = 3"
  shows "v4_fields 0 0 acc (Itoa n) = Some (acc @ [n])"
  using assms(1)
proof (cases rule: octet_cases)
  case 2
  have "n div 10 * 10 + n mod 10 = n" "0 < n div 10" "n div 10 < 10" using 2 by auto
  with 2 assms show ?thesis by (simp add: Let_def)
next
  case 3
  have "(n div 10 div 10 * 10 + n div 10 mod 10) * 10 + n mod 10 = n" "0 < n div 10 div 10"
    "n div 10 div 10 < 10" "\<not> 255 < n div 10" using 3 assms(1) by auto
  with 3 assms show ?thesis by (simp add: Let_def)
qed (use assms in \<open>simp_all add: Let_def\<close>)

lemma v4_octet_bound: "v4_octet w i < 256"
  using take_bit_nat_less_exp[of 8 "unat (drop_bit (8 * (3 - i)) w)"]
  by (simp add: v4_octet_def unsigned_take_bit_eq)

lemma string_v4_unfold:
  "string_v4 w = Itoa (v4_octet w 0) @ CHR ''.'' # Itoa (v4_octet w 1) @ CHR ''.'' #
     Itoa (v4_octet w 2) @ CHR ''.'' # Itoa (v4_octet w 3)"
  by (simp add: string_v4_def upt_rec numeral_2_eq_2 numeral_3_eq_3)

lemma v4_fields_string: "v4_fields 0 0 [] (string_v4 w) = Some (map (v4_octet w) [0, 1, 2, 3])"
  by (simp add: string_v4_unfold v4_fields_octet v4_fields_last v4_octet_bound)

lemma v4_of_octets_split: "v4_of_octets (map (v4_octet w) [0, 1, 2, 3]) = w"
proof -
  have join: "push_bit 8 (drop_bit (8 + k) w) + take_bit 8 (drop_bit k w) = drop_bit k w" for k
    using bits_ident[of 8 "drop_bit k w"] by (simp add: add.commute)
  have top: "take_bit 8 (drop_bit 24 w) = drop_bit 24 w"
    by (rule bit_eqI) (auto simp: bit_simps dest: bit_imp_le_length)
  have "v4_of_octets (map (v4_octet w) [0, 1, 2, 3]) =
      push_bit 8 (push_bit 8 (push_bit 8 (drop_bit 24 w) + take_bit 8 (drop_bit 16 w))
        + take_bit 8 (drop_bit 8 w)) + take_bit 8 w"
    by (simp add: v4_of_octets_def v4_octet_def top)
  also have "\<dots> = w"
    using join[of 16] join[of 8] join[of 0] by simp
  finally show ?thesis .
qed

lemma string_v4_chars: "c \<in> set (string_v4 w) \<Longrightarrow> is_digit c \<or> c = CHR ''.''"
  using Itoa_digits by (auto simp: string_v4_unfold list_all_iff)

lemma find_in_prefix:
  "\<forall>c \<in> set a. \<not> P c \<Longrightarrow> P x \<Longrightarrow> find P (a @ x # b) = Some x"
  by (induction a) auto

lemma ParseAddr_string_v4 [simp]: "ParseAddr (string_v4 w) = Some (IPv4 w)"
proof -
  have "\<forall>c \<in> set (Itoa n). \<not> (c = CHR ''.'' \<or> c = CHR '':'' \<or> c = CHR ''%'')" for n
    by (metis Itoa_no_char dot_not_digit)
  then have "find (\<lambda>c. c = CHR ''.'' \<or> c = CHR '':'' \<or> c = CHR ''%'') (string_v4 w) = Some CHR ''.''"
    unfolding string_v4_unfold by (intro find_in_prefix) auto
  then show ?thesis
    using v4_fields_string[of w] v4_of_octets_split[of w]
    by (simp add: ParseAddr_def parse_v4_def)
qed

lemma string_v4_inj [simp]: "string_v4 v = string_v4 w \<longleftrightarrow> v = w"
  by (metis ParseAddr_string_v4 ip_addr.inject(1) option.inject)

lemma string_v4_no_slash: "CHR ''/'' \<notin> set (string_v4 w)"
  using string_v4_chars[of "CHR ''/''" w] by auto

lemma string_v4_nonempty [simp]: "string_v4 w \<noteq> []"
  by (simp add: string_v4_unfold)

subsection \<open>Parsed prefixes are well formed\<close>

lemma ParsePrefix_SomeD:
  assumes "ParsePrefix s = Some p"
  obtains a b where "s = a @ CHR ''/'' # b" "CHR ''/'' \<notin> set b"
    "ParseAddr a = Some (pfx_addr p)" "\<not> has_zone (pfx_addr p)"
    "pfx_bits p \<le> (if Is6 (pfx_addr p) then 128 else 32)"
  using assms
  by (auto simp: ParsePrefix_def CutLastByte_Some_iff split: option.splits prod.splits if_splits)

lemma ParseAddr_not_NoAddr: "ParseAddr s = Some ip \<Longrightarrow> ip \<noteq> NoAddr"
  by (auto simp: ParseAddr_def parse_v4_def parse_v6_def v6_finish_def Let_def Option.bind_eq_Some_conv
      split: option.splits if_splits prod.splits)

lemma wf_ParsePrefix:
  assumes "ParsePrefix s = Some p"
  shows "wf_prefix p"
  using assms
proof (rule ParsePrefix_SomeD)
  fix a b
  assume "ParseAddr a = Some (pfx_addr p)" "\<not> has_zone (pfx_addr p)"
    "pfx_bits p \<le> (if Is6 (pfx_addr p) then 128 else 32)"
  then show ?thesis
    using ParseAddr_not_NoAddr[of a "pfx_addr p"]
    by (cases "pfx_addr p") (auto simp: wf_prefix_def)
qed

lemma wf_ParsePrefix_Masked: "ParsePrefix s = Some p \<Longrightarrow> wf_prefix (Masked p)"
  using wf_ParsePrefix[of s p] unfolding wf_Masked by (auto simp: wf_prefix_def)

end
