(* ===== verification/GoNet.thy ===== *)
theory GoNet
  imports GoNetip
begin

text \<open>
  Two more pieces of the standard library: \<open>net.SplitHostPort\<close> / \<open>net.JoinHostPort\<close>, and
  the two base64 encodings keys are written in (\<open>StdEncoding\<close> with padding,
  \<open>RawURLEncoding\<close> without).
\<close>

subsection \<open>Host and port\<close>

datatype addr_error =
  MissingPort | TooManyColons | MissingBracket | UnexpectedOpen | UnexpectedClose

definition has_char :: "char \<Rightarrow> string \<Rightarrow> bool" where
  "has_char c s \<longleftrightarrow> c \<in> set s"

definition SplitHostPort :: "string \<Rightarrow> (addr_error, string \<times> string) result" where
  "SplitHostPort hostport =
     (case CutLastByte CHR '':'' hostport of
        None \<Rightarrow> Inl MissingPort
      | Some (front, port) \<Rightarrow>
          if HasPrefix hostport ''['' then
            (case CutByte CHR '']'' hostport of
               None \<Rightarrow> Inl MissingBracket
             | Some (inner, rest) \<Rightarrow>
                 if rest = [] then Inl MissingPort
                 else if length inner + 1 \<noteq> length front then
                   (if HasPrefix rest '':'' then Inl TooManyColons else Inl MissingPort)
                 else if has_char CHR ''['' (drop 1 hostport) then Inl UnexpectedOpen
                 else if has_char CHR '']'' rest then Inl UnexpectedClose
                 else Inr (drop 1 inner, port))
          else if has_char CHR '':'' front then Inl TooManyColons
          else if has_char CHR ''['' hostport then Inl UnexpectedOpen
          else if has_char CHR '']'' hostport then Inl UnexpectedClose
          else Inr (front, port))"

definition JoinHostPort :: "string \<Rightarrow> string \<Rightarrow> string" where
  "JoinHostPort host port =
     (if has_char CHR '':'' host \<or> has_char CHR ''%'' host
      then ''['' @ host @ '']:'' @ port
      else host @ '':'' @ port)"

lemma SplitHostPort_plain:
  assumes "CHR '':'' \<notin> set host" "CHR ''['' \<notin> set (host @ port)" "CHR '']'' \<notin> set (host @ port)"
    "CHR '':'' \<notin> set port"
  shows "SplitHostPort (host @ CHR '':'' # port) = Inr (host, port)"
proof -
  have "\<not> HasPrefix (host @ CHR '':'' # port) ''[''"
    using assms by (cases host) (auto simp: HasPrefix_def)
  with assms show ?thesis
    by (auto simp: SplitHostPort_def CutLastByte_append has_char_def)
qed

subsection \<open>Base64\<close>

definition std_val :: "char \<Rightarrow> nat option" where
  "std_val c =
     (let n = code c in
      if is_upper c then Some (n - 65)
      else if is_lower c then Some (n - 71)
      else if is_digit c then Some (n + 4)
      else if c = CHR ''+'' then Some 62
      else if c = CHR ''/'' then Some 63
      else None)"

definition url_val :: "char \<Rightarrow> nat option" where
  "url_val c =
     (let n = code c in
      if is_upper c then Some (n - 65)
      else if is_lower c then Some (n - 71)
      else if is_digit c then Some (n + 4)
      else if c = CHR ''-'' then Some 62
      else if c = CHR ''_'' then Some 63
      else None)"

definition b64_char :: "string \<Rightarrow> nat \<Rightarrow> char" where
  "b64_char last2 n =
     (if n < 26 then char_of (65 + n) else if n < 52 then char_of (71 + n)
      else if n < 62 then char_of (n - 4) else if n = 62 then last2 ! 0 else last2 ! 1)"

definition byte3 :: "nat \<Rightarrow> nat \<Rightarrow> nat \<Rightarrow> nat \<Rightarrow> string" where
  "byte3 a b c d =
     (let v = ((a * 64 + b) * 64 + c) * 64 + d in
      [char_of (v div 65536), char_of (v div 256 mod 256), char_of (v mod 256)])"

definition quantum :: "(char \<Rightarrow> nat option) \<Rightarrow> string \<Rightarrow> string option" where
  "quantum val q =
     (let vs = map val q in
      if None \<in> set vs then None
      else case map the vs of
             [a, b, c, d] \<Rightarrow> Some (byte3 a b c d)
           | [a, b, c] \<Rightarrow> Some (take 2 (byte3 a b c 0))
           | [a, b] \<Rightarrow> Some (take 1 (byte3 a b 0 0))
           | _ \<Rightarrow> None)"

text \<open>\<open>DecodeString\<close> after its line breaks have been dropped.\<close>

fun decode_padded :: "string \<Rightarrow> string option" where
  "decode_padded [] = Some []"
| "decode_padded (a # b # c # d # rest) =
     (if d = CHR ''='' then
        (if rest \<noteq> [] then None
         else if c = CHR ''='' then quantum std_val [a, b] else quantum std_val [a, b, c])
      else case quantum std_val [a, b, c, d] of
             None \<Rightarrow> None
           | Some bs \<Rightarrow> map_option (\<lambda>r. bs @ r) (decode_padded rest))"
| "decode_padded _ = None"

fun decode_raw :: "string \<Rightarrow> string option" where
  "decode_raw [] = Some []"
| "decode_raw (a # b # c # d # rest) =
     (case quantum url_val [a, b, c, d] of
        None \<Rightarrow> None
      | Some bs \<Rightarrow> map_option (\<lambda>r. bs @ r) (decode_raw rest))"
| "decode_raw q = quantum url_val q"

definition drop_breaks :: "string \<Rightarrow> string" where
  "drop_breaks s = filter (\<lambda>c. c \<noteq> NL \<and> c \<noteq> CR) s"

definition StdDecode :: "string \<Rightarrow> string option" where
  "StdDecode s = decode_padded (drop_breaks s)"

definition RawURLDecode :: "string \<Rightarrow> string option" where
  "RawURLDecode s = decode_raw (drop_breaks s)"

fun encode_quanta :: "string \<Rightarrow> bool \<Rightarrow> string \<Rightarrow> string" where
  "encode_quanta al pad [] = []"
| "encode_quanta al pad [a] =
     (let v = code a * 16 in
      [b64_char al (v div 64), b64_char al (v mod 64)] @ (if pad then ''=='' else []))"
| "encode_quanta al pad [a, b] =
     (let v = (code a * 256 + code b) * 4 in
      [b64_char al (v div 4096), b64_char al (v div 64 mod 64), b64_char al (v mod 64)]
        @ (if pad then ''='' else []))"
| "encode_quanta al pad (a # b # c # rest) =
     (let v = (code a * 256 + code b) * 256 + code c in
      [b64_char al (v div 262144), b64_char al (v div 4096 mod 64),
       b64_char al (v div 64 mod 64), b64_char al (v mod 64)] @ encode_quanta al pad rest)"

definition StdEncode :: "string \<Rightarrow> string" where
  "StdEncode = encode_quanta ''+/'' True"

definition RawURLEncode :: "string \<Rightarrow> string" where
  "RawURLEncode = encode_quanta ''-_'' False"

text \<open>Decoding an encoding returns the bytes.\<close>

lemma code_less: "code c < 256"
  by (simp add: code_def)

lemma char_of_code [simp]: "char_of (code c) = c"
  by (simp add: code_def)

lemma std_val_range: "\<forall>n < 64. std_val (b64_char ''+/'' n) = Some n \<and> b64_char ''+/'' n \<noteq> CHR ''=''
    \<and> b64_char ''+/'' n \<noteq> NL \<and> b64_char ''+/'' n \<noteq> CR"
  by code_simp

lemma url_val_range: "\<forall>n < 64. url_val (b64_char ''-_'' n) = Some n
    \<and> b64_char ''-_'' n \<noteq> NL \<and> b64_char ''-_'' n \<noteq> CR"
  by code_simp

lemma digits64: "((v div 262144 * 64 + v div 4096 mod 64) * 64 + v div 64 mod 64) * 64 + v mod 64 = (v::nat)"
proof -
  have "v div 262144 = v div 4096 div 64" "v div 4096 = v div 64 div 64"
    by (simp_all flip: div_mult2_eq)
  then have "v div 262144 * 64 + v div 4096 mod 64 = v div 4096" "v div 4096 * 64 + v div 64 mod 64 = v div 64"
    by (metis div_mult_mod_eq)+
  then show ?thesis by simp
qed

lemma byte3_digits:
  assumes "x < 256" "y < 256" "z < 256" "v = (x * 256 + y) * 256 + (z::nat)"
  shows "byte3 (v div 262144) (v div 4096 mod 64) (v div 64 mod 64) (v mod 64)
    = [char_of x, char_of y, char_of z]"
proof -
  have v: "v = z + (y + x * 256) * 256" using assms by simp
  then have "v div 256 = y + x * 256" using assms(3) by simp
  moreover have "v mod 256 = z" using assms(3) unfolding v by (simp only: mod_mult_self1 mod_less)
  moreover have "v div 65536 = v div 256 div 256" by (simp flip: div_mult2_eq)
  ultimately have "v div 65536 = x" "v div 256 mod 256 = y" "v mod 256 = z"
    using assms(2) by simp_all
  then show ?thesis by (simp only: byte3_def digits64 Let_def)
qed

lemma quantum_4:
  assumes "\<forall>n < 64. val (e n) = Some n" "p < 64" "q < 64" "r < 64" "s < 64"
  shows "quantum val [e p, e q, e r, e s] = Some (byte3 p q r s)"
  using assms by (simp add: quantum_def)

lemma quantum_3:
  assumes "\<forall>n < 64. val (e n) = Some n" "p < 64" "q < 64" "r < 64"
  shows "quantum val [e p, e q, e r] = Some (take 2 (byte3 p q r 0))"
  using assms by (simp add: quantum_def)

lemma quantum_2:
  assumes "\<forall>n < 64. val (e n) = Some n" "p < 64" "q < 64"
  shows "quantum val [e p, e q] = Some (take 1 (byte3 p q 0 0))"
  using assms by (simp add: quantum_def)

lemma byte3_two:
  assumes "x < 256" "y < 256" "v = (x * 256 + y) * (4::nat)"
  shows "take 2 (byte3 (v div 4096) (v div 64 mod 64) (v mod 64) 0) = [char_of x, char_of y]"
proof -
  have "v div 4096 = v div 64 div 64" by (simp flip: div_mult2_eq)
  then have "(v div 4096 * 64 + v div 64 mod 64) * 64 + v mod 64 = v"
    by (metis div_mult_mod_eq)
  moreover have w: "v * 64 = (y + x * 256) * 256" using assms(3) by simp
  then have "v * 64 div 256 = y + x * 256" by simp
  moreover have "v * 64 div 65536 = v * 64 div 256 div 256" by (simp flip: div_mult2_eq)
  ultimately show ?thesis using assms(2) by (simp add: byte3_def)
qed

lemma byte3_one:
  assumes "x < 256" "v = x * (16::nat)"
  shows "take 1 (byte3 (v div 64) (v mod 64) 0 0) = [char_of x]"
proof -
  have "v div 64 * 64 + v mod 64 = v" by simp
  moreover have "v * 64 * 64 = x * 65536" using assms(2) by simp
  then have "v * 64 * 64 div 65536 = x" by simp
  ultimately show ?thesis by (simp add: byte3_def)
qed

lemma b64_less: "(n::nat) mod 64 < 64"
  by simp

lemma decode_padded_encode: "decode_padded (encode_quanta ''+/'' True bs) = Some bs"
proof (induction bs rule: encode_quanta.induct[of "\<lambda>_ _ bs. decode_padded (encode_quanta ''+/'' True bs) = Some bs", case_names 1 2 3 4])
  case (2 al pad a)
  have v: "code a * 16 div 64 < 64" using code_less[of a] by simp
  show ?case
    using std_val_range v byte3_one[OF code_less refl, of a]
    by (simp add: Let_def quantum_2[where e = "b64_char ''+/''"])
next
  case (3 al pad a b)
  have v: "(code a * 256 + code b) * 4 div 4096 < 64" using code_less[of a] code_less[of b] by simp
  show ?case
    using std_val_range v byte3_two[OF code_less code_less refl, of a b]
    by (simp add: Let_def quantum_3[where e = "b64_char ''+/''"] del: mult_Suc)
next
  case (4 al pad a b c rest)
  have v: "((code a * 256 + code b) * 256 + code c) div 262144 < 64"
    using code_less[of a] code_less[of b] code_less[of c] by simp
  show ?case
    using std_val_range v byte3_digits[OF code_less code_less code_less refl, of a b c] 4
    by (simp add: Let_def quantum_4[where e = "b64_char ''+/''"])
qed simp

end
