(* ===== verification/GoCrypto.thy ===== *)
theory GoCrypto
  imports GoNet
begin

text \<open>
  \<open>crypto/sha256\<close>, \<open>crypto/hmac\<close> and \<open>crypto/ecdh\<close> X25519 as executable functions on byte
  strings, so that fingerprints, derived credentials and the hub key check are computed and
  not assumed.
\<close>

subsection \<open>Bytes and words\<close>

definition be_word32 :: "string \<Rightarrow> 32 word" where
  "be_word32 bs = foldl (\<lambda>a b. push_bit 8 a OR of_char b) 0 bs"

definition word32_be :: "32 word \<Rightarrow> string" where
  "word32_be w = map (\<lambda>i. char_of (unat (take_bit 8 (drop_bit (8 * (3 - i)) w)))) [0..<4]"

definition hex_byte :: "char \<Rightarrow> string" where
  "hex_byte c = [hex_char (code c div 16), hex_char (code c mod 16)]"

text \<open>\<open>hex.EncodeToString\<close> and \<open>%x\<close> on a byte slice.\<close>

definition HexEncode :: "string \<Rightarrow> string" where
  "HexEncode bs = concat (map hex_byte bs)"

lemma length_HexEncode [simp]: "length (HexEncode bs) = 2 * length bs"
  by (induction bs) (auto simp: HexEncode_def hex_byte_def)

lemma length_word32_be [simp]: "length (word32_be w) = 4"
  by (simp add: word32_be_def)

subsection \<open>SHA-256\<close>

text \<open>
  The constants are fractional parts of roots of primes: \<open>root_fraction k p\<close> is the first 32
  bits of the fraction of the \<open>k\<close>-th root of \<open>p\<close>, found bit by bit.
\<close>

definition first_primes :: "nat list" where
  "first_primes =
    [2, 3, 5, 7, 11, 13, 17, 19, 23, 29, 31, 37, 41, 43, 47, 53, 59, 61, 67, 71, 73, 79, 83, 89, 97,
     101, 103, 107, 109, 113, 127, 131, 137, 139, 149, 151, 157, 163, 167, 173, 179, 181, 191, 193,
     197, 199, 211, 223, 227, 229, 233, 239, 241, 251, 257, 263, 269, 271, 277, 281, 283, 293, 307,
     311]"

definition root_fraction :: "nat \<Rightarrow> nat \<Rightarrow> 32 word" where
  "root_fraction k p =
     of_nat (foldl (\<lambda>r b. if (r + 2 ^ b) ^ k \<le> p * 2 ^ (32 * k) then r + 2 ^ b else r) 0 (rev [0..<37]))"

definition sha_k :: "32 word list" where
  "sha_k = map (root_fraction 3) first_primes"

definition sha_init :: "32 word list" where
  "sha_init = map (root_fraction 2) (take 8 first_primes)"

definition rotr32 :: "nat \<Rightarrow> 32 word \<Rightarrow> 32 word" where
  "rotr32 n w = drop_bit n w OR push_bit (32 - n) w"

text \<open>The schedule is kept newest first: \<open>w ! 0\<close> is \<open>W[t-1]\<close>.\<close>

definition sha_extend :: "32 word list \<Rightarrow> 32 word list" where
  "sha_extend w =
     (let a = w ! 14; b = w ! 1;
          s0 = rotr32 7 a XOR rotr32 18 a XOR drop_bit 3 a;
          s1 = rotr32 17 b XOR rotr32 19 b XOR drop_bit 10 b
      in (w ! 15 + s0 + w ! 6 + s1) # w)"

fun sha_round :: "32 word list \<Rightarrow> 32 word \<times> 32 word \<Rightarrow> 32 word list" where
  "sha_round [a, b, c, d, e, f, g, h] (k, w) =
     (let s1 = rotr32 6 e XOR rotr32 11 e XOR rotr32 25 e;
          ch = (e AND f) XOR (NOT e AND g);
          t1 = h + s1 + ch + k + w;
          s0 = rotr32 2 a XOR rotr32 13 a XOR rotr32 22 a;
          maj = (a AND b) XOR (a AND c) XOR (b AND c)
      in [t1 + s0 + maj, a, b, c, d + t1, e, f, g])"
| "sha_round s _ = s"

fun chunks :: "nat \<Rightarrow> nat \<Rightarrow> 'a list \<Rightarrow> 'a list list" where
  "chunks 0 n xs = []"
| "chunks (Suc k) n xs = take n xs # chunks k n (drop n xs)"

definition sha_block :: "32 word list \<Rightarrow> string \<Rightarrow> 32 word list" where
  "sha_block st block =
     (let w = rev ((sha_extend ^^ 48) (rev (map be_word32 (chunks 16 4 block))))
      in map2 (+) st (foldl sha_round st (zip sha_k w)))"

definition sha_pad :: "string \<Rightarrow> string" where
  "sha_pad m =
     (let l = length m; z = (119 - l mod 64) mod 64 in
      m @ [CHR 0x80] @ replicate z (CHR 0x00)
        @ map (\<lambda>i. char_of (8 * l div 256 ^ (7 - i) mod 256)) [0..<8])"

definition Sha256 :: "string \<Rightarrow> string" where
  "Sha256 m =
     (let p = sha_pad m in
      concat (map word32_be (foldl sha_block sha_init (chunks (length p div 64) 64 p))))"

lemma length_sha_round [simp]: "length (sha_round st kw) = length st"
  by (cases "(st, kw)" rule: sha_round.cases) (auto simp: Let_def)

lemma length_sha_fold [simp]: "length (foldl sha_round st ws) = length st"
  by (induction ws arbitrary: st) auto

lemma length_sha_block [simp]: "length (sha_block st b) = length st"
  by (simp add: sha_block_def Let_def)

lemma length_sha_blocks [simp]: "length (foldl sha_block st bs) = length st"
  by (induction bs arbitrary: st) auto

lemma length_Sha256 [simp]: "length (Sha256 m) = 32"
proof -
  have "length (concat (map word32_be ws)) = 4 * length ws" for ws
    by (induction ws) auto
  then show ?thesis by (simp add: Sha256_def Let_def sha_init_def first_primes_def)
qed

subsection \<open>HMAC\<close>

definition xor_byte :: "8 word \<Rightarrow> char \<Rightarrow> char" where
  "xor_byte k c = char_of (unat (k XOR of_char c))"

definition HmacSha256 :: "string \<Rightarrow> string \<Rightarrow> string" where
  "HmacSha256 key m =
     (let k0 = (if 64 < length key then Sha256 key else key);
          k = k0 @ replicate (64 - length k0) (CHR 0x00)
      in Sha256 (map (xor_byte 0x5c) k @ Sha256 (map (xor_byte 0x36) k @ m)))"

lemma length_HmacSha256 [simp]: "length (HmacSha256 k m) = 32"
  by (simp add: HmacSha256_def Let_def)

subsection \<open>X25519\<close>

definition prime25519 :: int where
  "prime25519 = 2 ^ 255 - 19"

fun powmod :: "nat \<Rightarrow> int \<Rightarrow> int \<Rightarrow> int" where
  "powmod 0 b e = 1"
| "powmod (Suc fuel) b e =
     (if e \<le> 0 then 1
      else let h = powmod fuel (b * b mod prime25519) (e div 2) in
           if e mod 2 = 1 then b * h mod prime25519 else h)"

text \<open>The Montgomery ladder, from the top bit down; the bounds are the bits of a scalar.\<close>

definition ladder_step :: "int \<Rightarrow> int \<times> int \<times> int \<times> int \<Rightarrow> int \<times> int \<times> int \<times> int" where
  "ladder_step x1 st =
     (case st of (x2, z2, x3, z3) \<Rightarrow>
        let p = prime25519;
            a = (x2 + z2) mod p; aa = a * a mod p;
            b = (x2 - z2) mod p; bb = b * b mod p;
            e = (aa - bb) mod p;
            c = (x3 + z3) mod p; d = (x3 - z3) mod p;
            da = d * a mod p; cb = c * b mod p
        in (aa * bb mod p, e * (aa + 121665 * e) mod p,
            (da + cb) * (da + cb) mod p, x1 * ((da - cb) * (da - cb) mod p) mod p))"

definition swap_if :: "bool \<Rightarrow> int \<times> int \<times> int \<times> int \<Rightarrow> int \<times> int \<times> int \<times> int" where
  "swap_if b st = (case st of (x2, z2, x3, z3) \<Rightarrow> if b then (x3, z3, x2, z2) else st)"

definition x25519 :: "int \<Rightarrow> int \<Rightarrow> int" where
  "x25519 k u =
     (case fold (\<lambda>t st. let b = (k div 2 ^ t mod 2 = 1) in swap_if b (ladder_step u (swap_if b st)))
             (rev [0..<255]) (1, 0, u, 1) of
        (x2, z2, _) \<Rightarrow> x2 * powmod 256 z2 (prime25519 - 2) mod prime25519)"

definition le_int :: "string \<Rightarrow> int" where
  "le_int bs = foldr (\<lambda>b a. a * 256 + int (code b)) bs 0"

definition int_le :: "int \<Rightarrow> string" where
  "int_le v = map (\<lambda>i. char_of (nat (v div 256 ^ i mod 256))) [0..<32]"

definition clamp_scalar :: "string \<Rightarrow> int" where
  "clamp_scalar bs = (le_int bs div 8 * 8) mod 2 ^ 254 + 2 ^ 254"

definition KeyLength :: nat where
  "KeyLength = 32"

text \<open>\<open>ecdh.X25519().NewPrivateKey(raw)\<close> followed by \<open>PublicKey().Bytes()\<close>.\<close>

definition X25519Public :: "string \<Rightarrow> string option" where
  "X25519Public raw =
     (if length raw = KeyLength then Some (int_le (x25519 (clamp_scalar raw) 9)) else None)"

lemma length_X25519Public: "X25519Public raw = Some pub \<Longrightarrow> length pub = KeyLength"
  by (auto simp: X25519Public_def int_le_def KeyLength_def split: if_splits)

end
