(* ===== verification/Domain.thy ===== *)
theory Domain
  imports GoCrypto
begin

text \<open>
  The data model of \<open>internal/domain\<close>: configuration, desired state, compiled plans and
  observations.  Go's string-typed enumerations stay strings, because configuration may
  hold any value there and validation has to reject the unknown ones; enumerations the
  program only produces (operation kinds, health status) are datatypes.  Go slices are
  lists (a nil slice is \<open>[]\<close>), Go maps are association lists with distinct keys, \<open>uint16\<close>
  and \<open>uint32\<close> fields are words.
\<close>

subsection \<open>Enumerations kept as strings\<close>

definition TunnelWireGuard :: string where [simp]: "TunnelWireGuard = ''wireguard''"
definition TunnelOpenVPN :: string where [simp]: "TunnelOpenVPN = ''openvpn''"
definition TunnelXray :: string where [simp]: "TunnelXray = ''xray''"
definition TunnelAmneziaWG :: string where [simp]: "TunnelAmneziaWG = ''amneziawg''"

definition RolePrivateNetwork :: string where [simp]: "RolePrivateNetwork = ''private-network''"
definition RoleEgress :: string where [simp]: "RoleEgress = ''egress''"

definition SourceConfig :: string where [simp]: "SourceConfig = ''config''"
definition SourceXrayURI :: string where [simp]: "SourceXrayURI = ''xray-uri''"
definition SourceXrayJSON :: string where [simp]: "SourceXrayJSON = ''xray-json''"
definition SourceSubscription :: string where [simp]: "SourceSubscription = ''subscription''"

definition ClientACLTCP :: string where [simp]: "ClientACLTCP = ''tcp''"
definition ClientACLUDP :: string where [simp]: "ClientACLUDP = ''udp''"
definition ClientACLAny :: string where [simp]: "ClientACLAny = ''any''"

text \<open>The reserved egress name: leave through the hub's own uplink.\<close>

definition EgressDirect :: string where "EgressDirect = ''direct''"

definition RealityPort :: "16 word" where "RealityPort = 443"

subsection \<open>Configuration\<close>

record reality_fallback =
  rf_Enabled :: bool
  rf_ServerName :: string

record ingress_fallback =
  fb_UDP443 :: bool
  fb_Reality :: reality_fallback

record hub =
  hub_Endpoint :: string
  hub_ServerPublicKey :: string
  hub_ClientCIDR :: string
  hub_DNSAddress :: string
  hub_AWGInterface :: "(string \<times> string) list"
  hub_Fallback :: ingress_fallback

record tunnel_source =
  ts_Kind :: string
  ts_Value :: string

record health_check =
  hc_TCPAddress :: string
  hc_HTTPSURL :: string
  hc_DNSName :: string

record tunnel =
  t_ID :: string
  t_Type :: string
  t_Role :: string
  t_Enabled :: "bool option"
  t_Source :: tunnel_source
  t_Routes :: "string list"
  t_DNSServers :: "string list"
  t_DNSZones :: "string list"
  t_AllowedDevices :: "string list"
  t_Health :: health_check

definition IsEnabled :: "tunnel \<Rightarrow> bool" where
  "IsEnabled t = (case t_Enabled t of None \<Rightarrow> True | Some b \<Rightarrow> b)"

record device_profile =
  dp_ID :: string
  dp_Egress :: string
  dp_Address :: string
  dp_ClientPublicKey :: string
  dp_ClientPrivateKey :: string

record device =
  d_ID :: string
  d_Address :: string
  d_PublicKey :: string
  d_Egress :: string
  d_Profiles :: "device_profile list"

record client_acl =
  acl_Source :: string
  acl_Target :: string
  acl_Protocol :: string
  acl_Port :: "16 word"

record config =
  cfg_Hub :: hub
  cfg_Devices :: "device list"
  cfg_Tunnels :: "tunnel list"
  cfg_ClientACLs :: "client_acl list"

record deployed_device =
  dd_ID :: string
  dd_Address :: string
  dd_PublicKey :: string
  dd_Egress :: string

text \<open>Instants (\<open>time.Time\<close>) are integers, in nanoseconds.\<close>

record desired_state =
  ds_Revision :: string
  ds_GeneratedAt :: int
  ds_Hub :: hub
  ds_Devices :: "deployed_device list"
  ds_Tunnels :: "tunnel list"
  ds_ClientACLs :: "client_acl list"

subsection \<open>Compiled plans\<close>

record dns_destination =
  dn_ClientAddresses :: "string list"
  dn_ResolverAddress :: string

record client_port_acl =
  cp_SourceAddress :: string
  cp_TargetAddress :: string
  cp_Protocol :: string
  cp_Port :: "16 word"

record internal_network =
  in_TunnelID :: string
  in_Mark :: "32 word"
  in_Proxied :: bool
  in_Interface :: string
  in_Routes :: "string list"
  in_Zones :: "string list"
  in_Resolvers :: "string list"
  in_Clients :: "string list"

record socks_endpoint =
  se_TunnelID :: string
  se_Address :: string
  se_Interface :: string
  se_Port :: "16 word"
  se_Clients :: "string list"

record egress_group =
  eg_ID :: string
  eg_Proxied :: bool
  eg_Mark :: "32 word"
  eg_Interface :: string
  eg_Addresses :: "string list"
  eg_Clients :: "string list"

record firewall_plan =
  fp_IngressInterface :: string
  fp_UplinkInterface :: string
  fp_ListenPort :: "16 word"
  fp_ManagementPort :: "16 word"
  fp_ClientCIDR :: string
  fp_DNSAddress :: string
  fp_DNSDestinations :: "dns_destination list"
  fp_LinkBase :: string
  fp_Internals :: "internal_network list"
  fp_Socks :: "socks_endpoint list"
  fp_AltUDP443 :: bool
  fp_RealityPort :: "16 word"
  fp_ClientACLs :: "client_port_acl list"
  fp_Egresses :: "egress_group list"

subsection \<open>Upstreams and egress specifications\<close>

record wireguard_peer =
  wp_PublicKey :: string
  wp_PresharedKey :: string
  wp_Endpoint :: string
  wp_AllowedIPs :: "string list"
  wp_Keepalive :: int

record wireguard_tunnel =
  wt_PrivateKey :: string
  wt_Addresses :: "string list"
  wt_DNS :: "string list"
  wt_MTU :: int
  wt_Parameters :: "(string \<times> string) list"
  wt_Peer :: wireguard_peer

record proxy_reality =
  pr_Enabled :: bool
  pr_PublicKey :: string
  pr_ShortID :: string

record proxy_tls =
  pt_Enabled :: bool
  pt_ServerName :: string
  pt_Fingerprint :: string
  pt_Reality :: proxy_reality

record proxy_transport =
  px_Type :: string
  px_Path :: string
  px_Host :: string
  px_ServiceName :: string

record proxy_tunnel =
  py_Protocol :: string
  py_Server :: string
  py_OriginServer :: string
  py_Port :: "16 word"
  py_UUID :: string
  py_Flow :: string
  py_TLS :: proxy_tls
  py_Transport :: proxy_transport

record openvpn_remote =
  or_Host :: string
  or_Port :: "16 word"
  or_Protocol :: string

record openvpn_tunnel =
  ov_Remotes :: "openvpn_remote list"
  ov_Protocol :: string
  ov_Device :: string
  ov_RedirectsGateway :: bool
  ov_NeedsCredentials :: bool
  ov_Config :: string

record upstream =
  up_Type :: string
  up_WireGuard :: wireguard_tunnel
  up_Proxy :: proxy_tunnel
  up_OpenVPN :: openvpn_tunnel

record egress_spec =
  es_TunnelID :: string
  es_Namespace :: string
  es_HostVeth :: string
  es_PeerVeth :: string
  es_HostAddress :: string
  es_PeerAddress :: string
  es_Mark :: "32 word"
  es_RouteTable :: int
  es_ClientCIDR :: string
  es_Interface :: string
  es_SocksPort :: "16 word"
  es_Type :: string
  es_Tunnel :: wireguard_tunnel
  es_Proxy :: proxy_tunnel
  es_OpenVPN :: openvpn_tunnel

record peer_spec =
  ps_PublicKey :: string
  ps_AllowedIPs :: "string list"

record ingress_spec =
  is_Interface :: string
  is_Address :: string
  is_ListenPort :: "16 word"
  is_PrivateKey :: string
  is_Parameters :: "(string \<times> string) list"
  is_Peers :: "peer_spec list"

record reality_user =
  ru_DeviceID :: string
  ru_UUID :: string
  ru_Mark :: "32 word"

record reality_ingress_spec =
  ri_Enabled :: bool
  ri_Port :: "16 word"
  ri_ServerName :: string
  ri_PrivateKey :: string
  ri_ShortID :: string
  ri_DNSAddress :: string
  ri_Users :: "reality_user list"

record dns_zone_route =
  zr_Zone :: string
  zr_Resolvers :: "string list"
  zr_ForwardAddress :: string
  zr_Set :: string

record dns_private_resolver =
  dr_TunnelID :: string
  dr_Namespace :: string
  dr_Address :: string
  dr_Resolvers :: "string list"

record dns_egress_resolver =
  er_EgressID :: string
  er_ClientAddresses :: "string list"
  er_HubAddress :: string
  er_Namespace :: string
  er_NamespaceAddress :: string
  er_PublicResolvers :: "string list"

record dns_plan =
  dpl_ClientCIDR :: string
  dpl_Zones :: "dns_zone_route list"
  dpl_PrivateResolvers :: "dns_private_resolver list"
  dpl_EgressResolvers :: "dns_egress_resolver list"

subsection \<open>Observations, operations, health\<close>

record peer_observation =
  po_PublicKey :: string
  po_AllowedIPs :: "string list"
  po_LatestHandshake :: int
  po_Endpoint :: string
  po_RxBytes :: "64 word"
  po_TxBytes :: "64 word"

record ingress_observation =
  io_Exists :: bool
  io_PublicKey :: string
  io_ListenPort :: "16 word"
  io_Peers :: "peer_observation list"

record observed_state =
  ob_ObservedAt :: int
  ob_Ingress :: ingress_observation
  ob_FirewallRevision :: string
  ob_RealityFingerprint :: string

datatype operation_kind = OpCreate | OpUpdate | OpDelete

record resource_ref =
  rr_Type :: string
  rr_ID :: string

record operation =
  op_Kind :: operation_kind
  op_Resource :: resource_ref
  op_Reason :: string

fun kind_string :: "operation_kind \<Rightarrow> string" where
  "kind_string OpCreate = ''create''"
| "kind_string OpUpdate = ''update''"
| "kind_string OpDelete = ''delete''"

definition OperationString :: "operation \<Rightarrow> string" where
  "OperationString o' =
     kind_string (op_Kind o') @ '' '' @ rr_Type (op_Resource o') @ ''/'' @ rr_ID (op_Resource o')
       @ '': '' @ op_Reason o'"

datatype health_status = HealthUnknown | HealthHealthy | HealthUnhealthy

record tunnel_health =
  th_TunnelID :: string
  th_Status :: health_status
  th_CheckedAt :: int
  th_Reason :: string

subsection \<open>Zero values\<close>

definition zero_proxy_tls :: proxy_tls where
  "zero_proxy_tls = \<lparr>pt_Enabled = False, pt_ServerName = [], pt_Fingerprint = [],
     pt_Reality = \<lparr>pr_Enabled = False, pr_PublicKey = [], pr_ShortID = []\<rparr>\<rparr>"

definition zero_proxy_transport :: proxy_transport where
  "zero_proxy_transport = \<lparr>px_Type = [], px_Path = [], px_Host = [], px_ServiceName = []\<rparr>"

definition zero_proxy :: proxy_tunnel where
  "zero_proxy = \<lparr>py_Protocol = [], py_Server = [], py_OriginServer = [], py_Port = 0, py_UUID = [],
     py_Flow = [], py_TLS = zero_proxy_tls, py_Transport = zero_proxy_transport\<rparr>"

definition zero_wireguard :: wireguard_tunnel where
  "zero_wireguard = \<lparr>wt_PrivateKey = [], wt_Addresses = [], wt_DNS = [], wt_MTU = 0, wt_Parameters = [],
     wt_Peer = \<lparr>wp_PublicKey = [], wp_PresharedKey = [], wp_Endpoint = [], wp_AllowedIPs = [],
       wp_Keepalive = 0\<rparr>\<rparr>"

definition zero_openvpn :: openvpn_tunnel where
  "zero_openvpn = \<lparr>ov_Remotes = [], ov_Protocol = [], ov_Device = [], ov_RedirectsGateway = False,
     ov_NeedsCredentials = False, ov_Config = []\<rparr>"

definition zero_reality_spec :: reality_ingress_spec where
  "zero_reality_spec = \<lparr>ri_Enabled = False, ri_Port = 0, ri_ServerName = [], ri_PrivateKey = [],
     ri_ShortID = [], ri_DNSAddress = [], ri_Users = []\<rparr>"

subsection \<open>The order of client ACLs\<close>

text \<open>
  \<open>sortClientACLs\<close> orders rules by source, target, protocol and port.  Its comparison is a
  linear order on rules, so \<open>sort\<close> models it and the result does not depend on the order of
  the configuration.
\<close>

definition acl_key :: "client_acl \<Rightarrow> string \<times> string \<times> string \<times> 16 word" where
  "acl_key r = (acl_Source r, acl_Target r, acl_Protocol r, acl_Port r)"

definition acl_less :: "client_acl \<Rightarrow> client_acl \<Rightarrow> bool" where
  "acl_less l r =
     (if acl_Source l \<noteq> acl_Source r then acl_Source l < acl_Source r
      else if acl_Target l \<noteq> acl_Target r then acl_Target l < acl_Target r
      else if acl_Protocol l \<noteq> acl_Protocol r then acl_Protocol l < acl_Protocol r
      else acl_Port l < acl_Port r)"

instantiation client_acl_ext :: (linorder) linorder
begin

definition less_client_acl_ext :: "'a client_acl_ext \<Rightarrow> 'a client_acl_ext \<Rightarrow> bool" where
  "l < r \<longleftrightarrow>
     (if acl_Source l \<noteq> acl_Source r then acl_Source l < acl_Source r
      else if acl_Target l \<noteq> acl_Target r then acl_Target l < acl_Target r
      else if acl_Protocol l \<noteq> acl_Protocol r then acl_Protocol l < acl_Protocol r
      else if acl_Port l \<noteq> acl_Port r then acl_Port l < acl_Port r
      else client_acl.more l < client_acl.more r)"

definition less_eq_client_acl_ext :: "'a client_acl_ext \<Rightarrow> 'a client_acl_ext \<Rightarrow> bool" where
  "l \<le> r \<longleftrightarrow> l < r \<or> l = (r :: 'a client_acl_ext)"

instance
proof
  fix x y z :: "'a client_acl_ext"
  show "x \<le> x" by (simp add: less_eq_client_acl_ext_def)
  show "(x < y) = (x \<le> y \<and> \<not> y \<le> x)"
    by (auto simp: less_eq_client_acl_ext_def less_client_acl_ext_def split: if_splits)
  show "x \<le> y \<Longrightarrow> y \<le> x \<Longrightarrow> x = y"
    by (auto simp: less_eq_client_acl_ext_def less_client_acl_ext_def split: if_splits)
  have "x = y" if "acl_Source x = acl_Source y" "acl_Target x = acl_Target y"
    "acl_Protocol x = acl_Protocol y" "acl_Port x = acl_Port y"
    "client_acl.more x = client_acl.more y"
    using that by (rule client_acl.equality)
  then show "x \<le> y \<or> y \<le> x"
    unfolding less_eq_client_acl_ext_def less_client_acl_ext_def
    by (auto simp: not_less_iff_gr_or_eq)
  show "x \<le> y \<Longrightarrow> y \<le> z \<Longrightarrow> x \<le> z"
    by (auto simp: less_eq_client_acl_ext_def less_client_acl_ext_def split: if_splits)
qed

end

lemma acl_less_iff: "acl_less l r \<longleftrightarrow> l < r"
  by (auto simp: acl_less_def less_client_acl_ext_def)

end
