(* ===== verification/GoURL.thy ===== *)
theory GoURL
  imports GoNet
begin

text \<open>
  The part of \<open>net/url\<close> the program relies on: \<open>url.Parse\<close> with its escaping modes,
  \<open>Hostname\<close>, \<open>ParseQuery\<close>, and the printers \<open>Values.Encode\<close> and \<open>URL.String\<close> for the
  authority form.  Go 1.26 rejects a second colon in an unbracketed host; the limit of
  10000 query parameters is outside the model.
\<close>

datatype esc_mode =
  EncHost | EncZone | EncUserPassword | EncPath | EncQueryComponent | EncFragment

definition shouldEscape :: "char \<Rightarrow> esc_mode \<Rightarrow> bool" where
  "shouldEscape c mode =
     (if is_letter c \<or> is_digit c then False
      else if mode \<in> {EncHost, EncZone} \<and> c \<in> set ''!$&()*+,;=:[]<>'' \<union> {CHR 0x27, CHR 0x22} then False
      else if c \<in> set ''-_.~'' then False
      else if c \<in> set ''$&+,/:;=?@'' then
        (case mode of
           EncPath \<Rightarrow> c = CHR ''?''
         | EncUserPassword \<Rightarrow> c \<in> set ''@/?:''
         | EncQueryComponent \<Rightarrow> True
         | EncFragment \<Rightarrow> False
         | _ \<Rightarrow> True)
      else if mode = EncFragment \<and> c \<in> set ''!()*'' then False
      else True)"

definition hex_pair :: "char \<Rightarrow> char \<Rightarrow> char option" where
  "hex_pair a b =
     (case (hex_val a, hex_val b) of (Some x, Some y) \<Rightarrow> Some (char_of (16 * x + y)) | _ \<Rightarrow> None)"

fun unescape :: "esc_mode \<Rightarrow> string \<Rightarrow> string option" where
  "unescape mode [] = Some []"
| "unescape mode (c # cs) =
     (if c = CHR ''%'' then
        (case cs of
           a # b # rest \<Rightarrow>
             (case hex_pair a b of
                None \<Rightarrow> None
              | Some v \<Rightarrow>
                  if mode = EncHost \<and> code v < 128 \<and> \<not> (a = CHR ''2'' \<and> b = CHR ''5'') then None
                  else if mode = EncZone \<and> \<not> (a = CHR ''2'' \<and> b = CHR ''5'') \<and> v \<noteq> CHR '' ''
                          \<and> shouldEscape v EncHost then None
                  else map_option (\<lambda>r. v # r) (unescape mode rest))
         | _ \<Rightarrow> None)
      else if c = CHR ''+'' \<and> mode = EncQueryComponent then
        map_option (\<lambda>r. CHR '' '' # r) (unescape mode cs)
      else if mode \<in> {EncHost, EncZone} \<and> code c < 128 \<and> shouldEscape c mode then None
      else map_option (\<lambda>r. c # r) (unescape mode cs))"

definition hex_upper :: "nat \<Rightarrow> char" where
  "hex_upper n = char_of (if n < 10 then 48 + n else 55 + n)"

definition escape_char :: "esc_mode \<Rightarrow> char \<Rightarrow> string" where
  "escape_char mode c =
     (if c = CHR '' '' \<and> mode = EncQueryComponent then ''+''
      else if shouldEscape c mode then [CHR ''%'', hex_upper (code c div 16), hex_upper (code c mod 16)]
      else [c])"

definition escape :: "esc_mode \<Rightarrow> string \<Rightarrow> string" where
  "escape mode s = concat (map (escape_char mode) s)"

subsection \<open>Parsing\<close>

record url =
  url_Scheme :: string
  url_User :: "string option"
  url_Host :: string
  url_RawQuery :: string

fun scheme_from :: "bool \<Rightarrow> string \<Rightarrow> string \<Rightarrow> (string \<times> string) option option" where
  "scheme_from first acc [] = Some None"
| "scheme_from first acc (c # cs) =
     (if is_letter c then scheme_from False (c # acc) cs
      else if is_digit c \<or> c \<in> set ''+-.'' then
        (if first then Some None else scheme_from False (c # acc) cs)
      else if c = CHR '':'' then (if first then None else Some (Some (rev acc, cs)))
      else Some None)"

text \<open>\<open>getScheme\<close>: \<open>None\<close> for a missing scheme before a colon.\<close>

definition getScheme :: "string \<Rightarrow> (string \<times> string) option" where
  "getScheme raw =
     (case scheme_from True [] raw of
        None \<Rightarrow> None
      | Some None \<Rightarrow> Some ([], raw)
      | Some (Some r) \<Rightarrow> Some r)"

definition validOptionalPort :: "string \<Rightarrow> bool" where
  "validOptionalPort p = (case p of [] \<Rightarrow> True | c # cs \<Rightarrow> c = CHR '':'' \<and> list_all is_digit cs)"

definition validUserinfo :: "string \<Rightarrow> bool" where
  "validUserinfo s =
     list_all (\<lambda>c. is_letter c \<or> is_digit c \<or> c \<in> set ''-._:~!$&()*+,;=%@'' \<or> c = CHR 0x27) s"

fun cut_at :: "string \<Rightarrow> string \<Rightarrow> string \<Rightarrow> (string \<times> string) option" where
  "cut_at pat acc [] = None"
| "cut_at pat acc (c # cs) =
     (if HasPrefix (c # cs) pat then Some (rev acc, c # cs) else cut_at pat (c # acc) cs)"

definition bracketed_host :: "string \<Rightarrow> string option" where
  "bracketed_host inner =
     (case (case cut_at ''%25'' [] inner of
              None \<Rightarrow> unescape EncHost inner
            | Some (h, z) \<Rightarrow>
                (case (unescape EncHost h, unescape EncZone z) of
                   (Some h', Some z') \<Rightarrow> Some (h' @ z')
                 | _ \<Rightarrow> None)) of
        None \<Rightarrow> None
      | Some name \<Rightarrow>
          (case ParseAddr name of
             None \<Rightarrow> None
           | Some ip \<Rightarrow> if Is4 ip then None else Some name))"

definition parseHost :: "string \<Rightarrow> string option" where
  "parseHost host =
     (if has_char CHR ''['' (drop 1 host) then None
      else if HasPrefix host ''['' then
        (case CutLastByte CHR '']'' host of
           None \<Rightarrow> None
         | Some (inner, port) \<Rightarrow>
             if \<not> validOptionalPort port then None
             else (case (unescape EncHost port, bracketed_host (drop 1 inner)) of
                     (Some port', Some name) \<Rightarrow> Some (''['' @ name @ '']'' @ port')
                   | _ \<Rightarrow> None))
      else if (case CutByte CHR '':'' host of
                 None \<Rightarrow> False
               | Some (_, port) \<Rightarrow> \<not> validOptionalPort (CHR '':'' # port)) then None
      else unescape EncHost host)"

definition parseAuthority :: "string \<Rightarrow> (string option \<times> string) option" where
  "parseAuthority a =
     (case CutLastByte CHR ''@'' a of
        None \<Rightarrow> map_option (\<lambda>h. (None, h)) (parseHost a)
      | Some (info, h) \<Rightarrow>
          (case parseHost h of
             None \<Rightarrow> None
           | Some host \<Rightarrow>
               if \<not> validUserinfo info then None
               else (case CutByte CHR '':'' info of
                       None \<Rightarrow> map_option (\<lambda>u. (Some u, host)) (unescape EncUserPassword info)
                     | Some (u, p) \<Rightarrow>
                         (case (unescape EncUserPassword u, unescape EncUserPassword p) of
                            (Some u', Some _) \<Rightarrow> Some (Some u', host)
                          | _ \<Rightarrow> None))))"

definition cut_or_all :: "char \<Rightarrow> string \<Rightarrow> string \<times> string" where
  "cut_or_all c s = (case CutByte c s of None \<Rightarrow> (s, []) | Some r \<Rightarrow> r)"

definition has_ctl :: "string \<Rightarrow> bool" where
  "has_ctl s \<longleftrightarrow> list_ex (\<lambda>c. code c < 32 \<or> code c = 127) s"

definition parse_url :: "string \<Rightarrow> url option" where
  "parse_url raw =
     (if has_ctl raw then None
      else if raw = ''*'' then Some \<lparr>url_Scheme = [], url_User = None, url_Host = [], url_RawQuery = []\<rparr>
      else case getScheme raw of
        None \<Rightarrow> None
      | Some (sch, rest0) \<Rightarrow>
          let scheme = ToLower sch; (rest, query) = cut_or_all CHR ''?'' rest0 in
          if \<not> HasPrefix rest ''/'' \<and> scheme \<noteq> [] then
            Some \<lparr>url_Scheme = scheme, url_User = None, url_Host = [], url_RawQuery = query\<rparr>
          else if \<not> HasPrefix rest ''/'' \<and> has_char CHR '':'' (fst (cut_or_all CHR ''/'' rest)) then None
          else if (scheme \<noteq> [] \<or> \<not> HasPrefix rest ''///'') \<and> HasPrefix rest ''//'' then
            (let body = drop 2 rest; authority = fst (cut_or_all CHR ''/'' body);
                 path = drop (length authority) body in
             case parseAuthority authority of
               None \<Rightarrow> None
             | Some (user, host) \<Rightarrow>
                 if unescape EncPath path = None then None
                 else Some \<lparr>url_Scheme = scheme, url_User = user, url_Host = host, url_RawQuery = query\<rparr>)
          else if unescape EncPath rest = None then None
          else Some \<lparr>url_Scheme = scheme, url_User = None, url_Host = [], url_RawQuery = query\<rparr>)"

definition URLParse :: "string \<Rightarrow> url option" where
  "URLParse raw =
     (let (u, frag) = cut_or_all CHR ''#'' raw in
      case parse_url u of
        None \<Rightarrow> None
      | Some r \<Rightarrow> if unescape EncFragment frag = None then None else Some r)"

definition Hostname :: "url \<Rightarrow> string" where
  "Hostname u =
     (let h = url_Host u;
          h1 = (case CutLastByte CHR '':'' h of
                  None \<Rightarrow> h
                | Some (a, p) \<Rightarrow> if validOptionalPort (CHR '':'' # p) then a else h)
      in if HasPrefix h1 ''['' \<and> HasSuffix h1 '']'' then drop 1 (butlast h1) else h1)"

subsection \<open>Queries\<close>

definition query_pair :: "string \<Rightarrow> (string \<times> string) option" where
  "query_pair part =
     (if has_char CHR '';'' part \<or> part = [] then None
      else let (k, v) = cut_or_all CHR ''='' part in
           case (unescape EncQueryComponent k, unescape EncQueryComponent v) of
             (Some k', Some v') \<Rightarrow> Some (k', v')
           | _ \<Rightarrow> None)"

text \<open>\<open>Query()\<close>: the well-formed pairs in order; \<open>Get\<close> takes the first of a key.\<close>

definition ParseQuery :: "string \<Rightarrow> (string \<times> string) list" where
  "ParseQuery q = List.map_filter query_pair (Split CHR ''&'' q)"

definition QueryGet :: "(string \<times> string) list \<Rightarrow> string \<Rightarrow> string" where
  "QueryGet q k = (case map_of q k of None \<Rightarrow> [] | Some v \<Rightarrow> v)"

definition EncodeValues :: "(string \<times> string) list \<Rightarrow> string" where
  "EncodeValues q =
     Join ''&'' (map (\<lambda>(k, v). escape EncQueryComponent k @ ''='' @ escape EncQueryComponent v)
                  (sort_key fst q))"

text \<open>\<open>URL.String\<close> for a URL with scheme, user, host and query and an empty path.\<close>

definition URLString :: "url \<Rightarrow> string" where
  "URLString u =
     url_Scheme u @ ''://''
       @ (case url_User u of None \<Rightarrow> [] | Some n \<Rightarrow> escape EncUserPassword n @ ''@'')
       @ escape EncHost (url_Host u)
       @ (if url_RawQuery u = [] then [] else ''?'' @ url_RawQuery u)"

subsection \<open>Unescaping an escaped text returns it\<close>

lemma hex_upper_val: "\<forall>n < 16. hex_val (hex_upper n) = Some n"
  by code_simp

lemma hex_pair_upper: "hex_pair (hex_upper (code c div 16)) (hex_upper (code c mod 16)) = Some c"
proof -
  have "code c div 16 < 16" using code_less[of c] by simp
  moreover have "16 * (code c div 16) + code c mod 16 = code c" by simp
  ultimately show ?thesis
    using hex_upper_val by (simp add: hex_pair_def del: mult_div_mod_eq)
qed

lemma unescape_escape_query: "unescape EncQueryComponent (escape EncQueryComponent s @ t) =
    map_option (\<lambda>r. s @ r) (unescape EncQueryComponent t)"
proof (induction s)
  case Nil
  then show ?case by (simp add: escape_def option.map_ident)
next
  case (Cons c s)
  have step: "escape EncQueryComponent (c # s) @ t = escape_char EncQueryComponent c @ (escape EncQueryComponent s @ t)"
    by (simp add: escape_def)
  have plain: "c \<noteq> CHR ''%'' \<and> c \<noteq> CHR ''+''" if "\<not> shouldEscape c EncQueryComponent"
    using that by (auto simp: shouldEscape_def is_letter_def is_lower_def is_upper_def is_digit_def code_def)
  show ?case
    unfolding step using Cons.IH plain hex_pair_upper[of c]
    by (auto simp: escape_char_def option.map_comp comp_def)
qed

lemma unescape_escape_user: "unescape EncUserPassword (escape EncUserPassword s) = Some s"
proof (induction s)
  case Nil
  then show ?case by (simp add: escape_def)
next
  case (Cons c s)
  have step: "escape EncUserPassword (c # s) = escape_char EncUserPassword c @ escape EncUserPassword s"
    by (simp add: escape_def)
  have plain: "c \<noteq> CHR ''%''" if "\<not> shouldEscape c EncUserPassword"
    using that by (auto simp: shouldEscape_def is_letter_def is_lower_def is_upper_def is_digit_def code_def)
  show ?case
    unfolding step using Cons.IH plain hex_pair_upper[of c]
    by (auto simp: escape_char_def)
qed

end
