(* ===== verification/DomainRules.thy ===== *)
theory DomainRules
  imports Domain GoURL
begin

text \<open>
  The checks and derivations of \<open>internal/domain\<close>: AmneziaWG parameter names, DNS zones,
  probe targets, keys and the credentials derived from them.  The lemmas state what an
  accepted value cannot contain, which is what keeps it one line of a generated file or one
  argument of a command.
\<close>

subsection \<open>AmneziaWG parameters (awg.go)\<close>

definition awgParameters :: "(string \<times> string) list" where
  "awgParameters =
    [(''jc'', ''Jc''), (''jmin'', ''Jmin''), (''jmax'', ''Jmax''), (''s1'', ''S1''), (''s2'', ''S2''),
     (''h1'', ''H1''), (''h2'', ''H2''), (''h3'', ''H3''), (''h4'', ''H4'')]"

definition CanonicalAWGParameter :: "string \<Rightarrow> string option" where
  "CanonicalAWGParameter name = map_of awgParameters (ToLower name)"

lemma CanonicalAWGParameter_case: "CanonicalAWGParameter (ToLower name) = CanonicalAWGParameter name"
  by (simp add: CanonicalAWGParameter_def ToLower_def comp_def)

subsection \<open>DNS zones (dnszone.go)\<close>

datatype zone_error = ZoneEmpty | ZoneTooLong string | ZoneEmptyLabel string | ZoneBadChar string char

definition name_char :: "char \<Rightarrow> bool" where
  "name_char c \<longleftrightarrow> is_letter c \<or> is_digit c \<or> c = CHR ''-'' \<or> c = CHR ''_''"

text \<open>The first character of a label that is not allowed.\<close>

definition bad_char :: "string \<Rightarrow> char option" where
  "bad_char label = find (\<lambda>c. \<not> name_char c) label"

definition zone_label :: "string \<Rightarrow> string \<Rightarrow> (zone_error, unit) result" where
  "zone_label zone label =
     (if label = [] then Inl (ZoneEmptyLabel zone)
      else case bad_char label of None \<Rightarrow> Inr () | Some c \<Rightarrow> Inl (ZoneBadChar zone c))"

definition ValidateDNSZone :: "string \<Rightarrow> (zone_error, unit) result" where
  "ValidateDNSZone zone =
     (if zone = [] then Inl ZoneEmpty
      else if 253 < length zone then Inl (ZoneTooLong zone)
      else checkAll (zone_label zone) (Split CHR ''.'' zone))"

lemma bad_char_None_iff: "bad_char s = None \<longleftrightarrow> list_all name_char s"
  by (auto simp: bad_char_def find_None_iff list_all_iff)

lemma zone_label_ok_iff: "zone_label z l = Inr () \<longleftrightarrow> l \<noteq> [] \<and> list_all name_char l"
  by (auto simp: zone_label_def bad_char_None_iff[symmetric] split: option.splits)

lemma ValidateDNSZone_ok_iff:
  "ValidateDNSZone z = Inr () \<longleftrightarrow>
     z \<noteq> [] \<and> length z \<le> 253 \<and> (\<forall>l \<in> set (Split CHR ''.'' z). l \<noteq> [] \<and> list_all name_char l)"
  by (auto simp: ValidateDNSZone_def checkAll_Inr_iff zone_label_ok_iff)

text \<open>Every byte of a text is a separator or occurs in one of the parts it is split into.\<close>

lemma Split_cover: "c \<in> set s \<Longrightarrow> c \<noteq> x \<Longrightarrow> \<exists>w \<in> set (Split x s). c \<in> set w"
proof (induction s)
  case (Cons d s)
  show ?case
  proof (cases "Split x s")
    case (Cons w ws)
    with Cons.IH Cons.prems show ?thesis by (cases "d = x") auto
  qed simp
qed simp

lemma ValidateDNSZone_chars:
  assumes "ValidateDNSZone z = Inr ()" "c \<in> set z"
  shows "name_char c \<or> c = CHR ''.''"
  using assms Split_cover[of c z "CHR ''.''"]
  by (auto simp: ValidateDNSZone_ok_iff list_all_iff)

lemma name_char_not_special [simp]:
  "\<not> name_char CHR 0x0A" "\<not> name_char CHR 0x0D" "\<not> name_char CHR 0x20" "\<not> name_char CHR 0x09"
  "\<not> name_char CHR ''/''" "\<not> name_char CHR ''#''" "\<not> name_char CHR ''.''"
  by (simp_all add: name_char_def is_letter_def is_lower_def is_upper_def is_digit_def code_def)

subsection \<open>Probe targets (healthcheck.go)\<close>

datatype probe_error =
    HostEmpty | HostDash string | HostTooLong string | HostEmptyLabel string | HostBadChar string char
  | TCPNotHostPort string addr_error | TCPHost probe_error | TCPPort string
  | URLWhitespace string | URLInvalid string | URLNotHTTPS string | URLHost probe_error
  | DNSHost probe_error

definition host_label :: "string \<Rightarrow> string \<Rightarrow> (probe_error, unit) result" where
  "host_label host label =
     (if label = [] then Inl (HostEmptyLabel host)
      else case bad_char label of None \<Rightarrow> Inr () | Some c \<Rightarrow> Inl (HostBadChar host c))"

definition validateProbeHost :: "string \<Rightarrow> (probe_error, unit) result" where
  "validateProbeHost host =
     (if host = [] then Inl HostEmpty
      else if ParseIP host then Inr ()
      else if HasPrefix host ''-'' then Inl (HostDash host)
      else if 253 < length host then Inl (HostTooLong host)
      else checkAll (host_label host) (Split CHR ''.'' (TrimSuffix host ''.'')))"

text \<open>The port check shared by probes, endpoints and links: 1 to 65535.\<close>

definition ParsePort :: "string \<Rightarrow> nat option" where
  "ParsePort s = (case ParseUint 16 s of None \<Rightarrow> None | Some n \<Rightarrow> if n = 0 then None else Some n)"

definition HealthTCP :: "string \<Rightarrow> (probe_error, unit) result" where
  "HealthTCP addr =
     (if addr = [] then Inr ()
      else case SplitHostPort addr of
             Inl e \<Rightarrow> Inl (TCPNotHostPort addr e)
           | Inr (host, port) \<Rightarrow>
               bindE (mapErr TCPHost (validateProbeHost host))
                 (\<lambda>_. guardE (ParsePort port \<noteq> None) (TCPPort port)))"

definition HealthHTTPS :: "string \<Rightarrow> (probe_error, unit) result" where
  "HealthHTTPS u =
     (if u = [] then Inr ()
      else if ContainsAny u [CHR 0x20, TAB, CR, NL] then Inl (URLWhitespace u)
      else case URLParse u of
             None \<Rightarrow> Inl (URLInvalid u)
           | Some parsed \<Rightarrow>
               if url_Scheme parsed \<noteq> ''https'' then Inl (URLNotHTTPS u)
               else mapErr URLHost (validateProbeHost (Hostname parsed)))"

definition HealthCheckValidate :: "health_check \<Rightarrow> (probe_error, unit) result" where
  "HealthCheckValidate h =
     bindE (HealthTCP (hc_TCPAddress h)) (\<lambda>_.
     bindE (HealthHTTPS (hc_HTTPSURL h)) (\<lambda>_.
       if hc_DNSName h = [] then Inr () else mapErr DNSHost (validateProbeHost (hc_DNSName h))))"

lemma host_label_ok_iff: "host_label h l = Inr () \<longleftrightarrow> l \<noteq> [] \<and> list_all name_char l"
  by (auto simp: host_label_def bad_char_None_iff[symmetric] split: option.splits)

text \<open>An address without a zone is written with hexadecimal digits, dots and colons only.\<close>

definition ip_char :: "char \<Rightarrow> bool" where
  "ip_char c \<longleftrightarrow> hex_val c \<noteq> None \<or> c = CHR ''.'' \<or> c = CHR '':''"

lemma hex_val_digit: "is_digit c \<Longrightarrow> hex_val c \<noteq> None"
  by (simp add: hex_val_def)

lemma v4_fields_chars: "v4_fields v d acc s = Some os \<Longrightarrow> list_all ip_char s"
  by (induction v d acc s arbitrary: os rule: v4_fields.induct)
    (auto simp: ip_char_def hex_val_digit Let_def split: if_splits)

lemma v6_group_chars: "v6_group off acc s = Some (a, n, rest) \<Longrightarrow> \<exists>g. s = g @ rest \<and> list_all ip_char g"
proof (induction off acc s rule: v6_group.induct)
  case (2 off acc c cs)
  show ?case
  proof (cases "hex_val c")
    case None
    with 2 show ?thesis by auto
  next
    case (Some d)
    with 2 obtain g where "cs = g @ rest" "list_all ip_char g"
      by (auto split: if_splits)
    moreover have "ip_char c" using Some by (simp add: ip_char_def)
    ultimately show ?thesis by (intro exI[of _ "c # g"]) simp
  qed
qed simp

lemma v6_loop_chars: "v6_loop fuel ell bs s = Some r \<Longrightarrow> list_all ip_char s"
proof (induction fuel arbitrary: ell bs s)
  case (Suc fuel)
  show ?case
  proof (cases "16 \<le> length bs")
    case True
    with Suc.prems show ?thesis by (auto split: if_splits)
  next
    case False
    with Suc.prems obtain a n rest where g: "v6_group 0 0 s = Some (a, n, rest)" and n: "n \<noteq> 0"
      by (auto split: option.splits if_splits)
    then obtain h where h: "s = h @ rest" "list_all ip_char h" using v6_group_chars by blast
    have colon: "ip_char CHR '':''" by (simp add: ip_char_def)
    show ?thesis
    proof (cases "HasPrefix rest ''.''")
      case True
      with Suc.prems False g n show ?thesis
        by (auto split: if_splits option.splits dest: v4_fields_chars)
    next
      case False
      have "list_all ip_char rest"
        using Suc.prems \<open>\<not> 16 \<le> length bs\<close> g n False colon
        by (auto simp: Let_def split: list.splits if_splits dest!: Suc.IH)
      with h show ?thesis by simp
    qed
  qed
qed simp

lemma parse_v6_chars:
  assumes "parse_v6 s = Some ip" "\<not> has_zone ip"
  shows "list_all ip_char s"
proof (cases "CutByte CHR ''%'' s")
  case None
  have front: "list_all ip_char s" if "list_all ip_char (drop 2 s)" "HasPrefix s ''::''"
    using that by (auto simp: HasPrefix_iff ip_char_def)
  show ?thesis
    using assms(1) None front
    by (auto simp: parse_v6_def Option.bind_eq_Some_conv dest: v6_loop_chars split: if_splits)
next
  case (Some az)
  then show ?thesis
    using assms
    by (cases az) (auto simp: parse_v6_def v6_finish_def Option.bind_eq_Some_conv
        split: if_splits option.splits prod.splits)
qed

lemma ParseAddr_chars:
  assumes "ParseAddr s = Some ip" "\<not> has_zone ip"
  shows "list_all ip_char s"
  using assms
  by (auto simp: ParseAddr_def parse_v4_def split: option.splits if_splits
      dest: v4_fields_chars parse_v6_chars)

lemma ParseIP_chars: "ParseIP s \<Longrightarrow> list_all ip_char s"
  by (auto simp: ParseIP_def split: option.splits ip_addr.splits dest!: ParseAddr_chars)

lemma ip_char_not_special [simp]:
  "\<not> ip_char CHR 0x0A" "\<not> ip_char CHR 0x0D" "\<not> ip_char CHR 0x20" "\<not> ip_char CHR 0x09"
  "\<not> ip_char CHR ''/''" "\<not> ip_char CHR ''-''" "\<not> ip_char CHR ''%''" "\<not> ip_char CHR ''#''"
  by (simp_all add: ip_char_def hex_val_def is_digit_def code_def)

definition probe_char :: "char \<Rightarrow> bool" where
  "probe_char c \<longleftrightarrow> name_char c \<or> ip_char c"

lemma validateProbeHost_ok:
  assumes "validateProbeHost h = Inr ()"
  shows "h \<noteq> [] \<and> list_all probe_char h \<and> \<not> HasPrefix h ''-''"
proof (cases "ParseIP h")
  case True
  have "list_all ip_char h" using True by (rule ParseIP_chars)
  moreover from this have "\<not> HasPrefix h ''-''" by (auto simp: HasPrefix_iff)
  moreover have "h \<noteq> []" using assms by (auto simp: validateProbeHost_def)
  ultimately show ?thesis by (auto simp: probe_char_def list_all_iff)
next
  case False
  define t where "t = TrimSuffix h ''.''"
  have labels: "\<forall>l \<in> set (Split CHR ''.'' t). list_all name_char l"
    and h: "h \<noteq> []" "\<not> HasPrefix h ''-''"
    using assms False
    by (auto simp: validateProbeHost_def t_def checkAll_Inr_iff host_label_ok_iff split: if_splits)
  have dot: "probe_char CHR ''.''" by (simp add: probe_char_def ip_char_def)
  have t: "list_all probe_char t"
    using labels Split_cover[of _ t "CHR ''.''"] dot
    by (auto simp: list_all_iff probe_char_def)
  have "h = t \<or> h = t @ ''.''"
    by (auto simp: t_def TrimSuffix_def HasSuffix_iff)
  with t dot h show ?thesis by auto
qed

lemma ParsePort_range: "ParsePort s = Some n \<Longrightarrow> 0 < n \<and> n < 65536"
  using ParseUint_bound[of 16 s n] by (auto simp: ParsePort_def split: option.splits if_splits)

subsection \<open>Keys (keys.go)\<close>

datatype key_error = KeyNotBase64 string | KeyLength_wrong nat | KeyRejected | KeyMissing string | NoRandomness

definition ValidatePublicKey :: "string \<Rightarrow> (key_error, unit) result" where
  "ValidatePublicKey value =
     (case StdDecode value of
        None \<Rightarrow> Inl (KeyNotBase64 value)
      | Some raw \<Rightarrow> guardE (length raw = KeyLength) (KeyLength_wrong (length raw)))"

definition PublicKeyFromPrivate :: "string \<Rightarrow> (key_error, string) result" where
  "PublicKeyFromPrivate privateKey =
     (case StdDecode privateKey of
        None \<Rightarrow> Inl (KeyNotBase64 privateKey)
      | Some bytes \<Rightarrow>
          (case X25519Public bytes of None \<Rightarrow> Inl KeyRejected | Some pub \<Rightarrow> Inr (StdEncode pub)))"

text \<open>\<open>rand\<close> is what \<open>rand.Read\<close> delivers: \<open>None\<close> when it fails, else 32 bytes.\<close>

definition clamp_bytes :: "string \<Rightarrow> string" where
  "clamp_bytes bs =
     (let lo = (of_char (bs ! 0) :: 8 word) AND 248;
          hi = ((of_char (bs ! 31) :: 8 word) AND 127) OR 64
      in bs[0 := char_of (unat lo), 31 := char_of (unat hi)])"

definition GenerateX25519KeyPair :: "string option \<Rightarrow> (key_error, string \<times> string) result" where
  "GenerateX25519KeyPair rand =
     (case rand of
        None \<Rightarrow> Inl NoRandomness
      | Some bs \<Rightarrow>
          (let priv = clamp_bytes bs in
           case X25519Public priv of
             None \<Rightarrow> Inl KeyRejected
           | Some pub \<Rightarrow> Inr (StdEncode priv, StdEncode pub)))"

definition GenerateRealityKeyPair :: "string option \<Rightarrow> (key_error, string \<times> string) result" where
  "GenerateRealityKeyPair rand =
     (case rand of
        None \<Rightarrow> Inl NoRandomness
      | Some priv \<Rightarrow>
          (case X25519Public priv of
             None \<Rightarrow> Inl KeyRejected
           | Some pub \<Rightarrow> Inr (RawURLEncode priv, RawURLEncode pub)))"

definition RealityPublicKey :: "string \<Rightarrow> (key_error, string) result" where
  "RealityPublicKey privateKey =
     (case RawURLDecode privateKey of
        None \<Rightarrow> Inl (KeyNotBase64 privateKey)
      | Some raw \<Rightarrow>
          (case X25519Public raw of None \<Rightarrow> Inl KeyRejected | Some pub \<Rightarrow> Inr (RawURLEncode pub)))"

definition ValidateRealityKey :: "string \<Rightarrow> (key_error, unit) result" where
  "ValidateRealityKey value =
     (case RawURLDecode value of
        None \<Rightarrow> Inl (KeyNotBase64 value)
      | Some raw \<Rightarrow> guardE (length raw = KeyLength) (KeyLength_wrong (length raw)))"

definition RealityShortID :: "string \<Rightarrow> string" where
  "RealityShortID publicKey = take 16 (HexEncode (Sha256 publicKey))"

definition reality_user_input :: "string \<Rightarrow> string \<Rightarrow> string" where
  "reality_user_input deviceID devicePublicKey =
     ''vpn-hub/reality-user/'' @ deviceID @ [CHR 0x00] @ devicePublicKey"

definition set_bits :: "8 word \<Rightarrow> 8 word \<Rightarrow> char \<Rightarrow> char" where
  "set_bits keep add c = char_of (unat (((of_char c) AND keep) OR add))"

definition uuid_string :: "string \<Rightarrow> string" where
  "uuid_string s =
     HexEncode (take 4 s) @ ''-'' @ HexEncode (take 2 (drop 4 s)) @ ''-'' @ HexEncode (take 2 (drop 6 s))
       @ ''-'' @ HexEncode (take 2 (drop 8 s)) @ ''-'' @ HexEncode (take 6 (drop 10 s))"

definition RealityUserUUID :: "string \<Rightarrow> string \<Rightarrow> string \<Rightarrow> (key_error, string) result" where
  "RealityUserUUID privateKey deviceID devicePublicKey =
     (case RawURLDecode privateKey of
        None \<Rightarrow> Inl (KeyNotBase64 privateKey)
      | Some raw \<Rightarrow>
          if devicePublicKey = [] then Inl (KeyMissing deviceID)
          else let sum = HmacSha256 raw (reality_user_input deviceID devicePublicKey)
               in Inr (uuid_string (sum[6 := set_bits 0x0f 0x40 (sum ! 6),
                                        8 := set_bits 0x3f 0x80 (sum ! 8)])))"

text \<open>Two devices never feed the credential derivation the same input.\<close>

lemma reality_user_input_inj:
  assumes "CHR 0x00 \<notin> set i" "CHR 0x00 \<notin> set j" "reality_user_input i k = reality_user_input j l"
  shows "i = j \<and> k = l"
proof -
  have "i @ CHR 0x00 # k = j @ CHR 0x00 # l" using assms(3) by (simp add: reality_user_input_def)
  then have "CutByte (CHR 0x00) (i @ CHR 0x00 # k) = CutByte (CHR 0x00) (j @ CHR 0x00 # l)" by simp
  with assms show ?thesis by (simp add: CutByte_append)
qed

lemma length_uuid_string: "length s = 32 \<Longrightarrow> length (uuid_string s) = 36"
  by (simp add: uuid_string_def)

lemma RealityUserUUID_length: "RealityUserUUID p i k = Inr u \<Longrightarrow> length u = 36"
  by (auto simp: RealityUserUUID_def Let_def length_uuid_string split: option.splits if_splits)

text \<open>A derived public key is accepted wherever a public key is validated.\<close>

definition no_break :: "char \<Rightarrow> bool" where
  "no_break c \<longleftrightarrow> c \<noteq> NL \<and> c \<noteq> CR"

lemma b64_no_break: "n < 64 \<Longrightarrow> no_break (b64_char ''+/'' n)"
  unfolding no_break_def using std_val_range by blast

lemma encode_no_breaks: "list_all no_break (encode_quanta ''+/'' True bs)"
proof (induction bs rule: encode_quanta.induct[of "\<lambda>_ _ bs. list_all no_break (encode_quanta ''+/'' True bs)", case_names 1 2 3 4])
  case (2 al pad a)
  have "code a * 16 div 64 < 64" using code_less[of a] by simp
  then show ?case by (simp add: Let_def b64_no_break) (simp add: no_break_def)
next
  case (3 al pad a b)
  have "(code a * 256 + code b) * 4 div 4096 < 64" using code_less[of a] code_less[of b] by simp
  then show ?case by (simp add: Let_def b64_no_break del: mult_Suc) (simp add: no_break_def)
next
  case (4 al pad a b c rest)
  have "((code a * 256 + code b) * 256 + code c) div 262144 < 64"
    using code_less[of a] code_less[of b] code_less[of c] by simp
  with 4 show ?case by (simp add: Let_def b64_no_break)
qed simp

lemma StdDecode_StdEncode [simp]: "StdDecode (StdEncode bs) = Some bs"
proof -
  have "drop_breaks (StdEncode bs) = StdEncode bs"
    unfolding drop_breaks_def StdEncode_def using encode_no_breaks[of bs]
    by (intro filter_True) (auto simp: list_all_iff no_break_def)
  then show ?thesis by (simp add: StdDecode_def StdEncode_def decode_padded_encode)
qed

lemma PublicKeyFromPrivate_valid: "PublicKeyFromPrivate k = Inr p \<Longrightarrow> ValidatePublicKey p = Inr ()"
  by (auto simp: PublicKeyFromPrivate_def ValidatePublicKey_def split: option.splits
      dest: length_X25519Public)

lemma GenerateX25519KeyPair_consistent:
  "GenerateX25519KeyPair rand = Inr (priv, pub) \<Longrightarrow> PublicKeyFromPrivate priv = Inr pub"
  by (auto simp: GenerateX25519KeyPair_def PublicKeyFromPrivate_def Let_def split: option.splits)

end
