(* ===== verification/Validation.thy ===== *)
theory Validation
  imports DomainRules
begin

text \<open>
  What \<open>application.Validate\<close> accepts (\<open>validation_netip.go\<close> and \<open>Validate\<close> with its helpers
  in \<open>service.go\<close>).  The first half translates the checks in source order, every early
  return a constructor of an error type; the second half states what a valid configuration
  is, without loops or seen-sets, and proves that \<open>Validate\<close> accepts exactly those.

  Maps the code fills while it scans are association lists, newest entry first.  Where the
  code ranges over one of them to find a conflict, the model reports the most recent
  conflicting entry; Go may report another one, but both reject.
\<close>

subsection \<open>Networks and addresses (validation_netip.go)\<close>

definition egressLinkBase :: string where "egressLinkBase = ''10.90.0.0/16''"

definition parseNetworkPrefix :: "string \<Rightarrow> ip_prefix option" where
  "parseNetworkPrefix value = map_option Masked (ParsePrefix value)"

definition prefixesOverlap :: "string \<Rightarrow> string \<Rightarrow> bool" where
  "prefixesOverlap a b =
     (case parseNetworkPrefix a of
        None \<Rightarrow> False
      | Some pa \<Rightarrow> (case parseNetworkPrefix b of None \<Rightarrow> False | Some pb \<Rightarrow> PrefixOverlaps pa pb))"

datatype profile_error =
    ProfileInvalid string | NotHostRoute string | ProfileBadCIDR string | ProfileOutside string string
  | ProfileNetworkAddress string string | ProfileBroadcast string string

definition validateProfileAddress :: "string \<Rightarrow> string \<Rightarrow> (profile_error, unit) result" where
  "validateProfileAddress value clientCIDR =
     (case ParsePrefix value of
        None \<Rightarrow> Inl (ProfileInvalid value)
      | Some prefix \<Rightarrow>
          if pfx_bits prefix \<noteq> (if Is6 (pfx_addr prefix) then 128 else 32) then Inl (NotHostRoute value)
          else (case parseNetworkPrefix clientCIDR of
                  None \<Rightarrow> Inl (ProfileBadCIDR clientCIDR)
                | Some subnet \<Rightarrow>
                    if \<not> PrefixContains subnet (pfx_addr prefix) then Inl (ProfileOutside value clientCIDR)
                    else if Is4 (pfx_addr prefix) \<and> pfx_bits subnet < 31 then
                      (if pfx_addr prefix = pfx_addr subnet
                       then Inl (ProfileNetworkAddress value clientCIDR)
                       else guardE (PrefixContains subnet (NextAddr (pfx_addr prefix)))
                              (ProfileBroadcast value clientCIDR))
                    else Inr ()))"

subsection \<open>Host names\<close>

datatype hostname_error =
  NameTooLong string | NameNotBare string | NameNoDot string | NameBadLabel string
  | NameHyphen string | NameBadSymbol string char

definition host_symbol :: "char \<Rightarrow> bool" where
  "host_symbol c \<longleftrightarrow> is_letter c \<or> is_digit c \<or> c = CHR ''-''"

definition hostname_label :: "string \<Rightarrow> string \<Rightarrow> (hostname_error, unit) result" where
  "hostname_label value label =
     (if label = [] \<or> 63 < length label then Inl (NameBadLabel value)
      else if label ! 0 = CHR ''-'' \<or> label ! (length label - 1) = CHR ''-'' then Inl (NameHyphen value)
      else case find (\<lambda>c. \<not> host_symbol c) label of
             None \<Rightarrow> Inr () | Some c \<Rightarrow> Inl (NameBadSymbol value c))"

definition validateHostname :: "string \<Rightarrow> (hostname_error, unit) result" where
  "validateHostname value =
     (if 253 < length value then Inl (NameTooLong value)
      else if ContainsAny value ([CHR '' '', TAB, CR, NL] @ ''/:'') then Inl (NameNotBare value)
      else let labels = Split CHR ''.'' (TrimSuffix value ''.'') in
           if length labels < 2 then Inl (NameNoDot value)
           else checkAll (hostname_label value) labels)"

definition canonicalHostname :: "string \<Rightarrow> string" where
  "canonicalHostname value = ToLower (TrimSuffix value ''.'')"

subsection \<open>The hub\<close>

datatype hub_error =
    HubRequired | HubBadCIDR string | HubOverlapsLinks string | HubEndpoint string addr_error
  | HubNoHost string | HubControlChar string | HubPort string | HubBadDNS string
  | HubDNSOutside string string | HubServerKey key_error | UDP443Pointless | RealityNoServerName
  | RealityServerName hostname_error | RealityMimicsHub string
  | AWGUnsupported string | AWGNotNumber string string

definition validateEndpoint :: "string \<Rightarrow> (hub_error, unit) result" where
  "validateEndpoint endpoint =
     (case SplitHostPort endpoint of
        Inl e \<Rightarrow> Inl (HubEndpoint endpoint e)
      | Inr (host, rawPort) \<Rightarrow>
          if host = [] then Inl (HubNoHost endpoint)
          else if ContainsAny host [CR, NL] then Inl (HubControlChar endpoint)
          else guardE (ParsePort rawPort \<noteq> None) (HubPort endpoint))"

definition hubListenPort :: "string \<Rightarrow> (hub_error, 16 word) result" where
  "hubListenPort endpoint =
     (case SplitHostPort endpoint of
        Inl e \<Rightarrow> Inl (HubEndpoint endpoint e)
      | Inr (_, rawPort) \<Rightarrow>
          (case ParsePort rawPort of None \<Rightarrow> Inl (HubPort endpoint) | Some n \<Rightarrow> Inr (of_nat n)))"

definition awg_entry :: "(string \<times> string) list \<Rightarrow> string \<Rightarrow> (hub_error, unit) result" where
  "awg_entry parameters name =
     (if CanonicalAWGParameter name = None then Inl (AWGUnsupported name)
      else case map_of parameters name of
             None \<Rightarrow> Inl (AWGNotNumber name [])
           | Some value \<Rightarrow> guardE (ParseUint 32 value \<noteq> None) (AWGNotNumber name value))"

definition validateAWGInterface :: "(string \<times> string) list \<Rightarrow> (hub_error, unit) result" where
  "validateAWGInterface parameters = checkAll (awg_entry parameters) (sort (map fst parameters))"

definition mimics_hub :: "hub \<Rightarrow> bool" where
  "mimics_hub h =
     (case SplitHostPort (hub_Endpoint h) of
        Inl _ \<Rightarrow> False
      | Inr (host, _) \<Rightarrow>
          canonicalHostname host = canonicalHostname (rf_ServerName (fb_Reality (hub_Fallback h))))"

definition validateFallback :: "hub \<Rightarrow> (hub_error, unit) result" where
  "validateFallback h =
     bindE (if fb_UDP443 (hub_Fallback h)
            then bindE (hubListenPort (hub_Endpoint h)) (\<lambda>port. guardE (port \<noteq> RealityPort) UDP443Pointless)
            else Inr ())
       (\<lambda>_. let reality = fb_Reality (hub_Fallback h) in
         if \<not> rf_Enabled reality then Inr ()
         else if rf_ServerName reality = [] then Inl RealityNoServerName
         else bindE (mapErr RealityServerName (validateHostname (rf_ServerName reality)))
           (\<lambda>_. guardE (\<not> mimics_hub h) (RealityMimicsHub (rf_ServerName reality))))"

definition validateHubNetwork :: "hub \<Rightarrow> (hub_error, unit) result" where
  "validateHubNetwork h =
     (case parseNetworkPrefix (hub_ClientCIDR h) of
        None \<Rightarrow> Inl (HubBadCIDR (hub_ClientCIDR h))
      | Some clientSubnet \<Rightarrow>
          if prefixesOverlap (hub_ClientCIDR h) egressLinkBase then Inl (HubOverlapsLinks (hub_ClientCIDR h))
          else bindE (validateEndpoint (hub_Endpoint h)) (\<lambda>_.
            case ParseAddr (hub_DNSAddress h) of
              None \<Rightarrow> Inl (HubBadDNS (hub_DNSAddress h))
            | Some dnsAddr \<Rightarrow>
                if \<not> PrefixContains clientSubnet dnsAddr
                then Inl (HubDNSOutside (hub_DNSAddress h) (hub_ClientCIDR h))
                else bindE (mapErr HubServerKey (ValidatePublicKey (hub_ServerPublicKey h))) (\<lambda>_.
                     bindE (validateFallback h) (\<lambda>_. validateAWGInterface (hub_AWGInterface h)))))"

subsection \<open>Identifiers\<close>

text \<open>The pattern \<open>^[a-z0-9][a-z0-9-]*$\<close>.\<close>

definition identifierPattern :: "string \<Rightarrow> bool" where
  "identifierPattern s =
     (case s of [] \<Rightarrow> False
      | c # cs \<Rightarrow> (is_lower c \<or> is_digit c) \<and> list_all (\<lambda>c. is_lower c \<or> is_digit c \<or> c = CHR ''-'') cs)"

definition maxTunnelIDLength :: nat where "maxTunnelIDLength = 12"
definition maxDeviceIDLength :: nat where "maxDeviceIDLength = 32"

subsection \<open>Validate (service.go)\<close>

datatype device_error =
    DeviceIDRequired | DeviceIDPattern string | DeviceIDTooLong string | DeviceUsesProfiles string
  | DuplicateDevice string | DeviceFieldsRequired string | DeviceAddress string profile_error
  | DeviceClaimsHub string string | DeviceKey string key_error | AddressShared string string string
  | KeyShared string string

datatype zone_use_error = EmptyZone | BadZone zone_error | ZoneConflict string string string

datatype tunnel_error =
    TunnelIDRequired | TunnelIDPattern | TunnelIDReserved | TunnelIDTooLong | DuplicateTunnel
  | UnsupportedType string | UnsupportedRole string | SourceRequired | InlineCredential string
  | XraySourceKind | SourceKindConfig string | AllowedUnknown string | TunnelHealthError probe_error
  | ZonesWithoutServers | BadResolver string | TunnelZone zone_use_error

datatype egress_error = NotAnEgress | EgressDisabled | EgressNotAllowed

datatype acl_error =
    ACLFieldsRequired | ACLSourceUnknown string | ACLTargetUnknown string | ACLSelf string
  | ACLProtocol string string string | ACLPort string string | ACLDuplicate client_acl

datatype route_error = BadRoute | RouteConflict string string

datatype validate_error =
    HubError hub_error
  | DeviceError device_error
  | TunnelError string tunnel_error
  | EgressError string string egress_error
  | ACLError acl_error
  | NoWayOut
  | RouteError string string route_error

record dev_seen =
  sn_ids :: "string list"
  sn_addresses :: "(string \<times> string) list"
  sn_keys :: "(string \<times> string) list"

text \<open>The device loop's comparison with the hub's resolver address, on parsed addresses.\<close>

definition claims_hub_address :: "hub \<Rightarrow> device \<Rightarrow> bool" where
  "claims_hub_address h d =
     (case ParsePrefix (d_Address d) of
        None \<Rightarrow> False
      | Some devAddr \<Rightarrow>
          (case ParseAddr (hub_DNSAddress h) of None \<Rightarrow> False | Some dnsAddr \<Rightarrow> pfx_addr devAddr = dnsAddr))"

definition device_step :: "hub \<Rightarrow> dev_seen \<Rightarrow> device \<Rightarrow> (device_error, dev_seen) result" where
  "device_step h seen d =
     (let i = d_ID d in
      if i = [] then Inl DeviceIDRequired
      else if \<not> identifierPattern i then Inl (DeviceIDPattern i)
      else if maxDeviceIDLength < length i then Inl (DeviceIDTooLong i)
      else if d_Profiles d \<noteq> [] then Inl (DeviceUsesProfiles i)
      else if i \<in> set (sn_ids seen) then Inl (DuplicateDevice i)
      else if d_Address d = [] \<or> d_PublicKey d = [] \<or> d_Egress d = [] then Inl (DeviceFieldsRequired i)
      else bindE (mapErr (DeviceAddress i) (validateProfileAddress (d_Address d) (hub_ClientCIDR h))) (\<lambda>_.
        if claims_hub_address h d then Inl (DeviceClaimsHub i (d_Address d))
        else bindE (mapErr (DeviceKey i) (ValidatePublicKey (d_PublicKey d))) (\<lambda>_.
          case map_of (sn_addresses seen) (d_Address d) of
            Some previous \<Rightarrow> Inl (AddressShared (d_Address d) previous i)
          | None \<Rightarrow>
              (case map_of (sn_keys seen) (d_PublicKey d) of
                 Some previous \<Rightarrow> Inl (KeyShared i previous)
               | None \<Rightarrow> Inr \<lparr>sn_ids = i # sn_ids seen,
                             sn_addresses = (d_Address d, i) # sn_addresses seen,
                             sn_keys = (d_PublicKey d, i) # sn_keys seen\<rparr>))))"

definition validateTunnel :: "tunnel \<Rightarrow> string list \<Rightarrow> (tunnel_error, unit) result" where
  "validateTunnel t deviceIDs =
     (let kind = ts_Kind (t_Source t) in
      if t_Type t \<noteq> TunnelWireGuard \<and> t_Type t \<noteq> TunnelOpenVPN \<and> t_Type t \<noteq> TunnelXray
         \<and> t_Type t \<noteq> TunnelAmneziaWG then Inl (UnsupportedType (t_Type t))
      else if t_Role t \<noteq> RolePrivateNetwork \<and> t_Role t \<noteq> RoleEgress then Inl (UnsupportedRole (t_Role t))
      else if ts_Value (t_Source t) = [] then Inl SourceRequired
      else bindE
        (if t_Type t = TunnelXray then
           (if kind = SourceConfig \<or> kind = SourceSubscription then Inr ()
            else if kind = SourceXrayURI \<or> kind = SourceXrayJSON then Inl (InlineCredential kind)
            else Inl XraySourceKind)
         else if kind \<noteq> SourceConfig then Inl (SourceKindConfig (t_Type t))
         else Inr ())
        (\<lambda>_. checkAll (\<lambda>deviceID. guardE (deviceID \<in> set deviceIDs) (AllowedUnknown deviceID))
               (t_AllowedDevices t)))"

definition normalizeZone :: "string \<Rightarrow> string" where
  "normalizeZone zone = TrimSet (ToLower zone) ''. ''"

definition zonesOverlap :: "string \<Rightarrow> string \<Rightarrow> bool" where
  "zonesOverlap a b \<longleftrightarrow> a = b \<or> HasSuffix a (''.'' @ b) \<or> HasSuffix b (''.'' @ a)"

definition zone_step ::
    "string \<Rightarrow> (string \<times> string) list \<Rightarrow> string \<Rightarrow> (zone_use_error, (string \<times> string) list) result" where
  "zone_step i zones rawZone =
     (let zone = normalizeZone rawZone in
      if zone = [] then Inl EmptyZone
      else bindE (mapErr BadZone (ValidateDNSZone zone)) (\<lambda>_.
        case find (\<lambda>(existing, _). zonesOverlap zone existing) zones of
          Some (existing, existingTunnel) \<Rightarrow> Inl (ZoneConflict zone existing existingTunnel)
        | None \<Rightarrow> Inr ((zone, i) # zones)))"

record tun_seen =
  tn_tunnels :: "(string \<times> tunnel) list"
  tn_zones :: "(string \<times> string) list"

definition tunnel_step :: "string list \<Rightarrow> tun_seen \<Rightarrow> tunnel \<Rightarrow> (tunnel_error, tun_seen) result" where
  "tunnel_step deviceIDs seen t =
     (let i = t_ID t in
      if i = [] then Inl TunnelIDRequired
      else if \<not> identifierPattern i then Inl TunnelIDPattern
      else if i = EgressDirect then Inl TunnelIDReserved
      else if maxTunnelIDLength < length i then Inl TunnelIDTooLong
      else if map_of (tn_tunnels seen) i \<noteq> None then Inl DuplicateTunnel
      else bindE (validateTunnel t deviceIDs) (\<lambda>_.
           bindE (mapErr TunnelHealthError (HealthCheckValidate (t_Health t))) (\<lambda>_.
             if t_DNSZones t \<noteq> [] \<and> t_DNSServers t = [] then Inl ZonesWithoutServers
             else bindE (checkAll (\<lambda>r. guardE (ParseAddr r \<noteq> None) (BadResolver r)) (t_DNSServers t)) (\<lambda>_.
                  bindE (mapErr TunnelZone (foldE (zone_step i) (tn_zones seen) (t_DNSZones t))) (\<lambda>zones.
                    Inr \<lparr>tn_tunnels = (i, t) # tn_tunnels seen, tn_zones = zones\<rparr>)))))"

definition egress_choice :: "(string \<times> tunnel) list \<Rightarrow> device \<Rightarrow> (egress_error, unit) result" where
  "egress_choice tunnels d =
     (if d_Egress d = EgressDirect then Inr ()
      else case map_of tunnels (d_Egress d) of
             None \<Rightarrow> Inl NotAnEgress
           | Some t \<Rightarrow>
               if t_Role t \<noteq> RoleEgress then Inl NotAnEgress
               else if \<not> IsEnabled t then Inl EgressDisabled
               else guardE (t_AllowedDevices t = [] \<or> d_ID d \<in> set (t_AllowedDevices t)) EgressNotAllowed)"

text \<open>
  The key under which a client ACL is remembered is the text of its four fields separated
  by NUL bytes, so the model remembers the rules themselves: no field of a rule that gets
  this far holds a NUL.
\<close>

definition acl_step :: "string list \<Rightarrow> client_acl list \<Rightarrow> client_acl \<Rightarrow> (acl_error, client_acl list) result" where
  "acl_step deviceIDs seen r =
     (if acl_Source r = [] \<or> acl_Target r = [] then Inl ACLFieldsRequired
      else if acl_Source r \<noteq> ClientACLAny \<and> acl_Source r \<notin> set deviceIDs then Inl (ACLSourceUnknown (acl_Source r))
      else if acl_Target r \<notin> set deviceIDs then Inl (ACLTargetUnknown (acl_Target r))
      else if acl_Source r = acl_Target r then Inl (ACLSelf (acl_Source r))
      else if acl_Protocol r \<noteq> ClientACLTCP \<and> acl_Protocol r \<noteq> ClientACLUDP
        then Inl (ACLProtocol (acl_Source r) (acl_Target r) (acl_Protocol r))
      else if acl_Port r = 0 then Inl (ACLPort (acl_Source r) (acl_Target r))
      else if r \<in> set seen then Inl (ACLDuplicate r)
      else Inr (r # seen))"

definition validateClientACLs :: "client_acl list \<Rightarrow> string list \<Rightarrow> (acl_error, unit) result" where
  "validateClientACLs rules deviceIDs = bindE (foldE (acl_step deviceIDs) [] rules) (\<lambda>_. Inr ())"

definition route_step ::
    "string \<Rightarrow> (string \<times> string) list \<Rightarrow> string \<Rightarrow> (validate_error, (string \<times> string) list) result" where
  "route_step i routes route =
     (if parseNetworkPrefix route = None then Inl (RouteError i route BadRoute)
      else case find (\<lambda>(_, r). prefixesOverlap route r) routes of
             Some (owner, r) \<Rightarrow> Inl (RouteError i route (RouteConflict r owner))
           | None \<Rightarrow> Inr (routes @ [(i, route)]))"

definition validateRouteOverlaps :: "tunnel list \<Rightarrow> (validate_error, unit) result" where
  "validateRouteOverlaps tunnels =
     bindE (foldE (\<lambda>routes t. foldE (route_step (t_ID t)) routes (t_Routes t)) [] tunnels) (\<lambda>_. Inr ())"

definition no_devices_seen :: dev_seen where
  "no_devices_seen = \<lparr>sn_ids = [], sn_addresses = [], sn_keys = []\<rparr>"

definition no_tunnels_seen :: tun_seen where
  "no_tunnels_seen = \<lparr>tn_tunnels = [], tn_zones = []\<rparr>"

definition Validate :: "config \<Rightarrow> (validate_error, unit) result" where
  "Validate cfg =
     (let h = cfg_Hub cfg in
      if hub_Endpoint h = [] \<or> hub_ServerPublicKey h = [] \<or> hub_ClientCIDR h = [] \<or> hub_DNSAddress h = []
        then Inl (HubError HubRequired)
      else bindE (mapErr HubError (validateHubNetwork h)) (\<lambda>_.
        bindE (mapErr DeviceError (foldE (device_step h) no_devices_seen (cfg_Devices cfg))) (\<lambda>devs.
        bindE (foldE (\<lambda>seen t. mapErr (TunnelError (t_ID t)) (tunnel_step (sn_ids devs) seen t))
                 no_tunnels_seen (cfg_Tunnels cfg)) (\<lambda>tuns.
        let enabledEgresses = length (filter (\<lambda>t. t_Role t = RoleEgress \<and> IsEnabled t) (cfg_Tunnels cfg)) in
        bindE (checkAll (\<lambda>d. mapErr (EgressError (d_ID d) (d_Egress d)) (egress_choice (tn_tunnels tuns) d))
                 (cfg_Devices cfg)) (\<lambda>_.
        bindE (mapErr ACLError (validateClientACLs (cfg_ClientACLs cfg) (sn_ids devs))) (\<lambda>_.
          if cfg_Devices cfg \<noteq> [] \<and> enabledEgresses = 0
             \<and> \<not> list_ex (\<lambda>d. d_Egress d = EgressDirect) (cfg_Devices cfg)
          then Inl NoWayOut
          else validateRouteOverlaps (cfg_Tunnels cfg)))))))"

end
