(* ===== verification/ValidConfig.thy ===== *)
theory ValidConfig
  imports Validation
begin

text \<open>
  What a valid configuration is, stated without loops or seen-sets, and the proof that
  \<open>Validate\<close> accepts exactly the valid ones.  Every later component may therefore rely on
  the conjuncts of \<open>valid_config\<close>.
\<close>

subsection \<open>The hub\<close>

definition reality_ok :: "hub \<Rightarrow> bool" where
  "reality_ok h \<longleftrightarrow>
     (rf_Enabled (fb_Reality (hub_Fallback h)) \<longrightarrow>
        validateHostname (rf_ServerName (fb_Reality (hub_Fallback h))) = Inr () \<and>
        rf_ServerName (fb_Reality (hub_Fallback h)) \<noteq> [] \<and> \<not> mimics_hub h)"

definition awg_ok :: "(string \<times> string) list \<Rightarrow> bool" where
  "awg_ok ps \<longleftrightarrow>
     (\<forall>name \<in> fst ` set ps. CanonicalAWGParameter name \<noteq> None \<and>
        (\<exists>value. map_of ps name = Some value \<and> ParseUint 32 value \<noteq> None))"

definition hub_ok :: "hub \<Rightarrow> bool" where
  "hub_ok h \<longleftrightarrow>
     (\<exists>subnet host rawPort port dns.
        parseNetworkPrefix (hub_ClientCIDR h) = Some subnet \<and>
        \<not> prefixesOverlap (hub_ClientCIDR h) egressLinkBase \<and>
        SplitHostPort (hub_Endpoint h) = Inr (host, rawPort) \<and>
        host \<noteq> [] \<and> CR \<notin> set host \<and> NL \<notin> set host \<and>
        ParsePort rawPort = Some port \<and>
        (fb_UDP443 (hub_Fallback h) \<longrightarrow> port \<noteq> 443) \<and>
        ParseAddr (hub_DNSAddress h) = Some dns \<and>
        PrefixContains subnet dns) \<and>
     ValidatePublicKey (hub_ServerPublicKey h) = Inr () \<and>
     reality_ok h \<and> awg_ok (hub_AWGInterface h)"

lemma hubListenPort_Inr_iff:
  "hubListenPort e = Inr p \<longleftrightarrow>
     (\<exists>host raw n. SplitHostPort e = Inr (host, raw) \<and> ParsePort raw = Some n \<and> p = of_nat n)"
  by (auto simp: hubListenPort_def split: sum.splits option.splits)

lemma port_word_eq: "n < 65536 \<Longrightarrow> (of_nat n = RealityPort) = (n = 443)"
  by (simp add: RealityPort_def word_unat_eq_iff unat_of_nat)

lemma validateAWGInterface_ok_iff: "validateAWGInterface ps = Inr () \<longleftrightarrow> awg_ok ps"
  by (auto simp: validateAWGInterface_def checkAll_Inr_iff awg_entry_def awg_ok_def split: option.splits if_splits)

lemma validateEndpoint_ok_iff:
  "validateEndpoint e = Inr () \<longleftrightarrow>
     (\<exists>host raw n. SplitHostPort e = Inr (host, raw) \<and> host \<noteq> [] \<and> CR \<notin> set host \<and> NL \<notin> set host \<and>
        ParsePort raw = Some n)"
  by (auto simp: validateEndpoint_def ContainsAny_def list_ex_iff split: sum.splits if_splits)

lemma validateFallback_ok_iff:
  assumes "SplitHostPort (hub_Endpoint h) = Inr (host, raw)" "ParsePort raw = Some n"
  shows "validateFallback h = Inr () \<longleftrightarrow> (fb_UDP443 (hub_Fallback h) \<longrightarrow> n \<noteq> 443) \<and> reality_ok h"
proof -
  have "n < 65536" using assms(2) ParsePort_range by blast
  then show ?thesis
    using assms
    by (auto simp: validateFallback_def bindE_Inr_iff hubListenPort_Inr_iff Let_def reality_ok_def port_word_eq)
qed

lemma validateHubNetwork_ok_iff: "validateHubNetwork h = Inr () \<longleftrightarrow> hub_ok h"
proof (cases "\<exists>host raw n. SplitHostPort (hub_Endpoint h) = Inr (host, raw) \<and> ParsePort raw = Some n")
  case True
  then obtain host raw n where e: "SplitHostPort (hub_Endpoint h) = Inr (host, raw)" "ParsePort raw = Some n"
    by blast
  show ?thesis
    by (auto simp: validateHubNetwork_def hub_ok_def bindE_Inr_iff validateEndpoint_ok_iff e
        validateFallback_ok_iff[OF e] validateAWGInterface_ok_iff split: option.splits)
next
  case False
  then have "validateEndpoint (hub_Endpoint h) \<noteq> Inr ()" by (auto simp: validateEndpoint_ok_iff)
  with False show ?thesis
    by (auto simp: validateHubNetwork_def hub_ok_def bindE_Inr_iff split: option.splits)
qed

subsection \<open>Devices\<close>

text \<open>A host route of the client subnet that is neither its network nor its broadcast address.\<close>

definition profile_ok :: "string \<Rightarrow> string \<Rightarrow> bool" where
  "profile_ok value cidr \<longleftrightarrow>
     (\<exists>p s. ParsePrefix value = Some p \<and> parseNetworkPrefix cidr = Some s \<and>
        pfx_bits p = BitLen (pfx_addr p) \<and> PrefixContains s (pfx_addr p) \<and>
        (Is4 (pfx_addr p) \<and> pfx_bits s < 31 \<longrightarrow>
           pfx_addr p \<noteq> pfx_addr s \<and> PrefixContains s (NextAddr (pfx_addr p))))"

lemma validateProfileAddress_ok_iff: "validateProfileAddress v c = Inr () \<longleftrightarrow> profile_ok v c"
proof (cases "ParsePrefix v")
  case (Some p)
  have "(if Is6 (pfx_addr p) then 128 else 32) = BitLen (pfx_addr p)"
    using wf_ParsePrefix[OF Some] by (cases "pfx_addr p") (auto simp: wf_prefix_def)
  with Some show ?thesis
    by (auto simp: validateProfileAddress_def profile_ok_def split: option.splits if_splits)
qed (auto simp: validateProfileAddress_def profile_ok_def)

definition device_ok :: "hub \<Rightarrow> device \<Rightarrow> bool" where
  "device_ok h d \<longleftrightarrow>
     identifierPattern (d_ID d) \<and> length (d_ID d) \<le> 32 \<and> d_Profiles d = [] \<and> d_Egress d \<noteq> [] \<and>
     profile_ok (d_Address d) (hub_ClientCIDR h) \<and> \<not> claims_hub_address h d \<and>
     ValidatePublicKey (d_PublicKey d) = Inr ()"

definition devices_seen :: "device list \<Rightarrow> dev_seen" where
  "devices_seen ds = \<lparr>sn_ids = rev (map d_ID ds),
     sn_addresses = rev (map (\<lambda>d. (d_Address d, d_ID d)) ds),
     sn_keys = rev (map (\<lambda>d. (d_PublicKey d, d_ID d)) ds)\<rparr>"

lemma map_of_rev_None_iff: "map_of (rev (map (\<lambda>x. (f x, g x)) xs)) k = None \<longleftrightarrow> k \<notin> f ` set xs"
  by (force simp: map_of_eq_None_iff)

lemma ValidatePublicKey_nonempty [simp]: "ValidatePublicKey [] \<noteq> Inr ()"
  by (simp add: ValidatePublicKey_def StdDecode_def drop_breaks_def KeyLength_def)

lemma ParsePrefix_Nil [simp]: "ParsePrefix [] = None"
  by (simp add: ParsePrefix_def CutLastByte_def)

lemma profile_ok_nonempty [simp]: "\<not> profile_ok [] c"
  by (simp add: profile_ok_def)

lemma identifierPattern_Nil [simp]: "\<not> identifierPattern []"
  by (simp add: identifierPattern_def)

lemma device_step_iff:
  "device_step h (devices_seen ds) d = Inr s \<longleftrightarrow>
     (device_ok h d \<and> d_ID d \<notin> d_ID ` set ds \<and> d_Address d \<notin> d_Address ` set ds \<and>
      d_PublicKey d \<notin> d_PublicKey ` set ds) \<and> s = devices_seen (ds @ [d])"
proof -
  have none: "map_of (sn_addresses (devices_seen ds)) a = None \<longleftrightarrow> a \<notin> d_Address ` set ds"
    "map_of (sn_keys (devices_seen ds)) k = None \<longleftrightarrow> k \<notin> d_PublicKey ` set ds" for a k
    by (simp_all add: devices_seen_def map_of_rev_None_iff)
  have ids: "set (sn_ids (devices_seen ds)) = d_ID ` set ds" by (simp add: devices_seen_def)
  have new: "devices_seen (ds @ [d]) = \<lparr>sn_ids = d_ID d # sn_ids (devices_seen ds),
      sn_addresses = (d_Address d, d_ID d) # sn_addresses (devices_seen ds),
      sn_keys = (d_PublicKey d, d_ID d) # sn_keys (devices_seen ds)\<rparr>"
    by (simp add: devices_seen_def)
  show ?thesis
    unfolding new device_step_def Let_def ids device_ok_def none[symmetric]
    by (auto simp: bindE_Inr_iff validateProfileAddress_ok_iff maxDeviceIDLength_def
        split: option.splits if_splits)
qed

lemma devices_loop_iff:
  "foldE (device_step h) no_devices_seen ds = Inr s \<longleftrightarrow>
     ((\<forall>d \<in> set ds. device_ok h d) \<and> distinct (map d_ID ds) \<and> distinct (map d_Address ds) \<and>
      distinct (map d_PublicKey ds)) \<and> s = devices_seen ds"
proof -
  have start: "no_devices_seen = devices_seen []" by (simp add: devices_seen_def no_devices_seen_def)
  show ?thesis
    unfolding start foldE_history[where st = devices_seen and ys = "[]", OF device_step_iff]
    by (auto simp: distinct_map_take_iff all_set_conv_all_nth)
qed

subsection \<open>Tunnels\<close>

definition source_ok :: "tunnel \<Rightarrow> bool" where
  "source_ok t \<longleftrightarrow>
     ts_Value (t_Source t) \<noteq> [] \<and>
     (ts_Kind (t_Source t) = SourceConfig \<or>
      t_Type t = TunnelXray \<and> ts_Kind (t_Source t) = SourceSubscription)"

definition tunnel_shape_ok :: "string set \<Rightarrow> tunnel \<Rightarrow> bool" where
  "tunnel_shape_ok ids t \<longleftrightarrow>
     t_Type t \<in> {TunnelWireGuard, TunnelOpenVPN, TunnelXray, TunnelAmneziaWG} \<and>
     t_Role t \<in> {RolePrivateNetwork, RoleEgress} \<and> source_ok t \<and> set (t_AllowedDevices t) \<subseteq> ids"

definition zone_ok :: "string \<Rightarrow> bool" where
  "zone_ok z \<longleftrightarrow> ValidateDNSZone (normalizeZone z) = Inr ()"

definition tunnel_ok :: "string set \<Rightarrow> tunnel \<Rightarrow> bool" where
  "tunnel_ok ids t \<longleftrightarrow>
     identifierPattern (t_ID t) \<and> t_ID t \<noteq> EgressDirect \<and> length (t_ID t) \<le> 12 \<and>
     tunnel_shape_ok ids t \<and> HealthCheckValidate (t_Health t) = Inr () \<and>
     (t_DNSZones t \<noteq> [] \<longrightarrow> t_DNSServers t \<noteq> []) \<and>
     (\<forall>r \<in> set (t_DNSServers t). ParseAddr r \<noteq> None) \<and>
     (\<forall>z \<in> set (t_DNSZones t). zone_ok z)"

lemma validateTunnel_ok_iff:
  "validateTunnel t ids = Inr () \<longleftrightarrow> tunnel_shape_ok (set ids) t"
  by (auto simp: tunnel_shape_ok_def validateTunnel_def Let_def bindE_Inr_iff checkAll_Inr_iff source_ok_def)

text \<open>The zones of a configuration in the order they are met, and the seen-map they leave.\<close>

definition zone_pairs :: "tunnel \<Rightarrow> (string \<times> string) list" where
  "zone_pairs t = map (\<lambda>z. (normalizeZone z, t_ID t)) (t_DNSZones t)"

definition zones_of :: "tunnel \<Rightarrow> string list" where
  "zones_of t = map normalizeZone (t_DNSZones t)"

lemma map_fst_zone_pairs [simp]: "map fst (zone_pairs t) = zones_of t"
  by (simp add: zone_pairs_def zones_of_def)

lemma zone_step_iff:
  "zone_step i (rev (map (\<lambda>z. (normalizeZone z, i)) zs) @ old) z = Inr s \<longleftrightarrow>
     (zone_ok z \<and> (\<forall>e \<in> normalizeZone ` set zs \<union> fst ` set old. \<not> zonesOverlap (normalizeZone z) e)) \<and>
     s = rev (map (\<lambda>z. (normalizeZone z, i)) (zs @ [z])) @ old"
proof -
  have "find (\<lambda>(e, _). zonesOverlap (normalizeZone z) e) (rev (map (\<lambda>z. (normalizeZone z, i)) zs) @ old) = None
      \<longleftrightarrow> (\<forall>e \<in> normalizeZone ` set zs \<union> fst ` set old. \<not> zonesOverlap (normalizeZone z) e)"
    unfolding find_fst_None_iff by (simp add: image_Un image_image)
  moreover have "ValidateDNSZone [] \<noteq> Inr ()" by (simp add: ValidateDNSZone_def)
  ultimately show ?thesis
    by (auto simp: zone_step_def Let_def bindE_Inr_iff zone_ok_def split: option.splits)
qed

lemma zones_loop_iff:
  "foldE (zone_step i) old zs = Inr s \<longleftrightarrow>
     ((\<forall>z \<in> set zs. zone_ok z) \<and> sorted_wrt (\<lambda>a b. \<not> zonesOverlap b a) (map normalizeZone zs) \<and>
      (\<forall>e \<in> fst ` set old. \<forall>z \<in> set (map normalizeZone zs). \<not> zonesOverlap z e)) \<and>
     s = rev (map (\<lambda>z. (normalizeZone z, i)) zs) @ old"
  using foldE_seen[where f = "zone_step i" and xs = zs and P = zone_ok and g = normalizeZone
      and A = "fst ` set old" and Q = "\<lambda>e z. \<not> zonesOverlap (normalizeZone z) e"
      and st = "\<lambda>zs. rev (map (\<lambda>z. (normalizeZone z, i)) zs) @ old", OF zone_step_iff]
  by (simp add: sorted_wrt_map)

definition tunnels_seen :: "tunnel list \<Rightarrow> tun_seen" where
  "tunnels_seen ts = \<lparr>tn_tunnels = rev (map (\<lambda>t. (t_ID t, t)) ts), tn_zones = rev (concat (map zone_pairs ts))\<rparr>"

lemma fst_tn_zones: "fst ` set (tn_zones (tunnels_seen ts)) = set (concat (map zones_of ts))"
  by (force simp: tunnels_seen_def zones_of_def zone_pairs_def)

definition tunnel_new :: "tunnel list \<Rightarrow> tunnel \<Rightarrow> bool" where
  "tunnel_new ts t \<longleftrightarrow>
     t_ID t \<notin> t_ID ` set ts \<and> sorted_wrt (\<lambda>a b. \<not> zonesOverlap b a) (zones_of t) \<and>
     (\<forall>a \<in> set (concat (map zones_of ts)). \<forall>b \<in> set (zones_of t). \<not> zonesOverlap b a)"

lemma tunnel_step_iff:
  "mapErr f (tunnel_step ids (tunnels_seen ts) t) = Inr s \<longleftrightarrow>
     (tunnel_ok (set ids) t \<and> tunnel_new ts t) \<and> s = tunnels_seen (ts @ [t])"
proof -
  have new: "tunnels_seen (ts @ [t]) = \<lparr>tn_tunnels = (t_ID t, t) # tn_tunnels (tunnels_seen ts),
      tn_zones = rev (map (\<lambda>z. (normalizeZone z, t_ID t)) (t_DNSZones t)) @ tn_zones (tunnels_seen ts)\<rparr>"
    by (simp add: tunnels_seen_def zone_pairs_def)
  have none: "map_of (tn_tunnels (tunnels_seen ts)) i = None \<longleftrightarrow> i \<notin> t_ID ` set ts" for i
    by (simp add: tunnels_seen_def map_of_rev_None_iff)
  show ?thesis
  proof (cases "identifierPattern (t_ID t) \<and> t_ID t \<noteq> EgressDirect \<and> length (t_ID t) \<le> 12 \<and> t_ID t \<notin> t_ID ` set ts")
    case True
    then have "t_ID t \<noteq> []" by auto
    with True show ?thesis
      unfolding mapErr_Inr_iff new tunnel_step_def Let_def tunnel_ok_def tunnel_new_def
      by (auto simp: bindE_Inr_iff validateTunnel_ok_iff zones_loop_iff checkAll_Inr_iff maxTunnelIDLength_def
          none fst_tn_zones zones_of_def simp del: set_concat split: if_splits)
  next
    case False
    then have "\<not> (tunnel_ok (set ids) t \<and> tunnel_new ts t)" by (auto simp: tunnel_ok_def tunnel_new_def)
    moreover have "mapErr f (tunnel_step ids (tunnels_seen ts) t) \<noteq> Inr s"
      using False none[of "t_ID t"] by (auto simp: tunnel_step_def Let_def maxTunnelIDLength_def)
    ultimately show ?thesis by blast
  qed
qed

lemma tunnels_loop_iff:
  "foldE (\<lambda>seen t. mapErr (TunnelError (t_ID t)) (tunnel_step ids seen t)) no_tunnels_seen ts = Inr s \<longleftrightarrow>
     ((\<forall>t \<in> set ts. tunnel_ok (set ids) t) \<and> distinct (map t_ID ts) \<and>
      sorted_wrt (\<lambda>a b. \<not> zonesOverlap b a) (concat (map zones_of ts))) \<and>
     s = tunnels_seen ts"
proof -
  have start: "no_tunnels_seen = tunnels_seen []" by (simp add: tunnels_seen_def no_tunnels_seen_def)
  have "(\<forall>i < length ts. tunnel_ok (set ids) (ts ! i) \<and> tunnel_new (take i ts) (ts ! i)) \<longleftrightarrow>
      (\<forall>t \<in> set ts. tunnel_ok (set ids) t) \<and> distinct (map t_ID ts) \<and>
      sorted_wrt (\<lambda>a b. \<not> zonesOverlap b a) (concat (map zones_of ts))"
    unfolding distinct_map_take_iff sorted_wrt_concat_iff all_set_conv_all_nth[of ts] tunnel_new_def
    by blast
  then show ?thesis
    unfolding start foldE_history[where st = tunnels_seen and ys = "[]", OF tunnel_step_iff] append_Nil
    by simp
qed

subsection \<open>Egress choices, client ACLs, routes\<close>

definition egress_ok :: "tunnel list \<Rightarrow> device \<Rightarrow> bool" where
  "egress_ok ts d \<longleftrightarrow>
     d_Egress d = EgressDirect \<or>
     (\<exists>t \<in> set ts. t_ID t = d_Egress d \<and> t_Role t = RoleEgress \<and> IsEnabled t \<and>
        (t_AllowedDevices t = [] \<or> d_ID d \<in> set (t_AllowedDevices t)))"

lemma egress_choice_iff:
  assumes "distinct (map t_ID ts)"
  shows "egress_choice (tn_tunnels (tunnels_seen ts)) d = Inr () \<longleftrightarrow> egress_ok ts d"
proof -
  have dist: "distinct (map fst (rev (map (\<lambda>t. (t_ID t, t)) ts)))"
    using assms by (simp add: rev_map comp_def distinct_map)
  have lookup: "map_of (tn_tunnels (tunnels_seen ts)) e = Some t \<longleftrightarrow> t \<in> set ts \<and> t_ID t = e" for e t
    unfolding tunnels_seen_def tun_seen.simps map_of_eq_Some_iff[OF dist] by auto
  show ?thesis
  proof (cases "map_of (tn_tunnels (tunnels_seen ts)) (d_Egress d)")
    case None
    then have "\<not> (\<exists>t \<in> set ts. t_ID t = d_Egress d)" using lookup[of "d_Egress d"] by simp
    with None show ?thesis by (auto simp: egress_choice_def egress_ok_def)
  next
    case (Some t)
    then have "t \<in> set ts" "t_ID t = d_Egress d" using lookup by blast+
    moreover have "u = t" if "u \<in> set ts" "t_ID u = d_Egress d" for u
      using that lookup[of "d_Egress d" u] Some by simp
    ultimately have "(\<exists>u \<in> set ts. t_ID u = d_Egress d \<and> Q u) \<longleftrightarrow> Q t" for Q by blast
    with Some show ?thesis by (simp add: egress_choice_def egress_ok_def)
  qed
qed

definition acl_ok :: "string set \<Rightarrow> client_acl \<Rightarrow> bool" where
  "acl_ok ids r \<longleftrightarrow>
     acl_Source r \<noteq> [] \<and> acl_Target r \<noteq> [] \<and> (acl_Source r = ClientACLAny \<or> acl_Source r \<in> ids) \<and>
     acl_Target r \<in> ids \<and> acl_Source r \<noteq> acl_Target r \<and>
     acl_Protocol r \<in> {ClientACLTCP, ClientACLUDP} \<and> acl_Port r \<noteq> 0"

lemma acl_step_iff:
  "acl_step ids (rev rs) r = Inr s \<longleftrightarrow> (acl_ok (set ids) r \<and> r \<notin> set rs) \<and> s = rev (rs @ [r])"
  by (auto simp: acl_step_def acl_ok_def)

lemma validateClientACLs_ok_iff:
  "validateClientACLs rs ids = Inr () \<longleftrightarrow> (\<forall>r \<in> set rs. acl_ok (set ids) r) \<and> distinct rs"
  using foldE_history[where f = "acl_step ids" and st = rev and ys = "[]" and xs = rs, OF acl_step_iff]
  by (auto simp: validateClientACLs_def bindE_Inr_iff distinct_take_iff all_set_conv_all_nth)

definition route_pairs :: "tunnel \<Rightarrow> (string \<times> string) list" where
  "route_pairs t = map (Pair (t_ID t)) (t_Routes t)"

lemma route_step_iff:
  "route_step i (old @ map (Pair i) rs) r = Inr s \<longleftrightarrow>
     (parseNetworkPrefix r \<noteq> None \<and> (\<forall>e \<in> (\<lambda>r. r) ` set rs \<union> snd ` set old. \<not> prefixesOverlap r e)) \<and>
     s = old @ map (Pair i) (rs @ [r])"
proof -
  have "find (\<lambda>(_, e). prefixesOverlap r e) (old @ map (Pair i) rs) = None \<longleftrightarrow>
      (\<forall>e \<in> snd ` set old \<union> set rs. \<not> prefixesOverlap r e)"
    unfolding find_snd_None_iff by (auto simp: image_Un image_image)
  then show ?thesis by (auto simp: route_step_def split: option.splits)
qed

lemma routes_loop_iff:
  "foldE (route_step i) old rs = Inr s \<longleftrightarrow>
     ((\<forall>r \<in> set rs. parseNetworkPrefix r \<noteq> None) \<and> sorted_wrt (\<lambda>a b. \<not> prefixesOverlap b a) rs \<and>
      (\<forall>e \<in> snd ` set old. \<forall>r \<in> set rs. \<not> prefixesOverlap r e)) \<and>
     s = old @ map (Pair i) rs"
  using foldE_seen[where f = "route_step i" and xs = rs and P = "\<lambda>r. parseNetworkPrefix r \<noteq> None"
      and g = "\<lambda>r. r" and A = "snd ` set old" and Q = "\<lambda>e r. \<not> prefixesOverlap r e"
      and st = "\<lambda>rs. old @ map (Pair i) rs", OF route_step_iff]
  by simp

lemma snd_route_pairs: "snd ` set (concat (map route_pairs ts)) = set (concat (map t_Routes ts))"
  by (force simp: route_pairs_def)

lemma validateRouteOverlaps_ok_iff:
  "validateRouteOverlaps ts = Inr () \<longleftrightarrow>
     (\<forall>t \<in> set ts. \<forall>r \<in> set (t_Routes t). parseNetworkPrefix r \<noteq> None) \<and>
     sorted_wrt (\<lambda>a b. \<not> prefixesOverlap b a) (concat (map t_Routes ts))"
proof -
  define st where "st (ys :: tunnel list) = concat (map route_pairs ys)" for ys
  define ok where "ok (t :: tunnel) \<longleftrightarrow> (\<forall>r \<in> set (t_Routes t). parseNetworkPrefix r \<noteq> None)" for t
  define P where "P (ys :: tunnel list) (t :: tunnel) \<longleftrightarrow> sorted_wrt (\<lambda>a b. \<not> prefixesOverlap b a) (t_Routes t) \<and>
       (\<forall>e \<in> set (concat (map t_Routes ys)). \<forall>r \<in> set (t_Routes t). \<not> prefixesOverlap r e)" for ys t
  have step: "foldE (route_step (t_ID t)) (st ys) (t_Routes t) = Inr s \<longleftrightarrow> (ok t \<and> P ys t) \<and> s = st (ys @ [t])"
    for ys t s
    unfolding routes_loop_iff st_def snd_route_pairs P_def ok_def by (simp add: route_pairs_def)
  have "validateRouteOverlaps ts = Inr () \<longleftrightarrow> (\<forall>i < length ts. ok (ts ! i) \<and> P (take i ts) (ts ! i))"
    using foldE_history[where st = st and ys = "[]" and xs = ts, OF step]
    by (simp add: validateRouteOverlaps_def bindE_Inr_iff st_def)
  also have "\<dots> \<longleftrightarrow> (\<forall>t \<in> set ts. ok t) \<and> sorted_wrt (\<lambda>a b. \<not> prefixesOverlap b a) (concat (map t_Routes ts))"
    unfolding sorted_wrt_concat_iff all_set_conv_all_nth[of ts] P_def by blast
  finally show ?thesis by (simp add: ok_def)
qed

subsection \<open>Validate accepts exactly the valid configurations\<close>

definition device_ids :: "config \<Rightarrow> string set" where
  "device_ids cfg = d_ID ` set (cfg_Devices cfg)"

definition valid_config :: "config \<Rightarrow> bool" where
  "valid_config cfg \<longleftrightarrow>
     hub_ok (cfg_Hub cfg) \<and>
     (\<forall>d \<in> set (cfg_Devices cfg). device_ok (cfg_Hub cfg) d) \<and>
     distinct (map d_ID (cfg_Devices cfg)) \<and>
     distinct (map d_Address (cfg_Devices cfg)) \<and>
     distinct (map d_PublicKey (cfg_Devices cfg)) \<and>
     (\<forall>t \<in> set (cfg_Tunnels cfg). tunnel_ok (device_ids cfg) t) \<and>
     distinct (map t_ID (cfg_Tunnels cfg)) \<and>
     sorted_wrt (\<lambda>a b. \<not> zonesOverlap b a) (concat (map zones_of (cfg_Tunnels cfg))) \<and>
     (\<forall>d \<in> set (cfg_Devices cfg). egress_ok (cfg_Tunnels cfg) d) \<and>
     (\<forall>r \<in> set (cfg_ClientACLs cfg). acl_ok (device_ids cfg) r) \<and>
     distinct (cfg_ClientACLs cfg) \<and>
     (\<forall>t \<in> set (cfg_Tunnels cfg). \<forall>r \<in> set (t_Routes t). parseNetworkPrefix r \<noteq> None) \<and>
     sorted_wrt (\<lambda>a b. \<not> prefixesOverlap b a) (concat (map t_Routes (cfg_Tunnels cfg)))"

lemma hub_ok_required:
  assumes "hub_ok h"
  shows "hub_Endpoint h \<noteq> []" "hub_ServerPublicKey h \<noteq> []" "hub_ClientCIDR h \<noteq> []" "hub_DNSAddress h \<noteq> []"
proof -
  have "SplitHostPort [] = Inl MissingPort" by (simp add: SplitHostPort_def CutLastByte_def)
  moreover have "parseNetworkPrefix [] = None" by (simp add: parseNetworkPrefix_def)
  moreover have "ParseAddr [] = None" by (simp add: ParseAddr_def)
  ultimately show "hub_Endpoint h \<noteq> []" "hub_ServerPublicKey h \<noteq> []" "hub_ClientCIDR h \<noteq> []" "hub_DNSAddress h \<noteq> []"
    using assms ValidatePublicKey_nonempty by (auto simp: hub_ok_def)
qed

text \<open>
  A device that chose an egress tunnel proves that one is enabled, so the closing check for
  a way out never fires.
\<close>

lemma way_out:
  assumes "\<forall>d \<in> set ds. egress_ok ts d"
  shows "\<not> (ds \<noteq> [] \<and> length (filter (\<lambda>t. t_Role t = RoleEgress \<and> IsEnabled t) ts) = 0 \<and>
            \<not> list_ex (\<lambda>d. d_Egress d = EgressDirect) ds)"
proof
  assume a: "ds \<noteq> [] \<and> length (filter (\<lambda>t. t_Role t = RoleEgress \<and> IsEnabled t) ts) = 0 \<and>
            \<not> list_ex (\<lambda>d. d_Egress d = EgressDirect) ds"
  then obtain d where d: "d \<in> set ds" "d_Egress d \<noteq> EgressDirect"
    by (cases ds) auto
  with assms obtain t where "t \<in> set ts" "t_Role t = RoleEgress \<and> IsEnabled t"
    by (auto simp: egress_ok_def)
  with a show False by (auto simp: filter_empty_conv)
qed

lemma Validate_cases:
  "Validate cfg = Inr () \<longleftrightarrow>
     hub_ok (cfg_Hub cfg) \<and>
     (\<exists>devs tuns.
        foldE (device_step (cfg_Hub cfg)) no_devices_seen (cfg_Devices cfg) = Inr devs \<and>
        foldE (\<lambda>seen t. mapErr (TunnelError (t_ID t)) (tunnel_step (sn_ids devs) seen t))
          no_tunnels_seen (cfg_Tunnels cfg) = Inr tuns \<and>
        (\<forall>d \<in> set (cfg_Devices cfg). egress_choice (tn_tunnels tuns) d = Inr ()) \<and>
        validateClientACLs (cfg_ClientACLs cfg) (sn_ids devs) = Inr () \<and>
        \<not> (cfg_Devices cfg \<noteq> [] \<and>
           length (filter (\<lambda>t. t_Role t = RoleEgress \<and> IsEnabled t) (cfg_Tunnels cfg)) = 0 \<and>
           \<not> list_ex (\<lambda>d. d_Egress d = EgressDirect) (cfg_Devices cfg)) \<and>
        validateRouteOverlaps (cfg_Tunnels cfg) = Inr ())"
proof (cases "hub_ok (cfg_Hub cfg)")
  case True
  with hub_ok_required[OF True] show ?thesis
    unfolding Validate_def Let_def bindE_Inr_iff mapErr_Inr_iff validateHubNetwork_ok_iff checkAll_Inr_iff
    by (simp add: bindE_Inr_iff checkAll_Inr_iff validateHubNetwork_ok_iff del: RoleEgress_def)
next
  case False
  then show ?thesis
    by (simp add: Validate_def Let_def bindE_Inr_iff validateHubNetwork_ok_iff)
qed

lemma Validate_ok_iff: "Validate cfg = Inr () \<longleftrightarrow> valid_config cfg"
proof -
  have ids: "set (sn_ids (devices_seen ds)) = d_ID ` set ds" for ds by (simp add: devices_seen_def)
  let ?ds = "cfg_Devices cfg" and ?ts = "cfg_Tunnels cfg"
  have "Validate cfg = Inr () \<longleftrightarrow>
     hub_ok (cfg_Hub cfg) \<and>
     ((\<forall>d \<in> set ?ds. device_ok (cfg_Hub cfg) d) \<and> distinct (map d_ID ?ds) \<and> distinct (map d_Address ?ds) \<and>
      distinct (map d_PublicKey ?ds)) \<and>
     ((\<forall>t \<in> set ?ts. tunnel_ok (device_ids cfg) t) \<and> distinct (map t_ID ?ts) \<and>
      sorted_wrt (\<lambda>a b. \<not> zonesOverlap b a) (concat (map zones_of ?ts))) \<and>
     (\<forall>d \<in> set ?ds. egress_choice (tn_tunnels (tunnels_seen ?ts)) d = Inr ()) \<and>
     ((\<forall>r \<in> set (cfg_ClientACLs cfg). acl_ok (device_ids cfg) r) \<and> distinct (cfg_ClientACLs cfg)) \<and>
     \<not> (?ds \<noteq> [] \<and> length (filter (\<lambda>t. t_Role t = RoleEgress \<and> IsEnabled t) ?ts) = 0 \<and>
        \<not> list_ex (\<lambda>d. d_Egress d = EgressDirect) ?ds) \<and>
     validateRouteOverlaps ?ts = Inr ()"
    unfolding Validate_cases devices_loop_iff tunnels_loop_iff validateClientACLs_ok_iff device_ids_def ids[symmetric]
    by blast
  also have "\<dots> \<longleftrightarrow> valid_config cfg"
    unfolding valid_config_def validateRouteOverlaps_ok_iff
    using way_out[of ?ds ?ts] by (simp add: egress_choice_iff cong: conj_cong)
  finally show ?thesis .
qed

end
