(* ===== verification/Json.thy ===== *)
theory Json
  imports Domain
begin

text \<open>
  \<open>encoding/json\<close> as the program uses it: documents as trees, their compact text as
  \<open>json.Marshal\<close> prints it (the revision identifier and the ruleset fingerprint are hashes
  of that text), and the encoding of the structs that are hashed or stored, with their
  field names and \<open>omitempty\<close> tags.  A file a store writes is represented by its tree: the
  step between the indented text and the tree is the library's.

  Instants count nanoseconds from Go's zero \<open>time.Time\<close> (1 January of year 1, UTC).
\<close>

datatype json =
    JNull | JBool bool | JNum int | JStr string | JTime int
  | JArr "json list" | JObj "(string \<times> json) list"

subsection \<open>Text\<close>

definition itoa_int :: "int \<Rightarrow> string" where
  "itoa_int i = (if i < 0 then ''-'' @ Itoa (nat (- i)) else Itoa (nat i))"

text \<open>Length of the UTF-8 sequence at the head of a byte string, 0 when it is not valid.\<close>

definition cont_byte :: "nat \<Rightarrow> string \<Rightarrow> bool" where
  "cont_byte i s \<longleftrightarrow> i < length s \<and> 128 \<le> code (s ! i) \<and> code (s ! i) < 192"

definition utf8_len :: "string \<Rightarrow> nat" where
  "utf8_len s =
     (case s of [] \<Rightarrow> 0
      | c # _ \<Rightarrow>
          (let b = code c; b1 = (if 1 < length s then code (s ! 1) else 0) in
           if b < 128 then 1
           else if b < 194 then 0
           else if b < 224 then (if cont_byte 1 s then 2 else 0)
           else if b < 240 then
             (if cont_byte 1 s \<and> cont_byte 2 s \<and> (b = 224 \<longrightarrow> 160 \<le> b1) \<and> (b = 237 \<longrightarrow> b1 < 160) then 3 else 0)
           else if b < 245 then
             (if cont_byte 1 s \<and> cont_byte 2 s \<and> cont_byte 3 s \<and> (b = 240 \<longrightarrow> 144 \<le> b1) \<and> (b = 244 \<longrightarrow> b1 < 144)
              then 4 else 0)
           else 0))"

definition escape_ascii :: "char \<Rightarrow> string" where
  "escape_ascii c =
     (let b = code c in
      if c = CHR 0x22 \<or> c = CHR 0x5C then [CHR 0x5C, c]
      else if b = 8 then [CHR 0x5C, CHR ''b'']
      else if b = 12 then [CHR 0x5C, CHR ''f'']
      else if b = 10 then [CHR 0x5C, CHR ''n'']
      else if b = 13 then [CHR 0x5C, CHR ''r'']
      else if b = 9 then [CHR 0x5C, CHR ''t'']
      else if b < 32 \<or> c = CHR ''<'' \<or> c = CHR ''>'' \<or> c = CHR ''&''
        then [CHR 0x5C] @ ''u00'' @ HexEncode [c]
      else [c])"

fun escape_go :: "nat \<Rightarrow> string \<Rightarrow> string" where
  "escape_go skip [] = []"
| "escape_go (Suc skip) (c # cs) = c # escape_go skip cs"
| "escape_go 0 (c # cs) =
     (if code c < 128 then escape_ascii c @ escape_go 0 cs
      else let n = utf8_len (c # cs) in
        if n = 0 then [CHR 0x5C] @ ''ufffd'' @ escape_go 0 cs
        else if take 3 (c # cs) = [CHR 0xE2, CHR 0x80, CHR 0xA8] then [CHR 0x5C] @ ''u2028'' @ escape_go 0 (drop 2 cs)
        else if take 3 (c # cs) = [CHR 0xE2, CHR 0x80, CHR 0xA9] then [CHR 0x5C] @ ''u2029'' @ escape_go 0 (drop 2 cs)
        else c # escape_go (n - 1) cs)"

definition json_string :: "string \<Rightarrow> string" where
  "json_string s = [CHR 0x22] @ escape_go 0 s @ [CHR 0x22]"

text \<open>RFC 3339 with nanoseconds, in UTC, for years 1 to 9999.\<close>

definition pad :: "nat \<Rightarrow> nat \<Rightarrow> string" where
  "pad w n = replicate (w - length (Itoa n)) (CHR ''0'') @ Itoa n"

definition civil :: "nat \<Rightarrow> nat \<times> nat \<times> nat" where
  "civil days =
     (let z = days + 306; era = z div 146097; doe = z mod 146097;
          yoe = (doe - doe div 1460 + doe div 36524 - doe div 146096) div 365;
          doy = doe - (365 * yoe + yoe div 4 - yoe div 100);
          mp = (5 * doy + 2) div 153;
          d = doy - (153 * mp + 2) div 5 + 1;
          m = (if mp < 10 then mp + 3 else mp - 9)
      in (yoe + era * 400 + (if m \<le> 2 then 1 else 0), m, d))"

definition fraction :: "nat \<Rightarrow> string" where
  "fraction ns = (if ns = 0 then [] else ''.'' @ TrimRight (pad 9 ns) ''0'')"

definition rfc3339 :: "int \<Rightarrow> string" where
  "rfc3339 t =
     (let n = nat t; secs = n div 1000000000; ns = n mod 1000000000; (y, m, d) = civil (secs div 86400);
          s = secs mod 86400
      in pad 4 y @ ''-'' @ pad 2 m @ ''-'' @ pad 2 d @ ''T'' @ pad 2 (s div 3600) @ '':'' @
         pad 2 (s div 60 mod 60) @ '':'' @ pad 2 (s mod 60) @ fraction ns @ ''Z'')"

fun json_text :: "json \<Rightarrow> string" where
  "json_text JNull = ''null''"
| "json_text (JBool b) = (if b then ''true'' else ''false'')"
| "json_text (JNum i) = itoa_int i"
| "json_text (JStr s) = json_string s"
| "json_text (JTime t) = json_string (rfc3339 t)"
| "json_text (JArr xs) = ''['' @ Join '','' (map json_text xs) @ '']''"
| "json_text (JObj kvs) =
     ''{'' @ Join '','' (map (\<lambda>(k, v). json_string k @ '':'' @ json_text v) kvs) @ ''}''"

subsection \<open>Fields\<close>

definition field :: "string \<Rightarrow> json \<Rightarrow> (string \<times> json) list" where
  "field k v = [(k, v)]"

definition omit_str :: "string \<Rightarrow> string \<Rightarrow> (string \<times> json) list" where
  "omit_str k s = (if s = [] then [] else [(k, JStr s)])"

definition omit_bool :: "string \<Rightarrow> bool \<Rightarrow> (string \<times> json) list" where
  "omit_bool k b = (if b then [(k, JBool True)] else [])"

definition omit_num :: "string \<Rightarrow> int \<Rightarrow> (string \<times> json) list" where
  "omit_num k i = (if i = 0 then [] else [(k, JNum i)])"

definition JStrs :: "string list \<Rightarrow> json" where
  "JStrs xs = JArr (map JStr xs)"

definition omit_strs :: "string \<Rightarrow> string list \<Rightarrow> (string \<times> json) list" where
  "omit_strs k xs = (if xs = [] then [] else [(k, JStrs xs)])"

definition omit_list :: "string \<Rightarrow> ('a \<Rightarrow> json) \<Rightarrow> 'a list \<Rightarrow> (string \<times> json) list" where
  "omit_list k f xs = (if xs = [] then [] else [(k, JArr (map f xs))])"

definition omit_ptr :: "string \<Rightarrow> bool option \<Rightarrow> (string \<times> json) list" where
  "omit_ptr k p = (case p of None \<Rightarrow> [] | Some b \<Rightarrow> [(k, JBool b)])"

text \<open>A \<open>map[string]string\<close> is printed with its keys sorted.\<close>

definition JMap :: "(string \<times> string) list \<Rightarrow> json" where
  "JMap m = JObj (map (\<lambda>(k, v). (k, JStr v)) (sort_key fst m))"

definition omit_map :: "string \<Rightarrow> (string \<times> string) list \<Rightarrow> (string \<times> json) list" where
  "omit_map k m = (if m = [] then [] else [(k, JMap m)])"

subsection \<open>The stored and hashed structs\<close>

definition hub_json :: "hub \<Rightarrow> json" where
  "hub_json h = JObj
     (field ''endpoint'' (JStr (hub_Endpoint h)) @
      field ''server_public_key'' (JStr (hub_ServerPublicKey h)) @
      field ''client_cidr'' (JStr (hub_ClientCIDR h)) @
      field ''dns_address'' (JStr (hub_DNSAddress h)) @
      omit_map ''awg_interface'' (hub_AWGInterface h) @
      field ''fallback'' (JObj
        (omit_bool ''udp443'' (fb_UDP443 (hub_Fallback h)) @
         field ''reality'' (JObj
           (omit_bool ''enabled'' (rf_Enabled (fb_Reality (hub_Fallback h))) @
            omit_str ''server_name'' (rf_ServerName (fb_Reality (hub_Fallback h))))))))"

text \<open>\<open>TunnelSource.MarshalJSON\<close>: a source that carries a credential loses its value.\<close>

definition redact :: "tunnel_source \<Rightarrow> tunnel_source" where
  "redact s =
     (if ts_Kind s = SourceXrayURI \<or> ts_Kind s = SourceSubscription
      then s\<lparr>ts_Value := ''[redacted]''\<rparr> else s)"

definition source_json :: "tunnel_source \<Rightarrow> json" where
  "source_json s =
     JObj (field ''kind'' (JStr (ts_Kind (redact s))) @ field ''value'' (JStr (ts_Value (redact s))))"

definition health_json :: "health_check \<Rightarrow> json" where
  "health_json h = JObj
     (omit_str ''tcp_address'' (hc_TCPAddress h) @ omit_str ''https_url'' (hc_HTTPSURL h) @
      omit_str ''dns_name'' (hc_DNSName h))"

definition tunnel_json :: "tunnel \<Rightarrow> json" where
  "tunnel_json t = JObj
     (field ''id'' (JStr (t_ID t)) @ field ''type'' (JStr (t_Type t)) @ field ''role'' (JStr (t_Role t)) @
      omit_ptr ''enabled'' (t_Enabled t) @
      field ''source'' (source_json (t_Source t)) @
      omit_strs ''routes'' (t_Routes t) @ omit_strs ''dns_servers'' (t_DNSServers t) @
      omit_strs ''dns_zones'' (t_DNSZones t) @ omit_strs ''allowed_devices'' (t_AllowedDevices t) @
      field ''health'' (health_json (t_Health t)))"

definition acl_json :: "client_acl \<Rightarrow> json" where
  "acl_json r = JObj
     (field ''source'' (JStr (acl_Source r)) @ field ''target'' (JStr (acl_Target r)) @
      field ''protocol'' (JStr (acl_Protocol r)) @ field ''port'' (JNum (uint (acl_Port r))))"

definition deployed_json :: "deployed_device \<Rightarrow> json" where
  "deployed_json d = JObj
     (field ''id'' (JStr (dd_ID d)) @ field ''address'' (JStr (dd_Address d)) @
      field ''public_key'' (JStr (dd_PublicKey d)) @ field ''egress'' (JStr (dd_Egress d)))"

definition state_json :: "desired_state \<Rightarrow> json" where
  "state_json s = JObj
     (field ''revision'' (JStr (ds_Revision s)) @ field ''generated_at'' (JTime (ds_GeneratedAt s)) @
      field ''hub'' (hub_json (ds_Hub s)) @
      field ''devices'' (JArr (map deployed_json (ds_Devices s))) @
      field ''tunnels'' (JArr (map tunnel_json (ds_Tunnels s))) @
      omit_list ''client_acls'' acl_json (ds_ClientACLs s))"

end
