(* ===== verification/DesiredState.thy ===== *)
theory DesiredState
  imports ValidConfig Json
begin

text \<open>
  From a validated configuration to the revision the agent converges on: \<open>RemoveRevoked\<close>
  (\<open>revocation.go\<close>), \<open>sortClientACLs\<close> and \<open>BuildDesiredState\<close> (\<open>service.go\<close>).
\<close>

definition RemoveRevoked :: "config \<Rightarrow> string list \<Rightarrow> config" where
  "RemoveRevoked cfg revoked =
     (if revoked = [] then cfg
      else cfg\<lparr>cfg_Devices := filter (\<lambda>d. d_ID d \<notin> set revoked) (cfg_Devices cfg)\<rparr>)"

definition sortClientACLs :: "client_acl list \<Rightarrow> client_acl list" where
  "sortClientACLs rules = sort rules"

definition deploy_device :: "device \<Rightarrow> deployed_device" where
  "deploy_device d = \<lparr>dd_ID = d_ID d, dd_Address = d_Address d, dd_PublicKey = d_PublicKey d, dd_Egress = d_Egress d\<rparr>"

text \<open>The identifier of a state: the start of the hash of its JSON text.\<close>

definition state_revision :: "desired_state \<Rightarrow> string" where
  "state_revision s = take 16 (HexEncode (Sha256 (json_text (state_json s))))"

definition BuildDesiredState :: "int \<Rightarrow> config \<Rightarrow> desired_state" where
  "BuildDesiredState now cfg =
     (let devices = sort_key d_ID (cfg_Devices cfg);
          tunnels = filter IsEnabled (sort_key t_ID (cfg_Tunnels cfg));
          clientACLs = sortClientACLs (cfg_ClientACLs cfg);
          state = \<lparr>ds_Revision = [], ds_GeneratedAt = 0, ds_Hub = cfg_Hub cfg,
                   ds_Devices = map deploy_device devices, ds_Tunnels = tunnels, ds_ClientACLs = clientACLs\<rparr>
      in state\<lparr>ds_Revision := state_revision state, ds_GeneratedAt := now\<rparr>)"

lemma deploy_device_simps [simp]:
  "dd_ID (deploy_device d) = d_ID d" "dd_Address (deploy_device d) = d_Address d"
  "dd_PublicKey (deploy_device d) = d_PublicKey d" "dd_Egress (deploy_device d) = d_Egress d"
  by (simp_all add: deploy_device_def)

lemma RemoveRevoked_simps [simp]:
  "cfg_Hub (RemoveRevoked cfg rs) = cfg_Hub cfg" "cfg_Tunnels (RemoveRevoked cfg rs) = cfg_Tunnels cfg"
  "cfg_ClientACLs (RemoveRevoked cfg rs) = cfg_ClientACLs cfg"
  "cfg_Devices (RemoveRevoked cfg rs) = filter (\<lambda>d. d_ID d \<notin> set rs) (cfg_Devices cfg)"
  by (auto simp: RemoveRevoked_def)

lemma BuildDesiredState_simps [simp]:
  "ds_Hub (BuildDesiredState now cfg) = cfg_Hub cfg"
  "ds_Devices (BuildDesiredState now cfg) = map deploy_device (sort_key d_ID (cfg_Devices cfg))"
  "ds_Tunnels (BuildDesiredState now cfg) = filter IsEnabled (sort_key t_ID (cfg_Tunnels cfg))"
  "ds_ClientACLs (BuildDesiredState now cfg) = sort (cfg_ClientACLs cfg)"
  "ds_GeneratedAt (BuildDesiredState now cfg) = now"
  by (simp_all add: BuildDesiredState_def Let_def sortClientACLs_def)

text \<open>The order of the configuration does not matter.\<close>

lemma filter_sort_perm:
  assumes "mset xs = mset ys" "distinct (map f xs)"
  shows "filter P (sort_key f xs) = filter P (sort_key f ys)"
  using sort_key_perm_eq[OF assms(1) distinct_inj_on_key[OF assms(2)]] by simp

text \<open>Two configurations that differ only in the order of their entries.\<close>

definition same_config :: "config \<Rightarrow> config \<Rightarrow> bool" where
  "same_config a b \<longleftrightarrow>
     cfg_Hub a = cfg_Hub b \<and> mset (cfg_Devices a) = mset (cfg_Devices b) \<and>
     mset (cfg_Tunnels a) = mset (cfg_Tunnels b) \<and> mset (cfg_ClientACLs a) = mset (cfg_ClientACLs b)"

lemma BuildDesiredState_order:
  assumes "same_config a b" "distinct (map d_ID (cfg_Devices a))" "distinct (map t_ID (cfg_Tunnels a))"
  shows "BuildDesiredState now a = BuildDesiredState now b"
proof -
  have "sort_key d_ID (cfg_Devices a) = sort_key d_ID (cfg_Devices b)"
    using assms by (intro sort_key_perm_eq distinct_inj_on_key) (auto simp: same_config_def)
  moreover have "filter IsEnabled (sort_key t_ID (cfg_Tunnels a)) = filter IsEnabled (sort_key t_ID (cfg_Tunnels b))"
    using assms by (intro filter_sort_perm) (auto simp: same_config_def)
  moreover have "sort (cfg_ClientACLs a) = sort (cfg_ClientACLs b)"
    using assms by (intro sort_perm_eq) (auto simp: same_config_def)
  moreover have "cfg_Hub a = cfg_Hub b" using assms by (simp add: same_config_def)
  ultimately show ?thesis by (simp add: BuildDesiredState_def Let_def sortClientACLs_def)
qed

text \<open>The hashed text sees a source only after redaction.\<close>

definition redact_tunnel :: "tunnel \<Rightarrow> tunnel" where
  "redact_tunnel t = t\<lparr>t_Source := redact (t_Source t)\<rparr>"

lemma redact_idem [simp]: "redact (redact s) = redact s"
  by (simp add: redact_def)

lemma tunnel_json_redact: "tunnel_json (redact_tunnel t) = tunnel_json t"
  by (simp add: tunnel_json_def redact_tunnel_def source_json_def health_json_def)

definition redact_config :: "config \<Rightarrow> config" where
  "redact_config cfg = cfg\<lparr>cfg_Tunnels := map redact_tunnel (cfg_Tunnels cfg)\<rparr>"

lemma redact_tunnel_simps [simp]:
  "t_ID (redact_tunnel t) = t_ID t" "IsEnabled (redact_tunnel t) = IsEnabled t"
  by (simp_all add: redact_tunnel_def IsEnabled_def)

lemma insort_key_map: "(\<And>x. f (g x) = f x) \<Longrightarrow> insort_key f (g x) (map g xs) = map g (insort_key f x xs)"
  by (induction xs) auto

lemma sort_key_map: "(\<And>x. f (g x) = f x) \<Longrightarrow> sort_key f (map g xs) = map g (sort_key f xs)"
  by (induction xs) (auto simp: insort_key_map)

lemma revision_redacted:
  "ds_Revision (BuildDesiredState now (redact_config cfg)) = ds_Revision (BuildDesiredState now cfg)"
proof -
  have "map tunnel_json (filter IsEnabled (sort_key t_ID (map redact_tunnel ts))) =
      map tunnel_json (filter IsEnabled (sort_key t_ID ts))" for ts
    by (simp add: sort_key_map filter_map comp_def tunnel_json_redact)
  then show ?thesis
    by (simp add: BuildDesiredState_def Let_def state_revision_def state_json_def redact_config_def)
qed

lemma set_deployed:
  "d \<in> set (ds_Devices (BuildDesiredState now (RemoveRevoked cfg rs))) \<longleftrightarrow>
     (\<exists>c \<in> set (cfg_Devices cfg). d_ID c \<notin> set rs \<and> d = deploy_device c)"
  by auto

end
