(* ===== verification/FirewallPlan.thy ===== *)
theory FirewallPlan
  imports DesiredState "HOL-Library.Product_Lexorder"
begin

text \<open>
  \<open>firewall_plan.go\<close>: the packet-filter policy of a desired state, and \<open>linkAddresses\<close> of
  \<open>egress_spec.go\<close>, which numbers the links to the tunnel namespaces.  Maps the code builds
  are association lists, newest entry first.
\<close>

definition IngressInterface :: string where "IngressInterface = ''awg0''"
definition ManagementPort :: "16 word" where "ManagementPort = 22"
definition directEgressMark :: "32 word" where "directEgressMark = 0x100"

definition EgressInterface :: "string \<Rightarrow> string" where
  "EgressInterface tunnelID = ''vh-'' @ tunnelID"

datatype plan_error =
  NoUplink | PlanEndpoint hub_error | DeviceAddressInvalid string string | DNSLinksExhausted string

definition lookup_list :: "(string \<times> 'a list) list \<Rightarrow> string \<Rightarrow> 'a list" where
  "lookup_list m k = (case map_of m k of None \<Rightarrow> [] | Some xs \<Rightarrow> xs)"

definition lookup_bool :: "(string \<times> bool) list \<Rightarrow> string \<Rightarrow> bool" where
  "lookup_bool m k = (map_of m k = Some True)"

definition lookup_str :: "(string \<times> string) list \<Rightarrow> string \<Rightarrow> string" where
  "lookup_str m k = (case map_of m k of None \<Rightarrow> [] | Some s \<Rightarrow> s)"

subsection \<open>Link addresses (egress_spec.go)\<close>

fun advance :: "ip_prefix \<Rightarrow> nat \<Rightarrow> ip_addr \<Rightarrow> ip_addr option" where
  "advance base 0 address = Some address"
| "advance base (Suc n) address =
     (let next = NextAddr address in if PrefixContains base next then advance base n next else None)"

definition linkAddresses :: "ip_prefix \<Rightarrow> nat \<Rightarrow> (string \<times> string) option" where
  "linkAddresses base index =
     (case advance base (index * 4) (pfx_addr base) of
        None \<Rightarrow> None
      | Some address \<Rightarrow>
          (let host = NextAddr address; peer = NextAddr host in
           if PrefixContains base peer then Some (AddrString host @ ''/30'', AddrString peer @ ''/30'')
           else None))"

definition hostOf :: "string \<Rightarrow> string" where
  "hostOf address = (case CutByte CHR ''/'' address of None \<Rightarrow> address | Some (host, _) \<Rightarrow> host)"

definition link_base :: ip_prefix where
  "link_base = the (ParsePrefix egressLinkBase)"

subsection \<open>Clients\<close>

definition hostAddress :: "string \<Rightarrow> string option" where
  "hostAddress value = map_option (\<lambda>p. AddrString (pfx_addr p)) (ParsePrefix value)"

definition device_address :: "deployed_device \<Rightarrow> (plan_error, deployed_device \<times> string) result" where
  "device_address d =
     (case hostAddress (dd_Address d) of
        None \<Rightarrow> Inl (DeviceAddressInvalid (dd_ID d) (dd_Address d))
      | Some a \<Rightarrow> Inr (d, a))"

text \<open>The clients each tunnel admits: every device when \<open>allowed_devices\<close> is empty.\<close>

definition permittedClients :: "desired_state \<Rightarrow> (plan_error, (string \<times> string list) list) result" where
  "permittedClients state =
     bindE (mapE device_address (ds_Devices state)) (\<lambda>pairs.
       let addresses = rev (map (\<lambda>(d, a). (dd_ID d, a)) pairs);
           all = sort (map snd pairs)
       in Inr (rev (map (\<lambda>t. (t_ID t,
            if t_AllowedDevices t = [] then all
            else sort (List.map_filter (map_of addresses) (t_AllowedDevices t)))) (ds_Tunnels state))))"

definition clientPortACLs :: "client_acl list \<Rightarrow> (string \<times> string) list \<Rightarrow> client_port_acl list" where
  "clientPortACLs rules addresses =
     sort_key (\<lambda>a. (cp_SourceAddress a, cp_TargetAddress a, cp_Protocol a, cp_Port a))
       (map (\<lambda>r. \<lparr>cp_SourceAddress =
                    (if acl_Source r = ClientACLAny then [] else lookup_str addresses (acl_Source r)),
                  cp_TargetAddress = lookup_str addresses (acl_Target r),
                  cp_Protocol = acl_Protocol r, cp_Port = acl_Port r\<rparr>) rules)"

subsection \<open>Private networks\<close>

definition resolver_covered :: "ip_prefix list \<Rightarrow> ip_addr \<Rightarrow> bool" where
  "resolver_covered prefixes ip = list_ex (\<lambda>p. PrefixContains p ip) prefixes"

definition uncoveredResolvers :: "string list \<Rightarrow> string list \<Rightarrow> string list" where
  "uncoveredResolvers addresses routes =
     (let prefixes = map Masked (List.map_filter ParsePrefix routes) in
      List.map_filter (\<lambda>address.
        case ParseAddr address of
          None \<Rightarrow> None
        | Some parsed \<Rightarrow>
            if resolver_covered prefixes parsed then None
            else Some (AddrString parsed @ ''/'' @ Itoa (BitLen parsed))) addresses)"

definition internalNetworks ::
    "tunnel list \<Rightarrow> 32 word \<Rightarrow> (string \<times> string list) list \<Rightarrow> (string \<times> bool) list \<Rightarrow> internal_network list" where
  "internalNetworks tunnels firstMark permitted proxied =
     (let private = sort_key t_ID (filter (\<lambda>t. t_Role t = RolePrivateNetwork) tunnels) in
      map (\<lambda>(index, t). \<lparr>in_TunnelID = t_ID t, in_Mark = firstMark + of_nat index,
             in_Proxied = lookup_bool proxied (t_ID t), in_Interface = EgressInterface (t_ID t),
             in_Routes = sort (t_Routes t @ uncoveredResolvers (t_DNSServers t) (t_Routes t)),
             in_Zones = sort (map normalizeZone (t_DNSZones t)), in_Resolvers = t_DNSServers t,
             in_Clients = lookup_list permitted (t_ID t)\<rparr>)
        (enumerate 0 private))"

subsection \<open>Resolver destinations\<close>

text \<open>The loop over the groups; the link index counts the groups that are not direct.\<close>

fun dns_entries :: "string \<Rightarrow> nat \<Rightarrow> egress_group list \<Rightarrow> (plan_error, (string \<times> dns_destination) list) result" where
  "dns_entries directAddress index [] = Inr []"
| "dns_entries directAddress index (g # gs) =
     bindE (if eg_ID g = EgressDirect then Inr (directAddress, index)
            else case linkAddresses link_base index of
                   None \<Rightarrow> Inl (DNSLinksExhausted (eg_ID g))
                 | Some (host, _) \<Rightarrow> Inr (hostOf host, Suc index))
       (\<lambda>(resolver, index'). bindE (dns_entries directAddress index' gs) (\<lambda>rest.
          Inr (if eg_Addresses g = [] then rest
               else (eg_ID g, \<lparr>dn_ClientAddresses = sort (eg_Addresses g), dn_ResolverAddress = resolver\<rparr>) # rest)))"

definition dnsDestinations :: "egress_group list \<Rightarrow> string \<Rightarrow> (plan_error, dns_destination list) result" where
  "dnsDestinations groups directAddress =
     bindE (dns_entries directAddress 0 groups) (\<lambda>entries. Inr (map snd (sort_key fst entries)))"

subsection \<open>The plan\<close>

definition grouped :: "(deployed_device \<times> string) list \<Rightarrow> string \<Rightarrow> string list" where
  "grouped pairs egress = map snd (filter (\<lambda>(d, _). dd_Egress d = egress) pairs)"

definition tunnel_egresses :: "(deployed_device \<times> string) list \<Rightarrow> tunnel list \<Rightarrow> string list" where
  "tunnel_egresses pairs tunnels =
     (let chosen = filter (\<lambda>e. e \<noteq> EgressDirect) (remdups (map (dd_Egress \<circ> fst) pairs)) in
      sort (chosen @ remdups (map t_ID (filter (\<lambda>t. t_Role t = RoleEgress \<and> t_ID t \<notin> set chosen) tunnels))))"

definition direct_group :: "string \<Rightarrow> (deployed_device \<times> string) list \<Rightarrow> egress_group list" where
  "direct_group uplink pairs =
     (if grouped pairs EgressDirect = [] then []
      else [\<lparr>eg_ID = EgressDirect, eg_Proxied = False, eg_Mark = directEgressMark, eg_Interface = uplink,
             eg_Addresses = sort (grouped pairs EgressDirect), eg_Clients = []\<rparr>])"

definition tunnel_group ::
    "(deployed_device \<times> string) list \<Rightarrow> (string \<times> string list) list \<Rightarrow> (string \<times> bool) list \<Rightarrow> nat \<Rightarrow> string \<Rightarrow> egress_group" where
  "tunnel_group pairs permitted proxied index egress =
     \<lparr>eg_ID = egress, eg_Proxied = lookup_bool proxied egress,
      eg_Mark = directEgressMark + 1 + of_nat index, eg_Interface = EgressInterface egress,
      eg_Addresses = sort (grouped pairs egress), eg_Clients = lookup_list permitted egress\<rparr>"

definition proxied_map :: "tunnel list \<Rightarrow> (string \<times> bool) list" where
  "proxied_map tunnels = rev (map (\<lambda>t. (t_ID t, t_Type t = TunnelXray \<or> t_Type t = TunnelOpenVPN)) tunnels)"

definition BuildFirewallPlan :: "desired_state \<Rightarrow> string \<Rightarrow> (plan_error, firewall_plan) result" where
  "BuildFirewallPlan state uplink =
     (if uplink = [] then Inl NoUplink
      else bindE (mapErr PlanEndpoint (hubListenPort (hub_Endpoint (ds_Hub state)))) (\<lambda>listenPort.
        bindE (mapE device_address (ds_Devices state)) (\<lambda>pairs.
        bindE (permittedClients state) (\<lambda>permitted.
        let proxied = proxied_map (ds_Tunnels state);
            deviceAddresses = rev (map (\<lambda>(d, a). (dd_ID d, a)) pairs);
            tunnelEgresses = tunnel_egresses pairs (ds_Tunnels state);
            egresses = direct_group uplink pairs @
              map (\<lambda>(i, e). tunnel_group pairs permitted proxied i e) (enumerate 0 tunnelEgresses);
            nextMark = directEgressMark + 1 + of_nat (length tunnelEgresses)
        in bindE (dnsDestinations egresses (hub_DNSAddress (ds_Hub state))) (\<lambda>destinations.
          Inr \<lparr>fp_IngressInterface = IngressInterface, fp_UplinkInterface = uplink,
               fp_ListenPort = listenPort, fp_ManagementPort = ManagementPort,
               fp_ClientCIDR = hub_ClientCIDR (ds_Hub state), fp_DNSAddress = hub_DNSAddress (ds_Hub state),
               fp_DNSDestinations = destinations, fp_LinkBase = egressLinkBase,
               fp_Internals = internalNetworks (ds_Tunnels state) nextMark permitted proxied,
               fp_Socks = [], fp_AltUDP443 = fb_UDP443 (hub_Fallback (ds_Hub state)),
               fp_RealityPort =
                 (if rf_Enabled (fb_Reality (hub_Fallback (ds_Hub state))) then RealityPort else 0),
               fp_ClientACLs = clientPortACLs (ds_ClientACLs state) deviceAddresses,
               fp_Egresses = egresses\<rparr>)))))"

end
