(* ===== verification/PlanFacts.thy ===== *)
theory PlanFacts
  imports FirewallPlan
begin

text \<open>
  Facts about the firewall plan: where link addresses lie, how egress groups and private
  networks are numbered, which group a device belongs to and who may use a tunnel.
\<close>

subsection \<open>Link addresses\<close>

lemma link_base_eq: "ParsePrefix egressLinkBase = Some \<lparr>pfx_addr = IPv4 0x0A5A0000, pfx_bits = 16\<rparr>"
  by code_simp

lemma link_base_simps [simp]: "pfx_addr link_base = IPv4 0x0A5A0000" "pfx_bits link_base = 16"
  by (simp_all add: link_base_def link_base_eq)

lemma link_base_contains:
  assumes "m \<le> 65536"
  shows "PrefixContains link_base (IPv4 (0x0A5A0000 + of_nat m)) \<longleftrightarrow> m < 65536"
proof -
  have u: "unat (0x0A5A0000 + of_nat m :: 32 word) = 173670400 + m"
    using assms by (simp add: unat_word_ariths unat_of_nat)
  have d: "unat (drop_bit 16 (0x0A5A0000 + of_nat m :: 32 word)) = (173670400 + m) div 65536"
    unfolding unat_drop_bit_eq u by (simp add: drop_bit_eq_div)
  have c: "unat (drop_bit 16 (0x0A5A0000 :: 32 word)) = 2650" by (simp add: drop_bit_eq_div)
  have "drop_bit 16 (0x0A5A0000 + of_nat m :: 32 word) = drop_bit 16 (0x0A5A0000 :: 32 word) \<longleftrightarrow>
      (173670400 + m) div 65536 = 2650"
    unfolding word_unat_eq_iff d c ..
  also have "\<dots> \<longleftrightarrow> m < 65536" using assms by auto
  finally show ?thesis by (simp add: PrefixContains_v4)
qed

lemma next_link: "m < 65536 \<Longrightarrow> NextAddr (IPv4 (0x0A5A0000 + of_nat m)) = IPv4 (0x0A5A0000 + of_nat (Suc m))"
proof -
  assume "m < 65536"
  then have "unat (0x0A5A0000 + of_nat (Suc m) :: 32 word) = 173670401 + m"
    by (simp add: unat_word_ariths unat_of_nat)
  then have "(0x0A5A0000 + of_nat (Suc m) :: 32 word) \<noteq> 0" by (metis unat_0 add_is_0 zero_neq_numeral)
  then show ?thesis by (simp add: algebra_simps)
qed

lemma advance_link:
  "k < 65536 \<Longrightarrow> advance link_base n (IPv4 (0x0A5A0000 + of_nat k)) =
     (if k + n < 65536 then Some (IPv4 (0x0A5A0000 + of_nat (k + n))) else None)"
proof (induction n arbitrary: k)
  case (Suc n)
  then show ?case
    using next_link[of k] link_base_contains[of "Suc k"] Suc.IH[of "Suc k"]
    by (simp add: Let_def del: of_nat_Suc NextAddr.simps)
qed simp

definition link_host :: "nat \<Rightarrow> 32 word" where "link_host i = 0x0A5A0000 + of_nat (4 * i + 1)"
definition link_peer :: "nat \<Rightarrow> 32 word" where "link_peer i = 0x0A5A0000 + of_nat (4 * i + 2)"

lemma linkAddresses_eq:
  "linkAddresses link_base i =
     (if i < 16384 then Some (string_v4 (link_host i) @ ''/30'', string_v4 (link_peer i) @ ''/30'') else None)"
proof (cases "i < 16384")
  case True
  then have "4 * i < 65536" "4 * i + 1 < 65536" "4 * i + 2 < 65536" by simp_all
  moreover have "PrefixContains link_base (IPv4 (link_peer i))"
    using link_base_contains[of "4 * i + 2"] \<open>4 * i + 2 < 65536\<close> by (simp add: link_peer_def del: of_nat_add)
  ultimately show ?thesis
    using True next_link[of "4 * i"] next_link[of "4 * i + 1"] advance_link[of 0 "4 * i"]
    by (simp add: linkAddresses_def Let_def link_host_def link_peer_def mult.commute del: NextAddr.simps of_nat_Suc of_nat_add of_nat_mult)
next
  case False
  then show ?thesis using advance_link[of 0 "4 * i"] by (simp add: linkAddresses_def mult.commute)
qed

lemma unat_link: "i < 16384 \<Longrightarrow> unat (link_host i) = 173670401 + 4 * i" "i < 16384 \<Longrightarrow> unat (link_peer i) = 173670402 + 4 * i"
  by (simp_all add: link_host_def link_peer_def unat_word_ariths unat_of_nat)

lemma link_inj:
  assumes "i < 16384" "j < 16384"
  shows "link_host i = link_host j \<longleftrightarrow> i = j" "link_peer i = link_peer j \<longleftrightarrow> i = j" "link_host i \<noteq> link_peer j"
proof -
  show "link_host i = link_host j \<longleftrightarrow> i = j" "link_peer i = link_peer j \<longleftrightarrow> i = j"
    using assms by (metis unat_link add_left_cancel mult_left_cancel zero_neq_numeral)+
  have "173670401 + 4 * i \<noteq> 173670402 + 4 * j" by presburger
  then show "link_host i \<noteq> link_peer j" using assms unat_link by metis
qed

lemma link_in_base:
  "i < 16384 \<Longrightarrow> PrefixContains link_base (IPv4 (link_host i)) \<and> PrefixContains link_base (IPv4 (link_peer i))"
  using link_base_contains[of "4 * i + 1"] link_base_contains[of "4 * i + 2"]
  by (simp add: link_host_def link_peer_def del: of_nat_add of_nat_mult)

lemma hostOf_string_v4 [simp]: "hostOf (string_v4 w @ ''/30'') = string_v4 w"
  using CutByte_append[OF string_v4_no_slash[of w], of "''30''"] by (simp add: hostOf_def)

lemma set_map_filter_iff: "y \<in> set (List.map_filter f xs) \<longleftrightarrow> (\<exists>x \<in> set xs. f x = Some y)"
  by (induction xs) (auto split: option.splits)

lemma sort_key_Nil_iff [simp]: "sort_key f xs = [] \<longleftrightarrow> xs = []"
  by (metis length_0_conv length_sort)

subsection \<open>The parts of a plan\<close>

text \<open>The addresses of the devices, the groups and the first private mark of a plan.\<close>

definition plan_groups ::
    "desired_state \<Rightarrow> string \<Rightarrow> (deployed_device \<times> string) list \<Rightarrow> (string \<times> string list) list \<Rightarrow> egress_group list" where
  "plan_groups s uplink pairs permitted =
     direct_group uplink pairs @
       map (\<lambda>(i, e). tunnel_group pairs permitted (proxied_map (ds_Tunnels s)) i e)
         (enumerate 0 (tunnel_egresses pairs (ds_Tunnels s)))"

definition internal_mark :: "desired_state \<Rightarrow> (deployed_device \<times> string) list \<Rightarrow> 32 word" where
  "internal_mark s pairs = directEgressMark + 1 + of_nat (length (tunnel_egresses pairs (ds_Tunnels s)))"

lemma plan_parts:
  assumes "BuildFirewallPlan s u = Inr p"
  obtains pairs permitted where
    "mapE device_address (ds_Devices s) = Inr pairs" "permittedClients s = Inr permitted"
    "fp_Egresses p = plan_groups s u pairs permitted"
    "fp_Internals p = internalNetworks (ds_Tunnels s) (internal_mark s pairs) permitted (proxied_map (ds_Tunnels s))"
    "dnsDestinations (fp_Egresses p) (hub_DNSAddress (ds_Hub s)) = Inr (fp_DNSDestinations p)"
    "fp_ClientACLs p = clientPortACLs (ds_ClientACLs s) (rev (map (\<lambda>(d, a). (dd_ID d, a)) pairs))"
    "fp_UplinkInterface p = u" "fp_ClientCIDR p = hub_ClientCIDR (ds_Hub s)"
    "fp_DNSAddress p = hub_DNSAddress (ds_Hub s)" "fp_IngressInterface p = IngressInterface"
    "fp_Socks p = []" "u \<noteq> []"
  using assms
  by (auto simp: BuildFirewallPlan_def Let_def bindE_Inr_iff plan_groups_def internal_mark_def split: if_splits)

lemma pairs_iff:
  assumes "mapE device_address ds = Inr pairs"
  shows "pairs = map (\<lambda>d. (d, the (hostAddress (dd_Address d)))) ds"
    and "\<And>d. d \<in> set ds \<Longrightarrow> hostAddress (dd_Address d) \<noteq> None"
proof -
  have "device_address d = Inr q \<longleftrightarrow> hostAddress (dd_Address d) \<noteq> None \<and> q = (d, the (hostAddress (dd_Address d)))" for d q
    by (auto simp: device_address_def split: option.splits)
  then have "list_all2 (\<lambda>d q. hostAddress (dd_Address d) \<noteq> None \<and> q = (d, the (hostAddress (dd_Address d)))) ds pairs"
    using assms by (simp add: mapE_Inr_iff)
  then show "pairs = map (\<lambda>d. (d, the (hostAddress (dd_Address d)))) ds"
    and "\<And>d. d \<in> set ds \<Longrightarrow> hostAddress (dd_Address d) \<noteq> None"
    by (induction rule: list_all2_induct) auto
qed

lemma distinct_tunnel_egresses: "distinct (tunnel_egresses pairs ts)"
  by (auto simp: tunnel_egresses_def Let_def)

lemma set_tunnel_egresses:
  "set (tunnel_egresses pairs ts) =
     ((dd_Egress \<circ> fst) ` set pairs - {EgressDirect}) \<union> {t_ID t |t. t \<in> set ts \<and> t_Role t = RoleEgress}"
  by (auto simp: tunnel_egresses_def Let_def)

lemma length_tunnel_egresses: "length (tunnel_egresses pairs ts) \<le> length pairs + length ts"
proof -
  have "length (filter P (remdups xs)) \<le> length xs" for P and xs :: "'x list"
    by (meson le_trans length_filter_le length_remdups_leq)
  moreover have "length (remdups (map t_ID (filter P ts))) \<le> length ts" for P
    by (metis le_trans length_filter_le length_map length_remdups_leq)
  ultimately show ?thesis
    unfolding tunnel_egresses_def Let_def length_sort length_append
    by (metis (no_types, lifting) add_mono length_map)
qed

lemma direct_group_id: "g \<in> set (direct_group u pairs) \<Longrightarrow> eg_ID g = EgressDirect"
  by (auto simp: direct_group_def split: if_splits)

lemma tunnel_group_simps [simp]:
  "eg_ID (tunnel_group ps pm px i e) = e" "eg_Interface (tunnel_group ps pm px i e) = EgressInterface e"
  "eg_Mark (tunnel_group ps pm px i e) = directEgressMark + 1 + of_nat i"
  "eg_Addresses (tunnel_group ps pm px i e) = sort (grouped ps e)"
  "eg_Clients (tunnel_group ps pm px i e) = lookup_list pm e"
  "eg_Proxied (tunnel_group ps pm px i e) = lookup_bool px e"
  by (simp_all add: tunnel_group_def)

lemma group_ids:
  "map eg_ID (plan_groups s u pairs permitted) =
     map eg_ID (direct_group u pairs) @ tunnel_egresses pairs (ds_Tunnels s)"
  unfolding plan_groups_def map_append
  by (subst map_enumerate[where k = "\<lambda>x. x"]) simp_all

lemma group_addresses:
  "g \<in> set (plan_groups s u pairs permitted) \<Longrightarrow> eg_Addresses g = sort (grouped pairs (eg_ID g))"
  by (auto simp: plan_groups_def direct_group_def split: if_splits)

subsection \<open>Marks\<close>

lemma group_marks:
  "map eg_Mark (plan_groups s u pairs permitted) =
     map eg_Mark (direct_group u pairs) @
     map (\<lambda>i. directEgressMark + 1 + of_nat i) [0..<length (tunnel_egresses pairs (ds_Tunnels s))]"
  unfolding plan_groups_def map_append
  by (subst map_enumerate_index[where k = "\<lambda>i. directEgressMark + 1 + of_nat i"]) simp_all

lemma internal_marks:
  "map in_Mark (internalNetworks ts m pm px) =
     map (\<lambda>i. m + of_nat i) [0..<length (filter (\<lambda>t. t_Role t = RolePrivateNetwork) ts)]"
  unfolding internalNetworks_def Let_def
  by (subst map_enumerate_index[where k = "\<lambda>i. m + of_nat i"]) simp_all

lemma internal_ids:
  "map in_TunnelID (internalNetworks ts m pm px) =
     map t_ID (sort_key t_ID (filter (\<lambda>t. t_Role t = RolePrivateNetwork) ts))"
  unfolding internalNetworks_def Let_def
  by (subst map_enumerate[where k = t_ID]) simp_all

text \<open>All marks of a plan, in the order they are handed out.\<close>

definition plan_marks :: "firewall_plan \<Rightarrow> 32 word list" where
  "plan_marks p = map eg_Mark (fp_Egresses p) @ map in_Mark (fp_Internals p)"

lemma plan_marks_eq:
  assumes "BuildFirewallPlan s u = Inr p"
  obtains d n where "plan_marks p = d @ map (\<lambda>i. 0x101 + of_nat i) [0..<n]"
    "d = [] \<or> d = [0x100]" "n \<le> length (ds_Devices s) + 2 * length (ds_Tunnels s)"
proof -
  obtain pairs permitted where p: "mapE device_address (ds_Devices s) = Inr pairs"
    "fp_Egresses p = plan_groups s u pairs permitted"
    "fp_Internals p = internalNetworks (ds_Tunnels s) (internal_mark s pairs) permitted (proxied_map (ds_Tunnels s))"
    using plan_parts[OF assms] by metis
  let ?n = "length (tunnel_egresses pairs (ds_Tunnels s))"
  let ?m = "length (filter (\<lambda>t. t_Role t = RolePrivateNetwork) (ds_Tunnels s))"
  have "plan_marks p = map eg_Mark (direct_group u pairs) @ map (\<lambda>i. 0x101 + of_nat i) [0..<?n + ?m]"
    unfolding plan_marks_def p(2,3) group_marks internal_marks internal_mark_def directEgressMark_def
    by (rule nth_equalityI) (auto simp: nth_append)
  moreover have "map eg_Mark (direct_group u pairs) = [] \<or> map eg_Mark (direct_group u pairs) = [0x100]"
    by (simp add: direct_group_def directEgressMark_def)
  moreover have "?n + ?m \<le> length (ds_Devices s) + 2 * length (ds_Tunnels s)"
    using length_tunnel_egresses[of pairs "ds_Tunnels s"] mapE_length[OF p(1)]
      length_filter_le[of "\<lambda>t. t_Role t = RolePrivateNetwork" "ds_Tunnels s"] by linarith
  ultimately show ?thesis by (rule that)
qed

lemma plan_marks_distinct:
  assumes "BuildFirewallPlan s u = Inr p" "length (ds_Devices s) + 2 * length (ds_Tunnels s) < 2 ^ 31"
  shows "distinct (plan_marks p) \<and> 0 \<notin> set (plan_marks p)"
proof -
  obtain d n where m: "plan_marks p = d @ map (\<lambda>i. 0x101 + of_nat i) [0..<n]" "d = [] \<or> d = [0x100]"
    and "n \<le> length (ds_Devices s) + 2 * length (ds_Tunnels s)"
    by (rule plan_marks_eq[OF assms(1)])
  then have n: "n < 2 ^ 31" using assms(2) by linarith
  define w where "w i = (0x101 + of_nat i :: 32 word)" for i :: nat
  have ms: "plan_marks p = d @ map w [0..<n]" unfolding m(1) w_def ..
  have u: "unat (w i) = 257 + i" if "i < n" for i
    unfolding w_def using that n by (simp add: unat_word_ariths unat_of_nat)
  have "inj_on w {0..<n}"
  proof (rule inj_onI)
    fix i j
    assume ij: "i \<in> {0..<n}" "j \<in> {0..<n}" and eq: "w i = w j"
    have "257 + i = unat (w i)" using ij(1) by (intro u[symmetric]) simp
    also have "\<dots> = 257 + j" unfolding eq using ij(2) by (intro u) simp
    finally show "i = j" by (rule add_left_imp_eq)
  qed
  then have dist: "distinct (map w [0..<n])" by (simp add: distinct_map)
  have "w i \<noteq> 0x100 \<and> w i \<noteq> 0" if "i < n" for i
  proof -
    have "unat (0x100 :: 32 word) = 256" by simp
    moreover have "unat (0 :: 32 word) = 0" by simp
    moreover have "257 + i \<noteq> 256" "257 + i \<noteq> 0" by simp_all
    ultimately show ?thesis using u[OF that] by metis
  qed
  then have "0x100 \<notin> set (map w [0..<n])" "0 \<notin> set (map w [0..<n])" by auto
  with dist m(2) show ?thesis unfolding ms by (elim disjE) simp_all
qed

subsection \<open>Groups and their devices\<close>

lemma grouped_iff: "a \<in> set (grouped pairs e) \<longleftrightarrow> (\<exists>d. (d, a) \<in> set pairs \<and> dd_Egress d = e)"
  by (force simp: grouped_def)

lemma group_exists:
  assumes "(d, a) \<in> set pairs"
  shows "\<exists>g \<in> set (plan_groups s u pairs permitted). eg_ID g = dd_Egress d"
proof (cases "dd_Egress d = EgressDirect")
  case True
  then have "grouped pairs EgressDirect \<noteq> []" using assms grouped_iff[of a pairs EgressDirect] by force
  then show ?thesis using True by (simp add: plan_groups_def direct_group_def)
next
  case False
  then have "dd_Egress d \<in> set (tunnel_egresses pairs (ds_Tunnels s))"
    using assms by (force simp: set_tunnel_egresses)
  then have "dd_Egress d \<in> set (map eg_ID (plan_groups s u pairs permitted))" by (simp only: group_ids) simp
  then show ?thesis by auto
qed

lemma group_ids_distinct:
  assumes "\<forall>t \<in> set (ds_Tunnels s). t_ID t \<noteq> EgressDirect"
  shows "distinct (map eg_ID (plan_groups s u pairs permitted))"
proof -
  have "EgressDirect \<notin> set (tunnel_egresses pairs (ds_Tunnels s))"
    using assms by (auto simp: set_tunnel_egresses)
  then show ?thesis
    unfolding group_ids by (simp add: distinct_tunnel_egresses direct_group_def)
qed

text \<open>
  With distinct device addresses, an address belongs to exactly the group of the egress its
  device chose.
\<close>

lemma address_group_iff:
  assumes "distinct (map snd pairs)" "(d, a) \<in> set pairs" "g \<in> set (plan_groups s u pairs permitted)"
  shows "a \<in> set (eg_Addresses g) \<longleftrightarrow> eg_ID g = dd_Egress d"
proof -
  have inj: "inj_on snd (set pairs)" using assms(1) by (simp add: distinct_map)
  have same: "d' = d" if "(d', a) \<in> set pairs" for d'
    using inj_onD[OF inj _ that assms(2)] by simp
  have "a \<in> set (eg_Addresses g) \<longleftrightarrow> (\<exists>d'. (d', a) \<in> set pairs \<and> dd_Egress d' = eg_ID g)"
    unfolding group_addresses[OF assms(3)] set_sort grouped_iff ..
  also have "\<dots> \<longleftrightarrow> dd_Egress d = eg_ID g" using assms(2) by (auto dest: same)
  finally show ?thesis by (simp add: eq_commute)
qed

subsection \<open>Who may use a tunnel\<close>

definition may_use :: "tunnel \<Rightarrow> deployed_device \<Rightarrow> bool" where
  "may_use t d \<longleftrightarrow> t_AllowedDevices t = [] \<or> dd_ID d \<in> set (t_AllowedDevices t)"

lemma permitted_lookup:
  assumes "permittedClients s = Inr permitted" "mapE device_address (ds_Devices s) = Inr pairs"
    and "distinct (map dd_ID (ds_Devices s))" "distinct (map t_ID (ds_Tunnels s))" "t \<in> set (ds_Tunnels s)"
  shows "set (lookup_list permitted (t_ID t)) = {a. \<exists>d. (d, a) \<in> set pairs \<and> may_use t d}"
proof -
  define addrs where "addrs = rev (map (\<lambda>(d, a). (dd_ID d, a)) pairs)"
  define clients where "clients t = (if t_AllowedDevices t = [] then sort (map snd pairs)
     else sort (List.map_filter (map_of addrs) (t_AllowedDevices t)))" for t :: tunnel
  have pm: "permitted = rev (map (\<lambda>t. (t_ID t, clients t)) (ds_Tunnels s))"
    using assms(1,2) unfolding clients_def addrs_def by (auto simp: permittedClients_def Let_def)
  have "map dd_ID (map fst pairs) = map dd_ID (ds_Devices s)"
    using pairs_iff(1)[OF assms(2)] by (simp add: comp_def)
  then have "distinct (map (dd_ID \<circ> fst) pairs)" using assms(3) by (metis map_map)
  then have ids: "distinct (map (\<lambda>x. dd_ID (fst x)) pairs)" by (simp add: comp_def)
  have "addrs = rev (map (\<lambda>x. (dd_ID (fst x), snd x)) pairs)" by (simp add: addrs_def case_prod_beta)
  then have addr: "map_of addrs i = Some a \<longleftrightarrow> (\<exists>d. (d, a) \<in> set pairs \<and> dd_ID d = i)" for i a
    using map_of_rev_distinct[OF ids, of snd i a] by force
  have "lookup_list permitted (t_ID t) = clients t"
    using map_of_rev_distinct[OF assms(4), of clients "t_ID t" "clients t"] assms(5)
    by (auto simp: lookup_list_def pm)
  moreover have "set (clients t) = {a. \<exists>d. (d, a) \<in> set pairs \<and> may_use t d}"
  proof (cases "t_AllowedDevices t = []")
    case True
    then show ?thesis by (force simp: clients_def may_use_def)
  next
    case False
    then show ?thesis
      by (auto simp: clients_def may_use_def set_map_filter_iff addr intro!: bexI[rotated])
  qed
  ultimately show ?thesis by simp
qed

lemma internal_network_of:
  assumes "n \<in> set (internalNetworks ts m pm px)"
  obtains t where "t \<in> set ts" "t_Role t = RolePrivateNetwork" "in_TunnelID n = t_ID t"
    "in_Interface n = EgressInterface (t_ID t)" "in_Clients n = lookup_list pm (t_ID t)"
    "in_Proxied n = lookup_bool px (t_ID t)"
    "in_Routes n = sort (t_Routes t @ uncoveredResolvers (t_DNSServers t) (t_Routes t))"
    "in_Zones n = sort (map normalizeZone (t_DNSZones t))" "in_Resolvers n = t_DNSServers t"
  using assms by (auto simp: internalNetworks_def Let_def enumerate_eq_zip dest!: set_zip_rightD)

lemma tunnel_group_of:
  assumes "g \<in> set (plan_groups s u pairs permitted)" "eg_ID g \<noteq> EgressDirect"
  shows "eg_Interface g = EgressInterface (eg_ID g)" "eg_Clients g = lookup_list permitted (eg_ID g)"
    "eg_Proxied g = lookup_bool (proxied_map (ds_Tunnels s)) (eg_ID g)"
  using assms by (auto simp: plan_groups_def dest: direct_group_id)

subsection \<open>Resolver destinations\<close>

definition dns_entry :: "string \<Rightarrow> egress_group \<Rightarrow> string \<times> dns_destination" where
  "dns_entry resolver g = (eg_ID g, \<lparr>dn_ClientAddresses = sort (eg_Addresses g), dn_ResolverAddress = resolver\<rparr>)"

lemma dns_entries_tunnels:
  assumes "\<forall>g \<in> set gs. eg_ID g \<noteq> EgressDirect" "dns_entries dir k gs = Inr es"
  shows "es = map (\<lambda>(i, g). dns_entry (string_v4 (link_host i)) g) (filter (\<lambda>(i, g). eg_Addresses g \<noteq> []) (enumerate k gs))
     \<and> (gs \<noteq> [] \<longrightarrow> k + length gs \<le> 16384)"
  using assms
proof (induction gs arbitrary: k es)
  case (Cons g gs)
  then have k: "k < 16384"
    by (auto simp: linkAddresses_eq bindE_Inr_iff split: if_splits option.splits)
  with Cons.prems obtain rest where rest: "dns_entries dir (Suc k) gs = Inr rest"
    and es: "es = (if eg_Addresses g = [] then rest else dns_entry (string_v4 (link_host k)) g # rest)"
    by (auto simp: linkAddresses_eq bindE_Inr_iff dns_entry_def)
  have "Suc k + length gs \<le> 16384" if "gs \<noteq> []" using Cons.IH[OF _ rest] Cons.prems(1) that by simp
  with k have "k + length (g # gs) \<le> 16384" by (cases gs) auto
  with Cons.IH[OF _ rest] Cons.prems(1) es show ?case by simp
qed simp

lemma dnsDestinations_entries:
  assumes "dnsDestinations (direct_group u pairs @ gs) dir = Inr ds" "\<forall>g \<in> set gs. eg_ID g \<noteq> EgressDirect"
  shows "set ds = snd ` (dns_entry dir ` set (direct_group u pairs)) \<union>
      {snd (dns_entry (string_v4 (link_host i)) (gs ! i)) |i. i < length gs \<and> eg_Addresses (gs ! i) \<noteq> []}
    \<and> length gs \<le> 16384"
proof -
  obtain es where es: "dns_entries dir 0 (direct_group u pairs @ gs) = Inr es" "ds = map snd (sort_key fst es)"
    using assms(1) by (auto simp: dnsDestinations_def bindE_Inr_iff)
  obtain rest where rest: "dns_entries dir 0 gs = Inr rest" "es = map (dns_entry dir) (direct_group u pairs) @ rest"
    using es(1) by (auto simp: direct_group_def bindE_Inr_iff dns_entry_def split: if_splits)
  from dns_entries_tunnels[OF assms(2) rest(1)]
  have r: "rest = map (\<lambda>(i, g). dns_entry (string_v4 (link_host i)) g) (filter (\<lambda>(i, g). eg_Addresses g \<noteq> []) (enumerate 0 gs))"
    and "length gs \<le> 16384" by auto
  moreover have "set (filter (\<lambda>(i, g). eg_Addresses g \<noteq> []) (enumerate 0 gs)) =
      {(i, gs ! i) |i. i < length gs \<and> eg_Addresses (gs ! i) \<noteq> []}"
    by (force simp: enumerate_eq_zip set_zip)
  ultimately have "set rest = {dns_entry (string_v4 (link_host i)) (gs ! i) |i. i < length gs \<and> eg_Addresses (gs ! i) \<noteq> []}"
    by (auto simp: image_iff)
  then have "set ds = snd ` (dns_entry dir ` set (direct_group u pairs)) \<union>
      snd ` {dns_entry (string_v4 (link_host i)) (gs ! i) |i. i < length gs \<and> eg_Addresses (gs ! i) \<noteq> []}"
    unfolding es(2) rest(2) by (simp add: image_Un)
  moreover have "snd ` {dns_entry (string_v4 (link_host i)) (gs ! i) |i. i < length gs \<and> eg_Addresses (gs ! i) \<noteq> []} =
      {snd (dns_entry (string_v4 (link_host i)) (gs ! i)) |i. i < length gs \<and> eg_Addresses (gs ! i) \<noteq> []}"
    by blast
  ultimately show ?thesis using \<open>length gs \<le> 16384\<close> by simp
qed

end
