(* ===== verification/Canonical.thy ===== *)
theory Canonical
  imports GoNetip
begin

text \<open>
  An IPv4 address has one spelling: \<open>netip.ParseAddr\<close> accepts no leading zeros, no empty
  fields and exactly four of them, so two texts that parse to the same IPv4 address are the
  same text, and a host route is its address followed by \<open>/32\<close>.
\<close>

lemma digits_canonical:
  assumes "list_all is_digit s" "s \<noteq> []" "1 < length s \<Longrightarrow> hd s \<noteq> CHR ''0''"
  shows "Itoa (digits_val 0 s) = s"
  using assms
proof (induction s rule: rev_induct)
  case (snoc c s)
  have c: "digit_char (digit_val c) = c" "digit_val c < 10"
    using snoc.prems(1) by (auto simp: is_digit_def digit_val_def digit_char_def code_def)
  have v: "digits_val 0 (s @ [c]) = 10 * digits_val 0 s + digit_val c"
    by (simp add: digits_val_def)
  show ?case
  proof (cases "s = []")
    case True
    with c v show ?thesis by (simp add: digits_val_def Itoa_1)
  next
    case False
    then have hd: "hd s \<noteq> CHR ''0''" using snoc.prems(3) by (cases s) auto
    with False snoc have IH: "Itoa (digits_val 0 s) = s" by auto
    have "digits_val 0 s \<noteq> 0"
    proof
      assume "digits_val 0 s = 0"
      with IH have "s = Itoa 0" by simp
      then have "s = [digit_char 0]" by (simp add: Itoa_1)
      moreover have "digit_char 0 = CHR ''0''" by code_simp
      ultimately show False using hd by simp
    qed
    then have "\<not> digits_val 0 (s @ [c]) < 10" using v by simp
    then have "Itoa (digits_val 0 (s @ [c])) =
        Itoa (digits_val 0 (s @ [c]) div 10) @ [digit_char (digits_val 0 (s @ [c]) mod 10)]"
      by (subst Itoa.simps) simp
    also have "\<dots> = s @ [c]" using v c IH by simp
    finally show ?thesis .
  qed
qed simp

lemma Itoa_snoc:
  assumes "is_digit c" "0 < n"
  shows "Itoa (n * 10 + digit_val c) = Itoa n @ [c]"
proof -
  have "digit_char (digit_val c) = c" "digit_val c < 10"
    using assms(1) by (auto simp: is_digit_def digit_val_def digit_char_def code_def)
  then show ?thesis using assms(2) by (subst Itoa.simps) simp
qed

lemma Itoa_digit: "is_digit c \<Longrightarrow> Itoa (digit_val c) = [c]"
  by (subst Itoa_1) (auto simp: is_digit_def digit_val_def digit_char_def code_def)

lemma Join_snoc: "Join sep (ws @ [w]) = concat (map (\<lambda>v. v @ sep) ws) @ w"
proof (induction ws)
  case (Cons v ws)
  then show ?case by (cases "ws @ [w]") auto
qed simp

definition v4_text :: "nat list \<Rightarrow> string" where
  "v4_text os = Join ''.'' (map Itoa os)"

lemma v4_fields_canonical:
  assumes "v4_fields val dl acc s = Some os" "dl = 0 \<longrightarrow> val = 0 \<and> s \<noteq> []" "2 \<le> dl \<longrightarrow> 0 < val"
    "val < 256" "\<forall>n \<in> set acc. n < 256" "length acc \<le> 3"
  shows "length os = 4 \<and> (\<forall>n \<in> set os. n < 256) \<and>
    concat (map (\<lambda>n. Itoa n @ ''.'') acc) @ (if dl = 0 then [] else Itoa val) @ s = v4_text os"
  using assms
proof (induction val dl acc s rule: v4_fields.induct)
  case (1 val dl acc)
  then show ?case by (auto simp: v4_text_def Join_snoc comp_def split: if_splits)
next
  case (2 val dl acc c cs)
  show ?case
  proof (cases "is_digit c")
    case True
    let ?v = "val * 10 + digit_val c"
    have step: "\<not> (dl = 1 \<and> val = 0)" "\<not> 255 < ?v" "v4_fields ?v (Suc dl) acc cs = Some os"
      using 2(3) True by (auto simp: Let_def split: if_splits)
    have pos: "0 < dl \<Longrightarrow> 0 < val" using step(1) 2(5) by (cases "dl = 1") auto
    have "length os = 4 \<and> (\<forall>n \<in> set os. n < 256) \<and>
      concat (map (\<lambda>n. Itoa n @ ''.'') acc) @ Itoa ?v @ cs = v4_text os"
      using 2(1)[OF True step(1) refl step(2,3)] 2(7,8) step(2) pos by auto
    moreover have "Itoa ?v = (if dl = 0 then [] else Itoa val) @ [c]"
      using Itoa_snoc[OF True] Itoa_digit[OF True] pos 2(4) by auto
    ultimately show ?thesis by auto
  next
    case False
    then have step: "c = CHR ''.''" "\<not> (dl = 0 \<or> cs = [])" "length acc \<noteq> 3"
      "v4_fields 0 0 (acc @ [val]) cs = Some os"
      using 2(3) by (auto split: if_splits)
    have "length os = 4 \<and> (\<forall>n \<in> set os. n < 256) \<and>
      concat (map (\<lambda>n. Itoa n @ ''.'') (acc @ [val])) @ cs = v4_text os"
      using 2(2)[OF False step] 2(6,7,8) step(2,3) by auto
    with step show ?thesis by auto
  qed
qed

lemma base256:
  assumes "x * 256 + d = y * 256 + (e::nat)" "d < 256" "e < 256"
  shows "x = y \<and> d = e"
proof -
  have "(x * 256 + d) div 256 = x" "(x * 256 + d) mod 256 = d" using assms(2) by simp_all
  moreover have "(y * 256 + e) div 256 = y" "(y * 256 + e) mod 256 = e" using assms(3) by simp_all
  ultimately show ?thesis using assms(1) by metis
qed

lemma v4_of_octets_inj:
  assumes "length os = 4" "\<forall>n \<in> set os. n < 256" "length ps = 4" "\<forall>n \<in> set ps. n < 256"
    "v4_of_octets os = v4_of_octets ps"
  shows "os = ps"
proof -
  have val: "unat (v4_of_octets [a, b, c, d]) = ((a * 256 + b) * 256 + c) * 256 + d"
    if "a < 256" "b < 256" "c < 256" "d < 256" for a b c d
  proof -
    have "v4_of_octets [a, b, c, d] = of_nat (((a * 256 + b) * 256 + c) * 256 + d)"
      by (simp add: v4_of_octets_def push_bit_eq_mult algebra_simps)
    moreover have "((a * 256 + b) * 256 + c) * 256 + d < 2 ^ 32" using that by simp
    ultimately show ?thesis unfolding \<open>v4_of_octets [a, b, c, d] = _\<close> unat_of_nat
      by (intro mod_less) simp
  qed
  obtain a b c d where os: "os = [a, b, c, d]" using assms(1) by (auto simp: length_Suc_conv numeral_eq_Suc)
  obtain a' b' c' d' where ps: "ps = [a', b', c', d']" using assms(3) by (auto simp: length_Suc_conv numeral_eq_Suc)
  have eq: "((a * 256 + b) * 256 + c) * 256 + d = ((a' * 256 + b') * 256 + c') * 256 + d'"
    using val[of a b c d] val[of a' b' c' d'] assms unfolding os ps by simp
  have d: "(a * 256 + b) * 256 + c = (a' * 256 + b') * 256 + c' \<and> d = d'"
    using eq assms os ps by (intro base256) auto
  then have c: "a * 256 + b = a' * 256 + b' \<and> c = c'"
    using assms os ps by (intro base256) auto
  then have "a = a' \<and> b = b'"
    using assms os ps by (intro base256) auto
  with c d show ?thesis using os ps by simp
qed

lemma parse_v4_inj:
  assumes "parse_v4 s = Some ip" "parse_v4 t = Some ip"
  shows "s = t"
proof -
  obtain os where os: "v4_fields 0 0 [] s = Some os" "ip = IPv4 (v4_of_octets os)"
    using assms(1) by (auto simp: parse_v4_def)
  obtain ps where ps: "v4_fields 0 0 [] t = Some ps" "ip = IPv4 (v4_of_octets ps)"
    using assms(2) by (auto simp: parse_v4_def)
  have ne: "s \<noteq> []" "t \<noteq> []" using os(1) ps(1) by auto
  have o1: "length os = 4" "\<forall>n \<in> set os. n < 256" "s = v4_text os"
    using v4_fields_canonical[OF os(1)] ne(1) by simp_all
  have p1: "length ps = 4" "\<forall>n \<in> set ps. n < 256" "t = v4_text ps"
    using v4_fields_canonical[OF ps(1)] ne(2) by simp_all
  have "v4_of_octets os = v4_of_octets ps" using os(2) ps(2) by simp
  then have "os = ps" by (rule v4_of_octets_inj[OF o1(1,2) p1(1,2)])
  then show ?thesis using o1(3) p1(3) by simp
qed

lemma ParseAddr_v4_canonical:
  assumes "ParseAddr s = Some (IPv4 w)"
  shows "s = string_v4 w"
proof -
  have v6: "parse_v6 s \<noteq> Some (IPv4 w)" for s
    by (auto simp: parse_v6_def v6_finish_def Option.bind_eq_Some_conv split: option.splits if_splits prod.splits)
  have "parse_v4 t = Some (IPv4 w)" if "ParseAddr t = Some (IPv4 w)" for t
    using that v6 by (auto simp: ParseAddr_def split: option.splits if_splits)
  then show ?thesis using assms ParseAddr_string_v4[of w] parse_v4_inj by blast
qed

lemma ParsePrefix_v4_canonical:
  assumes "ParsePrefix s = Some p" "pfx_addr p = IPv4 w"
  shows "s = string_v4 w @ ''/'' @ Itoa (pfx_bits p)"
proof -
  obtain a b n where s: "CutLastByte CHR ''/'' s = Some (a, b)" "ParseAddr a = Some (IPv4 w)"
    "\<not> (1 < length b \<and> (b ! 0 = CHR ''0'' \<or> \<not> is_digit (b ! 0)))" "ParseInt64 b = Some n" "0 \<le> n"
    "pfx_bits p = nat n"
    using assms by (auto simp: ParsePrefix_def split: option.splits if_splits)
  have b: "b \<noteq> []" "list_all is_digit b" "n = int (digits_val 0 b)"
  proof -
    show "b \<noteq> []" using s(4) by (auto simp: ParseInt64_def)
    then obtain c cs where c: "b = c # cs" by (cases b) auto
    have "c \<noteq> CHR ''-'' \<and> c \<noteq> CHR ''+''"
    proof (cases cs)
      case (Cons d ds)
      then have "is_digit c" using s(3) c by simp
      then show ?thesis by (auto simp: is_digit_def code_def)
    qed (use s(4) c in \<open>auto simp: ParseInt64_def Let_def split: if_splits\<close>)
    with s(4) c show "list_all is_digit b" "n = int (digits_val 0 b)"
      by (auto simp: ParseInt64_def Let_def split: if_splits)
  qed
  have "Itoa (digits_val 0 b) = b"
    using s(3) b by (intro digits_canonical) (auto simp: hd_conv_nth)
  moreover have "s = a @ CHR ''/'' # b" using s(1) by (simp add: CutLastByte_Some_iff)
  ultimately show ?thesis using ParseAddr_v4_canonical[OF s(2)] b(3) s(6) by simp
qed

end
