(* ===== verification/StateFacts.thy ===== *)
theory StateFacts
  imports PlanFacts Canonical
begin

text \<open>
  What a validated configuration guarantees about the addresses it names, and the shape of the
  desired states compiled from one: \<open>state_ok\<close> is the contract between the configuration side
  of the program and everything that compiles a revision for the host.
\<close>

subsection \<open>Networks as sets of addresses\<close>

lemma parseNetworkPrefix_wf: "parseNetworkPrefix s = Some p \<Longrightarrow> wf_prefix p"
  by (auto simp: parseNetworkPrefix_def dest: wf_ParsePrefix_Masked)

lemma prefixesOverlap_iff:
  assumes "parseNetworkPrefix a = Some p" "parseNetworkPrefix b = Some q"
  shows "prefixesOverlap a b \<longleftrightarrow> (\<exists>ip. PrefixContains p ip \<and> PrefixContains q ip)"
  using PrefixOverlaps_iff[OF assms[THEN parseNetworkPrefix_wf]] assms by (simp add: prefixesOverlap_def)

lemma prefixesOverlap_sym: "prefixesOverlap a b \<longleftrightarrow> prefixesOverlap b a"
proof (cases "parseNetworkPrefix a = None \<or> parseNetworkPrefix b = None")
  case True
  then show ?thesis by (auto simp: prefixesOverlap_def split: option.splits)
next
  case False
  then obtain p q where "parseNetworkPrefix a = Some p" "parseNetworkPrefix b = Some q" by auto
  then show ?thesis using prefixesOverlap_iff[of a p b q] prefixesOverlap_iff[of b q a p] by blast
qed

lemma link_base_network: "parseNetworkPrefix egressLinkBase = Some link_base"
proof -
  have "Masked \<lparr>pfx_addr = IPv4 0x0A5A0000, pfx_bits = 16\<rparr> = \<lparr>pfx_addr = IPv4 0x0A5A0000, pfx_bits = 16\<rparr>"
    by (simp add: Masked_def mask_word_def)
  then show ?thesis by (simp add: parseNetworkPrefix_def link_base_eq link_base_def)
qed

lemma sorted_wrt_distinct_positions:
  assumes "sorted_wrt P xs" "\<And>a b. P a b \<Longrightarrow> P b a" "i < length xs" "j < length xs" "i \<noteq> j"
  shows "P (xs ! i) (xs ! j)"
  using assms by (metis linorder_neqE_nat sorted_wrt_iff_nth_less)

lemma sorted_wrt_concat_pair:
  assumes "sorted_wrt P (concat (map f xs))" "\<And>a b. P a b \<Longrightarrow> P b a"
    and "x \<in> set xs" "y \<in> set xs" "x \<noteq> y" "a \<in> set (f x)" "b \<in> set (f y)"
  shows "P a b"
  using assms
proof (induction xs)
  case (Cons z zs)
  consider "x = z" "y \<in> set zs" | "y = z" "x \<in> set zs" | "x \<in> set zs" "y \<in> set zs"
    using Cons.prems(3-5) by auto
  then show ?case using Cons by cases (auto simp: sorted_wrt_append)
qed simp

subsection \<open>The states the host side may be given\<close>

definition device_state_ok :: "hub \<Rightarrow> tunnel list \<Rightarrow> deployed_device \<Rightarrow> bool" where
  "device_state_ok h ts d \<longleftrightarrow>
     identifierPattern (dd_ID d) \<and> length (dd_ID d) \<le> 32 \<and> profile_ok (dd_Address d) (hub_ClientCIDR h) \<and>
     ValidatePublicKey (dd_PublicKey d) = Inr () \<and>
     (dd_Egress d = EgressDirect \<or> (\<exists>t \<in> set ts. t_ID t = dd_Egress d \<and> t_Role t = RoleEgress \<and> may_use t d))"

definition tunnel_state_ok :: "tunnel \<Rightarrow> bool" where
  "tunnel_state_ok t \<longleftrightarrow>
     IsEnabled t \<and> identifierPattern (t_ID t) \<and> t_ID t \<noteq> EgressDirect \<and> length (t_ID t) \<le> 12 \<and>
     t_Type t \<in> {TunnelWireGuard, TunnelOpenVPN, TunnelXray, TunnelAmneziaWG} \<and>
     t_Role t \<in> {RolePrivateNetwork, RoleEgress} \<and>
     (t_DNSZones t \<noteq> [] \<longrightarrow> t_DNSServers t \<noteq> []) \<and>
     (\<forall>r \<in> set (t_DNSServers t). ParseAddr r \<noteq> None) \<and> (\<forall>z \<in> set (t_DNSZones t). zone_ok z) \<and>
     (\<forall>r \<in> set (t_Routes t). parseNetworkPrefix r \<noteq> None)"

definition state_ok :: "desired_state \<Rightarrow> bool" where
  "state_ok s \<longleftrightarrow>
     hub_ok (ds_Hub s) \<and>
     (\<forall>d \<in> set (ds_Devices s). device_state_ok (ds_Hub s) (ds_Tunnels s) d) \<and>
     distinct (map dd_ID (ds_Devices s)) \<and> distinct (map dd_Address (ds_Devices s)) \<and>
     distinct (map dd_PublicKey (ds_Devices s)) \<and>
     (\<forall>t \<in> set (ds_Tunnels s). tunnel_state_ok t) \<and> distinct (map t_ID (ds_Tunnels s)) \<and>
     sorted (map dd_ID (ds_Devices s)) \<and> sorted (map t_ID (ds_Tunnels s)) \<and> sorted (ds_ClientACLs s) \<and>
     (\<forall>t \<in> set (ds_Tunnels s). \<forall>u \<in> set (ds_Tunnels s). t \<noteq> u \<longrightarrow>
        (\<forall>r \<in> set (t_Routes t). \<forall>q \<in> set (t_Routes u). \<not> prefixesOverlap r q))"

lemma state_ok_parts:
  assumes "state_ok s"
  shows "hub_ok (ds_Hub s)" "distinct (map dd_ID (ds_Devices s))" "distinct (map dd_Address (ds_Devices s))"
    "distinct (map t_ID (ds_Tunnels s))" "\<forall>t \<in> set (ds_Tunnels s). t_ID t \<noteq> EgressDirect"
    "\<And>d. d \<in> set (ds_Devices s) \<Longrightarrow> device_state_ok (ds_Hub s) (ds_Tunnels s) d"
    "\<And>t. t \<in> set (ds_Tunnels s) \<Longrightarrow> tunnel_state_ok t"
  using assms by (auto simp: state_ok_def tunnel_state_ok_def)

lemma deployed_state_ok:
  assumes "valid_config cfg"
  shows "state_ok (BuildDesiredState now (RemoveRevoked cfg rs))"
proof -
  let ?s = "BuildDesiredState now (RemoveRevoked cfg rs)"
  let ?keep = "filter (\<lambda>d. d_ID d \<notin> set rs) (cfg_Devices cfg)"
  note v = assms[unfolded valid_config_def]
  have hub: "hub_ok (ds_Hub ?s)" using v by simp
  have tunnels: "\<forall>t \<in> set (ds_Tunnels ?s). tunnel_state_ok t"
    using v by (fastforce simp: tunnel_ok_def tunnel_shape_ok_def tunnel_state_ok_def)
  have device: "device_state_ok (cfg_Hub cfg) (ds_Tunnels ?s) (deploy_device d)" if "d \<in> set (cfg_Devices cfg)" for d
  proof -
    have "device_ok (cfg_Hub cfg) d" "egress_ok (cfg_Tunnels cfg) d" using v that by auto
    then show ?thesis by (auto simp: device_ok_def egress_ok_def device_state_ok_def may_use_def)
  qed
  have devices: "\<forall>d \<in> set (ds_Devices ?s). device_state_ok (ds_Hub ?s) (ds_Tunnels ?s) d"
    using device by auto
  have uniq: "distinct (map (f \<circ> deploy_device) (sort_key d_ID ?keep))"
    if "distinct (map (f \<circ> deploy_device) (cfg_Devices cfg))" for f :: "deployed_device \<Rightarrow> string"
    using that by (simp only: distinct_map_sort_key) (rule distinct_map_filter)
  have "distinct (map (dd_ID \<circ> deploy_device) (cfg_Devices cfg))"
    "distinct (map (dd_Address \<circ> deploy_device) (cfg_Devices cfg))"
    "distinct (map (dd_PublicKey \<circ> deploy_device) (cfg_Devices cfg))" using v by (simp_all add: comp_def)
  from this[THEN uniq] have ids: "distinct (map dd_ID (ds_Devices ?s))"
    "distinct (map dd_Address (ds_Devices ?s))" "distinct (map dd_PublicKey (ds_Devices ?s))"
    by simp_all
  have tids: "distinct (map t_ID (ds_Tunnels ?s))"
    using v by (simp add: distinct_map_filter distinct_map_sort_key)
  have "sorted (map d_ID (sort_key d_ID ?keep))" "sorted (map t_ID (sort_key t_ID (cfg_Tunnels cfg)))"
    by (rule sorted_sort_key)+
  then have sorted: "sorted (map dd_ID (ds_Devices ?s))" "sorted (map t_ID (ds_Tunnels ?s))"
    "sorted (ds_ClientACLs ?s)"
    by (simp_all add: comp_def sorted_filter)
  have routes: "\<not> prefixesOverlap r q"
    if "t \<in> set (cfg_Tunnels cfg)" "u \<in> set (cfg_Tunnels cfg)" "t \<noteq> u" "r \<in> set (t_Routes t)" "q \<in> set (t_Routes u)"
    for t u r q
    using sorted_wrt_concat_pair[where P = "\<lambda>a b. \<not> prefixesOverlap b a", of t_Routes "cfg_Tunnels cfg" u t q r]
      that v prefixesOverlap_sym by blast
  have "\<forall>t \<in> set (ds_Tunnels ?s). \<forall>u \<in> set (ds_Tunnels ?s). t \<noteq> u \<longrightarrow>
        (\<forall>r \<in> set (t_Routes t). \<forall>q \<in> set (t_Routes u). \<not> prefixesOverlap r q)"
    using routes by auto
  then show ?thesis unfolding state_ok_def using hub tunnels devices ids tids sorted by blast
qed

lemma Validate_deployed_ok:
  "Validate cfg = Inr () \<Longrightarrow> state_ok (BuildDesiredState now (RemoveRevoked cfg rs))"
  by (simp add: Validate_ok_iff deployed_state_ok)

text \<open>A device address denotes one IPv4 or IPv6 address of the client subnet.\<close>

lemma device_address_facts:
  assumes "hub_ok h" "profile_ok a (hub_ClientCIDR h)"
  obtains p subnet where "ParsePrefix a = Some p" "parseNetworkPrefix (hub_ClientCIDR h) = Some subnet"
    "pfx_bits p = BitLen (pfx_addr p)" "PrefixContains subnet (pfx_addr p)"
    "\<not> PrefixContains link_base (pfx_addr p)" "hostAddress a = Some (AddrString (pfx_addr p))"
proof -
  obtain p subnet where p: "ParsePrefix a = Some p" "parseNetworkPrefix (hub_ClientCIDR h) = Some subnet"
    "pfx_bits p = BitLen (pfx_addr p)" "PrefixContains subnet (pfx_addr p)"
    using assms(2) by (auto simp: profile_ok_def)
  have "\<not> prefixesOverlap (hub_ClientCIDR h) egressLinkBase" using assms(1) by (auto simp: hub_ok_def)
  then have "\<not> PrefixContains link_base (pfx_addr p)"
    using p(4) prefixesOverlap_iff[OF p(2) link_base_network] by blast
  then show ?thesis using that p by (simp add: hostAddress_def)
qed

lemma same_host_address_v4:
  assumes "ParsePrefix a = Some p" "pfx_addr p = IPv4 w" "pfx_bits p = BitLen (pfx_addr p)"
  shows "a = string_v4 w @ ''/32''"
proof -
  have "Itoa 32 = ''32''" by code_simp
  then show ?thesis using ParsePrefix_v4_canonical[OF assms(1,2)] assms(2,3) by simp
qed

end
