(* ===== verification/HostSpecs.thy ===== *)
theory HostSpecs
  imports PlanFacts
begin

text \<open>
  The specifications the host adapters execute, compiled from a desired state and its
  firewall plan: one isolated namespace per tunnel (\<open>egress_spec.go\<close>), the ingress interface
  (\<open>ingress_spec.go\<close>), the fallback listener (\<open>reality_spec.go\<close>) and the resolver policy
  (\<open>dns_plan.go\<close>).
\<close>

subsection \<open>Namespaces (egress_spec.go)\<close>

record placement =
  pl_id :: string
  pl_mark :: "32 word"
  pl_device :: string

definition placements :: "firewall_plan \<Rightarrow> placement list" where
  "placements plan =
     map (\<lambda>g. \<lparr>pl_id = eg_ID g, pl_mark = eg_Mark g, pl_device = eg_Interface g\<rparr>)
       (filter (\<lambda>g. eg_ID g \<noteq> EgressDirect) (fp_Egresses plan)) @
     map (\<lambda>n. \<lparr>pl_id = in_TunnelID n, pl_mark = in_Mark n, pl_device = in_Interface n\<rparr>) (fp_Internals plan)"

definition upstreamInterface :: "string \<Rightarrow> string" where
  "upstreamInterface kind =
     (if kind = TunnelXray then ''sb0'' else if kind = TunnelOpenVPN then ''ovpn0'' else ''wg0'')"

datatype spec_error =
  NotInRevision string | NoDriver string string | NoUpstream string | LinksExhausted string

definition routeTableBase :: int where "routeTableBase = 100"
definition socksPortBase :: nat where "socksPortBase = 11080"

definition egress_spec_at ::
    "desired_state \<Rightarrow> (string \<times> upstream) list \<Rightarrow> nat \<times> placement \<Rightarrow> (spec_error, egress_spec) result" where
  "egress_spec_at state tunnels = (\<lambda>(index, pl).
     case map_of (rev (map (\<lambda>t. (t_ID t, t)) (ds_Tunnels state))) (pl_id pl) of
       None \<Rightarrow> Inl (NotInRevision (pl_id pl))
     | Some t \<Rightarrow>
         if t_Type t \<notin> {TunnelWireGuard, TunnelAmneziaWG, TunnelXray, TunnelOpenVPN}
         then Inl (NoDriver (t_ID t) (t_Type t))
         else case map_of tunnels (t_ID t) of
                None \<Rightarrow> Inl (NoUpstream (t_ID t))
              | Some up \<Rightarrow>
                  (case linkAddresses link_base index of
                     None \<Rightarrow> Inl (LinksExhausted (t_ID t))
                   | Some (hostAddr, peerAddr) \<Rightarrow>
                       Inr \<lparr>es_TunnelID = t_ID t, es_Namespace = ''vpn-hub-'' @ t_ID t,
                            es_HostVeth = pl_device pl, es_PeerVeth = ''uplink0'',
                            es_HostAddress = hostAddr, es_PeerAddress = peerAddr, es_Mark = pl_mark pl,
                            es_RouteTable = routeTableBase + int index,
                            es_ClientCIDR = hub_ClientCIDR (ds_Hub state),
                            es_Interface = upstreamInterface (t_Type t),
                            es_SocksPort = of_nat (socksPortBase + index), es_Type = t_Type t,
                            es_Tunnel = up_WireGuard up, es_Proxy = up_Proxy up, es_OpenVPN = up_OpenVPN up\<rparr>))"

definition BuildEgressSpecs ::
    "desired_state \<Rightarrow> firewall_plan \<Rightarrow> (string \<times> upstream) list \<Rightarrow> (spec_error, egress_spec list) result" where
  "BuildEgressSpecs state plan tunnels = mapE (egress_spec_at state tunnels) (enumerate 0 (placements plan))"

subsection \<open>The ingress interface (ingress_spec.go)\<close>

datatype ingress_error =
    NoPrivateKey | PrivateKeyInvalid key_error | PrivateKeyMismatch string | IngressEndpoint hub_error
  | IngressBadDNS string | IngressBadCIDR string | IngressDNSOutside string string | DeviceWithoutKey string

definition hubAddress :: "hub \<Rightarrow> (ingress_error, string) result" where
  "hubAddress h =
     (case ParseAddr (hub_DNSAddress h) of
        None \<Rightarrow> Inl (IngressBadDNS (hub_DNSAddress h))
      | Some address \<Rightarrow>
          (case parseNetworkPrefix (hub_ClientCIDR h) of
             None \<Rightarrow> Inl (IngressBadCIDR (hub_ClientCIDR h))
           | Some subnet \<Rightarrow>
               if \<not> PrefixContains subnet address
               then Inl (IngressDNSOutside (hub_DNSAddress h) (hub_ClientCIDR h))
               else Inr (AddrString address @ ''/'' @ Itoa (pfx_bits subnet))))"

text \<open>The result map, newest entry first; unknown names are skipped.\<close>

definition canonicalParameters :: "(string \<times> string) list \<Rightarrow> (string \<times> string) list" where
  "canonicalParameters configured =
     rev (List.map_filter (\<lambda>(name, value). map_option (\<lambda>c. (c, value)) (CanonicalAWGParameter name)) configured)"

definition peer_of :: "deployed_device \<Rightarrow> (ingress_error, peer_spec) result" where
  "peer_of d =
     (if dd_PublicKey d = [] then Inl (DeviceWithoutKey (dd_ID d))
      else Inr \<lparr>ps_PublicKey = dd_PublicKey d, ps_AllowedIPs = [dd_Address d]\<rparr>)"

definition BuildIngressSpec :: "desired_state \<Rightarrow> string \<Rightarrow> (ingress_error, ingress_spec) result" where
  "BuildIngressSpec state privateKey =
     (if privateKey = [] then Inl NoPrivateKey
      else bindE (mapErr PrivateKeyInvalid (PublicKeyFromPrivate privateKey)) (\<lambda>derived.
        if hub_ServerPublicKey (ds_Hub state) \<noteq> [] \<and> derived \<noteq> hub_ServerPublicKey (ds_Hub state)
        then Inl (PrivateKeyMismatch derived)
        else bindE (mapErr IngressEndpoint (hubListenPort (hub_Endpoint (ds_Hub state)))) (\<lambda>listenPort.
             bindE (hubAddress (ds_Hub state)) (\<lambda>address.
             bindE (mapE peer_of (ds_Devices state)) (\<lambda>peers.
               Inr \<lparr>is_Interface = IngressInterface, is_Address = address, is_ListenPort = listenPort,
                    is_PrivateKey = privateKey,
                    is_Parameters = canonicalParameters (hub_AWGInterface (ds_Hub state)),
                    is_Peers = sort_key ps_PublicKey peers\<rparr>)))))"

subsection \<open>The fallback listener (reality_spec.go)\<close>

datatype reality_error =
  RealityNoKey | RealityKeyError key_error | RealityDevice string key_error | RealityUnplanned string string

definition reality_user_of ::
    "string \<Rightarrow> (string \<times> 32 word) list \<Rightarrow> deployed_device \<Rightarrow> (reality_error, reality_user) result" where
  "reality_user_of privateKey marks d =
     bindE (mapErr (RealityDevice (dd_ID d)) (RealityUserUUID privateKey (dd_ID d) (dd_PublicKey d))) (\<lambda>uuid.
       case map_of marks (dd_Egress d) of
         None \<Rightarrow> Inl (RealityUnplanned (dd_ID d) (dd_Egress d))
       | Some mark \<Rightarrow> Inr \<lparr>ru_DeviceID = dd_ID d, ru_UUID = uuid, ru_Mark = mark\<rparr>)"

definition BuildRealityIngressSpec ::
    "desired_state \<Rightarrow> firewall_plan \<Rightarrow> string \<Rightarrow> (reality_error, reality_ingress_spec) result" where
  "BuildRealityIngressSpec state plan privateKey =
     (let reality = fb_Reality (hub_Fallback (ds_Hub state)) in
      if \<not> rf_Enabled reality then Inr zero_reality_spec
      else if privateKey = [] then Inl RealityNoKey
      else bindE (mapErr RealityKeyError (RealityPublicKey privateKey)) (\<lambda>publicKey.
        let marks = rev (map (\<lambda>g. (eg_ID g, eg_Mark g)) (fp_Egresses plan)) in
        bindE (mapE (reality_user_of privateKey marks) (ds_Devices state)) (\<lambda>users.
          Inr \<lparr>ri_Enabled = True, ri_Port = RealityPort, ri_ServerName = rf_ServerName reality,
               ri_PrivateKey = privateKey, ri_ShortID = RealityShortID publicKey,
               ri_DNSAddress = hub_DNSAddress (ds_Hub state),
               ri_Users = sort_key ru_DeviceID users\<rparr>)))"

subsection \<open>The resolver policy (dns_plan.go)\<close>

datatype dns_error = DNSNoAddress | ZonesNowhere string | EgressWithoutSpec string

definition DefaultPublicResolvers :: "string list" where
  "DefaultPublicResolvers = [''1.1.1.1'', ''9.9.9.9'']"

definition safeIdentifier :: "string \<Rightarrow> string" where
  "safeIdentifier value = ReplaceByte CHR ''-'' CHR ''_'' value"

definition privateResolverPlacement :: "string \<Rightarrow> egress_spec list \<Rightarrow> string \<times> string" where
  "privateResolverPlacement tunnelID specs =
     (case find (\<lambda>s. es_TunnelID s = tunnelID) specs of
        None \<Rightarrow> ([], [])
      | Some s \<Rightarrow> (hostOf (es_PeerAddress s), es_Namespace s))"

definition network_dns ::
    "egress_spec list \<Rightarrow> internal_network \<Rightarrow> (dns_error, dns_private_resolver list \<times> dns_zone_route list) result" where
  "network_dns specs n =
     (if in_Zones n = [] then Inr ([], [])
      else if in_Resolvers n = [] then Inl (ZonesNowhere (in_TunnelID n))
      else let (forwardAddress, namespace) = privateResolverPlacement (in_TunnelID n) specs in
        Inr (if forwardAddress = [] then []
             else [\<lparr>dr_TunnelID = in_TunnelID n, dr_Namespace = namespace, dr_Address = forwardAddress,
                    dr_Resolvers = in_Resolvers n\<rparr>],
             map (\<lambda>z. \<lparr>zr_Zone = z, zr_Resolvers = in_Resolvers n, zr_ForwardAddress = forwardAddress,
                       zr_Set = ''internal_'' @ safeIdentifier (in_TunnelID n)\<rparr>) (in_Zones n)))"

definition egress_resolver ::
    "desired_state \<Rightarrow> egress_spec list \<Rightarrow> egress_group \<Rightarrow> (dns_error, dns_egress_resolver) result" where
  "egress_resolver state specs g =
     (if eg_ID g = EgressDirect
      then Inr \<lparr>er_EgressID = eg_ID g, er_ClientAddresses = sort (eg_Addresses g),
                er_HubAddress = hub_DNSAddress (ds_Hub state), er_Namespace = [], er_NamespaceAddress = [],
                er_PublicResolvers = DefaultPublicResolvers\<rparr>
      else case find (\<lambda>s. es_TunnelID s = eg_ID g) specs of
             None \<Rightarrow> Inl (EgressWithoutSpec (eg_ID g))
           | Some s \<Rightarrow>
               Inr \<lparr>er_EgressID = eg_ID g, er_ClientAddresses = sort (eg_Addresses g),
                    er_HubAddress = hostOf (es_HostAddress s), er_Namespace = es_Namespace s,
                    er_NamespaceAddress = hostOf (es_PeerAddress s),
                    er_PublicResolvers = DefaultPublicResolvers\<rparr>)"

definition BuildDNSPlan ::
    "desired_state \<Rightarrow> firewall_plan \<Rightarrow> egress_spec list \<Rightarrow> (dns_error, dns_plan) result" where
  "BuildDNSPlan state plan specs =
     (if hub_DNSAddress (ds_Hub state) = [] then Inl DNSNoAddress
      else bindE (mapE (network_dns specs) (fp_Internals plan)) (\<lambda>parts.
        bindE (mapE (egress_resolver state specs) (filter (\<lambda>g. eg_Addresses g \<noteq> []) (fp_Egresses plan))) (\<lambda>resolvers.
          Inr \<lparr>dpl_ClientCIDR = hub_ClientCIDR (ds_Hub state),
               dpl_Zones = sort_key zr_Zone (concat (map snd parts)),
               dpl_PrivateResolvers = sort_key dr_TunnelID (concat (map fst parts)),
               dpl_EgressResolvers = sort_key er_EgressID resolvers\<rparr>)))"

end
