(* ===== verification/HostFacts.thy ===== *)
theory HostFacts
  imports StateFacts HostSpecs
begin

text \<open>
  Facts about the compiled host specifications: which tunnel the \<open>i\<close>-th namespace belongs to and
  what it was given, and where each component finds the addresses another one chose.
\<close>

subsection \<open>Placements\<close>

definition tunnel_groups ::
    "desired_state \<Rightarrow> (deployed_device \<times> string) list \<Rightarrow> (string \<times> string list) list \<Rightarrow> egress_group list" where
  "tunnel_groups s pairs permitted =
     map (\<lambda>(i, e). tunnel_group pairs permitted (proxied_map (ds_Tunnels s)) i e)
       (enumerate 0 (tunnel_egresses pairs (ds_Tunnels s)))"

lemma plan_groups_split: "plan_groups s u pairs permitted = direct_group u pairs @ tunnel_groups s pairs permitted"
  by (simp add: plan_groups_def tunnel_groups_def)

lemma tunnel_group_ids: "map eg_ID (tunnel_groups s pairs permitted) = tunnel_egresses pairs (ds_Tunnels s)"
  using group_ids[of s u pairs permitted] by (simp add: plan_groups_split)

lemma tunnel_groups_not_direct:
  assumes "\<forall>t \<in> set (ds_Tunnels s). t_ID t \<noteq> EgressDirect" "g \<in> set (tunnel_groups s pairs permitted)"
  shows "eg_ID g \<noteq> EgressDirect"
proof -
  have "eg_ID g \<in> set (tunnel_egresses pairs (ds_Tunnels s))"
    using assms(2) tunnel_group_ids[of s pairs permitted] by (metis image_eqI list.set_map)
  then show ?thesis using assms(1) by (auto simp: set_tunnel_egresses)
qed

lemma plan_tunnel_groups:
  assumes "\<forall>t \<in> set (ds_Tunnels s). t_ID t \<noteq> EgressDirect"
  shows "filter (\<lambda>g. eg_ID g \<noteq> EgressDirect) (plan_groups s u pairs permitted) = tunnel_groups s pairs permitted"
  using tunnel_groups_not_direct[OF assms] by (auto simp: plan_groups_split direct_group_def intro!: filter_True)

lemma placement_ids:
  "map pl_id (placements p) =
     map eg_ID (filter (\<lambda>g. eg_ID g \<noteq> EgressDirect) (fp_Egresses p)) @ map in_TunnelID (fp_Internals p)"
  by (simp add: placements_def)

lemma egress_ids_of_tunnels:
  assumes "state_ok s" "mapE device_address (ds_Devices s) = Inr pairs" "e \<in> set (tunnel_egresses pairs (ds_Tunnels s))"
  shows "\<exists>t \<in> set (ds_Tunnels s). t_ID t = e \<and> t_Role t = RoleEgress"
proof -
  consider d where "d \<in> set (ds_Devices s)" "dd_Egress d = e" "e \<noteq> EgressDirect"
    | t where "t \<in> set (ds_Tunnels s)" "t_ID t = e" "t_Role t = RoleEgress"
    using assms(3) pairs_iff(1)[OF assms(2)] by (auto simp: set_tunnel_egresses)
  then show ?thesis
  proof cases
    case 1
    then show ?thesis using state_ok_parts(6)[OF assms(1) 1(1)] by (auto simp: device_state_ok_def)
  qed blast
qed

lemma placement_ids_distinct:
  assumes "state_ok s" "BuildFirewallPlan s u = Inr p"
  shows "distinct (map pl_id (placements p))"
proof -
  obtain pairs permitted where parts: "mapE device_address (ds_Devices s) = Inr pairs"
    "fp_Egresses p = plan_groups s u pairs permitted"
    "fp_Internals p = internalNetworks (ds_Tunnels s) (internal_mark s pairs) permitted (proxied_map (ds_Tunnels s))"
    using plan_parts[OF assms(2)] by metis
  have ids: "map pl_id (placements p) = tunnel_egresses pairs (ds_Tunnels s) @
      map t_ID (sort_key t_ID (filter (\<lambda>t. t_Role t = RolePrivateNetwork) (ds_Tunnels s)))"
    unfolding placement_ids parts(2,3) internal_ids
      plan_tunnel_groups[OF state_ok_parts(5)[OF assms(1)]] tunnel_group_ids ..
  have "distinct (map t_ID (sort_key t_ID (filter (\<lambda>t. t_Role t = RolePrivateNetwork) (ds_Tunnels s))))"
    using state_ok_parts(4)[OF assms(1)] by (simp add: distinct_map_sort_key distinct_map_filter)
  moreover have False if "e \<in> set (tunnel_egresses pairs (ds_Tunnels s))"
    "t \<in> set (ds_Tunnels s)" "t_Role t = RolePrivateNetwork" "t_ID t = e" for e t
  proof -
    have "\<exists>v \<in> set (ds_Tunnels s). t_ID v = e \<and> t_Role v = RoleEgress"
      by (rule egress_ids_of_tunnels[OF assms(1) parts(1) that(1)])
    then obtain v where "v \<in> set (ds_Tunnels s)" "t_ID v = e" "t_Role v = RoleEgress" by blast
    moreover from this that have "v = t"
      using state_ok_parts(4)[OF assms(1)] by (simp add: distinct_map inj_on_def)
    ultimately show False using that by simp
  qed
  ultimately show ?thesis unfolding ids by (auto simp: distinct_tunnel_egresses)
qed

subsection \<open>Namespaces\<close>

definition spec_at :: "desired_state \<Rightarrow> nat \<Rightarrow> placement \<Rightarrow> egress_spec \<Rightarrow> bool" where
  "spec_at s i pl sp \<longleftrightarrow>
     i < 16384 \<and> es_TunnelID sp = pl_id pl \<and> es_Mark sp = pl_mark pl \<and> es_HostVeth sp = pl_device pl \<and>
     es_Namespace sp = ''vpn-hub-'' @ pl_id pl \<and>
     es_HostAddress sp = string_v4 (link_host i) @ ''/30'' \<and> es_PeerAddress sp = string_v4 (link_peer i) @ ''/30'' \<and>
     es_RouteTable sp = 100 + int i \<and> es_SocksPort sp = of_nat (11080 + i) \<and>
     es_ClientCIDR sp = hub_ClientCIDR (ds_Hub s) \<and> (\<exists>t \<in> set (ds_Tunnels s). t_ID t = pl_id pl \<and> es_Type sp = t_Type t)"

lemma tunnel_by_id:
  assumes "map_of (rev (map (\<lambda>t. (t_ID t, t)) ts)) i = Some t"
  shows "t \<in> set ts" "t_ID t = i"
  using map_of_SomeD[OF assms] by auto

lemma egress_spec_at_facts:
  assumes "egress_spec_at s tunnels (i, pl) = Inr sp"
  shows "spec_at s i pl sp"
proof -
  obtain t up where t: "map_of (rev (map (\<lambda>t. (t_ID t, t)) (ds_Tunnels s))) (pl_id pl) = Some t"
    "map_of tunnels (t_ID t) = Some up"
    using assms by (auto simp: egress_spec_at_def split: option.splits if_splits)
  show ?thesis
    using assms t tunnel_by_id[OF t(1)]
    by (auto simp: egress_spec_at_def linkAddresses_eq spec_at_def routeTableBase_def socksPortBase_def
        split: if_splits)
qed

lemma egress_specs_facts:
  assumes "BuildEgressSpecs s p tunnels = Inr specs"
  shows "length specs = length (placements p)"
    and "\<And>i. i < length specs \<Longrightarrow> spec_at s i (placements p ! i) (specs ! i)"
proof -
  show len: "length specs = length (placements p)"
    using mapE_length[of "egress_spec_at s tunnels"] assms by (fastforce simp: BuildEgressSpecs_def)
  fix i
  assume i: "i < length specs"
  then have "egress_spec_at s tunnels (enumerate 0 (placements p) ! i) = Inr (specs ! i)"
    using mapE_nth[of "egress_spec_at s tunnels"] assms len by (fastforce simp: BuildEgressSpecs_def)
  then show "spec_at s i (placements p ! i) (specs ! i)"
    using i len by (intro egress_spec_at_facts) (simp add: nth_enumerate_eq)
qed

lemma egress_spec_ids:
  assumes "BuildEgressSpecs s p tunnels = Inr specs"
  shows "map es_TunnelID specs = map pl_id (placements p)" "map es_Mark specs = map pl_mark (placements p)"
  using egress_specs_facts[OF assms] by (auto intro!: nth_equalityI simp: spec_at_def)

lemma placement_at:
  assumes "g \<in> set (fp_Egresses p)" "eg_ID g \<noteq> EgressDirect"
  obtains i where "i < length (placements p)" "placements p ! i = \<lparr>pl_id = eg_ID g, pl_mark = eg_Mark g, pl_device = eg_Interface g\<rparr>"
    "i < length (filter (\<lambda>g. eg_ID g \<noteq> EgressDirect) (fp_Egresses p))"
    "filter (\<lambda>g. eg_ID g \<noteq> EgressDirect) (fp_Egresses p) ! i = g"
proof -
  let ?gs = "filter (\<lambda>g. eg_ID g \<noteq> EgressDirect) (fp_Egresses p)"
  have "g \<in> set ?gs" using assms by simp
  then obtain i where i: "i < length ?gs" "?gs ! i = g" unfolding in_set_conv_nth by blast
  then show ?thesis using that[of i] by (simp add: placements_def nth_append)
qed

text \<open>The resolver a group's clients are sent to is the hub's end of that group's own link.\<close>

lemma dns_destination_of_group:
  assumes "state_ok s" "BuildFirewallPlan s u = Inr p" "g \<in> set (fp_Egresses p)" "eg_ID g \<noteq> EgressDirect"
    and "eg_Addresses g \<noteq> []"
    and "i < length (filter (\<lambda>g. eg_ID g \<noteq> EgressDirect) (fp_Egresses p))"
    and "filter (\<lambda>g. eg_ID g \<noteq> EgressDirect) (fp_Egresses p) ! i = g"
  shows "\<lparr>dn_ClientAddresses = sort (eg_Addresses g), dn_ResolverAddress = string_v4 (link_host i)\<rparr> \<in> set (fp_DNSDestinations p)"
proof -
  obtain pairs permitted where parts: "mapE device_address (ds_Devices s) = Inr pairs"
    "fp_Egresses p = plan_groups s u pairs permitted"
    "dnsDestinations (fp_Egresses p) (hub_DNSAddress (ds_Hub s)) = Inr (fp_DNSDestinations p)"
    using plan_parts[OF assms(2)] by metis
  let ?gs = "tunnel_groups s pairs permitted"
  have gs: "filter (\<lambda>g. eg_ID g \<noteq> EgressDirect) (fp_Egresses p) = ?gs"
    using plan_tunnel_groups[OF state_ok_parts(5)[OF assms(1)]] parts(2) by simp
  have "dnsDestinations (direct_group u pairs @ ?gs) (hub_DNSAddress (ds_Hub s)) = Inr (fp_DNSDestinations p)"
    using parts(3) unfolding parts(2) plan_groups_split .
  moreover have "\<forall>g \<in> set ?gs. eg_ID g \<noteq> EgressDirect"
    using tunnel_groups_not_direct[OF state_ok_parts(5)[OF assms(1)]] by blast
  ultimately have "set (fp_DNSDestinations p) \<supseteq>
      {snd (dns_entry (string_v4 (link_host i)) (?gs ! i)) |i. i < length ?gs \<and> eg_Addresses (?gs ! i) \<noteq> []}"
    using dnsDestinations_entries by blast
  moreover have "snd (dns_entry (string_v4 (link_host i)) g) \<in>
      {snd (dns_entry (string_v4 (link_host i)) (?gs ! i)) |i. i < length ?gs \<and> eg_Addresses (?gs ! i) \<noteq> []}"
    using assms(5-7) unfolding gs by (auto intro!: exI[of _ i])
  ultimately show ?thesis by (auto simp: dns_entry_def)
qed

subsection \<open>The ingress interface\<close>

lemma ingress_parts:
  assumes "BuildIngressSpec s key = Inr spec"
  obtains peers where "mapE peer_of (ds_Devices s) = Inr peers" "is_Peers spec = sort_key ps_PublicKey peers"
    "is_PrivateKey spec = key" "is_Interface spec = IngressInterface"
    "hubListenPort (hub_Endpoint (ds_Hub s)) = Inr (is_ListenPort spec)" "hubAddress (ds_Hub s) = Inr (is_Address spec)"
  using assms
  by (auto simp: BuildIngressSpec_def bindE_Inr_iff split: if_splits)

lemma ingress_peer_iff:
  assumes "BuildIngressSpec s key = Inr spec"
  shows "q \<in> set (is_Peers spec) \<longleftrightarrow>
    (\<exists>d \<in> set (ds_Devices s). q = \<lparr>ps_PublicKey = dd_PublicKey d, ps_AllowedIPs = [dd_Address d]\<rparr>)"
proof -
  obtain peers where p: "mapE peer_of (ds_Devices s) = Inr peers" "is_Peers spec = sort_key ps_PublicKey peers"
    by (rule ingress_parts[OF assms])
  have "peer_of d = Inr q \<longleftrightarrow> q = \<lparr>ps_PublicKey = dd_PublicKey d, ps_AllowedIPs = [dd_Address d]\<rparr>"
    if "d \<in> set (ds_Devices s)" for d
  proof -
    have "\<exists>q. peer_of d = Inr q" using p(1) that by (metis in_set_conv_nth mapE_nth)
    then show ?thesis by (auto simp: peer_of_def split: if_splits)
  qed
  then show ?thesis unfolding p(2) set_sort mapE_set[OF p(1)] by blast
qed

text \<open>For a state compiled from a valid configuration and the hub's own key the interface always compiles.\<close>

lemma ingress_total:
  assumes "state_ok s" "PublicKeyFromPrivate key = Inr (hub_ServerPublicKey (ds_Hub s))"
  shows "\<exists>spec. BuildIngressSpec s key = Inr spec"
proof -
  have hub: "hub_ok (ds_Hub s)" by (rule state_ok_parts(1)[OF assms(1)])
  have "key \<noteq> []"
  proof
    assume "key = []"
    moreover have "StdDecode [] = Some []" by code_simp
    ultimately show False using assms(2) by (simp add: PublicKeyFromPrivate_def X25519Public_def KeyLength_def)
  qed
  moreover obtain port where "hubListenPort (hub_Endpoint (ds_Hub s)) = Inr port"
    using hub hubListenPort_Inr_iff by (fastforce simp: hub_ok_def)
  moreover obtain address where "hubAddress (ds_Hub s) = Inr address"
    using hub by (auto simp: hub_ok_def hubAddress_def)
  moreover have "peer_of d = Inr \<lparr>ps_PublicKey = dd_PublicKey d, ps_AllowedIPs = [dd_Address d]\<rparr>"
    if "d \<in> set (ds_Devices s)" for d
    using state_ok_parts(6)[OF assms(1) that] by (auto simp: peer_of_def device_state_ok_def)
  then have "mapE peer_of (ds_Devices s) =
      Inr (map (\<lambda>d. \<lparr>ps_PublicKey = dd_PublicKey d, ps_AllowedIPs = [dd_Address d]\<rparr>) (ds_Devices s))"
    by (rule mapE_total)
  ultimately show ?thesis using assms(2) by (simp add: BuildIngressSpec_def)
qed

end
