(* ===== verification/Sample.thy ===== *)
theory Sample
  imports DesiredState
begin

text \<open>
  A small configuration the witnesses run on: a hub with two devices, an egress tunnel, a
  private network restricted to one device, and one rule between the devices.
\<close>

definition sample_key :: "nat \<Rightarrow> string" where
  "sample_key n = StdEncode (replicate 32 (char_of n))"

definition sample_private :: string where
  "sample_private = StdEncode (replicate 32 CHR ''k'')"

definition sample_public :: string where
  "sample_public = (case PublicKeyFromPrivate sample_private of Inr pub \<Rightarrow> pub | Inl _ \<Rightarrow> [])"

definition sample_hub :: hub where
  "sample_hub = \<lparr>hub_Endpoint = ''vpn.example.com:51820'', hub_ServerPublicKey = sample_public,
     hub_ClientCIDR = ''10.80.0.0/24'', hub_DNSAddress = ''10.80.0.1'', hub_AWGInterface = [(''jc'', ''4'')],
     hub_Fallback = \<lparr>fb_UDP443 = False, fb_Reality = \<lparr>rf_Enabled = True, rf_ServerName = ''www.example.org''\<rparr>\<rparr>\<rparr>"

definition no_health :: health_check where
  "no_health = \<lparr>hc_TCPAddress = [], hc_HTTPSURL = [], hc_DNSName = []\<rparr>"

definition sample_laptop :: device where
  "sample_laptop = \<lparr>d_ID = ''laptop'', d_Address = ''10.80.0.2/32'', d_PublicKey = sample_key 1,
     d_Egress = ''nl'', d_Profiles = []\<rparr>"

definition sample_phone :: device where
  "sample_phone = \<lparr>d_ID = ''phone'', d_Address = ''10.80.0.3/32'', d_PublicKey = sample_key 2,
     d_Egress = ''direct'', d_Profiles = []\<rparr>"

definition sample_nl :: tunnel where
  "sample_nl = \<lparr>t_ID = ''nl'', t_Type = ''wireguard'', t_Role = ''egress'', t_Enabled = None,
     t_Source = \<lparr>ts_Kind = ''config'', ts_Value = ''nl.conf''\<rparr>, t_Routes = [], t_DNSServers = [],
     t_DNSZones = [], t_AllowedDevices = [], t_Health = no_health\<rparr>"

definition sample_corp :: tunnel where
  "sample_corp = \<lparr>t_ID = ''corp'', t_Type = ''wireguard'', t_Role = ''private-network'', t_Enabled = None,
     t_Source = \<lparr>ts_Kind = ''config'', ts_Value = ''corp.conf''\<rparr>,
     t_Routes = [''10.10.0.0/16'', ''10.20.0.0/16''], t_DNSServers = [''10.10.0.53''],
     t_DNSZones = [''corp.example''], t_AllowedDevices = [''laptop''], t_Health = no_health\<rparr>"

definition sample_acl :: client_acl where
  "sample_acl = \<lparr>acl_Source = ''phone'', acl_Target = ''laptop'', acl_Protocol = ''tcp'', acl_Port = 22\<rparr>"

definition sample_config :: config where
  "sample_config = \<lparr>cfg_Hub = sample_hub, cfg_Devices = [sample_laptop, sample_phone],
     cfg_Tunnels = [sample_nl, sample_corp], cfg_ClientACLs = [sample_acl]\<rparr>"

subsection \<open>The sample configuration is valid\<close>

lemma sample_key_valid [simp]: "ValidatePublicKey (sample_key n) = Inr ()"
  by (simp add: ValidatePublicKey_def sample_key_def KeyLength_def)

lemma StdEncode_inj: "StdEncode a = StdEncode b \<Longrightarrow> a = b"
  by (metis StdDecode_StdEncode option.inject)

lemma sample_key_inj: "m < 256 \<Longrightarrow> n < 256 \<Longrightarrow> sample_key m = sample_key n \<longleftrightarrow> m = n"
  by (auto simp: sample_key_def dest!: StdEncode_inj)

lemma sample_public_derived: "PublicKeyFromPrivate sample_private = Inr sample_public"
  by (simp add: sample_public_def sample_private_def PublicKeyFromPrivate_def X25519Public_def KeyLength_def)

lemma sample_public_valid [simp]: "ValidatePublicKey sample_public = Inr ()"
  by (rule PublicKeyFromPrivate_valid[OF sample_public_derived])

lemma sample_prefixes:
  "ParsePrefix ''10.80.0.0/24'' = Some \<lparr>pfx_addr = IPv4 0x0A500000, pfx_bits = 24\<rparr>"
  "ParsePrefix ''10.80.0.2/32'' = Some \<lparr>pfx_addr = IPv4 0x0A500002, pfx_bits = 32\<rparr>"
  "ParsePrefix ''10.80.0.3/32'' = Some \<lparr>pfx_addr = IPv4 0x0A500003, pfx_bits = 32\<rparr>"
  "ParsePrefix ''10.10.0.0/16'' = Some \<lparr>pfx_addr = IPv4 0x0A0A0000, pfx_bits = 16\<rparr>"
  "ParsePrefix ''10.20.0.0/16'' = Some \<lparr>pfx_addr = IPv4 0x0A140000, pfx_bits = 16\<rparr>"
  by code_simp+

lemma sample_addresses:
  "ParseAddr ''10.80.0.1'' = Some (IPv4 0x0A500001)"
  "ParseAddr ''10.10.0.53'' = Some (IPv4 0x0A0A0035)"
  by code_simp+

lemma sample_endpoint: "SplitHostPort ''vpn.example.com:51820'' = Inr (''vpn.example.com'', ''51820'')" "ParsePort ''51820'' = Some 51820"
  by code_simp+

lemma sample_awg: "awg_ok [(''jc'', ''4'')]"
  unfolding validateAWGInterface_ok_iff[symmetric] by code_simp

lemma link_base_prefix: "ParsePrefix egressLinkBase = Some \<lparr>pfx_addr = IPv4 0x0A5A0000, pfx_bits = 16\<rparr>"
  by code_simp

lemma sample_server_name:
  "validateHostname ''www.example.org'' = Inr ()" "canonicalHostname ''vpn.example.com'' \<noteq> canonicalHostname ''www.example.org''"
  by code_simp+

lemma sample_hub_ok: "hub_ok sample_hub"
  unfolding hub_ok_def sample_hub_def
  by (simp add: parseNetworkPrefix_def sample_prefixes sample_addresses sample_endpoint prefixesOverlap_def
      link_base_prefix Masked_def sample_awg reality_ok_def mimics_hub_def sample_server_name PrefixContains_v4 PrefixOverlaps_def mask_word_def)

lemma sample_devices_ok: "device_ok sample_hub sample_laptop" "device_ok sample_hub sample_phone"
  by (simp_all add: device_ok_def sample_hub_def sample_laptop_def sample_phone_def profile_ok_def
      parseNetworkPrefix_def sample_prefixes sample_addresses claims_hub_address_def Masked_def mask_word_def
      PrefixContains_v4 identifierPattern_def is_lower_def is_digit_def code_def)

lemma sample_zone: "zone_ok ''corp.example''" "normalizeZone ''corp.example'' = ''corp.example''"
  by (simp_all add: zone_ok_def) code_simp+

lemma no_health_ok: "HealthCheckValidate no_health = Inr ()"
  by (simp add: HealthCheckValidate_def no_health_def HealthTCP_def HealthHTTPS_def)

lemma sample_tunnels_ok:
  "tunnel_ok {''laptop'', ''phone''} sample_nl" "tunnel_ok {''laptop'', ''phone''} sample_corp"
  by (simp_all add: tunnel_ok_def sample_nl_def sample_corp_def tunnel_shape_ok_def source_ok_def no_health_ok
      sample_addresses sample_zone identifierPattern_def is_lower_def is_digit_def code_def EgressDirect_def)

lemma sample_valid: "Validate sample_config = Inr ()"
proof -
  have ids: "device_ids sample_config = {''laptop'', ''phone''}"
    by (simp add: device_ids_def sample_config_def sample_laptop_def sample_phone_def)
  have egress: "egress_ok [sample_nl, sample_corp] sample_laptop" "egress_ok [sample_nl, sample_corp] sample_phone"
    by (simp_all add: egress_ok_def sample_laptop_def sample_phone_def sample_nl_def EgressDirect_def IsEnabled_def)
  have distinct: "distinct (map d_ID [sample_laptop, sample_phone])"
    "distinct (map d_Address [sample_laptop, sample_phone])" "distinct (map d_PublicKey [sample_laptop, sample_phone])"
    "distinct (map t_ID [sample_nl, sample_corp])"
    by (simp_all add: sample_laptop_def sample_phone_def sample_key_inj sample_nl_def sample_corp_def)
  have acl: "acl_ok {''laptop'', ''phone''} sample_acl" by (simp add: acl_ok_def sample_acl_def)
  have routes: "t_Routes sample_nl = []" "t_Routes sample_corp = [''10.10.0.0/16'', ''10.20.0.0/16'']"
    "zones_of sample_nl = []" "zones_of sample_corp = [''corp.example'']"
    by (simp_all add: sample_nl_def sample_corp_def zones_of_def sample_zone)
  have overlap: "\<not> prefixesOverlap ''10.20.0.0/16'' ''10.10.0.0/16''"
    by (simp add: prefixesOverlap_def parseNetworkPrefix_def sample_prefixes Masked_def PrefixOverlaps_def mask_word_def)
  show ?thesis
    unfolding Validate_ok_iff valid_config_def ids
    using sample_hub_ok sample_devices_ok sample_tunnels_ok egress distinct acl overlap
    by (simp add: sample_config_def routes parseNetworkPrefix_def sample_prefixes)
qed

end
