(* ===== verification/ConfigClaims.thy ===== *)
theory ConfigClaims
  imports Sample StateFacts
begin

text \<open>
  What validation and the compilation of a revision promise about a configuration: exactly the
  valid configurations are accepted, accepted names and addresses are safe where they are used,
  and the revision depends only on what the host has to know.
\<close>

subsection \<open>Acceptance\<close>

text \<open>C1: \<open>Validate\<close> accepts a configuration exactly when it satisfies the declarative predicate
  \<open>valid_config\<close>: every loop, seen-map and early return of the code together decide that predicate.\<close>
theorem Validate_accepts_exactly: "Validate cfg = Inr () \<longleftrightarrow> valid_config cfg"
  by (rule Validate_ok_iff)

text \<open>C2: What is deployed from a valid configuration after pruning revoked devices is a state the
  host side can rely on: identifiers, addresses and keys are distinct, every device's egress is direct or an
  enabled egress tunnel of the state that admits it, and no two tunnels' routes overlap.\<close>
theorem deployed_state_is_ok:
  assumes "Validate cfg = Inr ()"
  shows "state_ok (BuildDesiredState now (RemoveRevoked cfg revoked))"
  by (rule Validate_deployed_ok[OF assms])

theorem deployed_state_is_ok_witness:
  "state_ok (BuildDesiredState 0 (RemoveRevoked sample_config [''phone'']))"
  by (rule deployed_state_is_ok[OF sample_valid])

subsection \<open>Addresses\<close>

text \<open>In an accepted configuration no address lies in two declared routes, whether the routes
  belong to one tunnel or to two.\<close>
theorem accepted_routes_are_disjoint:
  assumes "Validate cfg = Inr ()"
    and "i < length (concat (map t_Routes (cfg_Tunnels cfg)))" "j < length (concat (map t_Routes (cfg_Tunnels cfg)))" "i \<noteq> j"
    and "parseNetworkPrefix (concat (map t_Routes (cfg_Tunnels cfg)) ! i) = Some p"
    and "parseNetworkPrefix (concat (map t_Routes (cfg_Tunnels cfg)) ! j) = Some q"
  shows "\<not> (PrefixContains p ip \<and> PrefixContains q ip)"
proof -
  have "sorted_wrt (\<lambda>a b. \<not> prefixesOverlap b a) (concat (map t_Routes (cfg_Tunnels cfg)))"
    using assms(1) by (simp add: Validate_ok_iff valid_config_def)
  then have "\<not> prefixesOverlap (concat (map t_Routes (cfg_Tunnels cfg)) ! j) (concat (map t_Routes (cfg_Tunnels cfg)) ! i)"
    using sorted_wrt_distinct_positions[OF _ _ assms(2-4)] prefixesOverlap_sym by blast
  then show ?thesis using prefixesOverlap_iff[OF assms(6,5)] by blast
qed

theorem accepted_routes_are_disjoint_witness:
  "\<not> (PrefixContains \<lparr>pfx_addr = IPv4 0x0A0A0000, pfx_bits = 16\<rparr> (IPv4 0x0A0A0001) \<and>
      PrefixContains \<lparr>pfx_addr = IPv4 0x0A140000, pfx_bits = 16\<rparr> (IPv4 0x0A0A0001))"
  using accepted_routes_are_disjoint[OF sample_valid, of 0 1]
  by (simp add: sample_config_def sample_nl_def sample_corp_def parseNetworkPrefix_def sample_prefixes Masked_def mask_word_def)

text \<open>Every accepted device claims one host address inside the client subnet which is neither the
  hub's own address nor an address of the links between the namespaces.\<close>
theorem device_address_is_its_own:
  assumes "Validate cfg = Inr ()" "d \<in> set (cfg_Devices cfg)"
  shows "\<exists>p subnet dns. ParsePrefix (d_Address d) = Some p \<and> pfx_bits p = BitLen (pfx_addr p) \<and>
    parseNetworkPrefix (hub_ClientCIDR (cfg_Hub cfg)) = Some subnet \<and> PrefixContains subnet (pfx_addr p) \<and>
    ParseAddr (hub_DNSAddress (cfg_Hub cfg)) = Some dns \<and> pfx_addr p \<noteq> dns \<and>
    \<not> PrefixContains link_base (pfx_addr p)"
proof -
  have ok: "hub_ok (cfg_Hub cfg)" "device_ok (cfg_Hub cfg) d"
    using assms by (auto simp: Validate_ok_iff valid_config_def)
  then have "profile_ok (d_Address d) (hub_ClientCIDR (cfg_Hub cfg))" by (simp add: device_ok_def)
  then obtain p subnet where p: "ParsePrefix (d_Address d) = Some p"
    "parseNetworkPrefix (hub_ClientCIDR (cfg_Hub cfg)) = Some subnet" "pfx_bits p = BitLen (pfx_addr p)"
    "PrefixContains subnet (pfx_addr p)" "\<not> PrefixContains link_base (pfx_addr p)"
    using device_address_facts[OF ok(1)] by metis
  obtain dns where "ParseAddr (hub_DNSAddress (cfg_Hub cfg)) = Some dns" using ok(1) by (auto simp: hub_ok_def)
  with p ok(2) show ?thesis by (auto simp: device_ok_def claims_hub_address_def)
qed

theorem device_address_is_its_own_witness:
  "\<exists>p. ParsePrefix (d_Address sample_phone) = Some p \<and> \<not> PrefixContains link_base (pfx_addr p)"
  using device_address_is_its_own[OF sample_valid, of sample_phone] by (auto simp: sample_config_def)

text \<open>Two accepted devices never share an IPv4 address, although the check compares the texts of the
  addresses: an IPv4 host route has only one spelling the parser accepts.\<close>
theorem ipv4_addresses_are_not_shared:
  assumes "Validate cfg = Inr ()" "d \<in> set (cfg_Devices cfg)" "e \<in> set (cfg_Devices cfg)" "d \<noteq> e"
    and "ParsePrefix (d_Address d) = Some p" "ParsePrefix (d_Address e) = Some q" "Is4 (pfx_addr p)"
  shows "pfx_addr p \<noteq> pfx_addr q"
proof
  assume same: "pfx_addr p = pfx_addr q"
  obtain w where w: "pfx_addr p = IPv4 w" using assms(7) by (cases "pfx_addr p") simp_all
  have ok: "device_ok (cfg_Hub cfg) d" "device_ok (cfg_Hub cfg) e" "distinct (map d_Address (cfg_Devices cfg))"
    using assms by (auto simp: Validate_ok_iff valid_config_def)
  then have "pfx_bits p = BitLen (pfx_addr p)" "pfx_bits q = BitLen (pfx_addr q)"
    using assms(5,6) by (auto simp: device_ok_def profile_ok_def)
  then have "d_Address d = d_Address e"
    using same_host_address_v4[OF assms(5) w] same_host_address_v4[OF assms(6)] w same by simp
  then show False using ok(3) assms(2-4) by (simp add: distinct_map inj_on_def)
qed

theorem ipv4_addresses_are_not_shared_witness: "IPv4 0x0A500002 \<noteq> IPv4 0x0A500003"
  using ipv4_addresses_are_not_shared[OF sample_valid, of sample_laptop sample_phone]
  by (simp add: sample_config_def sample_laptop_def sample_phone_def sample_prefixes)

subsection \<open>Texts that reach configuration files and commands\<close>

text \<open>A zone of an accepted tunnel, in the normalised form that is rendered, is not empty and consists of
  letters, digits, hyphens, underscores and dots: it cannot open a directive of its own.\<close>
theorem zones_cannot_inject:
  assumes "Validate cfg = Inr ()" "t \<in> set (cfg_Tunnels cfg)" "z \<in> set (t_DNSZones t)" "c \<in> set (normalizeZone z)"
  shows "normalizeZone z \<noteq> [] \<and> (name_char c \<or> c = CHR ''.'') \<and> c \<notin> {CHR 0x0A, CHR 0x0D, CHR 0x20, CHR ''/''}"
proof -
  have "zone_ok z" using assms(1-3) by (auto simp: Validate_ok_iff valid_config_def tunnel_ok_def)
  then have "ValidateDNSZone (normalizeZone z) = Inr ()" by (simp add: zone_ok_def)
  from this assms(4) have "name_char c \<or> c = CHR ''.''" by (rule ValidateDNSZone_chars)
  with assms(4) show ?thesis by auto
qed

theorem zones_cannot_inject_witness: "name_char CHR ''c'' \<or> CHR ''c'' = CHR ''.''"
  using zones_cannot_inject[OF sample_valid, of sample_corp "''corp.example''" "CHR ''c''"]
  by (simp add: sample_config_def sample_corp_def sample_zone)

text \<open>The host of an accepted probe target is not empty, does not start with a dash and consists of
  characters of names and addresses, so a command never reads it as a flag or a second argument.\<close>
theorem probe_hosts_are_plain:
  assumes "HealthCheckValidate h = Inr ()" "hc_TCPAddress h \<noteq> []"
  shows "\<exists>host port n. SplitHostPort (hc_TCPAddress h) = Inr (host, port) \<and> host \<noteq> [] \<and>
    list_all probe_char host \<and> \<not> HasPrefix host ''-'' \<and> ParsePort port = Some n \<and> 0 < n \<and> n < 65536"
proof -
  have "HealthTCP (hc_TCPAddress h) = Inr ()"
    using assms by (auto simp: HealthCheckValidate_def bindE_Inr_iff)
  then obtain host port n where h: "SplitHostPort (hc_TCPAddress h) = Inr (host, port)"
    "validateProbeHost host = Inr ()" "ParsePort port = Some n"
    using assms(2) by (auto simp: HealthTCP_def bindE_Inr_iff split: sum.splits if_splits)
  then show ?thesis using validateProbeHost_ok[OF h(2)] ParsePort_range[OF h(3)] by auto
qed

theorem probe_hosts_are_plain_witness:
  "\<exists>host port n. SplitHostPort ''10.0.0.1:443'' = Inr (host, port) \<and> host \<noteq> [] \<and>
    list_all probe_char host \<and> \<not> HasPrefix host ''-'' \<and> ParsePort port = Some n \<and> 0 < n \<and> n < 65536"
proof -
  have "HealthCheckValidate \<lparr>hc_TCPAddress = ''10.0.0.1:443'', hc_HTTPSURL = [], hc_DNSName = []\<rparr> = Inr ()"
    by code_simp
  from probe_hosts_are_plain[OF this] show ?thesis by simp
qed

subsection \<open>The revision\<close>

text \<open>The state compiled from an accepted configuration, its revision included, does not depend on the
  order in which devices, tunnels and rules are written.\<close>
theorem revision_ignores_order:
  assumes "Validate cfg = Inr ()" "same_config cfg other"
  shows "BuildDesiredState now cfg = BuildDesiredState now other"
  using assms by (intro BuildDesiredState_order) (simp_all add: Validate_ok_iff valid_config_def)

theorem revision_ignores_order_witness:
  "BuildDesiredState 0 sample_config =
   BuildDesiredState 0 (sample_config\<lparr>cfg_Devices := [sample_phone, sample_laptop], cfg_Tunnels := [sample_corp, sample_nl]\<rparr>)"
  by (rule revision_ignores_order[OF sample_valid]) (simp add: same_config_def sample_config_def)

text \<open>Replacing every credential-bearing tunnel source by its redaction leaves the revision unchanged:
  the hash sees sources only after redaction.\<close>
theorem revision_ignores_credentials:
  "ds_Revision (BuildDesiredState now (redact_config cfg)) = ds_Revision (BuildDesiredState now cfg)"
  by (rule revision_redacted)

text \<open>After pruning, the deployed devices are exactly the configured ones whose identifier is not revoked,
  with the address, key and egress they were configured with.\<close>
theorem revoked_devices_are_not_deployed:
  "d \<in> set (ds_Devices (BuildDesiredState now (RemoveRevoked cfg revoked))) \<longleftrightarrow>
     (\<exists>c \<in> set (cfg_Devices cfg). d_ID c \<notin> set revoked \<and> d = deploy_device c)"
  by (rule set_deployed)

subsection \<open>Keys and derived credentials\<close>

text \<open>From 32 random bytes a key pair is always generated; the public key is the one derived from the
  private key, and it passes the validation every configured public key must pass.\<close>
theorem generated_keys_are_accepted:
  assumes "length bs = KeyLength"
  shows "\<exists>priv pub. GenerateX25519KeyPair (Some bs) = Inr (priv, pub) \<and>
    PublicKeyFromPrivate priv = Inr pub \<and> ValidatePublicKey pub = Inr ()"
proof -
  obtain raw where "X25519Public (clamp_bytes bs) = Some raw"
    using assms by (auto simp: X25519Public_def clamp_bytes_def Let_def)
  then obtain priv pub where g: "GenerateX25519KeyPair (Some bs) = Inr (priv, pub)"
    by (simp add: GenerateX25519KeyPair_def Let_def)
  then show ?thesis using GenerateX25519KeyPair_consistent[OF g] PublicKeyFromPrivate_valid by blast
qed

theorem generated_keys_are_accepted_witness:
  "\<exists>priv pub. GenerateX25519KeyPair (Some (replicate 32 CHR ''x'')) = Inr (priv, pub) \<and>
    PublicKeyFromPrivate priv = Inr pub \<and> ValidatePublicKey pub = Inr ()"
  by (rule generated_keys_are_accepted) (simp add: KeyLength_def)

text \<open>Two devices with identifiers of the accepted form never feed the credential derivation the same
  input unless both the identifier and the key agree.\<close>
theorem reality_inputs_differ:
  assumes "identifierPattern i" "identifierPattern j" "(i, k) \<noteq> (j, l)"
  shows "reality_user_input i k \<noteq> reality_user_input j l"
proof -
  have "CHR 0x00 \<notin> set x" if "identifierPattern x" for x
    using that by (cases x) (auto simp: identifierPattern_def is_lower_def is_digit_def code_def list_all_iff)
  then show ?thesis using assms reality_user_input_inj by blast
qed

theorem reality_inputs_differ_witness: "reality_user_input ''laptop'' ''k'' \<noteq> reality_user_input ''phone'' ''k''"
proof -
  have "identifierPattern ''laptop''" "identifierPattern ''phone''" by code_simp+
  then show ?thesis by (rule reality_inputs_differ) simp
qed

end
