(* ===== verification/PlanClaims.thy ===== *)
theory PlanClaims
  imports ConfigClaims
begin

text \<open>
  What the firewall plan says about the state it was compiled from: that it exists, which marks
  it hands out, which group a device's traffic is in, who may use a tunnel, and where a private
  network's resolvers are reached.
\<close>

subsection \<open>A plan exists\<close>

lemma device_addresses_total:
  assumes "state_ok s"
  shows "mapE device_address (ds_Devices s) = Inr (map (\<lambda>d. (d, the (hostAddress (dd_Address d)))) (ds_Devices s))"
proof (rule mapE_total)
  fix d
  assume "d \<in> set (ds_Devices s)"
  then have "profile_ok (dd_Address d) (hub_ClientCIDR (ds_Hub s))"
    using state_ok_parts(6)[OF assms] by (simp add: device_state_ok_def)
  then obtain a where "hostAddress (dd_Address d) = Some a"
    using device_address_facts[OF state_ok_parts(1)[OF assms]] by metis
  then show "device_address d = Inr (d, the (hostAddress (dd_Address d)))" by (simp add: device_address_def)
qed

lemma dns_entries_total:
  assumes "\<forall>g \<in> set gs. eg_ID g \<noteq> EgressDirect" "k + length gs \<le> 16384"
  shows "\<exists>es. dns_entries dir k gs = Inr es"
  using assms
proof (induction gs arbitrary: k)
  case (Cons g gs)
  then obtain es where "dns_entries dir (Suc k) gs = Inr es" by force
  with Cons.prems show ?case by (simp add: linkAddresses_eq)
qed simp

lemma tunnel_egresses_few:
  assumes "state_ok s" "fst ` set pairs \<subseteq> set (ds_Devices s)"
  shows "length (tunnel_egresses pairs (ds_Tunnels s)) \<le> length (filter (\<lambda>t. t_Role t = RoleEgress) (ds_Tunnels s))"
proof -
  let ?egress = "map t_ID (filter (\<lambda>t. t_Role t = RoleEgress) (ds_Tunnels s))"
  have chosen: "dd_Egress d = EgressDirect \<or> dd_Egress d \<in> set ?egress" if "d \<in> fst ` set pairs" for d
  proof -
    have "d \<in> set (ds_Devices s)" using that assms(2) by blast
    from state_ok_parts(6)[OF assms(1) this]
    consider "dd_Egress d = EgressDirect" | t where "t \<in> set (ds_Tunnels s)" "dd_Egress d = t_ID t" "t_Role t = RoleEgress"
      by (auto simp: device_state_ok_def)
    then show ?thesis by cases simp_all
  qed
  have "set (tunnel_egresses pairs (ds_Tunnels s)) \<subseteq> set ?egress"
  proof
    fix e
    assume "e \<in> set (tunnel_egresses pairs (ds_Tunnels s))"
    then consider d where "d \<in> fst ` set pairs" "dd_Egress d = e" "e \<noteq> EgressDirect" | "e \<in> set ?egress"
      by (auto simp: set_tunnel_egresses)
    then show "e \<in> set ?egress" using chosen by cases auto
  qed
  then have "card (set (tunnel_egresses pairs (ds_Tunnels s))) \<le> card (set ?egress)" by (intro card_mono) simp_all
  also have "\<dots> \<le> length ?egress" by (rule card_length)
  finally show ?thesis by (simp add: distinct_card[OF distinct_tunnel_egresses])
qed

lemma dns_entries_after_direct:
  assumes "\<exists>es. dns_entries dir 0 gs = Inr es"
  shows "\<exists>es. dns_entries dir 0 (direct_group u pairs @ gs) = Inr es"
  using assms by (auto simp: direct_group_def)

lemma plan_total:
  assumes "state_ok s" "uplink \<noteq> []" "length (ds_Tunnels s) \<le> 16384"
  shows "\<exists>p. BuildFirewallPlan s uplink = Inr p"
proof -
  let ?pairs = "map (\<lambda>d. (d, the (hostAddress (dd_Address d)))) (ds_Devices s)"
  obtain permitted where permitted: "permittedClients s = Inr permitted"
    by (simp add: permittedClients_def device_addresses_total[OF assms(1)] Let_def)
  obtain port where port: "hubListenPort (hub_Endpoint (ds_Hub s)) = Inr port"
    using state_ok_parts(1)[OF assms(1)] hubListenPort_Inr_iff by (fastforce simp: hub_ok_def)
  let ?es = "tunnel_egresses ?pairs (ds_Tunnels s)"
  let ?gs = "map (\<lambda>(i, e). tunnel_group ?pairs permitted (proxied_map (ds_Tunnels s)) i e) (enumerate 0 ?es)"
  have "fst ` set ?pairs \<subseteq> set (ds_Devices s)" by auto
  then have "length ?es \<le> 16384"
    using tunnel_egresses_few[OF assms(1), of ?pairs] assms(3)
      length_filter_le[of "\<lambda>t. t_Role t = RoleEgress" "ds_Tunnels s"] by linarith
  moreover have direct: "EgressDirect \<notin> set ?es"
    using state_ok_parts(5)[OF assms(1)] by (auto simp: set_tunnel_egresses)
  then have "\<forall>g \<in> set ?gs. eg_ID g \<noteq> EgressDirect" by (auto simp: in_set_enumerate_eq) (metis nth_mem)
  ultimately have "\<exists>es. dns_entries dir 0 ?gs = Inr es" for dir
    by (intro dns_entries_total) simp_all
  then have "\<exists>es. dns_entries dir 0 (direct_group uplink ?pairs @ ?gs) = Inr es" for dir
    by (rule dns_entries_after_direct)
  then have "\<exists>ds. dnsDestinations (direct_group uplink ?pairs @ ?gs) dir = Inr ds" for dir
    unfolding dnsDestinations_def bindE_Inr_iff by blast
  then show ?thesis
    using assms(2) port permitted
    by (auto simp: BuildFirewallPlan_def device_addresses_total[OF assms(1)] Let_def bindE_Inr_iff)
qed

text \<open>For every accepted configuration with at most 16384 tunnels, after any pruning, the firewall plan
  compiles as soon as the uplink interface is known.\<close>
theorem accepted_configurations_have_a_plan:
  assumes "Validate cfg = Inr ()" "length (cfg_Tunnels cfg) \<le> 16384" "uplink \<noteq> []"
  shows "\<exists>p. BuildFirewallPlan (BuildDesiredState now (RemoveRevoked cfg revoked)) uplink = Inr p"
proof (rule plan_total[OF Validate_deployed_ok[OF assms(1)] assms(3)])
  show "length (ds_Tunnels (BuildDesiredState now (RemoveRevoked cfg revoked))) \<le> 16384"
    using assms(2) length_filter_le[of IsEnabled "sort_key t_ID (cfg_Tunnels cfg)"] by simp
qed

theorem accepted_configurations_have_a_plan_witness:
  "\<exists>p. BuildFirewallPlan (BuildDesiredState 0 (RemoveRevoked sample_config [])) ''eth0'' = Inr p"
  by (rule accepted_configurations_have_a_plan[OF sample_valid]) (simp_all add: sample_config_def)

subsection \<open>Marks\<close>

text \<open>The marks of a plan are pairwise different and none is zero, the mark of unmarked traffic: no two
  egress groups or private networks can be confused, and the 32-bit arithmetic that hands them out does not wrap.\<close>
theorem plan_marks_are_distinct:
  assumes "BuildFirewallPlan s uplink = Inr p" "length (ds_Devices s) + 2 * length (ds_Tunnels s) < 2 ^ 31"
  shows "distinct (plan_marks p) \<and> 0 \<notin> set (plan_marks p)"
  by (rule plan_marks_distinct[OF assms])

definition sample_state :: desired_state where
  "sample_state = BuildDesiredState 0 sample_config"

definition sample_plan :: firewall_plan where
  "sample_plan = (case BuildFirewallPlan sample_state ''eth0'' of Inr p \<Rightarrow> p)"

lemma sample_state_ok: "state_ok sample_state"
  using Validate_deployed_ok[OF sample_valid, of 0 "[]"] by (simp add: sample_state_def RemoveRevoked_def)

lemma sample_state_simps:
  "ds_Devices sample_state = [deploy_device sample_laptop, deploy_device sample_phone]"
  "ds_Tunnels sample_state = [sample_corp, sample_nl]" "ds_Hub sample_state = sample_hub"
  "ds_ClientACLs sample_state = [sample_acl]"
  by (simp_all add: sample_state_def sample_config_def sample_laptop_def sample_phone_def sample_nl_def
      sample_corp_def IsEnabled_def deploy_device_def)

lemma sample_plan_built: "BuildFirewallPlan sample_state ''eth0'' = Inr sample_plan"
  using plan_total[OF sample_state_ok, of "''eth0''"] by (auto simp: sample_state_simps sample_plan_def)

theorem plan_marks_are_distinct_witness: "distinct (plan_marks sample_plan) \<and> 0 \<notin> set (plan_marks sample_plan)"
  by (rule plan_marks_are_distinct[OF sample_plan_built]) (simp add: sample_state_simps)

subsection \<open>Groups\<close>

text \<open>With an IPv4 client subnet the text of a device address is its host address and a fixed suffix.\<close>

lemma device_address_v4:
  assumes "state_ok s" "parseNetworkPrefix (hub_ClientCIDR (ds_Hub s)) = Some subnet" "Is4 (pfx_addr subnet)"
    and "d \<in> set (ds_Devices s)"
  obtains w where "hostAddress (dd_Address d) = Some (string_v4 w)" "dd_Address d = string_v4 w @ ''/32''"
    "PrefixContains subnet (IPv4 w)"
proof -
  have "profile_ok (dd_Address d) (hub_ClientCIDR (ds_Hub s))"
    using state_ok_parts(6)[OF assms(1,4)] by (simp add: device_state_ok_def)
  then obtain p where p: "ParsePrefix (dd_Address d) = Some p" "pfx_bits p = BitLen (pfx_addr p)"
    "PrefixContains subnet (pfx_addr p)" "hostAddress (dd_Address d) = Some (AddrString (pfx_addr p))"
    using device_address_facts[OF state_ok_parts(1)[OF assms(1)]] assms(2) by (metis option.inject)
  obtain b where "pfx_addr subnet = IPv4 b" using assms(3) by (cases "pfx_addr subnet") simp_all
  with p(3) obtain w where w: "pfx_addr p = IPv4 w"
    by (cases "pfx_addr p") (auto simp: PrefixContains_v4 PrefixContains_v6)
  show ?thesis using that[of w] p(3,4) w same_host_address_v4[OF p(1) w p(2)] by simp
qed

lemma host_addresses_distinct:
  assumes "state_ok s" "parseNetworkPrefix (hub_ClientCIDR (ds_Hub s)) = Some subnet" "Is4 (pfx_addr subnet)"
    and "mapE device_address (ds_Devices s) = Inr pairs"
  shows "distinct (map snd pairs)"
proof -
  define h where "h d = the (hostAddress (dd_Address d))" for d :: deployed_device
  have "dd_Address d = h d @ ''/32''" if "d \<in> set (ds_Devices s)" for d
    by (rule device_address_v4[OF assms(1-3) that]) (simp add: h_def)
  then have "map dd_Address (ds_Devices s) = map (\<lambda>a. a @ ''/32'') (map h (ds_Devices s))" by simp
  then have "distinct (map h (ds_Devices s))"
    using state_ok_parts(3)[OF assms(1)] by (metis distinct_map)
  moreover have "map snd pairs = map h (ds_Devices s)" using pairs_iff(1)[OF assms(4)] by (simp add: h_def)
  ultimately show ?thesis by simp
qed

lemma device_group:
  assumes "state_ok s" "BuildFirewallPlan s u = Inr p"
    and "parseNetworkPrefix (hub_ClientCIDR (ds_Hub s)) = Some subnet" "Is4 (pfx_addr subnet)"
    and "d \<in> set (ds_Devices s)" "hostAddress (dd_Address d) = Some a"
  shows "\<exists>g \<in> set (fp_Egresses p). eg_ID g = dd_Egress d \<and>
    (\<forall>h \<in> set (fp_Egresses p). a \<in> set (eg_Addresses h) \<longleftrightarrow> h = g)"
proof -
  obtain pairs permitted where parts: "mapE device_address (ds_Devices s) = Inr pairs"
    "fp_Egresses p = plan_groups s u pairs permitted" using plan_parts[OF assms(2)] by metis
  have mem: "(d, a) \<in> set pairs" using assms(5,6) pairs_iff(1)[OF parts(1)] by force
  have dist: "distinct (map snd pairs)" by (rule host_addresses_distinct[OF assms(1,3,4) parts(1)])
  obtain g where g: "g \<in> set (fp_Egresses p)" "eg_ID g = dd_Egress d"
    using group_exists[OF mem] unfolding parts(2) by blast
  have "h = g" if "h \<in> set (fp_Egresses p)" "eg_ID h = dd_Egress d" for h
    using group_ids_distinct[OF state_ok_parts(5)[OF assms(1)], of u pairs permitted] that g
    unfolding parts(2) distinct_map inj_on_def by metis
  then have "a \<in> set (eg_Addresses h) \<longleftrightarrow> h = g" if "h \<in> set (fp_Egresses p)" for h
    using address_group_iff[OF dist mem] that g unfolding parts(2) by metis
  with g show ?thesis by blast
qed

text \<open>With an IPv4 client subnet, a deployed device's address is in the group of the egress it chose and in
  no other: the mark its traffic receives is the mark of its own egress.\<close>
theorem device_is_in_exactly_its_group:
  assumes "state_ok s" "BuildFirewallPlan s u = Inr p"
    and "parseNetworkPrefix (hub_ClientCIDR (ds_Hub s)) = Some subnet" "Is4 (pfx_addr subnet)"
    and "d \<in> set (ds_Devices s)" "hostAddress (dd_Address d) = Some a"
  shows "\<exists>g \<in> set (fp_Egresses p). eg_ID g = dd_Egress d \<and>
    (\<forall>h \<in> set (fp_Egresses p). a \<in> set (eg_Addresses h) \<longleftrightarrow> h = g)"
  by (rule device_group[OF assms])

lemma sample_subnet:
  "parseNetworkPrefix (hub_ClientCIDR (ds_Hub sample_state)) = Some \<lparr>pfx_addr = IPv4 0x0A500000, pfx_bits = 24\<rparr>"
  by (simp add: sample_state_simps sample_hub_def parseNetworkPrefix_def sample_prefixes Masked_def mask_word_def)

lemma sample_host_address: "hostAddress (dd_Address (deploy_device sample_laptop)) = Some ''10.80.0.2''"
proof -
  have "string_v4 0x0A500002 = ''10.80.0.2''" by code_simp
  then show ?thesis by (simp add: sample_laptop_def hostAddress_def sample_prefixes)
qed

theorem device_is_in_exactly_its_group_witness:
  "\<exists>g \<in> set (fp_Egresses sample_plan). eg_ID g = ''nl'' \<and>
    (\<forall>h \<in> set (fp_Egresses sample_plan). ''10.80.0.2'' \<in> set (eg_Addresses h) \<longleftrightarrow> h = g)"
  using device_is_in_exactly_its_group[OF sample_state_ok sample_plan_built sample_subnet _ _ sample_host_address]
  by (simp add: sample_state_simps) (simp add: sample_laptop_def)

subsection \<open>Who may use a tunnel\<close>

definition admitted :: "desired_state \<Rightarrow> tunnel \<Rightarrow> string set" where
  "admitted s t = {a. \<exists>d \<in> set (ds_Devices s). hostAddress (dd_Address d) = Some a \<and> may_use t d}"

lemma admitted_clients:
  assumes "state_ok s" "permittedClients s = Inr permitted" "mapE device_address (ds_Devices s) = Inr pairs"
    and "t \<in> set (ds_Tunnels s)"
  shows "set (lookup_list permitted (t_ID t)) = admitted s t"
proof -
  have "(d, a) \<in> set pairs \<longleftrightarrow> d \<in> set (ds_Devices s) \<and> hostAddress (dd_Address d) = Some a" for d a
    using pairs_iff[OF assms(3)] by auto
  then show ?thesis
    unfolding permitted_lookup[OF assms(2,3) state_ok_parts(2,4)[OF assms(1)] assms(4)] admitted_def by blast
qed

lemma tunnel_clients:
  assumes "state_ok s" "BuildFirewallPlan s u = Inr p" "t \<in> set (ds_Tunnels s)"
  shows "(if t_Role t = RoleEgress
          then \<exists>g \<in> set (fp_Egresses p). eg_ID g = t_ID t \<and> set (eg_Clients g) = admitted s t
          else \<exists>n \<in> set (fp_Internals p). in_TunnelID n = t_ID t \<and> set (in_Clients n) = admitted s t)"
proof -
  obtain pairs permitted where parts: "mapE device_address (ds_Devices s) = Inr pairs" "permittedClients s = Inr permitted"
    "fp_Egresses p = plan_groups s u pairs permitted"
    "fp_Internals p = internalNetworks (ds_Tunnels s) (internal_mark s pairs) permitted (proxied_map (ds_Tunnels s))"
    using plan_parts[OF assms(2)] by metis
  note clients = admitted_clients[OF assms(1) parts(2,1)]
  have "tunnel_state_ok t" by (rule state_ok_parts(7)[OF assms(1,3)])
  then have role: "t_Role t = RoleEgress \<or> t_Role t = RolePrivateNetwork" and "t_ID t \<noteq> EgressDirect"
    by (auto simp: tunnel_state_ok_def)
  show ?thesis
  proof (cases "t_Role t = RoleEgress")
    case True
    then have "t_ID t \<in> set (map eg_ID (fp_Egresses p))"
      using assms(3) unfolding parts(3) group_ids by (auto simp: set_tunnel_egresses)
    then obtain g where g: "g \<in> set (fp_Egresses p)" "eg_ID g = t_ID t" by auto
    then have "eg_Clients g = lookup_list permitted (t_ID t)"
      using tunnel_group_of(2)[of g s u pairs permitted] \<open>t_ID t \<noteq> EgressDirect\<close> parts(3) by simp
    with g True clients[OF assms(3)] show ?thesis by auto
  next
    case False
    then have "t_ID t \<in> set (map in_TunnelID (fp_Internals p))"
      using assms(3) role unfolding parts(4) internal_ids by auto
    then obtain n where n: "n \<in> set (fp_Internals p)" "in_TunnelID n = t_ID t" by auto
    then have "in_Clients n = lookup_list permitted (t_ID t)"
      using internal_network_of[of n] parts(4) by metis
    with n False clients[OF assms(3)] show ?thesis by auto
  qed
qed

text \<open>C9: A tunnel admits exactly the clients its \<open>allowed_devices\<close> name (every client when the list is empty):
  each egress tunnel has a group, each private network an entry, and both carry exactly those addresses.\<close>
theorem tunnels_admit_exactly_allowed_devices:
  assumes "state_ok s" "BuildFirewallPlan s u = Inr p" "t \<in> set (ds_Tunnels s)"
  shows "(if t_Role t = RoleEgress
          then \<exists>g \<in> set (fp_Egresses p). eg_ID g = t_ID t \<and> set (eg_Clients g) = admitted s t
          else \<exists>n \<in> set (fp_Internals p). in_TunnelID n = t_ID t \<and> set (in_Clients n) = admitted s t)"
  by (rule tunnel_clients[OF assms])

theorem tunnels_admit_exactly_allowed_devices_witness:
  "\<exists>n \<in> set (fp_Internals sample_plan). in_TunnelID n = ''corp'' \<and> set (in_Clients n) = admitted sample_state sample_corp"
  using tunnels_admit_exactly_allowed_devices[OF sample_state_ok sample_plan_built, of sample_corp]
  by (simp add: sample_state_simps) (simp add: sample_corp_def)

end
