(* ===== verification/HostClaims.thy ===== *)
theory HostClaims
  imports HostFacts PlanClaims
begin

text \<open>
  What the host is told to run: the layout of the namespaces, the peers of the ingress interface,
  the users of the fallback listener and the resolvers of the private zones, each related to the
  state and the firewall plan they were compiled from.
\<close>

subsection \<open>Namespaces\<close>

text \<open>The namespaces compiled for a state belong to pairwise different tunnels, carry pairwise different
  marks, link addresses, routing tables and SOCKS ports, and no port wraps around its 16 bits.\<close>
theorem namespace_layout_is_unambiguous:
  assumes "state_ok s" "BuildFirewallPlan s u = Inr p" "BuildEgressSpecs s p tunnels = Inr specs"
    and "length (ds_Devices s) + 2 * length (ds_Tunnels s) < 2 ^ 31"
  shows "distinct (map es_TunnelID specs) \<and> distinct (map es_Mark specs) \<and> distinct (map es_HostAddress specs) \<and>
    distinct (map es_PeerAddress specs) \<and> distinct (map es_RouteTable specs) \<and>
    map (\<lambda>sp. unat (es_SocksPort sp)) specs = map (\<lambda>i. 11080 + i) [0..<length specs]"
proof -
  note at = egress_specs_facts(2)[OF assms(3)]
  have few: "i < 16384" if "i < length specs" for i using at[OF that] by (simp add: spec_at_def)
  have "map es_HostAddress specs = map (\<lambda>i. string_v4 (link_host i) @ ''/30'') [0..<length specs]"
    "map es_PeerAddress specs = map (\<lambda>i. string_v4 (link_peer i) @ ''/30'') [0..<length specs]"
    "map es_RouteTable specs = map (\<lambda>i. 100 + int i) [0..<length specs]"
    using at by (auto intro!: nth_equalityI simp: spec_at_def)
  moreover have "distinct (map (\<lambda>i. string_v4 (link_host i) @ ''/30'') [0..<length specs])"
    "distinct (map (\<lambda>i. string_v4 (link_peer i) @ ''/30'') [0..<length specs])"
    "distinct (map (\<lambda>i. 100 + int i) [0..<length specs])"
    using few by (auto simp: distinct_map inj_on_def link_inj)
  moreover have "distinct (map es_TunnelID specs)"
    using placement_ids_distinct[OF assms(1,2)] egress_spec_ids(1)[OF assms(3)] by simp
  moreover have "distinct (map es_Mark specs)"
  proof -
    have "map es_Mark specs = map eg_Mark (filter (\<lambda>g. eg_ID g \<noteq> EgressDirect) (fp_Egresses p)) @ map in_Mark (fp_Internals p)"
      unfolding egress_spec_ids(2)[OF assms(3)] by (simp add: placements_def)
    moreover have "distinct (plan_marks p)" using plan_marks_distinct[OF assms(2,4)] by blast
    ultimately show ?thesis by (auto simp: plan_marks_def distinct_map_filter)
  qed
  moreover have "unat (es_SocksPort (specs ! i)) = 11080 + i" if "i < length specs" for i
    using at[OF that] few[OF that] by (simp add: spec_at_def unat_word_ariths unat_of_nat)
  then have "map (\<lambda>sp. unat (es_SocksPort sp)) specs = map (\<lambda>i. 11080 + i) [0..<length specs]"
    by (auto intro: nth_equalityI)
  ultimately show ?thesis by simp
qed

definition no_upstream :: upstream where
  "no_upstream = \<lparr>up_Type = TunnelWireGuard, up_WireGuard = zero_wireguard, up_Proxy = zero_proxy, up_OpenVPN = zero_openvpn\<rparr>"

definition sample_specs :: "egress_spec list" where
  "sample_specs = (case BuildEgressSpecs sample_state sample_plan [(''nl'', no_upstream), (''corp'', no_upstream)] of
     Inr specs \<Rightarrow> specs | Inl _ \<Rightarrow> [])"

text \<open>With an upstream for every placed tunnel and at most 16384 of them, the namespaces always compile.\<close>

lemma egress_specs_total:
  assumes "state_ok s" "BuildFirewallPlan s u = Inr p" "length (ds_Tunnels s) \<le> 16384"
    and "\<And>t. t \<in> set (ds_Tunnels s) \<Longrightarrow> t_ID t \<in> pl_id ` set (placements p) \<Longrightarrow> map_of tunnels (t_ID t) \<noteq> None"
  shows "\<exists>specs. BuildEgressSpecs s p tunnels = Inr specs"
proof -
  obtain pairs permitted where parts: "mapE device_address (ds_Devices s) = Inr pairs"
    "fp_Egresses p = plan_groups s u pairs permitted"
    "fp_Internals p = internalNetworks (ds_Tunnels s) (internal_mark s pairs) permitted (proxied_map (ds_Tunnels s))"
    using plan_parts[OF assms(2)] by metis
  have tunnel: "\<exists>t \<in> set (ds_Tunnels s). t_ID t = pl_id pl" if "pl \<in> set (placements p)" for pl
  proof -
    have "pl_id pl \<in> set (map pl_id (placements p))" using that by simp
    then consider "pl_id pl \<in> set (tunnel_egresses pairs (ds_Tunnels s))"
      | "pl_id pl \<in> set (map in_TunnelID (fp_Internals p))"
      unfolding placement_ids parts(2) plan_tunnel_groups[OF state_ok_parts(5)[OF assms(1)]] tunnel_group_ids
      by auto
    then show ?thesis
    proof cases
      case 1
      then show ?thesis using egress_ids_of_tunnels[OF assms(1) parts(1)] by blast
    next
      case 2
      then show ?thesis unfolding parts(3) internal_ids by auto
    qed
  qed
  have "pl_id ` set (placements p) \<subseteq> t_ID ` set (ds_Tunnels s)" using tunnel by force
  then have "card (set (map pl_id (placements p))) \<le> card (t_ID ` set (ds_Tunnels s))" by (intro card_mono) simp_all
  then have few: "length (placements p) \<le> 16384"
    using distinct_card[OF placement_ids_distinct[OF assms(1,2)]] assms(3)
      card_image_le[of "set (ds_Tunnels s)" t_ID] card_length[of "ds_Tunnels s"] by simp
  have "\<exists>sp. egress_spec_at s tunnels (i, placements p ! i) = Inr sp" if i: "i < length (placements p)" for i
  proof -
    let ?pl = "placements p ! i"
    have mem: "?pl \<in> set (placements p)" using i by simp
    obtain t where t: "t \<in> set (ds_Tunnels s)" "t_ID t = pl_id ?pl" using tunnel[OF mem] by blast
    have "map_of (rev (map (\<lambda>t. (t_ID t, t)) (ds_Tunnels s))) (pl_id ?pl) = Some t"
      using map_of_rev_distinct[OF state_ok_parts(4)[OF assms(1)], of "\<lambda>t. t" "pl_id ?pl" t] t by blast
    moreover have "t_Type t \<in> {TunnelWireGuard, TunnelAmneziaWG, TunnelXray, TunnelOpenVPN}"
      using state_ok_parts(7)[OF assms(1) t(1)] by (auto simp: tunnel_state_ok_def)
    moreover obtain up where "map_of tunnels (t_ID t) = Some up" using assms(4)[OF t(1)] t(2) mem by fastforce
    ultimately show ?thesis using i few by (simp add: egress_spec_at_def linkAddresses_eq)
  qed
  then obtain f where "\<And>i. i < length (placements p) \<Longrightarrow> egress_spec_at s tunnels (i, placements p ! i) = Inr (f i)"
    by metis
  then have "mapE (egress_spec_at s tunnels) (enumerate 0 (placements p)) =
      Inr (map (\<lambda>(i, pl). f i) (enumerate 0 (placements p)))"
    by (intro mapE_total) (auto simp: in_set_enumerate_eq)
  then show ?thesis by (auto simp: BuildEgressSpecs_def)
qed

lemma sample_specs_built:
  "BuildEgressSpecs sample_state sample_plan [(''nl'', no_upstream), (''corp'', no_upstream)] = Inr sample_specs"
proof -
  have "\<exists>specs. BuildEgressSpecs sample_state sample_plan [(''nl'', no_upstream), (''corp'', no_upstream)] = Inr specs"
    by (rule egress_specs_total[OF sample_state_ok sample_plan_built])
      (auto simp: sample_state_simps sample_nl_def sample_corp_def)
  then show ?thesis by (auto simp: sample_specs_def)
qed

theorem namespace_layout_is_unambiguous_witness: "distinct (map es_Mark sample_specs)"
  using namespace_layout_is_unambiguous[OF sample_state_ok sample_plan_built sample_specs_built]
  by (simp add: sample_state_simps)

text \<open>C21: A group's clients ask the resolver at the hub's end of the link of that group's own namespace: the
  packet filter and the namespace layout, compiled separately, agree on the address.\<close>
theorem dns_follows_the_namespace_layout:
  assumes "state_ok s" "BuildFirewallPlan s u = Inr p" "BuildEgressSpecs s p tunnels = Inr specs"
    and "g \<in> set (fp_Egresses p)" "eg_ID g \<noteq> EgressDirect" "eg_Addresses g \<noteq> []"
  shows "\<exists>sp \<in> set specs. es_TunnelID sp = eg_ID g \<and> es_Mark sp = eg_Mark g \<and>
    \<lparr>dn_ClientAddresses = sort (eg_Addresses g), dn_ResolverAddress = hostOf (es_HostAddress sp)\<rparr> \<in> set (fp_DNSDestinations p)"
proof -
  obtain i where i: "i < length (placements p)"
    "placements p ! i = \<lparr>pl_id = eg_ID g, pl_mark = eg_Mark g, pl_device = eg_Interface g\<rparr>"
    "i < length (filter (\<lambda>g. eg_ID g \<noteq> EgressDirect) (fp_Egresses p))"
    "filter (\<lambda>g. eg_ID g \<noteq> EgressDirect) (fp_Egresses p) ! i = g"
    by (rule placement_at[OF assms(4,5)])
  have "i < length specs" using i(1) egress_specs_facts(1)[OF assms(3)] by simp
  moreover from this have "spec_at s i (placements p ! i) (specs ! i)" by (rule egress_specs_facts(2)[OF assms(3)])
  moreover have "\<lparr>dn_ClientAddresses = sort (eg_Addresses g), dn_ResolverAddress = string_v4 (link_host i)\<rparr> \<in> set (fp_DNSDestinations p)"
    by (rule dns_destination_of_group[OF assms(1,2,4-6) i(3,4)])
  ultimately show ?thesis
    by (intro bexI[of _ "specs ! i"]) (simp_all add: spec_at_def i(2))
qed

theorem dns_follows_the_namespace_layout_witness:
  "\<exists>sp \<in> set sample_specs. es_TunnelID sp = ''nl'' \<and>
    (\<exists>dn \<in> set (fp_DNSDestinations sample_plan). dn_ResolverAddress dn = hostOf (es_HostAddress sp))"
proof -
  obtain g where g: "g \<in> set (fp_Egresses sample_plan)" "eg_ID g = ''nl''" "''10.80.0.2'' \<in> set (eg_Addresses g)"
    using device_group[OF sample_state_ok sample_plan_built sample_subnet _ _ sample_host_address]
    by (auto simp: sample_state_simps sample_laptop_def)
  then have "eg_Addresses g \<noteq> []" by auto
  from dns_follows_the_namespace_layout[OF sample_state_ok sample_plan_built sample_specs_built g(1) _ this]
  show ?thesis using g(2) by (force simp: EgressDirect_def)
qed

subsection \<open>The ingress interface\<close>

text \<open>The peers of the ingress interface are exactly the deployed devices, and each may use only its own address.\<close>
theorem peers_are_the_deployed_devices:
  assumes "BuildIngressSpec s key = Inr spec"
  shows "q \<in> set (is_Peers spec) \<longleftrightarrow>
    (\<exists>d \<in> set (ds_Devices s). q = \<lparr>ps_PublicKey = dd_PublicKey d, ps_AllowedIPs = [dd_Address d]\<rparr>)"
  by (rule ingress_peer_iff[OF assms])

definition sample_ingress :: ingress_spec where
  "sample_ingress = (case BuildIngressSpec sample_state sample_private of Inr spec \<Rightarrow> spec)"

lemma sample_ingress_built: "BuildIngressSpec sample_state sample_private = Inr sample_ingress"
  using ingress_total[OF sample_state_ok, of sample_private] sample_public_derived
  by (auto simp: sample_ingress_def sample_state_simps sample_hub_def)

theorem peers_are_the_deployed_devices_witness:
  "\<lparr>ps_PublicKey = sample_key 2, ps_AllowedIPs = [''10.80.0.3/32'']\<rparr> \<in> set (is_Peers sample_ingress)"
  unfolding peers_are_the_deployed_devices[OF sample_ingress_built]
  by (simp add: sample_state_simps) (simp add: sample_phone_def)

text \<open>Revocation takes the credential away: in what is compiled after pruning, no peer carries the key of a
  revoked device of an accepted configuration.\<close>
theorem revoked_keys_are_not_peers:
  assumes "Validate cfg = Inr ()" "d \<in> set (cfg_Devices cfg)" "d_ID d \<in> set revoked"
    and "BuildIngressSpec (BuildDesiredState now (RemoveRevoked cfg revoked)) key = Inr spec"
  shows "d_PublicKey d \<notin> ps_PublicKey ` set (is_Peers spec)"
proof
  assume "d_PublicKey d \<in> ps_PublicKey ` set (is_Peers spec)"
  then obtain e where e: "e \<in> set (cfg_Devices cfg)" "d_ID e \<notin> set revoked" "d_PublicKey e = d_PublicKey d"
    using ingress_peer_iff[OF assms(4)] set_deployed by fastforce
  have "distinct (map d_PublicKey (cfg_Devices cfg))" using assms(1) by (simp add: Validate_ok_iff valid_config_def)
  then have "e = d" using e assms(2) by (simp add: distinct_map inj_on_def)
  then show False using e assms(3) by simp
qed

theorem revoked_keys_are_not_peers_witness:
  "\<exists>spec. BuildIngressSpec (BuildDesiredState 0 (RemoveRevoked sample_config [''phone''])) sample_private = Inr spec \<and>
    d_PublicKey sample_phone \<notin> ps_PublicKey ` set (is_Peers spec)"
proof -
  have "PublicKeyFromPrivate sample_private =
      Inr (hub_ServerPublicKey (ds_Hub (BuildDesiredState 0 (RemoveRevoked sample_config [''phone'']))))"
    by (simp add: sample_public_derived sample_config_def sample_hub_def)
  then obtain spec where spec: "BuildIngressSpec (BuildDesiredState 0 (RemoveRevoked sample_config [''phone''])) sample_private = Inr spec"
    using ingress_total[OF Validate_deployed_ok[OF sample_valid]] by blast
  from revoked_keys_are_not_peers[OF sample_valid _ _ this, of sample_phone] spec show ?thesis
    by (auto simp: sample_config_def sample_phone_def)
qed

end
