(* ===== verification/Diff.thy ===== *)
theory Diff
  imports HostSpecs
begin

text \<open>
  \<open>diff.go\<close>: what differs between the host as observed and the host as the revision asks for,
  and the proof that no difference is reported exactly when the two agree.
\<close>

definition mk_op :: "operation_kind \<Rightarrow> string \<Rightarrow> string \<Rightarrow> string \<Rightarrow> operation" where
  "mk_op kind ty i reason = \<lparr>op_Kind = kind, op_Resource = \<lparr>rr_Type = ty, rr_ID = i\<rparr>, op_Reason = reason\<rparr>"

definition diffReality :: "string \<Rightarrow> string \<Rightarrow> operation list" where
  "diffReality wanted running =
     (if wanted = running then []
      else if wanted = [] then
        [mk_op OpDelete ''reality'' ''vpn-hub-reality'' ''a fallback listener is running and the revision does not ask for one'']
      else if running = [] then
        [mk_op OpCreate ''reality'' ''vpn-hub-reality'' ''the revision asks for a fallback listener and none is running'']
      else
        [mk_op OpUpdate ''reality'' ''vpn-hub-reality''
           ''the running fallback listener was started from a different configuration''])"

definition port_text :: "16 word \<Rightarrow> string" where
  "port_text p = Itoa (unat p)"

definition wrong_key :: "ingress_spec \<Rightarrow> ingress_observation \<Rightarrow> bool" where
  "wrong_key spec observed \<longleftrightarrow>
     io_PublicKey observed \<noteq> [] \<and>
     (case PublicKeyFromPrivate (is_PrivateKey spec) of Inl _ \<Rightarrow> False | Inr derived \<Rightarrow> derived \<noteq> io_PublicKey observed)"

definition wrong_port :: "ingress_spec \<Rightarrow> ingress_observation \<Rightarrow> bool" where
  "wrong_port spec observed \<longleftrightarrow> io_ListenPort observed \<noteq> 0 \<and> io_ListenPort observed \<noteq> is_ListenPort spec"

definition diffIngress :: "ingress_spec \<Rightarrow> ingress_observation \<Rightarrow> operation list" where
  "diffIngress spec observed =
     (if \<not> io_Exists observed then [mk_op OpCreate ''ingress'' (is_Interface spec) ''the interface does not exist'']
      else let reasons =
             (if wrong_key spec observed then [''the interface carries a different key''] else []) @
             (if wrong_port spec observed
              then [''it listens on '' @ port_text (io_ListenPort observed) @ '', the revision asks for '' @
                      port_text (is_ListenPort spec)]
              else [])
           in if reasons = [] then []
              else [mk_op OpUpdate ''ingress'' (is_Interface spec) (Join ''; '' reasons)])"

definition shortKey :: "string \<Rightarrow> string" where
  "shortKey k = (if length k \<le> 12 then k else take 12 k @ [CHR 0xE2, CHR 0x80, CHR 0xA6])"

definition join_values :: "string list \<Rightarrow> string" where
  "join_values vs = (if vs = [] then ''none'' else Join '','' vs)"

definition sameStrings :: "string list \<Rightarrow> string list \<Rightarrow> bool" where
  "sameStrings a b = (if length a \<noteq> length b then False else sort a = sort b)"

definition wanted_peers :: "ingress_spec \<Rightarrow> (string \<times> peer_spec) list" where
  "wanted_peers spec = rev (map (\<lambda>p. (ps_PublicKey p, p)) (is_Peers spec))"

definition present_peers :: "ingress_observation \<Rightarrow> (string \<times> peer_observation) list" where
  "present_peers observed = rev (map (\<lambda>p. (po_PublicKey p, p)) (io_Peers observed))"

definition sorted_keys :: "(string \<times> 'a) list \<Rightarrow> string list" where
  "sorted_keys m = sort (remdups (map fst m))"

definition diff_wanted :: "ingress_spec \<Rightarrow> ingress_observation \<Rightarrow> string \<Rightarrow> operation list" where
  "diff_wanted spec observed key =
     (case (map_of (wanted_peers spec) key, map_of (present_peers observed) key) of
        (None, _) \<Rightarrow> []
      | (Some w, None) \<Rightarrow>
          [mk_op OpCreate ''peer'' (shortKey key) ''the revision names this peer and the interface does not carry it'']
      | (Some w, Some live) \<Rightarrow>
          if sameStrings (po_AllowedIPs live) (ps_AllowedIPs w) then []
          else [mk_op OpUpdate ''peer'' (shortKey key)
                  (''allowed addresses are '' @ join_values (po_AllowedIPs live) @ '', the revision asks for '' @
                     join_values (ps_AllowedIPs w))])"

definition diff_present :: "ingress_spec \<Rightarrow> string \<Rightarrow> operation list" where
  "diff_present spec key =
     (case map_of (wanted_peers spec) key of
        Some _ \<Rightarrow> []
      | None \<Rightarrow> [mk_op OpDelete ''peer'' (shortKey key) ''the revision no longer names this peer''])"

definition diffPeers :: "ingress_spec \<Rightarrow> ingress_observation \<Rightarrow> operation list" where
  "diffPeers spec observed =
     concat (map (diff_wanted spec observed) (sorted_keys (wanted_peers spec))) @
     concat (map (diff_present spec) (sorted_keys (present_peers observed)))"

definition diffFirewall :: "string \<Rightarrow> string \<Rightarrow> operation list" where
  "diffFirewall wanted observed =
     (if observed = [] then
        [mk_op OpCreate ''nftables'' ''inet vpn_hub''
           ''the table is absent; the ruleset was flushed or the host has not converged since boot'']
      else if observed \<noteq> wanted then
        [mk_op OpUpdate ''nftables'' ''inet vpn_hub''
           (''the loaded ruleset is revision '' @ observed @ '', the revision asks for '' @ wanted)]
      else [])"

definition Diff :: "ingress_spec \<Rightarrow> string \<Rightarrow> string \<Rightarrow> observed_state \<Rightarrow> operation list" where
  "Diff spec firewallRevision realityRevision observed =
     diffFirewall firewallRevision (ob_FirewallRevision observed) @ diffIngress spec (ob_Ingress observed) @
     diffPeers spec (ob_Ingress observed) @ diffReality realityRevision (ob_RealityFingerprint observed)"

subsection \<open>No difference means agreement\<close>

lemma sameStrings_iff: "sameStrings a b \<longleftrightarrow> mset a = mset b"
proof
  assume "sameStrings a b"
  then have "sort a = sort b" by (simp add: sameStrings_def split: if_splits)
  then show "mset a = mset b" by (metis mset_sort)
next
  assume "mset a = mset b"
  then show "sameStrings a b"
    using sort_perm_eq[of a b] mset_eq_length[of a b] by (simp add: sameStrings_def)
qed

lemma set_sorted_keys: "k \<in> set (sorted_keys m) \<longleftrightarrow> map_of m k \<noteq> None"
  by (simp add: sorted_keys_def map_of_eq_None_iff)

text \<open>The interface carries the wanted peers, each with the wanted addresses, and no others.\<close>

definition peers_agree :: "ingress_spec \<Rightarrow> ingress_observation \<Rightarrow> bool" where
  "peers_agree spec observed \<longleftrightarrow>
     ps_PublicKey ` set (is_Peers spec) = po_PublicKey ` set (io_Peers observed) \<and>
     (\<forall>k w live. map_of (wanted_peers spec) k = Some w \<and> map_of (present_peers observed) k = Some live \<longrightarrow>
        mset (po_AllowedIPs live) = mset (ps_AllowedIPs w))"

lemma wanted_None_iff: "map_of (wanted_peers spec) k = None \<longleftrightarrow> k \<notin> ps_PublicKey ` set (is_Peers spec)"
  by (force simp: wanted_peers_def map_of_eq_None_iff)

lemma present_None_iff: "map_of (present_peers obs) k = None \<longleftrightarrow> k \<notin> po_PublicKey ` set (io_Peers obs)"
  by (force simp: present_peers_def map_of_eq_None_iff)

lemma diff_wanted_Nil_iff:
  assumes "map_of (wanted_peers spec) k = Some w"
  shows "diff_wanted spec obs k = [] \<longleftrightarrow>
     (\<exists>live. map_of (present_peers obs) k = Some live \<and> mset (po_AllowedIPs live) = mset (ps_AllowedIPs w))"
  using assms by (simp add: diff_wanted_def sameStrings_iff split: option.splits)

lemma diffPeers_Nil_iff: "diffPeers spec obs = [] \<longleftrightarrow> peers_agree spec obs"
proof -
  let ?w = "map_of (wanted_peers spec)" and ?p = "map_of (present_peers obs)"
  have "diffPeers spec obs = [] \<longleftrightarrow>
      (\<forall>k. ?w k \<noteq> None \<longrightarrow> diff_wanted spec obs k = []) \<and> (\<forall>k. ?p k \<noteq> None \<longrightarrow> ?w k \<noteq> None)"
    by (auto simp: diffPeers_def set_sorted_keys diff_present_def split: option.splits)
  also have "\<dots> \<longleftrightarrow>
      (\<forall>k w. ?w k = Some w \<longrightarrow> (\<exists>live. ?p k = Some live \<and> mset (po_AllowedIPs live) = mset (ps_AllowedIPs w))) \<and>
      (\<forall>k. ?p k \<noteq> None \<longrightarrow> ?w k \<noteq> None)"
    using diff_wanted_Nil_iff by (metis option.exhaust option.distinct(1))
  also have "\<dots> \<longleftrightarrow> (\<forall>k. ?w k = None \<longleftrightarrow> ?p k = None) \<and>
      (\<forall>k w live. ?w k = Some w \<and> ?p k = Some live \<longrightarrow> mset (po_AllowedIPs live) = mset (ps_AllowedIPs w))"
    by (metis option.exhaust option.distinct(1) option.inject)
  also have "\<dots> \<longleftrightarrow> peers_agree spec obs"
    unfolding peers_agree_def wanted_None_iff present_None_iff by blast
  finally show ?thesis .
qed

definition in_sync :: "ingress_spec \<Rightarrow> string \<Rightarrow> string \<Rightarrow> observed_state \<Rightarrow> bool" where
  "in_sync spec firewallRevision realityRevision observed \<longleftrightarrow>
     ob_FirewallRevision observed \<noteq> [] \<and> ob_FirewallRevision observed = firewallRevision \<and>
     io_Exists (ob_Ingress observed) \<and> \<not> wrong_key spec (ob_Ingress observed) \<and>
     \<not> wrong_port spec (ob_Ingress observed) \<and> peers_agree spec (ob_Ingress observed) \<and>
     ob_RealityFingerprint observed = realityRevision"

lemma diffIngress_Nil_iff:
  "diffIngress spec obs = [] \<longleftrightarrow> io_Exists obs \<and> \<not> wrong_key spec obs \<and> \<not> wrong_port spec obs"
  by (simp add: diffIngress_def Let_def)

lemma diffReality_Nil_iff: "diffReality w r = [] \<longleftrightarrow> r = w"
  by (auto simp: diffReality_def)

lemma diffFirewall_Nil_iff: "diffFirewall w r = [] \<longleftrightarrow> r \<noteq> [] \<and> r = w"
  by (auto simp: diffFirewall_def)

lemma Diff_Nil_iff: "Diff spec fw rv obs = [] \<longleftrightarrow> in_sync spec fw rv obs"
  by (auto simp: Diff_def in_sync_def diffIngress_Nil_iff diffReality_Nil_iff diffFirewall_Nil_iff diffPeers_Nil_iff)

text \<open>A peer the revision does not name is reported for deletion, and only such peers are.\<close>

lemma diffPeers_delete_iff:
  "(\<exists>o' \<in> set (diffPeers spec obs). op_Kind o' = OpDelete \<and> rr_ID (op_Resource o') = i) \<longleftrightarrow>
     (\<exists>k \<in> po_PublicKey ` set (io_Peers obs) - ps_PublicKey ` set (is_Peers spec). shortKey k = i)"
proof -
  have no_del: "op_Kind o' \<noteq> OpDelete" if "o' \<in> set (diff_wanted spec obs k)" for o' k
    using that by (auto simp: diff_wanted_def mk_op_def split: option.splits if_splits)
  have del: "set (diff_present spec k) = (if k \<in> ps_PublicKey ` set (is_Peers spec) then {}
      else {mk_op OpDelete ''peer'' (shortKey k) ''the revision no longer names this peer''})" for k
    using wanted_None_iff[of spec k] by (auto simp: diff_present_def split: option.splits)
  have keys: "set (sorted_keys (present_peers obs)) = po_PublicKey ` set (io_Peers obs)"
    using present_None_iff[of obs] set_sorted_keys[of _ "present_peers obs"] by blast
  have "(\<exists>o' \<in> set (diffPeers spec obs). op_Kind o' = OpDelete \<and> rr_ID (op_Resource o') = i) \<longleftrightarrow>
      (\<exists>k \<in> set (sorted_keys (present_peers obs)). \<exists>o' \<in> set (diff_present spec k).
         op_Kind o' = OpDelete \<and> rr_ID (op_Resource o') = i)"
    unfolding diffPeers_def set_append set_concat set_map using no_del by blast
  also have "\<dots> \<longleftrightarrow> (\<exists>k \<in> po_PublicKey ` set (io_Peers obs) - ps_PublicKey ` set (is_Peers spec). shortKey k = i)"
    unfolding keys del by (auto simp: mk_op_def split: if_splits)
  finally show ?thesis .
qed

end
