(* ===== verification/Reconcile.thy ===== *)
theory Reconcile
  imports Diff "HOL-Library.State_Monad"
begin

text \<open>
  \<open>reconcile.go\<close>: one pass of the agent.  The adapters are outside the model: a \<open>world\<close> says
  what each of them answers, given the calls made before, and a pass is a computation that
  extends the list of calls.  The order and the conditions of the calls are the subject of
  the theorems, so the list is the state.
\<close>

datatype call =
    CUplink | CServerKey | CRealityKey | CLoadTunnel string
  | CFirewallObserve | CIngressObserve | CRealityApplied
  | CFirewallApply firewall_plan | CIngressApply ingress_spec | CEgressApply "egress_spec list"
  | CDNSApply dns_plan bool | CCommit firewall_plan | CRealityApply reality_ingress_spec

text \<open>The calls that change the host.\<close>

fun mutates :: "call \<Rightarrow> bool" where
  "mutates (CFirewallApply _) = True"
| "mutates (CIngressApply _) = True"
| "mutates (CEgressApply _) = True"
| "mutates (CDNSApply _ _) = True"
| "mutates (CCommit _) = True"
| "mutates (CRealityApply _) = True"
| "mutates _ = False"

type_synonym trace = "call list"
type_synonym 'a act = "(trace, 'a) state"
type_synonym port_error = string

record world =
  w_Uplink :: "trace \<Rightarrow> (port_error, string) result"
  w_ServerKey :: "trace \<Rightarrow> (port_error, string) result"
  w_RealityKey :: "trace \<Rightarrow> (port_error, string) result"
  w_LoadTunnel :: "trace \<Rightarrow> tunnel \<Rightarrow> (port_error, upstream) result"
  w_FirewallObserve :: "trace \<Rightarrow> (port_error, string) result"
  w_IngressObserve :: "trace \<Rightarrow> (port_error, ingress_observation) result"
  w_RealityApplied :: "trace \<Rightarrow> (port_error, string) result"
  w_FirewallApply :: "trace \<Rightarrow> firewall_plan \<Rightarrow> bool \<times> port_error option"
  w_IngressApply :: "trace \<Rightarrow> ingress_spec \<Rightarrow> port_error option"
  w_EgressApply :: "trace \<Rightarrow> egress_spec list \<Rightarrow> port_error option"
  w_DNSApply :: "trace \<Rightarrow> dns_plan \<Rightarrow> bool \<Rightarrow> port_error option"
  w_Commit :: "trace \<Rightarrow> firewall_plan \<Rightarrow> port_error option"
  w_RealityApply :: "trace \<Rightarrow> reality_ingress_spec \<Rightarrow> port_error option"
  w_Fingerprint :: "firewall_plan \<Rightarrow> string"
  w_RealityFingerprint :: "reality_ingress_spec \<Rightarrow> string"
  w_Now :: int

text \<open>Which of the reconciler's ports are set (a Go interface field that is not nil).\<close>

record reconciler =
  hr_Firewall :: bool
  hr_Ingress :: bool
  hr_Egress :: bool
  hr_DNS :: bool
  hr_TunnelConfigs :: bool
  hr_Host :: bool
  hr_ServerKey :: bool
  hr_Reality :: bool
  hr_RealityKey :: bool

datatype reconcile_error =
    NotConfigured | UplinkFailed port_error | PlanFailed plan_error | ServerKeyFailed port_error
  | IngressFailed ingress_error | TunnelFailed string port_error | EgressFailed spec_error
  | DNSFailed dns_error | RealityKeyStoreMissing | RealityKeyFailed port_error | RealityFailed reality_error
  | ObserveFirewallFailed port_error | ObserveIngressFailed port_error | ObserveRealityFailed port_error
  | ApplyFirewall port_error | ApplyIngress port_error | ApplyEgress port_error | ApplyDNS port_error
  | CommitDNS port_error | CompileReality reconcile_error | ApplyReality port_error

subsection \<open>Calls\<close>

definition perform :: "call \<Rightarrow> (trace \<Rightarrow> 'a) \<Rightarrow> 'a act" where
  "perform c answer = State (\<lambda>tr. (answer tr, tr @ [c]))"

definition bindX :: "('e, 'a) result act \<Rightarrow> ('a \<Rightarrow> ('e, 'b) result act) \<Rightarrow> ('e, 'b) result act" where
  "bindX m f = do { r \<leftarrow> m; case r of Inl e \<Rightarrow> State_Monad.return (Inl e) | Inr x \<Rightarrow> f x }"

definition ask :: "call \<Rightarrow> (port_error \<Rightarrow> 'e) \<Rightarrow> (trace \<Rightarrow> (port_error, 'a) result) \<Rightarrow> ('e, 'a) result act" where
  "ask c wrap answer = perform c (\<lambda>tr. mapErr wrap (answer tr))"

definition pureX :: "('e, 'a) result \<Rightarrow> ('e, 'a) result act" where
  "pureX r = State_Monad.return r"

lemma run_perform [simp]: "run_state (perform c f) tr = (f tr, tr @ [c])"
  by (simp add: perform_def)

lemma run_ask [simp]: "run_state (ask c w f) tr = (mapErr w (f tr), tr @ [c])"
  by (simp add: ask_def)

lemma run_pureX [simp]: "run_state (pureX r) tr = (r, tr)"
  by (simp add: pureX_def)

lemma run_bindX:
  "run_state (bindX m f) tr =
     (case run_state m tr of (Inl e, tr') \<Rightarrow> (Inl e, tr') | (Inr x, tr') \<Rightarrow> run_state (f x) tr')"
  by (auto simp: bindX_def split: prod.splits sum.splits)

subsection \<open>Observe\<close>

definition Observe :: "reconciler \<Rightarrow> world \<Rightarrow> (reconcile_error, observed_state) result act" where
  "Observe R W =
     (if \<not> hr_Firewall R \<or> \<not> hr_Ingress R then pureX (Inl NotConfigured)
      else bindX (ask CFirewallObserve ObserveFirewallFailed (w_FirewallObserve W)) (\<lambda>revision.
           bindX (ask CIngressObserve ObserveIngressFailed (w_IngressObserve W)) (\<lambda>ingress.
           bindX (if hr_Reality R then ask CRealityApplied ObserveRealityFailed (w_RealityApplied W)
                  else pureX (Inr [])) (\<lambda>fingerprint.
             pureX (Inr \<lparr>ob_ObservedAt = w_Now W, ob_Ingress = ingress, ob_FirewallRevision = revision,
                         ob_RealityFingerprint = fingerprint\<rparr>)))))"

subsection \<open>Compile\<close>

record compiled =
  c_firewall :: firewall_plan
  c_ingress :: ingress_spec
  c_egresses :: "egress_spec list"
  c_dns :: dns_plan
  c_reality :: reality_ingress_spec
  c_realityErr :: "reconcile_error option"

text \<open>Permitted clients by tunnel: egress groups first, private networks override.\<close>

definition socksEndpoints :: "egress_spec list \<Rightarrow> firewall_plan \<Rightarrow> socks_endpoint list" where
  "socksEndpoints specs plan =
     (let permitted = rev (map (\<lambda>g. (eg_ID g, eg_Clients g)) (fp_Egresses plan) @
                           map (\<lambda>n. (in_TunnelID n, in_Clients n)) (fp_Internals plan))
      in map (\<lambda>s. \<lparr>se_TunnelID = es_TunnelID s, se_Address = hostOf (es_HostAddress s),
                   se_Interface = es_HostVeth s, se_Port = es_SocksPort s,
                   se_Clients = lookup_list permitted (es_TunnelID s)\<rparr>)
           (filter (\<lambda>s. es_SocksPort s \<noteq> 0) specs))"

definition realityKey :: "reconciler \<Rightarrow> world \<Rightarrow> desired_state \<Rightarrow> (reconcile_error, string) result act" where
  "realityKey R W state =
     (if \<not> hr_Reality R \<or> \<not> rf_Enabled (fb_Reality (hub_Fallback (ds_Hub state))) then pureX (Inr [])
      else if \<not> hr_RealityKey R then pureX (Inl RealityKeyStoreMissing)
      else ask CRealityKey RealityKeyFailed (w_RealityKey W))"

definition disable_reality :: "desired_state \<Rightarrow> desired_state" where
  "disable_reality state =
     state\<lparr>ds_Hub := (ds_Hub state)\<lparr>hub_Fallback := (hub_Fallback (ds_Hub state))
       \<lparr>fb_Reality := (fb_Reality (hub_Fallback (ds_Hub state)))\<lparr>rf_Enabled := False\<rparr>\<rparr>\<rparr>\<rparr>"

fun load_tunnels ::
    "world \<Rightarrow> string list \<Rightarrow> (string \<times> upstream) list \<Rightarrow> tunnel list \<Rightarrow>
     (reconcile_error, (string \<times> upstream) list) result act" where
  "load_tunnels W needed acc [] = pureX (Inr acc)"
| "load_tunnels W needed acc (t # ts) =
     (if t_ID t \<notin> set needed then load_tunnels W needed acc ts
      else bindX (ask (CLoadTunnel (t_ID t)) (TunnelFailed (t_ID t)) (\<lambda>tr. w_LoadTunnel W tr t)) (\<lambda>up.
             load_tunnels W needed ((t_ID t, up) # acc) ts))"

definition compileEgresses ::
    "reconciler \<Rightarrow> world \<Rightarrow> desired_state \<Rightarrow> firewall_plan \<Rightarrow> (reconcile_error, egress_spec list) result act" where
  "compileEgresses R W state plan =
     (if \<not> hr_Egress R \<or> \<not> hr_TunnelConfigs R then pureX (Inr [])
      else let needed = map pl_id (placements plan) in
        if needed = [] then pureX (Inr [])
        else bindX (load_tunnels W needed [] (ds_Tunnels state)) (\<lambda>tunnels.
               pureX (mapErr EgressFailed (BuildEgressSpecs state plan tunnels))))"

definition compile_with ::
    "reconciler \<Rightarrow> world \<Rightarrow> string \<Rightarrow> desired_state \<Rightarrow> (reconcile_error, string) result \<Rightarrow>
     (reconcile_error, compiled) result act" where
  "compile_with R W uplink state0 key =
     (let state = (case key of Inl _ \<Rightarrow> disable_reality state0 | Inr _ \<Rightarrow> state0);
          keyErr = (case key of Inl e \<Rightarrow> Some e | Inr _ \<Rightarrow> None);
          privateReality = (case key of Inl _ \<Rightarrow> [] | Inr k \<Rightarrow> k) in
      bindX (pureX (mapErr PlanFailed (BuildFirewallPlan state uplink))) (\<lambda>plan.
      bindX (ask CServerKey ServerKeyFailed (w_ServerKey W)) (\<lambda>privateKey.
      bindX (pureX (mapErr IngressFailed (BuildIngressSpec state privateKey))) (\<lambda>spec.
      bindX (compileEgresses R W state plan) (\<lambda>egresses.
        let plan' = plan\<lparr>fp_Socks := socksEndpoints egresses plan\<rparr> in
        bindX (pureX (mapErr DNSFailed (BuildDNSPlan state plan' egresses))) (\<lambda>dns.
          let (reality, realityErr) =
            (case BuildRealityIngressSpec state plan' privateReality of
               Inl e \<Rightarrow> (zero_reality_spec, Some (RealityFailed e))
             | Inr spec \<Rightarrow> (spec, keyErr)) in
          pureX (Inr \<lparr>c_firewall = plan', c_ingress = spec, c_egresses = egresses, c_dns = dns,
                      c_reality = reality, c_realityErr = realityErr\<rparr>)))))))"

definition compile :: "reconciler \<Rightarrow> world \<Rightarrow> desired_state \<Rightarrow> (reconcile_error, compiled) result act" where
  "compile R W state =
     (if \<not> hr_Firewall R \<or> \<not> hr_Ingress R \<or> \<not> hr_Host R \<or> \<not> hr_ServerKey R then pureX (Inl NotConfigured)
      else bindX (ask CUplink UplinkFailed (w_Uplink W)) (\<lambda>uplink. do {
        key \<leftarrow> realityKey R W state;
        compile_with R W uplink state key }))"

definition reality_fingerprint :: "reconciler \<Rightarrow> world \<Rightarrow> reality_ingress_spec \<Rightarrow> string" where
  "reality_fingerprint R W spec = (if hr_Reality R then w_RealityFingerprint W spec else [])"

subsection \<open>Plan and Apply\<close>

definition Plan :: "reconciler \<Rightarrow> world \<Rightarrow> desired_state \<Rightarrow> (reconcile_error, operation list) result act" where
  "Plan R W state =
     bindX (compile R W state) (\<lambda>c.
       case c_realityErr c of
         Some e \<Rightarrow> pureX (Inl (CompileReality e))
       | None \<Rightarrow> bindX (Observe R W) (\<lambda>observed.
           pureX (Inr (Diff (c_ingress c) (w_Fingerprint W (c_firewall c))
                         (reality_fingerprint R W (c_reality c)) observed))))"

definition wrap :: "(port_error \<Rightarrow> reconcile_error) \<Rightarrow> port_error option \<Rightarrow> reconcile_error list" where
  "wrap f e = (case e of None \<Rightarrow> [] | Some x \<Rightarrow> [f x])"

text \<open>The tail of \<open>Apply\<close>: egresses, resolvers, the fallback listener.\<close>

definition apply_egress :: "reconciler \<Rightarrow> world \<Rightarrow> compiled \<Rightarrow> reconcile_error list act" where
  "apply_egress R W c =
     (if hr_Egress R
      then do { e \<leftarrow> perform (CEgressApply (c_egresses c)) (\<lambda>tr. w_EgressApply W tr (c_egresses c));
                State_Monad.return (wrap ApplyEgress e) }
      else State_Monad.return [])"

definition apply_dns :: "reconciler \<Rightarrow> world \<Rightarrow> compiled \<Rightarrow> bool \<Rightarrow> bool \<Rightarrow> reconcile_error list act" where
  "apply_dns R W c repopulate firewallOk =
     (if \<not> hr_DNS R then State_Monad.return []
      else do {
        e \<leftarrow> perform (CDNSApply (c_dns c) repopulate) (\<lambda>tr. w_DNSApply W tr (c_dns c) repopulate);
        if e \<noteq> None then State_Monad.return (wrap ApplyDNS e)
        else if repopulate \<and> firewallOk then do {
          ce \<leftarrow> perform (CCommit (c_firewall c)) (\<lambda>tr. w_Commit W tr (c_firewall c));
          State_Monad.return (wrap CommitDNS ce) }
        else State_Monad.return [] })"

definition apply_reality :: "reconciler \<Rightarrow> world \<Rightarrow> compiled \<Rightarrow> reconcile_error list act" where
  "apply_reality R W c =
     (if hr_Reality R
      then do { e \<leftarrow> perform (CRealityApply (c_reality c)) (\<lambda>tr. w_RealityApply W tr (c_reality c));
                State_Monad.return (wrap ApplyReality e) }
      else State_Monad.return [])"

definition apply_tail ::
    "reconciler \<Rightarrow> world \<Rightarrow> compiled \<Rightarrow> bool \<Rightarrow> bool \<Rightarrow> reconcile_error list \<Rightarrow> operation list \<Rightarrow>
     (reconcile_error list, operation list) result act" where
  "apply_tail R W c repopulate firewallOk errs operations = do {
     e1 \<leftarrow> apply_egress R W c;
     e2 \<leftarrow> apply_dns R W c repopulate firewallOk;
     let e3 = (case c_realityErr c of None \<Rightarrow> [] | Some e \<Rightarrow> [CompileReality e]);
     e4 \<leftarrow> apply_reality R W c;
     let all = errs @ e1 @ e2 @ e3 @ e4;
     State_Monad.return (if all = [] then Inr operations else Inl all) }"

definition converge ::
    "reconciler \<Rightarrow> world \<Rightarrow> compiled \<Rightarrow> operation list \<Rightarrow> (reconcile_error list, operation list) result act" where
  "converge R W c operations = do {
     (repopulate, fe) \<leftarrow> perform (CFirewallApply (c_firewall c)) (\<lambda>tr. w_FirewallApply W tr (c_firewall c));
     if fe \<noteq> None \<and> \<not> repopulate then State_Monad.return (Inl (wrap ApplyFirewall fe))
     else do {
       ie \<leftarrow> perform (CIngressApply (c_ingress c)) (\<lambda>tr. w_IngressApply W tr (c_ingress c));
       if ie \<noteq> None \<and> \<not> repopulate then State_Monad.return (Inl (wrap ApplyIngress ie))
       else apply_tail R W c repopulate (fe = None) (wrap ApplyFirewall fe @ wrap ApplyIngress ie) operations } }"

definition Apply :: "reconciler \<Rightarrow> world \<Rightarrow> desired_state \<Rightarrow> (reconcile_error list, operation list) result act" where
  "Apply R W state = do {
     cr \<leftarrow> compile R W state;
     case cr of
       Inl e \<Rightarrow> State_Monad.return (Inl [e])
     | Inr c \<Rightarrow> do {
         ob \<leftarrow> Observe R W;
         case ob of
           Inl e \<Rightarrow> State_Monad.return (Inl [e])
         | Inr observed \<Rightarrow>
             converge R W c (Diff (c_ingress c) (w_Fingerprint W (c_firewall c))
               (reality_fingerprint R W (c_reality c)) observed) } }"

subsection \<open>Computations that only read\<close>

definition reads :: "'a act \<Rightarrow> bool" where
  "reads m \<longleftrightarrow> (\<forall>tr r tr'. run_state m tr = (r, tr') \<longrightarrow> (\<exists>cs. tr' = tr @ cs \<and> list_all (\<lambda>c. \<not> mutates c) cs))"

named_theorems reads_intros \<open>building blocks that do not change the host\<close>

lemma reads_pureX [reads_intros]: "reads (pureX r)"
  by (simp add: reads_def)

lemma reads_ask [reads_intros]: "\<not> mutates c \<Longrightarrow> reads (ask c w f)"
  by (simp add: reads_def)

lemma reads_bindX [reads_intros]: "reads m \<Longrightarrow> (\<And>x. reads (f x)) \<Longrightarrow> reads (bindX m f)"
  unfolding reads_def run_bindX
  by (fastforce split: prod.splits sum.splits)

lemma reads_bind [reads_intros]: "reads m \<Longrightarrow> (\<And>x. reads (f x)) \<Longrightarrow> reads (State_Monad.bind m f)"
  unfolding reads_def run_state_bind
  by (fastforce split: prod.splits)

lemma reads_if [reads_intros]: "(b \<Longrightarrow> reads m) \<Longrightarrow> (\<not> b \<Longrightarrow> reads n) \<Longrightarrow> reads (if b then m else n)"
  by simp

lemma reads_Observe: "reads (Observe R W)"
  unfolding Observe_def by (intro reads_intros) simp_all

lemma reads_load_tunnels: "reads (load_tunnels W needed acc ts)"
  by (induction ts arbitrary: acc) (auto intro!: reads_intros)

lemma reads_compileEgresses: "reads (compileEgresses R W s plan)"
  unfolding compileEgresses_def Let_def by (intro reads_intros reads_load_tunnels)

lemma reads_compile: "reads (compile R W s)"
  unfolding compile_def compile_with_def realityKey_def Let_def
  by (intro reads_intros reads_compileEgresses) (auto intro: reads_intros split: prod.splits)

lemma reads_muts: "reads m \<Longrightarrow> run_state m tr = (r, tr') \<Longrightarrow> filter mutates tr' = filter mutates tr"
  unfolding reads_def by (fastforce simp: list_all_iff filter_empty_conv)

subsection \<open>What a pass does to the host\<close>

text \<open>
  The mutating calls of a pass that compiled, given what the firewall, the ingress and the
  resolver answered.
\<close>

definition expected_calls ::
    "reconciler \<Rightarrow> compiled \<Rightarrow> bool \<Rightarrow> port_error option \<Rightarrow> port_error option \<Rightarrow> port_error option \<Rightarrow> call list" where
  "expected_calls R c repopulate fe ie de =
     CFirewallApply (c_firewall c) #
     (if fe \<noteq> None \<and> \<not> repopulate then []
      else CIngressApply (c_ingress c) #
        (if ie \<noteq> None \<and> \<not> repopulate then []
         else (if hr_Egress R then [CEgressApply (c_egresses c)] else []) @
              (if hr_DNS R
               then CDNSApply (c_dns c) repopulate #
                 (if de = None \<and> repopulate \<and> fe = None then [CCommit (c_firewall c)] else [])
               else []) @
              (if hr_Reality R then [CRealityApply (c_reality c)] else [])))"

lemma run_converge_refused:
  assumes "w_FirewallApply W tr (c_firewall c) = (False, Some e)"
  shows "run_state (converge R W c ops) tr = (Inl [ApplyFirewall e], tr @ [CFirewallApply (c_firewall c)])"
  using assms by (simp add: converge_def wrap_def)

lemma run_converge_no_ingress:
  assumes "w_FirewallApply W tr (c_firewall c) = (False, None)"
    and "w_IngressApply W (tr @ [CFirewallApply (c_firewall c)]) (c_ingress c) = Some e"
  shows "run_state (converge R W c ops) tr =
    (Inl [ApplyIngress e], tr @ [CFirewallApply (c_firewall c), CIngressApply (c_ingress c)])"
  using assms by (simp add: converge_def wrap_def)

lemma run_converge_tail:
  assumes "w_FirewallApply W tr (c_firewall c) = (repopulate, fe)"
    and "w_IngressApply W (tr @ [CFirewallApply (c_firewall c)]) (c_ingress c) = ie"
    and "fe = None \<or> repopulate" "ie = None \<or> repopulate"
  shows "run_state (converge R W c ops) tr =
    run_state (apply_tail R W c repopulate (fe = None) (wrap ApplyFirewall fe @ wrap ApplyIngress ie) ops)
      (tr @ [CFirewallApply (c_firewall c), CIngressApply (c_ingress c)])"
  using assms(3,4) by (auto simp: converge_def assms(1,2))

lemma run_converge:
  assumes "run_state (converge R W c ops) tr = (res, tr')"
  obtains repopulate fe ie de where
    "w_FirewallApply W tr (c_firewall c) = (repopulate, fe)"
    "ie = w_IngressApply W (tr @ [CFirewallApply (c_firewall c)]) (c_ingress c)"
    "de = w_DNSApply W (tr @ [CFirewallApply (c_firewall c), CIngressApply (c_ingress c)] @
       (if hr_Egress R then [CEgressApply (c_egresses c)] else [])) (c_dns c) repopulate"
    "tr' = tr @ expected_calls R c repopulate fe ie de"
    "\<And>ops'. res = Inr ops' \<Longrightarrow> ops' = ops \<and> fe = None \<and> ie = None \<and> (hr_DNS R \<longrightarrow> de = None) \<and> c_realityErr c = None"
proof -
  obtain repopulate fe where f: "w_FirewallApply W tr (c_firewall c) = (repopulate, fe)" by (cases "w_FirewallApply W tr (c_firewall c)")
  define tr1 where "tr1 = tr @ [CFirewallApply (c_firewall c)]"
  define ie where "ie = w_IngressApply W tr1 (c_ingress c)"
  define tr2 where "tr2 = tr1 @ [CIngressApply (c_ingress c)]"
  define tr3 where "tr3 = (if hr_Egress R then tr2 @ [CEgressApply (c_egresses c)] else tr2)"
  define de where "de = w_DNSApply W tr3 (c_dns c) repopulate"
  have e: "\<exists>es. run_state (apply_egress R W c) tr2 = (es, tr3)"
    by (auto simp: apply_egress_def tr3_def)
  have d: "\<exists>es. run_state (apply_dns R W c repopulate ok) tr3 =
      (es, tr3 @ (if hr_DNS R then CDNSApply (c_dns c) repopulate #
         (if de = None \<and> repopulate \<and> ok then [CCommit (c_firewall c)] else []) else [])) \<and>
      (es = [] \<longrightarrow> hr_DNS R \<longrightarrow> de = None)" for ok
    by (auto simp: apply_dns_def de_def wrap_def split: option.splits)
  have r: "\<exists>es. run_state (apply_reality R W c) t =
      (es, t @ (if hr_Reality R then [CRealityApply (c_reality c)] else []))" for t
    by (auto simp: apply_reality_def)
  have "tr' = tr @ expected_calls R c repopulate fe ie de \<and>
      (\<forall>ops'. res = Inr ops' \<longrightarrow> ops' = ops \<and> fe = None \<and> ie = None \<and> (hr_DNS R \<longrightarrow> de = None) \<and> c_realityErr c = None)"
  proof (cases "(fe \<noteq> None \<and> \<not> repopulate) \<or> (ie \<noteq> None \<and> \<not> repopulate)")
    case True
    then consider e where "fe = Some e" "\<not> repopulate" | e where "fe = None" "ie = Some e" "\<not> repopulate"
      by (cases fe) auto
    then show ?thesis
    proof cases
      case 1
      then show ?thesis using assms f by (auto simp: run_converge_refused expected_calls_def)
    next
      case 2
      then show ?thesis using assms f ie_def
        by (auto simp: run_converge_no_ingress expected_calls_def tr1_def)
    qed
  next
    case False
    obtain e1 where e1: "run_state (apply_egress R W c) tr2 = (e1, tr3)" using e by blast
    obtain e2 tr4 where e2: "run_state (apply_dns R W c repopulate (fe = None)) tr3 = (e2, tr4)"
      "tr4 = tr3 @ (if hr_DNS R then CDNSApply (c_dns c) repopulate #
         (if de = None \<and> repopulate \<and> fe = None then [CCommit (c_firewall c)] else []) else [])"
      "e2 = [] \<Longrightarrow> hr_DNS R \<Longrightarrow> de = None" using d by blast
    obtain e4 where e4: "run_state (apply_reality R W c) tr4 =
      (e4, tr4 @ (if hr_Reality R then [CRealityApply (c_reality c)] else []))" using r by blast
    have "run_state (converge R W c ops) tr =
        run_state (apply_tail R W c repopulate (fe = None) (wrap ApplyFirewall fe @ wrap ApplyIngress ie) ops) tr2"
      using False by (simp add: run_converge_tail[OF f ie_def[unfolded tr1_def, symmetric]] tr1_def tr2_def)
    then have run: "(res, tr') = (if wrap ApplyFirewall fe @ wrap ApplyIngress ie @ e1 @ e2 @
          (case c_realityErr c of None \<Rightarrow> [] | Some e \<Rightarrow> [CompileReality e]) @ e4 = [] then Inr ops
        else Inl (wrap ApplyFirewall fe @ wrap ApplyIngress ie @ e1 @ e2 @
          (case c_realityErr c of None \<Rightarrow> [] | Some e \<Rightarrow> [CompileReality e]) @ e4),
        tr4 @ (if hr_Reality R then [CRealityApply (c_reality c)] else []))"
      using assms by (simp add: apply_tail_def e1 e2(1) e4 Let_def)
    have "tr' = tr @ expected_calls R c repopulate fe ie de"
      using run False unfolding e2(2) tr3_def tr2_def tr1_def expected_calls_def by auto
    moreover have "ops' = ops \<and> fe = None \<and> ie = None \<and> (hr_DNS R \<longrightarrow> de = None) \<and> c_realityErr c = None"
      if "res = Inr ops'" for ops'
      using run that e2(3) by (auto simp: wrap_def split: if_splits option.splits)
    ultimately show ?thesis by blast
  qed
  moreover have "de = w_DNSApply W (tr @ [CFirewallApply (c_firewall c), CIngressApply (c_ingress c)] @
       (if hr_Egress R then [CEgressApply (c_egresses c)] else [])) (c_dns c) repopulate"
    by (simp add: de_def tr3_def tr2_def tr1_def)
  ultimately show ?thesis using that[OF f ie_def[unfolded tr1_def]] by blast
qed

lemma expected_calls_mutate: "filter mutates (expected_calls R c repopulate fe ie de) = expected_calls R c repopulate fe ie de"
  by (auto simp: expected_calls_def)

lemma run_Apply:
  assumes "run_state (Apply R W s) [] = (res, tr)"
  shows "(filter mutates tr = [] \<and> (\<exists>e. res = Inl [e])) \<or>
    (\<exists>c tr0 tr1 observed. run_state (compile R W s) [] = (Inr c, tr0) \<and>
       run_state (Observe R W) tr0 = (Inr observed, tr1) \<and> filter mutates tr1 = [] \<and>
       run_state (converge R W c (Diff (c_ingress c) (w_Fingerprint W (c_firewall c))
         (reality_fingerprint R W (c_reality c)) observed)) tr1 = (res, tr))"
proof -
  obtain cr tr0 where cr: "run_state (compile R W s) [] = (cr, tr0)" by (cases "run_state (compile R W s) []")
  then have m0: "filter mutates tr0 = []" using reads_muts[OF reads_compile] by fastforce
  show ?thesis
  proof (cases cr)
    case (Inl e)
    with cr assms m0 show ?thesis by (auto simp: Apply_def)
  next
    case (Inr c)
    obtain ob tr1 where ob: "run_state (Observe R W) tr0 = (ob, tr1)" by (cases "run_state (Observe R W) tr0")
    then have m1: "filter mutates tr1 = []" using reads_muts[OF reads_Observe] m0 by metis
    show ?thesis
      using cr assms m1 Inr ob by (cases ob) (auto simp: Apply_def)
  qed
qed

end
