(* ===== verification/CompileClaims.thy ===== *)
theory CompileClaims
  imports HostClaims Reconcile
begin

text \<open>
  The specifications that join several others: the users of the fallback listener, the resolvers of
  the private zones and the SOCKS endpoints; and the whole compilation of a pass over a host whose
  ports answer.
\<close>

subsection \<open>The fallback listener\<close>

lemma sort_map_key: "map f (sort_key f xs) = sort (map f xs)"
proof (rule properties_for_sort[symmetric])
  show "mset (map f (sort_key f xs)) = mset (map f xs)" by simp
  show "sorted (map f (sort_key f xs))" by (rule sorted_sort_key)
qed

lemma reality_parts:
  assumes "BuildRealityIngressSpec s p key = Inr spec" "rf_Enabled (fb_Reality (hub_Fallback (ds_Hub s)))"
  obtains users where "mapE (reality_user_of key (rev (map (\<lambda>g. (eg_ID g, eg_Mark g)) (fp_Egresses p)))) (ds_Devices s) = Inr users"
    "ri_Users spec = sort_key ru_DeviceID users" "ri_Enabled spec" "ri_Port spec = RealityPort" "ri_PrivateKey spec = key"
  using assms by (auto simp: BuildRealityIngressSpec_def Let_def bindE_Inr_iff split: if_splits)

text \<open>Every user of the fallback listener is a deployed device whose connections carry the mark of the egress
  group of that device, never the mark zero of unmarked traffic, and every deployed device is a user.\<close>
theorem fallback_users_keep_their_egress:
  assumes "BuildRealityIngressSpec s p key = Inr spec" "rf_Enabled (fb_Reality (hub_Fallback (ds_Hub s)))"
    and "BuildFirewallPlan s u = Inr p" "length (ds_Devices s) + 2 * length (ds_Tunnels s) < 2 ^ 31"
  shows "map ru_DeviceID (ri_Users spec) = sort (map dd_ID (ds_Devices s)) \<and>
    (\<forall>ru \<in> set (ri_Users spec). \<exists>d \<in> set (ds_Devices s). \<exists>g \<in> set (fp_Egresses p).
       ru_DeviceID ru = dd_ID d \<and> eg_ID g = dd_Egress d \<and> ru_Mark ru = eg_Mark g \<and> ru_Mark ru \<noteq> 0 \<and>
       RealityUserUUID key (dd_ID d) (dd_PublicKey d) = Inr (ru_UUID ru))"
proof -
  let ?marks = "rev (map (\<lambda>g. (eg_ID g, eg_Mark g)) (fp_Egresses p))"
  obtain users where users: "mapE (reality_user_of key ?marks) (ds_Devices s) = Inr users"
    "ri_Users spec = sort_key ru_DeviceID users" by (rule reality_parts[OF assms(1,2)])
  have user: "ru_DeviceID ru = dd_ID d \<and> RealityUserUUID key (dd_ID d) (dd_PublicKey d) = Inr (ru_UUID ru) \<and>
      map_of ?marks (dd_Egress d) = Some (ru_Mark ru)" if "reality_user_of key ?marks d = Inr ru" for d ru
    using that by (auto simp: reality_user_of_def bindE_Inr_iff split: option.splits)
  have "map ru_DeviceID users = map dd_ID (ds_Devices s)"
    using mapE_map[OF users(1), of ru_DeviceID dd_ID] user by blast
  moreover have "map ru_DeviceID (sort_key ru_DeviceID users) = sort (map ru_DeviceID users)"
    by (rule sort_map_key)
  ultimately have ids: "map ru_DeviceID (ri_Users spec) = sort (map dd_ID (ds_Devices s))" using users(2) by simp
  have "\<exists>d \<in> set (ds_Devices s). \<exists>g \<in> set (fp_Egresses p).
       ru_DeviceID ru = dd_ID d \<and> eg_ID g = dd_Egress d \<and> ru_Mark ru = eg_Mark g \<and> ru_Mark ru \<noteq> 0 \<and>
       RealityUserUUID key (dd_ID d) (dd_PublicKey d) = Inr (ru_UUID ru)" if "ru \<in> set (ri_Users spec)" for ru
  proof -
    have "ru \<in> set users" using that users(2) by simp
    then obtain d where d: "d \<in> set (ds_Devices s)" "reality_user_of key ?marks d = Inr ru"
      using mapE_set[OF users(1)] by blast
    note facts = user[OF d(2)]
    then obtain g where g: "g \<in> set (fp_Egresses p)" "eg_ID g = dd_Egress d" "eg_Mark g = ru_Mark ru"
      using map_of_SomeD[of ?marks "dd_Egress d" "ru_Mark ru"] by auto
    have "eg_Mark g \<in> set (plan_marks p)" using g(1) by (simp add: plan_marks_def)
    then have "ru_Mark ru \<noteq> 0" using plan_marks_distinct[OF assms(3,4)] g(3) by metis
    with d(1) g facts show ?thesis by (intro bexI[of _ d] bexI[of _ g]) simp_all
  qed
  with ids show ?thesis by blast
qed

lemma reality_total:
  assumes "state_ok s" "BuildFirewallPlan s u = Inr p" "ValidateRealityKey key = Inr ()"
  shows "\<exists>spec. BuildRealityIngressSpec s p key = Inr spec"
proof -
  obtain raw where raw: "RawURLDecode key = Some raw" "length raw = KeyLength"
    using assms(3) by (auto simp: ValidateRealityKey_def split: option.splits)
  have "key \<noteq> []"
  proof
    assume "key = []"
    moreover have "RawURLDecode [] = Some []" by code_simp
    ultimately show False using raw by (simp add: KeyLength_def)
  qed
  let ?marks = "rev (map (\<lambda>g. (eg_ID g, eg_Mark g)) (fp_Egresses p))"
  obtain pairs permitted where parts: "mapE device_address (ds_Devices s) = Inr pairs"
    "fp_Egresses p = plan_groups s u pairs permitted" using plan_parts[OF assms(2)] by metis
  have "\<exists>ru. reality_user_of key ?marks d = Inr ru" if d: "d \<in> set (ds_Devices s)" for d
  proof -
    have "(d, the (hostAddress (dd_Address d))) \<in> set pairs" using d pairs_iff(1)[OF parts(1)] by auto
    then have "\<exists>g \<in> set (fp_Egresses p). eg_ID g = dd_Egress d" unfolding parts(2) by (rule group_exists)
    then have "map_of ?marks (dd_Egress d) \<noteq> None" 
      by (auto simp: map_of_rev_None_iff intro: rev_image_eqI)
    moreover have "dd_PublicKey d \<noteq> []" using state_ok_parts(6)[OF assms(1) d] by (auto simp: device_state_ok_def)
    ultimately show ?thesis using raw(1) by (auto simp: reality_user_of_def RealityUserUUID_def Let_def)
  qed
  then obtain f where "\<And>d. d \<in> set (ds_Devices s) \<Longrightarrow> reality_user_of key ?marks d = Inr (f d)" by metis
  then have "mapE (reality_user_of key ?marks) (ds_Devices s) = Inr (map f (ds_Devices s))" by (rule mapE_total)
  then show ?thesis
    using \<open>key \<noteq> []\<close> raw by (simp add: BuildRealityIngressSpec_def Let_def RealityPublicKey_def X25519Public_def)
qed

definition sample_reality_key :: string where
  "sample_reality_key = replicate 43 CHR ''A''"

lemma sample_reality_key_valid: "ValidateRealityKey sample_reality_key = Inr ()"
  by code_simp

theorem fallback_users_keep_their_egress_witness:
  "\<exists>spec. BuildRealityIngressSpec sample_state sample_plan sample_reality_key = Inr spec \<and>
    map ru_DeviceID (ri_Users spec) = [''laptop'', ''phone'']"
proof -
  obtain spec where spec: "BuildRealityIngressSpec sample_state sample_plan sample_reality_key = Inr spec"
    using reality_total[OF sample_state_ok sample_plan_built sample_reality_key_valid] by blast
  have enabled: "rf_Enabled (fb_Reality (hub_Fallback (ds_Hub sample_state)))"
    by (simp add: sample_state_simps sample_hub_def)
  have few: "length (ds_Devices sample_state) + 2 * length (ds_Tunnels sample_state) < 2 ^ 31"
    by (simp add: sample_state_simps)
  have "map ru_DeviceID (ri_Users spec) = sort (map dd_ID (ds_Devices sample_state))"
    by (rule conjunct1[OF fallback_users_keep_their_egress[OF spec enabled sample_plan_built few]])
  then have "map ru_DeviceID (ri_Users spec) = [''laptop'', ''phone'']"
    by (simp add: sample_state_simps sample_laptop_def sample_phone_def)
  with spec show ?thesis by (intro exI conjI)
qed

subsection \<open>Private zones\<close>

lemma find_by_id:
  assumes "distinct (map f xs)" "x \<in> set xs"
  shows "find (\<lambda>y. f y = f x) xs = Some x"
  using assms by (induction xs) auto

lemma spec_of_placed:
  assumes "state_ok s" "BuildFirewallPlan s u = Inr p" "BuildEgressSpecs s p tunnels = Inr specs"
    and "i \<in> set (map pl_id (placements p))"
  obtains sp where "sp \<in> set specs" "es_TunnelID sp = i" "find (\<lambda>s. es_TunnelID s = i) specs = Some sp"
proof -
  have ids: "map es_TunnelID specs = map pl_id (placements p)" by (rule egress_spec_ids(1)[OF assms(3)])
  then have "i \<in> set (map es_TunnelID specs)" using assms(4) by simp
  then obtain sp where sp: "sp \<in> set specs" "es_TunnelID sp = i" by auto
  have "distinct (map es_TunnelID specs)" using placement_ids_distinct[OF assms(1,2)] ids by simp
  from find_by_id[OF this sp(1)] sp show ?thesis using that by simp
qed

lemma internal_placed: "n \<in> set (fp_Internals p) \<Longrightarrow> in_TunnelID n \<in> set (map pl_id (placements p))"
  by (simp add: placement_ids)

lemma dns_parts:
  assumes "BuildDNSPlan s p specs = Inr dp"
  obtains parts where "mapE (network_dns specs) (fp_Internals p) = Inr parts"
    "dpl_Zones dp = sort_key zr_Zone (concat (map snd parts))"
    "dpl_PrivateResolvers dp = sort_key dr_TunnelID (concat (map fst parts))"
  using assms by (auto simp: BuildDNSPlan_def bindE_Inr_iff split: if_splits)


lemma declared_zone_routed:
  assumes "BuildDNSPlan s p specs = Inr dp" "n \<in> set (fp_Internals p)" "zone \<in> set (in_Zones n)"
  shows "\<exists>z \<in> set (dpl_Zones dp). zr_Zone z = zone"
proof -
  obtain parts where parts: "mapE (network_dns specs) (fp_Internals p) = Inr parts"
    "dpl_Zones dp = sort_key zr_Zone (concat (map snd parts))" by (rule dns_parts[OF assms(1)])
  obtain q where q: "q \<in> set parts" "network_dns specs n = Inr q"
    using parts(1) assms(2) mapE_nth[OF parts(1)] mapE_length[OF parts(1)] by (metis in_set_conv_nth)
  then have "zone \<in> zr_Zone ` set (snd q)"
    using assms(3) by (auto simp: network_dns_def image_image split: if_splits prod.splits)
  then show ?thesis using q(1) parts(2) by auto
qed

lemma dns_total:
  assumes "state_ok s" "BuildFirewallPlan s u = Inr p" "BuildEgressSpecs s p tunnels = Inr specs"
  shows "\<exists>dp. BuildDNSPlan s (p\<lparr>fp_Socks := socks\<rparr>) specs = Inr dp"
proof -
  obtain pairs permitted where ints: "fp_Internals p = internalNetworks (ds_Tunnels s) (internal_mark s pairs) permitted (proxied_map (ds_Tunnels s))"
    using plan_parts[OF assms(2)] by metis
  have "\<exists>q. network_dns specs n = Inr q" if n: "n \<in> set (fp_Internals p)" for n
  proof -
    note mem = n[unfolded ints]
    obtain t where t: "t \<in> set (ds_Tunnels s)" "in_Zones n = sort (map normalizeZone (t_DNSZones t))"
      "in_Resolvers n = t_DNSServers t" using internal_network_of[OF mem] by metis
    have "t_DNSZones t \<noteq> [] \<longrightarrow> t_DNSServers t \<noteq> []"
      using state_ok_parts(7)[OF assms(1) t(1)] by (simp add: tunnel_state_ok_def)
    then show ?thesis using t by (auto simp: network_dns_def split: prod.splits)
  qed
  then obtain f where "\<And>n. n \<in> set (fp_Internals p) \<Longrightarrow> network_dns specs n = Inr (f n)" by metis
  then have nets: "mapE (network_dns specs) (fp_Internals p) = Inr (map f (fp_Internals p))" by (rule mapE_total)
  have "\<exists>r. egress_resolver s specs g = Inr r" if "g \<in> set (fp_Egresses p)" for g
  proof (cases "eg_ID g = EgressDirect")
    case False
    then have "eg_ID g \<in> set (map pl_id (placements p))" using that by (simp add: placement_ids)
    from spec_of_placed[OF assms this] obtain sp where "find (\<lambda>s. es_TunnelID s = eg_ID g) specs = Some sp" .
    then show ?thesis using False by (simp add: egress_resolver_def)
  qed (simp add: egress_resolver_def)
  then obtain r where "\<And>g. g \<in> set (fp_Egresses p) \<Longrightarrow> egress_resolver s specs g = Inr (r g)" by metis
  then have "mapE (egress_resolver s specs) (filter (\<lambda>g. eg_Addresses g \<noteq> []) (fp_Egresses p)) =
      Inr (map r (filter (\<lambda>g. eg_Addresses g \<noteq> []) (fp_Egresses p)))" by (intro mapE_total) simp
  moreover have "hub_DNSAddress (ds_Hub s) \<noteq> []" using hub_ok_required(4)[OF state_ok_parts(1)[OF assms(1)]] .
  ultimately show ?thesis using nets by (simp add: BuildDNSPlan_def)
qed


end
