(* ===== verification/ReconcileClaims.thy ===== *)
theory ReconcileClaims
  imports CompileClaims
begin

text \<open>
  The pass of the agent over its ports: that it compiles whenever the ports answer, which calls it
  makes in which order, and what its success and its dry run mean.
\<close>

subsection \<open>A pass compiles\<close>

lemma disable_reality_simps [simp]:
  "ds_Devices (disable_reality s) = ds_Devices s" "ds_Tunnels (disable_reality s) = ds_Tunnels s"
  "ds_ClientACLs (disable_reality s) = ds_ClientACLs s"
  "hub_ServerPublicKey (ds_Hub (disable_reality s)) = hub_ServerPublicKey (ds_Hub s)"
  "\<not> rf_Enabled (fb_Reality (hub_Fallback (ds_Hub (disable_reality s))))"
  by (simp_all add: disable_reality_def)

lemma hub_ok_disable: "hub_ok (ds_Hub s) \<Longrightarrow> hub_ok (ds_Hub (disable_reality s))"
  by (auto simp: hub_ok_def disable_reality_def reality_ok_def)

lemma state_ok_disable:
  assumes "state_ok s"
  shows "state_ok (disable_reality s)"
proof -
  have "hub_ClientCIDR (ds_Hub (disable_reality s)) = hub_ClientCIDR (ds_Hub s)" by (simp add: disable_reality_def)
  then have "device_state_ok (ds_Hub (disable_reality s)) = device_state_ok (ds_Hub s)"
    by (auto simp: device_state_ok_def fun_eq_iff)
  then show ?thesis using assms hub_ok_disable by (simp add: state_ok_def)
qed

definition serves :: "reconciler \<Rightarrow> bool" where
  "serves R \<longleftrightarrow> hr_Firewall R \<and> hr_Ingress R \<and> hr_Egress R \<and> hr_TunnelConfigs R \<and> hr_Host R \<and> hr_ServerKey R"

text \<open>The ports a pass reads from answer, with the private key of the state's hub.\<close>

definition answers :: "world \<Rightarrow> desired_state \<Rightarrow> bool" where
  "answers W s \<longleftrightarrow>
     (\<exists>u. u \<noteq> [] \<and> (\<forall>tr. w_Uplink W tr = Inr u)) \<and>
     (\<exists>key. PublicKeyFromPrivate key = Inr (hub_ServerPublicKey (ds_Hub s)) \<and> (\<forall>tr. w_ServerKey W tr = Inr key)) \<and>
     (\<forall>tr t. \<exists>up. w_LoadTunnel W tr t = Inr up)"

lemma load_tunnels_total:
  assumes "\<forall>tr t. \<exists>up. w_LoadTunnel W tr t = Inr up"
  shows "\<exists>acc' tr'. run_state (load_tunnels W needed acc ts) tr = (Inr acc', tr') \<and>
    (\<forall>i. (\<exists>t \<in> set ts. t_ID t = i \<and> i \<in> set needed) \<or> map_of acc i \<noteq> None \<longrightarrow> map_of acc' i \<noteq> None)"
proof (induction ts arbitrary: acc tr)
  case (Cons t ts)
  show ?case
  proof (cases "t_ID t \<in> set needed")
    case True
    obtain up where "w_LoadTunnel W tr t = Inr up" using assms by blast
    then have run: "run_state (load_tunnels W needed acc (t # ts)) tr =
        run_state (load_tunnels W needed ((t_ID t, up) # acc) ts) (tr @ [CLoadTunnel (t_ID t)])"
      using True by (simp add: run_bindX)
    obtain acc' tr' where rest: "run_state (load_tunnels W needed ((t_ID t, up) # acc) ts) (tr @ [CLoadTunnel (t_ID t)]) = (Inr acc', tr')"
      "\<forall>i. (\<exists>t \<in> set ts. t_ID t = i \<and> i \<in> set needed) \<or> map_of ((t_ID t, up) # acc) i \<noteq> None \<longrightarrow> map_of acc' i \<noteq> None"
      using Cons[of "(t_ID t, up) # acc" "tr @ [CLoadTunnel (t_ID t)]"] by blast
    have "map_of acc' i \<noteq> None" if "(\<exists>x \<in> set (t # ts). t_ID x = i \<and> i \<in> set needed) \<or> map_of acc i \<noteq> None" for i
      using that rest(2)[rule_format, of i] by (cases "t_ID t = i") auto
    then show ?thesis unfolding run rest(1) by blast
  next
    case False
    then have run: "run_state (load_tunnels W needed acc (t # ts)) tr = run_state (load_tunnels W needed acc ts) tr" by simp
    have "(\<exists>x \<in> set (t # ts). t_ID x = i \<and> i \<in> set needed) \<longleftrightarrow> (\<exists>x \<in> set ts. t_ID x = i \<and> i \<in> set needed)" for i
      using False by auto
    then show ?thesis unfolding run using Cons[of acc tr] by presburger
  qed
qed simp

lemma compileEgresses_total:
  assumes "state_ok s" "BuildFirewallPlan s u = Inr p" "length (ds_Tunnels s) \<le> 16384"
    and "\<forall>tr t. \<exists>up. w_LoadTunnel W tr t = Inr up" "serves R"
  shows "\<exists>specs tunnels tr'. run_state (compileEgresses R W s p) tr = (Inr specs, tr') \<and>
    BuildEgressSpecs s p tunnels = Inr specs"
proof (cases "placements p = []")
  case True
  then show ?thesis using assms(5) by (auto simp: compileEgresses_def serves_def BuildEgressSpecs_def)
next
  case False
  obtain tunnels tr' where load: "run_state (load_tunnels W (map pl_id (placements p)) [] (ds_Tunnels s)) tr = (Inr tunnels, tr')"
    "\<forall>i. (\<exists>t \<in> set (ds_Tunnels s). t_ID t = i \<and> i \<in> set (map pl_id (placements p))) \<longrightarrow> map_of tunnels i \<noteq> None"
    using load_tunnels_total[OF assms(4), of "map pl_id (placements p)" "[]" "ds_Tunnels s" tr] by auto
  have "\<exists>specs. BuildEgressSpecs s p tunnels = Inr specs"
    using load(2) by (intro egress_specs_total[OF assms(1-3)]) (metis list.set_map)
  with False load(1) assms(5) show ?thesis
    by (fastforce simp: compileEgresses_def serves_def run_bindX)
qed

lemma compile_with_total:
  fixes k :: "(reconcile_error, string) result"
  assumes "state_ok s" "length (ds_Tunnels s) \<le> 16384" "u \<noteq> []" "answers W s" "serves R"
  defines "s' \<equiv> case k of Inl _ \<Rightarrow> disable_reality s | Inr _ \<Rightarrow> s"
  shows "\<exists>c tr' p. run_state (compile_with R W u s k) tr = (Inr c, tr') \<and>
    BuildFirewallPlan s' u = Inr p \<and> c_firewall c = p\<lparr>fp_Socks := socksEndpoints (c_egresses c) p\<rparr> \<and>
    (case BuildRealityIngressSpec s' (c_firewall c) (case k of Inl _ \<Rightarrow> [] | Inr x \<Rightarrow> x) of
       Inl e \<Rightarrow> c_reality c = zero_reality_spec \<and> c_realityErr c = Some (RealityFailed e)
     | Inr spec \<Rightarrow> c_reality c = spec \<and> c_realityErr c = (case k of Inl e \<Rightarrow> Some e | Inr _ \<Rightarrow> None))"
proof -
  have s': "state_ok s'" "ds_Tunnels s' = ds_Tunnels s" "hub_ServerPublicKey (ds_Hub s') = hub_ServerPublicKey (ds_Hub s)"
    using assms(1) state_ok_disable by (auto simp: s'_def split: sum.splits)
  obtain p where p: "BuildFirewallPlan s' u = Inr p" using plan_total[OF s'(1) assms(3)] assms(2) s'(2) by auto
  obtain key where key: "PublicKeyFromPrivate key = Inr (hub_ServerPublicKey (ds_Hub s'))" "\<And>tr. w_ServerKey W tr = Inr key"
    using assms(4) s'(3) by (auto simp: answers_def)
  obtain ing where ing: "BuildIngressSpec s' key = Inr ing" using ingress_total[OF s'(1) key(1)] by blast
  have load: "\<forall>tr t. \<exists>up. w_LoadTunnel W tr t = Inr up" using assms(4) by (simp add: answers_def)
  obtain specs tunnels tr1 where specs: "run_state (compileEgresses R W s' p) (tr @ [CServerKey]) = (Inr specs, tr1)"
    "BuildEgressSpecs s' p tunnels = Inr specs"
    using compileEgresses_total[OF s'(1) p _ load assms(5)] assms(2) s'(2) by metis
  let ?p = "p\<lparr>fp_Socks := socksEndpoints specs p\<rparr>"
  obtain dns where dns: "BuildDNSPlan s' ?p specs = Inr dns" using dns_total[OF s'(1) p specs(2)] by blast
  show ?thesis
    using p key(2) ing specs(1) dns
    by (cases "BuildRealityIngressSpec s' ?p (case k of Inl _ \<Rightarrow> [] | Inr x \<Rightarrow> x)")
      (simp_all add: compile_with_def Let_def run_bindX s'_def[symmetric])
qed

lemma compile_total:
  assumes "state_ok s" "length (ds_Tunnels s) \<le> 16384" "answers W s" "serves R"
  shows "\<exists>c tr'. run_state (compile R W s) tr = (Inr c, tr')"
proof -
  obtain u where u: "u \<noteq> []" "\<And>tr. w_Uplink W tr = Inr u" using assms(3) by (auto simp: answers_def)
  obtain k tr1 where k: "run_state (realityKey R W s) (tr @ [CUplink]) = (k, tr1)" by fastforce
  obtain c tr' where "run_state (compile_with R W u s k) tr1 = (Inr c, tr')"
    using compile_with_total[OF assms(1,2) u(1) assms(3,4)] by metis
  then show ?thesis using assms(4) u(2) k by (simp add: compile_def serves_def run_bindX)
qed

text \<open>C4: Once the ports it reads from answer, a pass over a state compiled from an accepted configuration always
  compiles, whatever the store of the fallback key answers: a missing fallback key keeps nothing else down.\<close>
theorem a_pass_compiles:
  assumes "state_ok s" "length (ds_Tunnels s) \<le> 16384" "answers W s" "serves R"
  shows "\<exists>c tr'. run_state (compile R W s) tr = (Inr c, tr')"
  by (rule compile_total[OF assms])

definition full_reconciler :: reconciler where
  "full_reconciler = \<lparr>hr_Firewall = True, hr_Ingress = True, hr_Egress = True, hr_DNS = True, hr_TunnelConfigs = True,
     hr_Host = True, hr_ServerKey = True, hr_Reality = True, hr_RealityKey = True\<rparr>"

definition no_interface :: ingress_observation where
  "no_interface = \<lparr>io_Exists = False, io_PublicKey = [], io_ListenPort = 0, io_Peers = []\<rparr>"

definition quiet_world :: world where
  "quiet_world = \<lparr>w_Uplink = \<lambda>tr. Inr ''eth0'', w_ServerKey = \<lambda>tr. Inr sample_private,
     w_RealityKey = \<lambda>tr. Inr sample_reality_key, w_LoadTunnel = \<lambda>tr t. Inr no_upstream,
     w_FirewallObserve = \<lambda>tr. Inr [], w_IngressObserve = \<lambda>tr. Inr no_interface, w_RealityApplied = \<lambda>tr. Inr [],
     w_FirewallApply = \<lambda>tr p. (True, None), w_IngressApply = \<lambda>tr s. None, w_EgressApply = \<lambda>tr s. None,
     w_DNSApply = \<lambda>tr d r. None, w_Commit = \<lambda>tr p. None, w_RealityApply = \<lambda>tr s. None,
     w_Fingerprint = \<lambda>p. ''f'', w_RealityFingerprint = \<lambda>s. ''r'', w_Now = 0\<rparr>"

lemma full_reconciler_simps [simp]:
  "hr_Firewall full_reconciler" "hr_Ingress full_reconciler" "hr_Egress full_reconciler" "hr_DNS full_reconciler"
  "hr_TunnelConfigs full_reconciler" "hr_Host full_reconciler" "hr_ServerKey full_reconciler"
  "hr_Reality full_reconciler" "hr_RealityKey full_reconciler"
  by (simp_all add: full_reconciler_def)

lemma quiet_world_simps [simp]:
  "w_Uplink quiet_world tr = Inr ''eth0''" "w_RealityKey quiet_world tr = Inr sample_reality_key"
  "w_FirewallObserve quiet_world tr = Inr []" "w_IngressObserve quiet_world tr = Inr no_interface"
  "w_RealityApplied quiet_world tr = Inr []" "w_FirewallApply quiet_world tr p = (True, None)"
  "w_IngressApply quiet_world tr i = None" "w_EgressApply quiet_world tr e = None"
  "w_DNSApply quiet_world tr d r = None" "w_Commit quiet_world tr p = None" "w_RealityApply quiet_world tr ry = None"
  by (simp_all add: quiet_world_def)

lemma quiet_world_answers: "answers quiet_world sample_state" "serves full_reconciler"
  using sample_public_derived
  by (auto simp: answers_def serves_def quiet_world_def sample_state_simps sample_hub_def)

theorem a_pass_compiles_witness: "\<exists>c tr'. run_state (compile full_reconciler quiet_world sample_state) [] = (Inr c, tr')"
  by (rule a_pass_compiles[OF sample_state_ok _ quiet_world_answers]) (simp add: sample_state_simps)

text \<open>When the store of the fallback key only returns well-formed keys, the compiled packet filter opens the
  fallback port exactly when the compiled listener is to run, and then for the same port.\<close>
theorem fallback_port_opens_with_its_listener:
  assumes "state_ok s" "length (ds_Tunnels s) \<le> 16384" "answers W s" "serves R" "hr_Reality R"
    and "\<And>tr k. w_RealityKey W tr = Inr k \<Longrightarrow> ValidateRealityKey k = Inr ()"
    and "run_state (compile R W s) tr = (Inr c, tr')"
  shows "fp_RealityPort (c_firewall c) = ri_Port (c_reality c) \<and>
    (fp_RealityPort (c_firewall c) \<noteq> 0 \<longleftrightarrow> ri_Enabled (c_reality c))"
proof -
  obtain u where u: "u \<noteq> []" "\<And>tr. w_Uplink W tr = Inr u" using assms(3) by (auto simp: answers_def)
  obtain k tr1 where k: "run_state (realityKey R W s) (tr @ [CUplink]) = (k, tr1)" by fastforce
  define s' where "s' = (case k of Inl _ \<Rightarrow> disable_reality s | Inr _ \<Rightarrow> s)"
  define rkey where "rkey = (case k of Inl _ \<Rightarrow> [] | Inr x \<Rightarrow> x)"
  obtain c0 tr0 p where c0: "run_state (compile_with R W u s k) tr1 = (Inr c0, tr0)" "BuildFirewallPlan s' u = Inr p"
    "c_firewall c0 = p\<lparr>fp_Socks := socksEndpoints (c_egresses c0) p\<rparr>"
    "case BuildRealityIngressSpec s' (c_firewall c0) rkey of
       Inl e \<Rightarrow> c_reality c0 = zero_reality_spec \<and> c_realityErr c0 = Some (RealityFailed e)
     | Inr spec \<Rightarrow> c_reality c0 = spec \<and> c_realityErr c0 = (case k of Inl e \<Rightarrow> Some e | Inr _ \<Rightarrow> None)"
    using compile_with_total[OF assms(1,2) u(1) assms(3,4), of k tr1] unfolding s'_def[symmetric] rkey_def[symmetric] by blast
  have c: "c = c0" using assms(4,7) u(2) k c0(1) by (simp add: compile_def serves_def run_bindX)
  let ?on = "rf_Enabled (fb_Reality (hub_Fallback (ds_Hub s')))"
  have port: "fp_RealityPort (c_firewall c) = (if ?on then RealityPort else 0)"
    using c0(2,3) c by (auto simp: BuildFirewallPlan_def Let_def bindE_Inr_iff split: if_splits)
  have same: "BuildRealityIngressSpec s' (c_firewall c0) rkey = BuildRealityIngressSpec s' p rkey"
    unfolding c0(3) by (simp add: BuildRealityIngressSpec_def Let_def)
  show ?thesis
  proof (cases ?on)
    case False
    then have "BuildRealityIngressSpec s' p rkey = Inr zero_reality_spec" by (simp add: BuildRealityIngressSpec_def)
    then show ?thesis using c0(4) same port False c by (simp add: zero_reality_spec_def)
  next
    case True
    then have "ValidateRealityKey rkey = Inr ()" "state_ok s'"
      using k assms(1,5,6) by (auto simp: s'_def rkey_def realityKey_def split: sum.splits if_splits)
    then obtain spec where spec: "BuildRealityIngressSpec s' p rkey = Inr spec" using reality_total[OF _ c0(2)] by blast
    have "ri_Enabled spec" "ri_Port spec = RealityPort" using reality_parts[OF spec True] by metis+
    then show ?thesis using c0(4) same spec port True c by (simp add: RealityPort_def)
  qed
qed

theorem fallback_port_opens_with_its_listener_witness:
  "\<exists>c tr'. run_state (compile full_reconciler quiet_world sample_state) [] = (Inr c, tr') \<and>
    fp_RealityPort (c_firewall c) = ri_Port (c_reality c)"
proof -
  have few: "length (ds_Tunnels sample_state) \<le> 16384" by (simp add: sample_state_simps)
  obtain c tr' where run: "run_state (compile full_reconciler quiet_world sample_state) [] = (Inr c, tr')"
    using compile_total[OF sample_state_ok few quiet_world_answers] by blast
  have "fp_RealityPort (c_firewall c) = ri_Port (c_reality c)"
    using fallback_port_opens_with_its_listener[OF sample_state_ok few quiet_world_answers _ _ run] sample_reality_key_valid
    by simp
  with run show ?thesis by (intro exI conjI)
qed

subsection \<open>What a pass does to the host\<close>

text \<open>A dry run changes nothing: whatever the ports answer, \<open>Plan\<close> makes no call that changes the host.\<close>
theorem a_dry_run_only_reads:
  assumes "run_state (Plan R W s) tr = (r, tr')"
  shows "filter mutates tr' = filter mutates tr"
proof -
  have "reads (Plan R W s)"
    unfolding Plan_def by (intro reads_bindX reads_compile) (auto intro: reads_intros reads_Observe split: option.splits)
  then show ?thesis using assms by (rule reads_muts)
qed

theorem a_dry_run_only_reads_witness:
  "filter mutates (snd (run_state (Plan full_reconciler quiet_world sample_state) [])) = []"
  using a_dry_run_only_reads[of full_reconciler quiet_world sample_state "[]"] by (metis filter.simps(1) prod.collapse)


text \<open>A pass that reports success had no failing step: the packet filter, the ingress and, where configured, the
  resolver were applied without error, no part of the fallback failed to compile, and the reported operations are
  the differences observed before the changes.\<close>
theorem success_means_every_step_succeeded:
  assumes "run_state (Apply R W s) [] = (Inr ops, tr)"
  shows "\<exists>c tr0 tr1 observed repopulate ie de. run_state (compile R W s) [] = (Inr c, tr0) \<and> c_realityErr c = None \<and>
    run_state (Observe R W) tr0 = (Inr observed, tr1) \<and>
    ops = Diff (c_ingress c) (w_Fingerprint W (c_firewall c)) (reality_fingerprint R W (c_reality c)) observed \<and>
    w_FirewallApply W tr1 (c_firewall c) = (repopulate, None) \<and> ie = None \<and> (hr_DNS R \<longrightarrow> de = None) \<and>
    tr = tr1 @ expected_calls R c repopulate None ie de"
proof -
  obtain c tr0 tr1 observed where c: "run_state (compile R W s) [] = (Inr c, tr0)"
    "run_state (Observe R W) tr0 = (Inr observed, tr1)"
    "run_state (converge R W c (Diff (c_ingress c) (w_Fingerprint W (c_firewall c))
         (reality_fingerprint R W (c_reality c)) observed)) tr1 = (Inr ops, tr)"
    using run_Apply[OF assms] by blast
  obtain repopulate fe ie de where r: "w_FirewallApply W tr1 (c_firewall c) = (repopulate, fe)"
    "tr = tr1 @ expected_calls R c repopulate fe ie de"
    "ops = Diff (c_ingress c) (w_Fingerprint W (c_firewall c)) (reality_fingerprint R W (c_reality c)) observed \<and>
     fe = None \<and> ie = None \<and> (hr_DNS R \<longrightarrow> de = None) \<and> c_realityErr c = None"
    by (rule run_converge[OF c(3)]) blast
  with c show ?thesis by auto
qed

text \<open>The repopulation of the resolver's sets is acknowledged to the packet filter only in a pass in which the
  filter was applied without error and asked for it, and the resolver was replaced without error.\<close>
theorem acknowledged_only_after_success:
  assumes "run_state (Apply R W s) [] = (res, tr)" "CCommit q \<in> set tr"
  shows "\<exists>(c :: compiled) tr1. w_FirewallApply W tr1 (c_firewall c) = (True, None) \<and> q = c_firewall c \<and>
    w_DNSApply W (tr1 @ [CFirewallApply (c_firewall c), CIngressApply (c_ingress c)] @
       (if hr_Egress R then [CEgressApply (c_egresses c)] else [])) (c_dns c) True = None"
proof -
  have mut: "CCommit q \<in> set (filter mutates tr)" using assms(2) by simp
  then obtain c tr0 tr1 observed where c: "filter mutates tr1 = []"
    "run_state (converge R W c (Diff (c_ingress c) (w_Fingerprint W (c_firewall c))
         (reality_fingerprint R W (c_reality c)) observed)) tr1 = (res, tr)"
    using run_Apply[OF assms(1)] by (metis empty_iff empty_set)
  obtain repopulate fe ie de where r: "w_FirewallApply W tr1 (c_firewall c) = (repopulate, fe)"
    "de = w_DNSApply W (tr1 @ [CFirewallApply (c_firewall c), CIngressApply (c_ingress c)] @
       (if hr_Egress R then [CEgressApply (c_egresses c)] else [])) (c_dns c) repopulate"
    "tr = tr1 @ expected_calls R c repopulate fe ie de"
    by (rule run_converge[OF c(2)])
  then have "CCommit q \<in> set (expected_calls R c repopulate fe ie de)"
    using mut c(1) by (simp add: expected_calls_mutate)
  then have "de = None" "repopulate" "fe = None" "q = c_firewall c"
    by (auto simp: expected_calls_def split: if_splits)
  with r(1,2) show ?thesis by (intro exI[of _ c] exI[of _ tr1]) auto
qed

lemma quiet_pass:
  obtains c tr0 tr1 ops where "run_state (compile full_reconciler quiet_world sample_state) [] = (Inr c, tr0)"
    "run_state (Apply full_reconciler quiet_world sample_state) [] =
      (Inr ops, tr1 @ expected_calls full_reconciler c True None None None)" "c_realityErr c = None" "filter mutates tr1 = []"
proof -
  have few: "length (ds_Tunnels sample_state) \<le> 16384" by (simp add: sample_state_simps)
  have k: "run_state (realityKey full_reconciler quiet_world sample_state) [CUplink] = (Inr sample_reality_key, [CUplink, CRealityKey])"
    by (simp add: realityKey_def sample_state_simps) (simp add: sample_hub_def)
  obtain c tr0 p where c: "run_state (compile_with full_reconciler quiet_world ''eth0'' sample_state (Inr sample_reality_key)) [CUplink, CRealityKey] = (Inr c, tr0)"
    "BuildFirewallPlan sample_state ''eth0'' = Inr p" "c_firewall c = p\<lparr>fp_Socks := socksEndpoints (c_egresses c) p\<rparr>"
    "case BuildRealityIngressSpec sample_state (c_firewall c) sample_reality_key of
       Inl e \<Rightarrow> c_reality c = zero_reality_spec \<and> c_realityErr c = Some (RealityFailed e)
     | Inr spec \<Rightarrow> c_reality c = spec \<and> c_realityErr c = None"
    using compile_with_total[OF sample_state_ok few _ quiet_world_answers, of "''eth0''" "Inr sample_reality_key" "[CUplink, CRealityKey]"]
    unfolding sum.case by blast
  have "BuildRealityIngressSpec sample_state (c_firewall c) sample_reality_key = BuildRealityIngressSpec sample_state p sample_reality_key"
    unfolding c(3) by (simp add: BuildRealityIngressSpec_def Let_def)
  then have err: "c_realityErr c = None"
    using reality_total[OF sample_state_ok c(2) sample_reality_key_valid] c(4) by auto
  have comp: "run_state (compile full_reconciler quiet_world sample_state) [] = (Inr c, tr0)"
    using c(1) k by (simp add: compile_def run_bindX)
  obtain observed tr1 where ob: "run_state (Observe full_reconciler quiet_world) tr0 = (Inr observed, tr1)"
    by (simp add: Observe_def run_bindX)
  have "run_state (Apply full_reconciler quiet_world sample_state) [] =
      (Inr (Diff (c_ingress c) (w_Fingerprint quiet_world (c_firewall c)) (reality_fingerprint full_reconciler quiet_world (c_reality c)) observed),
       tr1 @ expected_calls full_reconciler c True None None None)"
    by (simp add: Apply_def comp ob run_converge_tail apply_tail_def apply_egress_def apply_dns_def apply_reality_def err
        expected_calls_def wrap_def)
  moreover have "filter mutates tr1 = []"
    using reads_muts[OF reads_Observe ob] reads_muts[OF reads_compile comp] by simp
  ultimately show ?thesis using that comp err by blast
qed


theorem success_means_every_step_succeeded_witness:
  "\<exists>c tr0. run_state (compile full_reconciler quiet_world sample_state) [] = (Inr c, tr0) \<and> c_realityErr c = None"
proof -
  obtain c tr0 tr1 ops where q: "run_state (Apply full_reconciler quiet_world sample_state) [] =
      (Inr ops, tr1 @ expected_calls full_reconciler c True None None None)" by (rule quiet_pass)
  from success_means_every_step_succeeded[OF this] show ?thesis by blast
qed

theorem acknowledged_only_after_success_witness:
  "\<exists>(c :: compiled) tr1. w_FirewallApply quiet_world tr1 (c_firewall c) = (True, None)"
proof -
  obtain c tr0 tr1 ops where q: "run_state (Apply full_reconciler quiet_world sample_state) [] =
      (Inr ops, tr1 @ expected_calls full_reconciler c True None None None)" by (rule quiet_pass)
  have "CCommit (c_firewall c) \<in> set (tr1 @ expected_calls full_reconciler c True None None None)"
    by (simp add: expected_calls_def)
  from acknowledged_only_after_success[OF q this] show ?thesis by blast
qed

end
