(* ===== verification/Stores.thy ===== *)
theory Stores
  imports DesiredState "HOL-Library.Monad_Syntax"
begin

text \<open>
  The state directory (\<open>internal/adapters/runtime\<close>): the revision store, the revocation list
  and the deploy confirmation, over files whose contents are JSON trees.  Every write goes
  through \<open>atomicWrite\<close>, which may fail before the rename (nothing changed) or after it (the
  new content is there and an error is reported); which of the three happens is an argument.
  The directory lock serialises the read-modify-write operations, so each is one step.
\<close>

subsection \<open>Decoding (encoding/json, Unmarshal)\<close>

definition str_val :: "json option \<Rightarrow> string option" where
  "str_val v = (case v of None \<Rightarrow> Some [] | Some JNull \<Rightarrow> Some [] | Some (JStr s) \<Rightarrow> Some s | Some _ \<Rightarrow> None)"

definition bool_val :: "json option \<Rightarrow> bool option" where
  "bool_val v = (case v of None \<Rightarrow> Some False | Some JNull \<Rightarrow> Some False | Some (JBool b) \<Rightarrow> Some b | Some _ \<Rightarrow> None)"

definition ptr_val :: "json option \<Rightarrow> bool option option" where
  "ptr_val v = (case v of None \<Rightarrow> Some None | Some JNull \<Rightarrow> Some None | Some (JBool b) \<Rightarrow> Some (Some b) | Some _ \<Rightarrow> None)"

definition time_val :: "json option \<Rightarrow> int option" where
  "time_val v = (case v of None \<Rightarrow> Some 0 | Some JNull \<Rightarrow> Some 0 | Some (JTime t) \<Rightarrow> Some t | Some _ \<Rightarrow> None)"

definition port_val :: "json option \<Rightarrow> (16 word) option" where
  "port_val v =
     (case v of
        None \<Rightarrow> Some 0 | Some JNull \<Rightarrow> Some 0
      | Some (JNum i) \<Rightarrow> if 0 \<le> i \<and> i < 65536 then Some (of_int i) else None
      | Some _ \<Rightarrow> None)"

fun collect :: "('a \<Rightarrow> 'b option) \<Rightarrow> 'a list \<Rightarrow> 'b list option" where
  "collect f [] = Some []"
| "collect f (x # xs) = Option.bind (f x) (\<lambda>y. map_option ((#) y) (collect f xs))"

definition list_val :: "(json \<Rightarrow> 'a option) \<Rightarrow> json option \<Rightarrow> 'a list option" where
  "list_val f v =
     (case v of None \<Rightarrow> Some [] | Some JNull \<Rightarrow> Some [] | Some (JArr xs) \<Rightarrow> collect f xs | Some _ \<Rightarrow> None)"

definition dec_str :: "json \<Rightarrow> string option" where
  "dec_str j = str_val (Some j)"

text \<open>The fields of a struct; \<open>null\<close> and an absent key leave the zero value.\<close>

definition obj_val :: "json option \<Rightarrow> (string \<times> json) list option" where
  "obj_val v = (case v of None \<Rightarrow> Some [] | Some JNull \<Rightarrow> Some [] | Some (JObj es) \<Rightarrow> Some es | Some _ \<Rightarrow> None)"

definition map_val :: "json option \<Rightarrow> (string \<times> string) list option" where
  "map_val v = Option.bind (obj_val v) (collect (\<lambda>(n, x). map_option (Pair n) (dec_str x)))"

definition str_field :: "(string \<times> json) list \<Rightarrow> string \<Rightarrow> string option" where
  "str_field kvs k = str_val (map_of kvs k)"

definition strs_field :: "(string \<times> json) list \<Rightarrow> string \<Rightarrow> string list option" where
  "strs_field kvs k = list_val dec_str (map_of kvs k)"

definition dec_hub :: "(string \<times> json) list \<Rightarrow> hub option" where
  "dec_hub kvs = do {
     e \<leftarrow> str_field kvs ''endpoint''; pk \<leftarrow> str_field kvs ''server_public_key'';
     c \<leftarrow> str_field kvs ''client_cidr''; d \<leftarrow> str_field kvs ''dns_address'';
     awg \<leftarrow> map_val (map_of kvs ''awg_interface'');
     fb \<leftarrow> obj_val (map_of kvs ''fallback''); udp \<leftarrow> bool_val (map_of fb ''udp443'');
     re \<leftarrow> obj_val (map_of fb ''reality''); en \<leftarrow> bool_val (map_of re ''enabled''); sn \<leftarrow> str_field re ''server_name'';
     Some \<lparr>hub_Endpoint = e, hub_ServerPublicKey = pk, hub_ClientCIDR = c, hub_DNSAddress = d,
           hub_AWGInterface = awg,
           hub_Fallback = \<lparr>fb_UDP443 = udp, fb_Reality = \<lparr>rf_Enabled = en, rf_ServerName = sn\<rparr>\<rparr>\<rparr> }"

definition dec_tunnel :: "json \<Rightarrow> tunnel option" where
  "dec_tunnel j = do {
     kvs \<leftarrow> obj_val (Some j);
     i \<leftarrow> str_field kvs ''id''; ty \<leftarrow> str_field kvs ''type''; ro \<leftarrow> str_field kvs ''role'';
     en \<leftarrow> ptr_val (map_of kvs ''enabled'');
     src \<leftarrow> obj_val (map_of kvs ''source''); kind \<leftarrow> str_field src ''kind''; val \<leftarrow> str_field src ''value'';
     rs \<leftarrow> strs_field kvs ''routes''; ds \<leftarrow> strs_field kvs ''dns_servers'';
     zs \<leftarrow> strs_field kvs ''dns_zones''; al \<leftarrow> strs_field kvs ''allowed_devices'';
     he \<leftarrow> obj_val (map_of kvs ''health''); tcp \<leftarrow> str_field he ''tcp_address'';
     url \<leftarrow> str_field he ''https_url''; dn \<leftarrow> str_field he ''dns_name'';
     Some \<lparr>t_ID = i, t_Type = ty, t_Role = ro, t_Enabled = en,
           t_Source = \<lparr>ts_Kind = kind, ts_Value = val\<rparr>, t_Routes = rs, t_DNSServers = ds, t_DNSZones = zs,
           t_AllowedDevices = al,
           t_Health = \<lparr>hc_TCPAddress = tcp, hc_HTTPSURL = url, hc_DNSName = dn\<rparr>\<rparr> }"

definition dec_acl :: "json \<Rightarrow> client_acl option" where
  "dec_acl j = do {
     kvs \<leftarrow> obj_val (Some j);
     s \<leftarrow> str_field kvs ''source''; t \<leftarrow> str_field kvs ''target''; p \<leftarrow> str_field kvs ''protocol'';
     n \<leftarrow> port_val (map_of kvs ''port'');
     Some \<lparr>acl_Source = s, acl_Target = t, acl_Protocol = p, acl_Port = n\<rparr> }"

definition dec_device :: "json \<Rightarrow> deployed_device option" where
  "dec_device j = do {
     kvs \<leftarrow> obj_val (Some j);
     i \<leftarrow> str_field kvs ''id''; a \<leftarrow> str_field kvs ''address''; k \<leftarrow> str_field kvs ''public_key'';
     e \<leftarrow> str_field kvs ''egress'';
     Some \<lparr>dd_ID = i, dd_Address = a, dd_PublicKey = k, dd_Egress = e\<rparr> }"

definition dec_state :: "json \<Rightarrow> desired_state option" where
  "dec_state j = do {
     kvs \<leftarrow> obj_val (Some j);
     r \<leftarrow> str_field kvs ''revision''; g \<leftarrow> time_val (map_of kvs ''generated_at'');
     h \<leftarrow> obj_val (map_of kvs ''hub''); hub \<leftarrow> dec_hub h;
     ds \<leftarrow> list_val dec_device (map_of kvs ''devices''); ts \<leftarrow> list_val dec_tunnel (map_of kvs ''tunnels'');
     acls \<leftarrow> list_val dec_acl (map_of kvs ''client_acls'');
     Some \<lparr>ds_Revision = r, ds_GeneratedAt = g, ds_Hub = hub, ds_Devices = ds, ds_Tunnels = ts, ds_ClientACLs = acls\<rparr> }"

subsection \<open>Round trips\<close>

named_theorems json_simps \<open>encoding and field access\<close>

lemma map_of_fields [json_simps]:
  "map_of (field k v @ r) x = (if x = k then Some v else map_of r x)"
  "map_of (omit_str k s @ r) x = (if x = k then if s = [] then map_of r x else Some (JStr s) else map_of r x)"
  "map_of (omit_bool k b @ r) x = (if x = k then if b then Some (JBool True) else map_of r x else map_of r x)"
  "map_of (omit_strs k xs @ r) x = (if x = k then if xs = [] then map_of r x else Some (JStrs xs) else map_of r x)"
  "map_of (omit_list k f ys @ r) x = (if x = k then if ys = [] then map_of r x else Some (JArr (map f ys)) else map_of r x)"
  "map_of (omit_map k m @ r) x = (if x = k then if m = [] then map_of r x else Some (JMap m) else map_of r x)"
  "map_of (omit_ptr k p @ r) x = (if x = k then case p of None \<Rightarrow> map_of r x | Some b \<Rightarrow> Some (JBool b) else map_of r x)"
  by (simp_all add: field_def omit_str_def omit_bool_def omit_strs_def omit_list_def omit_map_def omit_ptr_def
      split: option.splits)

lemma map_of_last_field [json_simps]:
  "map_of (field k v) x = (if x = k then Some v else None)"
  "map_of (omit_str k s) x = (if x = k then if s = [] then None else Some (JStr s) else None)"
  "map_of (omit_list k f ys) x = (if x = k then if ys = [] then None else Some (JArr (map f ys)) else None)"
  by (simp_all add: field_def omit_str_def omit_list_def)

lemma collect_map: "(\<And>x. x \<in> set xs \<Longrightarrow> f (g x) = Some (h x)) \<Longrightarrow> collect f (map g xs) = Some (map h xs)"
  by (induction xs) auto

lemma dec_str_JStr [json_simps]: "dec_str (JStr s) = Some s"
  by (simp add: dec_str_def str_val_def)

lemma str_val_simps [json_simps]:
  "str_val (Some (JStr s)) = Some s" "str_val (if s = [] then None else Some (JStr s)) = Some s"
  by (simp_all add: str_val_def)

lemma bool_val_simps [json_simps]: "bool_val (if b then Some (JBool True) else None) = Some b"
  by (simp add: bool_val_def)

lemma ptr_val_simps [json_simps]: "ptr_val (case p of None \<Rightarrow> None | Some b \<Rightarrow> Some (JBool b)) = Some p"
  by (simp add: ptr_val_def split: option.splits)

lemma time_val_simps [json_simps]: "time_val (Some (JTime t)) = Some t"
  by (simp add: time_val_def)

lemma port_val_simps [json_simps]: "port_val (Some (JNum (uint p))) = Some p"
  using uint_bounded[of p] by (simp add: port_val_def)

lemma obj_val_simps [json_simps]: "obj_val (Some (JObj es)) = Some es"
  by (simp add: obj_val_def)

lemma list_val_strs [json_simps]: "list_val dec_str (if xs = [] then None else Some (JStrs xs)) = Some xs"
  using collect_map[of xs dec_str JStr "\<lambda>x. x"] by (simp add: list_val_def JStrs_def json_simps)

lemma map_val_JMap [json_simps]: "map_val (if m = [] then None else Some (JMap m)) = Some (sort_key fst m)"
  using collect_map[of "sort_key fst m" "\<lambda>(n, x). map_option (Pair n) (dec_str x)" "\<lambda>(k, v). (k, JStr v)" "\<lambda>x. x"]
  by (auto simp: map_val_def obj_val_def JMap_def json_simps)

lemma absent_simps [json_simps]:
  "str_val None = Some []" "bool_val None = Some False" "bool_val (Some (JBool b)) = Some b"
  "ptr_val None = Some None" "ptr_val (Some (JBool b)) = Some (Some b)" "list_val f None = Some []"
  "map_val None = Some []" "obj_val None = Some []"
  by (simp_all add: str_val_def bool_val_def ptr_val_def list_val_def map_val_def obj_val_def)

lemma present_simps [json_simps]:
  "list_val dec_str (Some (JStrs xs)) = Some xs" "map_val (Some (JMap m)) = Some (sort_key fst m)"
  using collect_map[of xs dec_str JStr "\<lambda>x. x"] map_val_JMap[of m]
  by (auto simp: list_val_def JStrs_def json_simps JMap_def map_val_def obj_val_def split: if_splits)

lemma list_val_map:
  assumes "\<And>x. f (g x) = Some (h x)"
  shows "list_val f (Some (JArr (map g xs))) = Some (map h xs)"
    and "list_val f (if xs = [] then None else Some (JArr (map g xs))) = Some (map h xs)"
  using collect_map[of xs f g h] assms by (simp_all add: list_val_def)

text \<open>What a state is after a trip through its file: sources redacted, map keys sorted.\<close>

definition stored_hub :: "hub \<Rightarrow> hub" where
  "stored_hub h = h\<lparr>hub_AWGInterface := sort_key fst (hub_AWGInterface h)\<rparr>"

definition stored :: "desired_state \<Rightarrow> desired_state" where
  "stored s = s\<lparr>ds_Hub := stored_hub (ds_Hub s), ds_Tunnels := map redact_tunnel (ds_Tunnels s)\<rparr>"

lemma dec_hub_json: "obj_val (Some (hub_json h)) = Some kvs \<Longrightarrow> dec_hub kvs = Some (stored_hub h)"
  unfolding hub_json_def
  by (simp add: obj_val_simps) (auto simp: dec_hub_def stored_hub_def str_field_def json_simps simp del: map_of_append)

lemma dec_acl_json: "dec_acl (acl_json r) = Some r"
  by (simp add: acl_json_def dec_acl_def str_field_def json_simps del: map_of_append)

lemma dec_device_json: "dec_device (deployed_json d) = Some d"
  by (simp add: deployed_json_def dec_device_def str_field_def json_simps del: map_of_append)

lemma dec_tunnel_json: "dec_tunnel (tunnel_json t) = Some (redact_tunnel t)"
  by (cases "t_Enabled t")
    (auto simp: tunnel_json_def source_json_def health_json_def dec_tunnel_def redact_tunnel_def
      str_field_def strs_field_def json_simps simp del: map_of_append)

lemma hub_json_obj: "\<exists>kvs. hub_json h = JObj kvs"
  by (simp add: hub_json_def)

lemma dec_state_json: "dec_state (state_json s) = Some (stored s)"
proof -
  obtain kvs where kvs: "hub_json (ds_Hub s) = JObj kvs" using hub_json_obj by blast
  then have "dec_hub kvs = Some (stored_hub (ds_Hub s))"
    by (intro dec_hub_json) (simp add: json_simps)
  moreover have "list_val dec_acl (if acls = [] then None else Some (JArr (map acl_json acls))) = Some acls" for acls
    using list_val_map(2)[of dec_acl acl_json "\<lambda>x. x"] by (simp add: dec_acl_json)
  moreover have "list_val dec_device (Some (JArr (map deployed_json ds))) = Some ds" for ds
    using list_val_map(1)[of dec_device deployed_json "\<lambda>x. x"] by (simp add: dec_device_json)
  moreover have "list_val dec_tunnel (Some (JArr (map tunnel_json ts))) = Some (map redact_tunnel ts)" for ts
    using list_val_map(1)[of dec_tunnel tunnel_json redact_tunnel] by (simp add: dec_tunnel_json)
  ultimately show ?thesis
    by (simp add: state_json_def dec_state_def str_field_def json_simps kvs stored_def del: map_of_append)
qed

lemma redact_tunnel_idem [simp]: "redact_tunnel (redact_tunnel t) = redact_tunnel t"
  by (simp add: redact_tunnel_def)

lemma stored_idem [simp]: "stored (stored s) = stored s"
  by (simp add: stored_def stored_hub_def comp_def sort_key_id_if_sorted)

end
