(* ===== verification/Deploy.thy ===== *)
theory Deploy
  imports Stores
begin

text \<open>
  The state directory as a state machine: \<open>FileRevisionStore\<close>, \<open>RevocationStore\<close> and
  \<open>ConfirmationStore\<close> (\<open>internal/adapters/runtime\<close>), the deploy pipeline of \<open>deploy.go\<close>, and the
  agent's step that puts an unconfirmed revision back (\<open>delivery/cli/agent.go\<close>).
\<close>

subsection \<open>Files\<close>

text \<open>A file is absent, cannot be read, holds text that is not JSON, or holds a document.\<close>

datatype file_content = Absent | Unreadable | Garbage | Content json

record state_dir =
  f_desired :: file_content
  f_previous :: file_content
  f_pending :: file_content
  f_revoked :: file_content

text \<open>
  The three outcomes of replacing a file: done; failed before the rename; renamed, with an
  error from the flush of the directory that follows.
\<close>

datatype io = Done | Failed | Unsynced

datatype store_error =
    NoStateDir | ReadFailed | DecodeFailed | WriteFailed | NotExist | NoPrevious
  | SnapshotLoad store_error

fun write_content :: "io \<Rightarrow> json \<Rightarrow> file_content \<Rightarrow> file_content" where
  "write_content Failed j f = f"
| "write_content Done j f = Content j"
| "write_content Unsynced j f = Content j"

fun write_error :: "io \<Rightarrow> store_error option" where
  "write_error Done = None"
| "write_error Failed = Some WriteFailed"
| "write_error Unsynced = Some WriteFailed"

text \<open>\<open>readStateJSON\<close>: \<open>None\<close> stands for a file that is not there.\<close>

definition readStateJSON :: "(json \<Rightarrow> 'a option) \<Rightarrow> file_content \<Rightarrow> (store_error, 'a option) result" where
  "readStateJSON dec f =
     (case f of
        Absent \<Rightarrow> Inr None
      | Unreadable \<Rightarrow> Inl ReadFailed
      | Garbage \<Rightarrow> Inl DecodeFailed
      | Content j \<Rightarrow> (case dec j of None \<Rightarrow> Inl DecodeFailed | Some x \<Rightarrow> Inr (Some x)))"

subsection \<open>The revision (revision_store.go)\<close>

definition RevisionSave :: "string \<Rightarrow> io \<Rightarrow> desired_state \<Rightarrow> state_dir \<Rightarrow> store_error option \<times> state_dir" where
  "RevisionSave dir io state fs =
     (if dir = [] then (Some NoStateDir, fs)
      else (write_error io, fs\<lparr>f_desired := write_content io (state_json state) (f_desired fs)\<rparr>))"

definition RevisionLoad :: "state_dir \<Rightarrow> (store_error, desired_state) result" where
  "RevisionLoad fs =
     bindE (readStateJSON dec_state (f_desired fs))
       (\<lambda>found. case found of None \<Rightarrow> Inl NotExist | Some s \<Rightarrow> Inr s)"

subsection \<open>Revocations (revocation_store.go)\<close>

definition dec_ids :: "json \<Rightarrow> string list option" where
  "dec_ids j = list_val dec_str (Some j)"

definition RevocationsLoad :: "string \<Rightarrow> state_dir \<Rightarrow> (store_error, string list) result" where
  "RevocationsLoad dir fs =
     (if dir = [] then Inl NoStateDir
      else bindE (readStateJSON dec_ids (f_revoked fs))
             (\<lambda>found. case found of None \<Rightarrow> Inr [] | Some ids \<Rightarrow> Inr ids))"

definition RevocationsAdd :: "string \<Rightarrow> io \<Rightarrow> string \<Rightarrow> state_dir \<Rightarrow> store_error option \<times> state_dir" where
  "RevocationsAdd dir io deviceID fs =
     (case RevocationsLoad dir fs of
        Inl e \<Rightarrow> (Some e, fs)
      | Inr existing \<Rightarrow>
          if deviceID \<in> set existing then (None, fs)
          else (write_error io,
                fs\<lparr>f_revoked := write_content io (JStrs (sort (existing @ [deviceID]))) (f_revoked fs)\<rparr>))"

definition RevocationsRemove :: "string \<Rightarrow> io \<Rightarrow> string \<Rightarrow> state_dir \<Rightarrow> store_error option \<times> state_dir" where
  "RevocationsRemove dir io deviceID fs =
     (case RevocationsLoad dir fs of
        Inl e \<Rightarrow> (Some e, fs)
      | Inr existing \<Rightarrow>
          (let kept = filter (\<lambda>i. i \<noteq> deviceID) existing in
           if length kept = length existing then (None, fs)
           else (write_error io, fs\<lparr>f_revoked := write_content io (JStrs kept) (f_revoked fs)\<rparr>)))"

subsection \<open>Confirmations (confirmation.go)\<close>

record pending =
  pn_Revision :: string
  pn_Deadline :: int

definition pending_json :: "pending \<Rightarrow> json" where
  "pending_json p = JObj (field ''revision'' (JStr (pn_Revision p)) @ field ''deadline'' (JTime (pn_Deadline p)))"

definition dec_pending :: "json \<Rightarrow> pending option" where
  "dec_pending j = do {
     kvs \<leftarrow> obj_val (Some j);
     r \<leftarrow> str_field kvs ''revision''; d \<leftarrow> time_val (map_of kvs ''deadline'');
     Some \<lparr>pn_Revision = r, pn_Deadline = d\<rparr> }"

text \<open>\<open>Arm\<close> returns whether a rollback is armed, the error, and the files.\<close>

definition Arm ::
    "io \<Rightarrow> io \<Rightarrow> int \<Rightarrow> int \<Rightarrow> string \<Rightarrow> state_dir \<Rightarrow> (bool \<times> store_error option) \<times> state_dir" where
  "Arm io1 io2 now within revision fs =
     (case RevisionLoad fs of
        Inl NotExist \<Rightarrow> ((False, None), fs)
      | Inl e \<Rightarrow> ((False, Some (SnapshotLoad e)), fs)
      | Inr current \<Rightarrow>
          (let fs1 = fs\<lparr>f_previous := write_content io1 (state_json current) (f_previous fs)\<rparr> in
           case write_error io1 of
             Some e \<Rightarrow> ((False, Some e), fs1)
           | None \<Rightarrow>
               ((True, write_error io2),
                fs1\<lparr>f_pending := write_content io2
                  (pending_json \<lparr>pn_Revision = revision, pn_Deadline = now + within\<rparr>) (f_pending fs1)\<rparr>)))"

definition PendingLoad :: "state_dir \<Rightarrow> (store_error, pending option) result" where
  "PendingLoad fs = readStateJSON dec_pending (f_pending fs)"

text \<open>\<open>os.Remove\<close>: removing a file that is not there is not an error.\<close>

definition Confirm :: "io \<Rightarrow> state_dir \<Rightarrow> store_error option \<times> state_dir" where
  "Confirm io fs =
     (if f_pending fs = Absent then (None, fs)
      else if io = Failed then (Some WriteFailed, fs)
      else (None, fs\<lparr>f_pending := Absent\<rparr>))"

definition Expired :: "int \<Rightarrow> state_dir \<Rightarrow> (store_error, bool \<times> pending option) result" where
  "Expired now fs =
     bindE (PendingLoad fs) (\<lambda>p. case p of
        None \<Rightarrow> Inr (False, None)
      | Some pn \<Rightarrow> Inr (pn_Deadline pn < now, Some pn))"

definition Rollback :: "string \<Rightarrow> io \<Rightarrow> io \<Rightarrow> state_dir \<Rightarrow> (store_error, desired_state) result \<times> state_dir" where
  "Rollback dir io1 io2 fs =
     (case readStateJSON dec_state (f_previous fs) of
        Inl e \<Rightarrow> (Inl e, fs)
      | Inr None \<Rightarrow> (Inl NoPrevious, fs)
      | Inr (Some state) \<Rightarrow>
          (case RevisionSave dir io1 state fs of
             (Some e, fs1) \<Rightarrow> (Inl e, fs1)
           | (None, fs1) \<Rightarrow>
               (case Confirm io2 fs1 of
                  (Some e, fs2) \<Rightarrow> (Inl e, fs2)
                | (None, fs2) \<Rightarrow> (Inr state, fs2))))"

subsection \<open>The deploy pipeline (deploy.go)\<close>

text \<open>
  \<open>Compile\<close> over what the configuration repository returned: validate, drop the revoked
  devices, build the state.
\<close>

datatype compile_error = RepositoryError string | Invalid validate_error | RevocationError store_error

definition LoadAndValidate :: "(string, config) result \<Rightarrow> (compile_error, config) result" where
  "LoadAndValidate loaded =
     bindE (mapErr RepositoryError loaded) (\<lambda>cfg.
       bindE (mapErr Invalid (Validate cfg)) (\<lambda>_. Inr cfg))"

definition DeployCompile ::
    "string \<Rightarrow> int \<Rightarrow> (string, config) result \<Rightarrow> state_dir \<Rightarrow> (compile_error, desired_state \<times> string list) result" where
  "DeployCompile dir now loaded fs =
     bindE (LoadAndValidate loaded) (\<lambda>cfg.
       bindE (mapErr RevocationError (RevocationsLoad dir fs)) (\<lambda>revoked.
         Inr (BuildDesiredState now (RemoveRevoked cfg revoked), revoked)))"

datatype deploy_error =
  ArmStage store_error | SaveStage store_error | SaveStageArmed store_error store_error

record deploy_result =
  dr_Revision :: string
  dr_Armed :: bool

record deploy_io =
  io_snapshot :: io
  io_pending :: io
  io_save :: io
  io_clear :: io

definition DeployApply ::
    "string \<Rightarrow> deploy_io \<Rightarrow> int \<Rightarrow> desired_state \<Rightarrow> int \<Rightarrow> state_dir \<Rightarrow> (deploy_error, deploy_result) result \<times> state_dir" where
  "DeployApply dir ios now state confirmWithin fs =
     (let ((armed, armErr), fs1) =
        (if 0 < confirmWithin
         then Arm (io_snapshot ios) (io_pending ios) now confirmWithin (ds_Revision state) fs
         else ((False, None), fs)) in
      case armErr of
        Some e \<Rightarrow> (Inl (ArmStage e), fs1)
      | None \<Rightarrow>
          (case RevisionSave dir (io_save ios) state fs1 of
             (None, fs2) \<Rightarrow> (Inr \<lparr>dr_Revision = ds_Revision state, dr_Armed = armed\<rparr>, fs2)
           | (Some e, fs2) \<Rightarrow>
               if armed then
                 (case Confirm (io_clear ios) fs2 of
                    (None, fs3) \<Rightarrow> (Inl (SaveStage e), fs3)
                  | (Some ce, fs3) \<Rightarrow> (Inl (SaveStageArmed e ce), fs3))
               else (Inl (SaveStage e), fs2)))"

subsection \<open>The agent (agent.go)\<close>

text \<open>\<open>rollbackIfUnconfirmed\<close>, the first thing a pass of the agent does.\<close>

definition rollbackIfUnconfirmed :: "string \<Rightarrow> io \<Rightarrow> io \<Rightarrow> int \<Rightarrow> state_dir \<Rightarrow> (store_error, bool) result \<times> state_dir" where
  "rollbackIfUnconfirmed dir io1 io2 now fs =
     (case Expired now fs of
        Inl e \<Rightarrow> (Inl e, fs)
      | Inr (False, _) \<Rightarrow> (Inr False, fs)
      | Inr (True, _) \<Rightarrow>
          (case Rollback dir io1 io2 fs of
             (Inl e, fs') \<Rightarrow> (Inl e, fs')
           | (Inr _, fs') \<Rightarrow> (Inr True, fs')))"

subsection \<open>A store of JSON documents\<close>

text \<open>
  What every store of the state directory relies on: the decoder inverts the encoder up to a
  normalisation.  The lemmas are what a store promises its clients.
\<close>

locale json_store =
  fixes enc :: "'a \<Rightarrow> json" and dec :: "json \<Rightarrow> 'a option" and norm :: "'a \<Rightarrow> 'a"
  assumes dec_enc: "dec (enc x) = Some (norm x)"
begin

definition holds :: "file_content \<Rightarrow> 'a \<Rightarrow> bool" where
  "holds f x \<longleftrightarrow> f = Content (enc x)"

lemma read_held: "holds f x \<Longrightarrow> readStateJSON dec f = Inr (Some (norm x))"
  by (simp add: holds_def readStateJSON_def dec_enc)

lemma written_holds: "io \<noteq> Failed \<Longrightarrow> holds (write_content io (enc x) f) x"
  by (cases io) (simp_all add: holds_def)

lemma read_written: "io \<noteq> Failed \<Longrightarrow> readStateJSON dec (write_content io (enc x) f) = Inr (Some (norm x))"
  by (rule read_held[OF written_holds])

lemma write_no_error: "write_error io = None \<Longrightarrow> readStateJSON dec (write_content io (enc x) f) = Inr (Some (norm x))"
  by (rule read_written) (cases io, simp_all)

lemma write_cases: "write_content io (enc x) f = f \<or> holds (write_content io (enc x) f) x"
  by (cases io) (simp_all add: holds_def)

lemma well_formed_write:
  "f = Absent \<or> (\<exists>x. holds f x) \<Longrightarrow> write_content io (enc y) f = Absent \<or> (\<exists>x. holds (write_content io (enc y) f) x)"
  using write_cases[of io y f] by auto

end

interpretation revision: json_store state_json dec_state stored
  by unfold_locales (rule dec_state_json)

lemma dec_pending_json: "dec_pending (pending_json p) = Some p"
  by (simp add: pending_json_def dec_pending_def str_field_def json_simps del: map_of_append)

interpretation confirmation: json_store pending_json dec_pending "\<lambda>p. p"
  by unfold_locales (rule dec_pending_json)

lemma dec_ids_JStrs: "dec_ids (JStrs ids) = Some ids"
  by (simp add: dec_ids_def json_simps)

interpretation revocations: json_store JStrs dec_ids "\<lambda>ids. ids"
  by unfold_locales (rule dec_ids_JStrs)

subsection \<open>Reachable state directories\<close>

text \<open>
  Everything that may happen to the directory: deploys, confirmations, agent passes and
  revocations, in any order and with any outcome of every write.  A crash in the middle of a
  deploy is the case where the remaining writes fail.
\<close>

inductive reachable :: "string \<Rightarrow> state_dir \<Rightarrow> bool" for dir where
  empty: "reachable dir \<lparr>f_desired = Absent, f_previous = Absent, f_pending = Absent, f_revoked = Absent\<rparr>"
| deploy: "reachable dir fs \<Longrightarrow> DeployApply dir ios now state within fs = (r, fs') \<Longrightarrow> reachable dir fs'"
| confirm: "reachable dir fs \<Longrightarrow> Confirm io fs = (e, fs') \<Longrightarrow> reachable dir fs'"
| agent: "reachable dir fs \<Longrightarrow> rollbackIfUnconfirmed dir io1 io2 now fs = (e, fs') \<Longrightarrow> reachable dir fs'"
| revoke: "reachable dir fs \<Longrightarrow> RevocationsAdd dir io i fs = (e, fs') \<Longrightarrow> reachable dir fs'"
| lift: "reachable dir fs \<Longrightarrow> RevocationsRemove dir io i fs = (e, fs') \<Longrightarrow> reachable dir fs'"

text \<open>
  The files hold what their stores write; an armed deploy has a snapshot to return to; the
  revocation list is sorted and without duplicates.
\<close>

definition ok_revision :: "file_content \<Rightarrow> bool" where
  "ok_revision f \<longleftrightarrow> f = Absent \<or> (\<exists>s. revision.holds f s)"

definition ok_pending :: "file_content \<Rightarrow> bool" where
  "ok_pending f \<longleftrightarrow> f = Absent \<or> (\<exists>p. confirmation.holds f p)"

definition ok_revoked :: "file_content \<Rightarrow> bool" where
  "ok_revoked f \<longleftrightarrow> f = Absent \<or> (\<exists>ids. revocations.holds f ids \<and> sorted ids \<and> distinct ids)"

definition dir_ok :: "state_dir \<Rightarrow> bool" where
  "dir_ok fs \<longleftrightarrow>
     ok_revision (f_desired fs) \<and> ok_revision (f_previous fs) \<and> ok_pending (f_pending fs) \<and>
     ok_revoked (f_revoked fs) \<and> (f_pending fs \<noteq> Absent \<longrightarrow> f_previous fs \<noteq> Absent)"

lemma ok_writes:
  "ok_revision f \<Longrightarrow> ok_revision (write_content io (state_json s) f)"
  "ok_pending f \<Longrightarrow> ok_pending (write_content io (pending_json p) f)"
  "ok_revoked f \<Longrightarrow> sorted ids \<Longrightarrow> distinct ids \<Longrightarrow> ok_revoked (write_content io (JStrs ids) f)"
  using revision.write_cases[of io s f] confirmation.write_cases[of io p f] revocations.write_cases[of io ids f]
  by (auto simp: ok_revision_def ok_pending_def ok_revoked_def)

lemma ok_Absent [simp]: "ok_revision Absent" "ok_pending Absent" "ok_revoked Absent"
  by (simp_all add: ok_revision_def ok_pending_def ok_revoked_def)

lemma write_present:
  "f \<noteq> Absent \<Longrightarrow> write_content io j f \<noteq> Absent" "write_error io = None \<Longrightarrow> write_content io j f \<noteq> Absent"
  by (cases io; simp)+

lemma dir_ok_save: "dir_ok fs \<Longrightarrow> RevisionSave dir io s fs = (e, fs') \<Longrightarrow> dir_ok fs'"
  by (auto simp: RevisionSave_def dir_ok_def ok_writes split: if_splits)

lemma dir_ok_confirm: "dir_ok fs \<Longrightarrow> Confirm io fs = (e, fs') \<Longrightarrow> dir_ok fs'"
  by (auto simp: Confirm_def dir_ok_def split: if_splits)

lemma dir_ok_arm:
  assumes "dir_ok fs" "Arm io1 io2 now within rv fs = (r, fs')"
  shows "dir_ok fs'"
proof (cases "RevisionLoad fs")
  case (Inl e)
  with assms show ?thesis by (cases e) (auto simp: Arm_def)
next
  case (Inr cur)
  with assms show ?thesis
    by (cases "write_error io1") (auto simp: Arm_def Let_def dir_ok_def ok_writes write_present)
qed

lemma dir_ok_rollback:
  assumes "dir_ok fs" "Rollback dir io1 io2 fs = (r, fs')"
  shows "dir_ok fs'"
proof (cases "readStateJSON dec_state (f_previous fs)")
  case (Inr found)
  show ?thesis
  proof (cases found)
    case (Some s)
    obtain e1 fs1 where save: "RevisionSave dir io1 s fs = (e1, fs1)" by (metis prod.exhaust)
    obtain e2 fs2 where clear: "Confirm io2 fs1 = (e2, fs2)" by (metis prod.exhaust)
    have "dir_ok fs1" by (rule dir_ok_save[OF assms(1) save])
    moreover have "dir_ok fs2" by (rule dir_ok_confirm[OF calculation clear])
    moreover have "fs' = fs1 \<or> fs' = fs2"
      using assms(2) Inr Some save clear by (cases e1; cases e2) (simp_all add: Rollback_def)
    ultimately show ?thesis by blast
  qed (use assms Inr in \<open>simp add: Rollback_def\<close>)
qed (use assms in \<open>simp add: Rollback_def\<close>)

lemma dir_ok_deploy:
  assumes "dir_ok fs" "DeployApply dir ios now s w fs = (r, fs')"
  shows "dir_ok fs'"
proof -
  obtain a e fs1 where arm: "(if 0 < w then Arm (io_snapshot ios) (io_pending ios) now w (ds_Revision s) fs
      else ((False, None), fs)) = ((a, e), fs1)" by (metis prod.exhaust)
  have ok1: "dir_ok fs1"
  proof (cases "0 < w")
    case True
    with arm have "Arm (io_snapshot ios) (io_pending ios) now w (ds_Revision s) fs = ((a, e), fs1)" by simp
    with assms(1) show ?thesis by (rule dir_ok_arm)
  qed (use arm assms(1) in simp)
  obtain e2 fs2 where save: "RevisionSave dir (io_save ios) s fs1 = (e2, fs2)" by (metis prod.exhaust)
  obtain e3 fs3 where clear: "Confirm (io_clear ios) fs2 = (e3, fs3)" by (metis prod.exhaust)
  have ok2: "dir_ok fs2" by (rule dir_ok_save[OF ok1 save])
  have ok3: "dir_ok fs3" by (rule dir_ok_confirm[OF ok2 clear])
  have "fs' = fs1 \<or> fs' = fs2 \<or> fs' = fs3"
    using assms(2) arm save clear
    by (cases e; cases e2; cases e3) (auto simp: DeployApply_def split: if_splits)
  then show ?thesis using ok1 ok2 ok3 by blast
qed

lemma dir_ok_agent:
  assumes "dir_ok fs" "rollbackIfUnconfirmed dir io1 io2 now fs = (r, fs')"
  shows "dir_ok fs'"
proof -
  obtain q fs1 where rb: "Rollback dir io1 io2 fs = (q, fs1)" by (metis prod.exhaust)
  have "dir_ok fs1" by (rule dir_ok_rollback[OF assms(1) rb])
  moreover have "fs' = fs \<or> fs' = fs1"
    using assms(2) rb by (auto simp: rollbackIfUnconfirmed_def split: sum.splits prod.splits bool.splits)
  ultimately show ?thesis using assms(1) by blast
qed

lemma RevocationsLoad_ok:
  assumes "ok_revoked (f_revoked fs)" "RevocationsLoad dir fs = Inr ids"
  shows "sorted ids \<and> distinct ids"
proof (cases "f_revoked fs = Absent")
  case True
  with assms(2) show ?thesis by (simp add: RevocationsLoad_def readStateJSON_def split: if_splits)
next
  case False
  then obtain xs where "revocations.holds (f_revoked fs) xs" "sorted xs" "distinct xs"
    using assms(1) by (auto simp: ok_revoked_def)
  with assms(2) show ?thesis
    by (simp add: RevocationsLoad_def revocations.read_held split: if_splits)
qed

lemma dir_ok_revoke:
  assumes "dir_ok fs" "RevocationsAdd dir io i fs = (e, fs')"
  shows "dir_ok fs'"
proof (cases "RevocationsLoad dir fs")
  case (Inr ids)
  then have "sorted ids \<and> distinct ids" using assms(1) by (intro RevocationsLoad_ok) (simp_all add: dir_ok_def)
  with assms Inr show ?thesis by (auto simp: RevocationsAdd_def dir_ok_def ok_writes split: if_splits)
qed (use assms in \<open>simp add: RevocationsAdd_def\<close>)

lemma dir_ok_lift:
  assumes "dir_ok fs" "RevocationsRemove dir io i fs = (e, fs')"
  shows "dir_ok fs'"
proof (cases "RevocationsLoad dir fs")
  case (Inr ids)
  then have "sorted ids \<and> distinct ids" using assms(1) by (intro RevocationsLoad_ok) (simp_all add: dir_ok_def)
  then have "sorted (filter (\<lambda>j. j \<noteq> i) ids) \<and> distinct (filter (\<lambda>j. j \<noteq> i) ids)"
    by (simp add: sorted_wrt_filter)
  with assms Inr show ?thesis
    by (auto simp: RevocationsRemove_def Let_def dir_ok_def ok_writes split: if_splits)
qed (use assms in \<open>simp add: RevocationsRemove_def\<close>)

lemma reachable_dir_ok: "reachable dir fs \<Longrightarrow> dir_ok fs"
proof (induction rule: reachable.induct)
  case empty
  show ?case by (simp add: dir_ok_def)
qed (rule dir_ok_deploy dir_ok_confirm dir_ok_agent dir_ok_revoke dir_ok_lift; assumption)+

subsection \<open>What a deploy and its rollback do\<close>

text \<open>An armed directory: the snapshot, the deadline and the revision being tried.\<close>

definition armed_with :: "state_dir \<Rightarrow> desired_state \<Rightarrow> pending \<Rightarrow> bool" where
  "armed_with fs old p \<longleftrightarrow> revision.holds (f_previous fs) old \<and> confirmation.holds (f_pending fs) p"

lemma RevisionLoad_held: "revision.holds (f_desired fs) s \<Longrightarrow> RevisionLoad fs = Inr (stored s)"
  by (simp add: RevisionLoad_def revision.read_held)

lemma Expired_armed: "confirmation.holds (f_pending fs) p \<Longrightarrow> Expired now fs = Inr (pn_Deadline p < now, Some p)"
  by (simp add: Expired_def PendingLoad_def confirmation.read_held)

lemma rollback_armed:
  assumes "armed_with fs old p" "dir \<noteq> []" "pn_Deadline p < now"
  shows "rollbackIfUnconfirmed dir Done Done now fs =
    (Inr True, fs\<lparr>f_desired := Content (state_json (stored old)), f_pending := Absent\<rparr>)"
proof -
  have pend: "f_pending fs \<noteq> Absent" using assms(1) by (auto simp: armed_with_def confirmation.holds_def)
  have "readStateJSON dec_state (f_previous fs) = Inr (Some (stored old))"
    using assms(1) by (intro revision.read_held) (simp add: armed_with_def)
  then have "Rollback dir Done Done fs =
      (Inr (stored old), fs\<lparr>f_desired := Content (state_json (stored old)), f_pending := Absent\<rparr>)"
    using assms(2) pend by (simp add: Rollback_def RevisionSave_def Confirm_def)
  moreover have "Expired now fs = Inr (True, Some p)"
    using assms(1,3) Expired_armed[of fs p now] by (simp add: armed_with_def)
  ultimately show ?thesis by (simp add: rollbackIfUnconfirmed_def)
qed

lemma no_rollback_before:
  "armed_with fs old p \<Longrightarrow> now \<le> pn_Deadline p \<Longrightarrow> rollbackIfUnconfirmed dir io1 io2 now fs = (Inr False, fs)"
  using Expired_armed[of fs p now] by (simp add: armed_with_def rollbackIfUnconfirmed_def)

lemma no_rollback_confirmed:
  "f_pending fs = Absent \<Longrightarrow> rollbackIfUnconfirmed dir io1 io2 now fs = (Inr False, fs)"
  by (simp add: rollbackIfUnconfirmed_def Expired_def PendingLoad_def readStateJSON_def)

lemma deploy_armed:
  assumes "RevisionLoad fs = Inr cur" "0 < within" "dir \<noteq> []"
    "io_snapshot ios = Done" "io_pending ios = Done" "io_save ios = Done"
  obtains fs' where
    "DeployApply dir ios now new within fs = (Inr \<lparr>dr_Revision = ds_Revision new, dr_Armed = True\<rparr>, fs')"
    "armed_with fs' cur \<lparr>pn_Revision = ds_Revision new, pn_Deadline = now + within\<rparr>"
    "revision.holds (f_desired fs') new"
  using assms
  by (simp add: DeployApply_def Arm_def RevisionSave_def armed_with_def revision.holds_def confirmation.holds_def)

lemma failed_deploy_keeps_revision:
  assumes "DeployApply dir ios now new within fs = (Inl err, fs')" "io_save ios \<noteq> Unsynced"
  shows "f_desired fs' = f_desired fs"
proof -
  obtain a e fs1 where arm: "(if 0 < within then Arm (io_snapshot ios) (io_pending ios) now within (ds_Revision new) fs
      else ((False, None), fs)) = ((a, e), fs1)" by (metis prod.exhaust)
  have k1: "f_desired fs1 = f_desired fs"
    using arm by (auto simp: Arm_def Let_def split: if_splits sum.splits store_error.splits option.splits)
  obtain e2 fs2 where save: "RevisionSave dir (io_save ios) new fs1 = (e2, fs2)" by (metis prod.exhaust)
  have k2: "e2 \<noteq> None \<Longrightarrow> f_desired fs2 = f_desired fs1"
    using save assms(2) by (cases "io_save ios") (auto simp: RevisionSave_def split: if_splits)
  obtain e3 fs3 where clear: "Confirm (io_clear ios) fs2 = (e3, fs3)" by (metis prod.exhaust)
  have k3: "f_desired fs3 = f_desired fs2" using clear by (auto simp: Confirm_def split: if_splits)
  show ?thesis
    using assms(1) arm save clear k1 k2 k3
    by (cases e; cases e2; cases e3) (auto simp: DeployApply_def split: if_splits)
qed

end
