(* ===== verification/DeployClaims.thy ===== *)
theory DeployClaims
  imports Deploy Sample Diff
begin

text \<open>
  What the drift report, the state directory and the deploy pipeline promise: no difference means
  agreement, files come back as they were written, and an unconfirmed deploy is undone.
\<close>

subsection \<open>Drift\<close>

text \<open>\<open>Diff\<close> reports nothing exactly when the host agrees with the revision: the right ruleset, an interface with
  the right key and port, the wanted peers with the wanted addresses and no others, and the wanted fallback listener.\<close>
theorem no_operations_means_in_sync:
  "Diff spec firewallRevision realityRevision observed = [] \<longleftrightarrow> in_sync spec firewallRevision realityRevision observed"
  by (rule Diff_Nil_iff)

text \<open>A peer is reported for deletion exactly when the interface carries it and the revision no longer names it.\<close>
theorem deletions_are_the_unnamed_peers:
  "(\<exists>o' \<in> set (diffPeers spec observed). op_Kind o' = OpDelete \<and> rr_ID (op_Resource o') = i) \<longleftrightarrow>
     (\<exists>k \<in> po_PublicKey ` set (io_Peers observed) - ps_PublicKey ` set (is_Peers spec). shortKey k = i)"
  by (rule diffPeers_delete_iff)

subsection \<open>State files\<close>

lemma state_json_stored: "state_json (stored s) = state_json s"
  by (simp add: state_json_def stored_def stored_hub_def hub_json_def comp_def tunnel_json_redact JMap_def
      omit_map_def omit_list_def sort_key_id_if_sorted)

text \<open>C36: A revision read back from its file is the one that was written, with credential-bearing sources redacted and
  the interface parameters in the order of the file; writing it again gives the same document.\<close>
theorem revision_files_round_trip:
  "dec_state (state_json s) = Some (stored s) \<and> state_json (stored s) = state_json s"
  by (simp add: dec_state_json state_json_stored)

lemma reachable_current:
  assumes "reachable dir fs" "RevisionLoad fs = Inr cur"
  shows "stored cur = cur"
proof -
  have "ok_revision (f_desired fs)" using reachable_dir_ok[OF assms(1)] by (simp add: dir_ok_def)
  with assms(2) show ?thesis
    by (auto simp: ok_revision_def RevisionLoad_def readStateJSON_def dest!: revision.read_held split: option.splits)
qed

text \<open>C15: In every state directory the program can produce, whatever writes failed on the way, a pending
  confirmation has a readable revision to return to and the revocation list can be read, sorted and without duplicates.\<close>
theorem reachable_directories_can_recover:
  assumes "reachable dir fs" "dir \<noteq> []"
  shows "(f_pending fs = Absent \<or> (\<exists>s. readStateJSON dec_state (f_previous fs) = Inr (Some s))) \<and>
    (\<exists>ids. RevocationsLoad dir fs = Inr ids \<and> sorted ids \<and> distinct ids)"
proof -
  have ok: "dir_ok fs" by (rule reachable_dir_ok[OF assms(1)])
  then have "f_pending fs = Absent \<or> (\<exists>s. revision.holds (f_previous fs) s)"
    by (auto simp: dir_ok_def ok_revision_def)
  then have "f_pending fs = Absent \<or> (\<exists>s. readStateJSON dec_state (f_previous fs) = Inr (Some s))"
    using revision.read_held by blast
  moreover have "\<exists>ids. RevocationsLoad dir fs = Inr ids \<and> sorted ids \<and> distinct ids"
  proof (cases "f_revoked fs = Absent")
    case True
    then show ?thesis using assms(2) by (simp add: RevocationsLoad_def readStateJSON_def)
  next
    case False
    then obtain ids where ids: "revocations.holds (f_revoked fs) ids" "sorted ids" "distinct ids"
      using ok by (auto simp: dir_ok_def ok_revoked_def)
    then show ?thesis using revocations.read_held[OF ids(1)] assms(2) by (simp add: RevocationsLoad_def)
  qed
  ultimately show ?thesis by blast
qed

definition new_directory :: state_dir where
  "new_directory = \<lparr>f_desired = Absent, f_previous = Absent, f_pending = Absent, f_revoked = Absent\<rparr>"

definition all_done :: deploy_io where
  "all_done = \<lparr>io_snapshot = Done, io_pending = Done, io_save = Done, io_clear = Done\<rparr>"

lemma reachable_new: "reachable dir new_directory"
  unfolding new_directory_def by (rule reachable.empty)

theorem reachable_directories_can_recover_witness: "\<exists>ids. RevocationsLoad ''/var'' new_directory = Inr ids \<and> sorted ids"
  using reachable_directories_can_recover[OF reachable_new, of "''/var''"] by auto

subsection \<open>Deploy and confirm\<close>

text \<open>C14: A deploy that armed a rollback and is not confirmed in time is undone by the next pass of the agent after the
  deadline: the revision that was current before the deploy is the current one again, and nothing is pending.\<close>
theorem unconfirmed_deploys_are_undone:
  assumes "reachable dir fs" "RevisionLoad fs = Inr cur" "0 < within" "dir \<noteq> []"
    and "DeployApply dir all_done now new within fs = (r, fs')" "now + within < later"
  shows "\<exists>fs''. rollbackIfUnconfirmed dir Done Done later fs' = (Inr True, fs'') \<and>
    RevisionLoad fs'' = Inr cur \<and> f_pending fs'' = Absent"
proof -
  have ios: "io_snapshot all_done = Done" "io_pending all_done = Done" "io_save all_done = Done" by (simp_all add: all_done_def)
  obtain fs1 where d: "DeployApply dir all_done now new within fs = (Inr \<lparr>dr_Revision = ds_Revision new, dr_Armed = True\<rparr>, fs1)"
    "armed_with fs1 cur \<lparr>pn_Revision = ds_Revision new, pn_Deadline = now + within\<rparr>"
    by (rule deploy_armed[OF assms(2-4) ios])
  have fs': "fs' = fs1" using d(1) assms(5) by simp
  have "pn_Deadline \<lparr>pn_Revision = ds_Revision new, pn_Deadline = now + within\<rparr> < later" using assms(6) by simp
  from rollback_armed[OF d(2) assms(4) this]
  have "rollbackIfUnconfirmed dir Done Done later fs' =
      (Inr True, fs'\<lparr>f_desired := Content (state_json (stored cur)), f_pending := Absent\<rparr>)"
    unfolding fs' .
  moreover have "RevisionLoad (fs'\<lparr>f_desired := Content (state_json (stored cur)), f_pending := Absent\<rparr>) = Inr cur"
    using RevisionLoad_held[of _ "stored cur"] reachable_current[OF assms(1,2)] by (simp add: revision.holds_def)
  ultimately show ?thesis by auto
qed

definition first_revision :: desired_state where
  "first_revision = BuildDesiredState 0 sample_config"

definition deployed_directory :: state_dir where
  "deployed_directory = new_directory\<lparr>f_desired := Content (state_json first_revision)\<rparr>"

lemma deployed_directory_reached: "reachable ''/var'' deployed_directory"
proof (rule reachable.deploy[OF reachable_new])
  show "DeployApply ''/var'' all_done 0 first_revision 0 new_directory =
      (Inr \<lparr>dr_Revision = ds_Revision first_revision, dr_Armed = False\<rparr>, deployed_directory)"
    by (simp add: DeployApply_def RevisionSave_def all_done_def deployed_directory_def)
qed

lemma deployed_directory_current: "RevisionLoad deployed_directory = Inr (stored first_revision)"
  by (rule RevisionLoad_held) (simp add: deployed_directory_def revision.holds_def)

definition second_revision :: desired_state where
  "second_revision = BuildDesiredState 5 (RemoveRevoked sample_config [''phone''])"

theorem unconfirmed_deploys_are_undone_witness:
  "\<exists>r fs' fs''. DeployApply ''/var'' all_done 5 second_revision 10 deployed_directory = (r, fs') \<and>
    rollbackIfUnconfirmed ''/var'' Done Done 16 fs' = (Inr True, fs'') \<and> RevisionLoad fs'' = Inr (stored first_revision)"
proof -
  obtain r fs' where d: "DeployApply ''/var'' all_done 5 second_revision 10 deployed_directory = (r, fs')" by fastforce
  from unconfirmed_deploys_are_undone[OF deployed_directory_reached deployed_directory_current _ _ d, of 16] d
  show ?thesis by auto
qed

text \<open>A confirmed deploy stays: once the confirmation file is gone no later pass of the agent touches the directory,
  and before its deadline an armed deploy is left alone too.\<close>
theorem confirmed_deploys_stay:
  assumes "RevisionLoad fs = Inr cur" "0 < within" "dir \<noteq> []"
    and "DeployApply dir all_done now new within fs = (r, fs')" "Confirm Done fs' = (e, fs'')"
  shows "rollbackIfUnconfirmed dir io1 io2 later fs'' = (Inr False, fs'') \<and> RevisionLoad fs'' = Inr (stored new) \<and>
    (early \<le> now + within \<longrightarrow> rollbackIfUnconfirmed dir io1 io2 early fs' = (Inr False, fs'))"
proof -
  have ios: "io_snapshot all_done = Done" "io_pending all_done = Done" "io_save all_done = Done" by (simp_all add: all_done_def)
  obtain fs1 where d: "DeployApply dir all_done now new within fs = (Inr \<lparr>dr_Revision = ds_Revision new, dr_Armed = True\<rparr>, fs1)"
    "armed_with fs1 cur \<lparr>pn_Revision = ds_Revision new, pn_Deadline = now + within\<rparr>" "revision.holds (f_desired fs1) new"
    by (rule deploy_armed[OF assms(1-3) ios])
  have fs': "fs' = fs1" using d(1) assms(4) by simp
  have "f_pending fs'' = Absent" "f_desired fs'' = f_desired fs'"
    using assms(5) by (auto simp: Confirm_def split: if_splits)
  then show ?thesis
    using no_rollback_confirmed[of fs''] RevisionLoad_held[of fs'' new] d(3) fs' no_rollback_before[OF d(2)] by simp
qed

theorem confirmed_deploys_stay_witness:
  "\<exists>r fs' e fs''. DeployApply ''/var'' all_done 5 second_revision 10 deployed_directory = (r, fs') \<and>
    Confirm Done fs' = (e, fs'') \<and> rollbackIfUnconfirmed ''/var'' Done Done 99 fs'' = (Inr False, fs'')"
proof -
  obtain r fs' where d: "DeployApply ''/var'' all_done 5 second_revision 10 deployed_directory = (r, fs')" by fastforce
  obtain e fs'' where c: "Confirm Done fs' = (e, fs'')" by fastforce
  from confirmed_deploys_stay[OF deployed_directory_current _ _ d c, of Done Done 99 0] d c show ?thesis by auto
qed

text \<open>A deploy that reports an error leaves the current revision as it was, unless the error is a flush of the
  directory after the new file was already in place.\<close>
theorem failed_deploys_change_nothing:
  assumes "DeployApply dir ios now new within fs = (Inl err, fs')" "io_save ios \<noteq> Unsynced"
  shows "f_desired fs' = f_desired fs"
  by (rule failed_deploy_keeps_revision[OF assms])

theorem failed_deploys_change_nothing_witness:
  "\<exists>err fs'. DeployApply ''/var'' (all_done\<lparr>io_save := Failed\<rparr>) 5 second_revision 10 deployed_directory = (Inl err, fs') \<and>
    f_desired fs' = f_desired deployed_directory"
proof -
  obtain err fs' where d: "DeployApply ''/var'' (all_done\<lparr>io_save := Failed\<rparr>) 5 second_revision 10 deployed_directory = (Inl err, fs')"
    by (auto simp: DeployApply_def Arm_def RevisionSave_def Confirm_def all_done_def deployed_directory_current)
  from failed_deploys_change_nothing[OF d] d show ?thesis by auto
qed

text \<open>When only that flush fails, the deploy reports an error and withdraws the armed rollback although the
  new revision is in place: it stays current and no pass of the agent undoes it.\<close>
theorem unflushed_deploys_stay_without_rollback:
  assumes "RevisionLoad fs = Inr cur" "0 < within" "dir \<noteq> []"
    and "DeployApply dir (all_done\<lparr>io_save := Unsynced\<rparr>) now new within fs = (r, fs')"
  shows "r = Inl (SaveStage WriteFailed) \<and> RevisionLoad fs' = Inr (stored new) \<and>
    rollbackIfUnconfirmed dir io1 io2 later fs' = (Inr False, fs')"
proof -
  have "r = Inl (SaveStage WriteFailed)" "f_desired fs' = Content (state_json new)" "f_pending fs' = Absent"
    using assms by (auto simp: DeployApply_def Arm_def RevisionSave_def Confirm_def all_done_def)
  then show ?thesis
    using RevisionLoad_held[of fs' new] no_rollback_confirmed[of fs'] by (simp add: revision.holds_def)
qed

theorem unflushed_deploys_stay_without_rollback_witness:
  "\<exists>r fs'. DeployApply ''/var'' (all_done\<lparr>io_save := Unsynced\<rparr>) 5 second_revision 10 deployed_directory = (r, fs') \<and>
    r = Inl (SaveStage WriteFailed) \<and> RevisionLoad fs' = Inr (stored second_revision)"
proof -
  obtain r fs' where d: "DeployApply ''/var'' (all_done\<lparr>io_save := Unsynced\<rparr>) 5 second_revision 10 deployed_directory = (r, fs')"
    by fastforce
  from unflushed_deploys_stay_without_rollback[OF deployed_directory_current _ _ d, of Done Done 0] d show ?thesis by auto
qed

text \<open>C30: A deploy made without a confirmation window while an earlier one is still pending is undone as well: at the
  earlier deadline the agent restores the revision from before the earlier deploy.\<close>
theorem pending_rollback_also_undoes_a_later_deploy:
  assumes "armed_with fs old p" "dir \<noteq> []" "DeployApply dir all_done now new 0 fs = (r, fs')" "pn_Deadline p < later"
  shows "r = Inr \<lparr>dr_Revision = ds_Revision new, dr_Armed = False\<rparr> \<and>
    (\<exists>fs''. rollbackIfUnconfirmed dir Done Done later fs' = (Inr True, fs'') \<and> RevisionLoad fs'' = Inr (stored old))"
proof -
  have d: "r = Inr \<lparr>dr_Revision = ds_Revision new, dr_Armed = False\<rparr>" "fs' = fs\<lparr>f_desired := Content (state_json new)\<rparr>"
    using assms(2,3) by (auto simp: DeployApply_def RevisionSave_def all_done_def)
  then have "armed_with fs' old p" using assms(1) by (simp add: armed_with_def)
  from rollback_armed[OF this assms(2,4)]
  have "rollbackIfUnconfirmed dir Done Done later fs' =
      (Inr True, fs'\<lparr>f_desired := Content (state_json (stored old)), f_pending := Absent\<rparr>)" .
  moreover have "RevisionLoad (fs'\<lparr>f_desired := Content (state_json (stored old)), f_pending := Absent\<rparr>) = Inr (stored old)"
    using RevisionLoad_held[of _ "stored old"] by (simp add: revision.holds_def)
  ultimately show ?thesis using d(1) by blast
qed

definition armed_directory :: state_dir where
  "armed_directory = deployed_directory\<lparr>f_previous := Content (state_json first_revision),
     f_pending := Content (pending_json \<lparr>pn_Revision = ''r'', pn_Deadline = 10\<rparr>)\<rparr>"

theorem pending_rollback_also_undoes_a_later_deploy_witness:
  "\<exists>r fs' fs''. DeployApply ''/var'' all_done 5 second_revision 0 armed_directory = (r, fs') \<and>
    rollbackIfUnconfirmed ''/var'' Done Done 11 fs' = (Inr True, fs'') \<and> RevisionLoad fs'' = Inr (stored first_revision)"
proof -
  have a: "armed_with armed_directory first_revision \<lparr>pn_Revision = ''r'', pn_Deadline = 10\<rparr>"
    by (simp add: armed_with_def armed_directory_def revision.holds_def confirmation.holds_def)
  obtain r fs' where d: "DeployApply ''/var'' all_done 5 second_revision 0 armed_directory = (r, fs')" by fastforce
  from pending_rollback_also_undoes_a_later_deploy[OF a _ d, of 11] d show ?thesis by auto
qed

end
