(* ===== verification/Nftables.thy ===== *)
theory Nftables
  imports FirewallPlan Json
begin

text \<open>
  \<open>internal/adapters/linux/nftables.go\<close>, the pure half: set names, the plan's fingerprint and
  \<open>RenderRuleset\<close>.  A rule is kept as its matches and statements, so the same definition is
  printed (\<open>rule_text\<close>, byte for byte what the code prints) and reasoned about; what a match means
  for a packet is the kernel's business and a parameter of the theorems.
\<close>

subsection \<open>Names\<close>

definition internalSetName :: "string \<Rightarrow> string" where
  "internalSetName tunnelID = ''internal_'' @ ReplaceByte CHR ''-'' CHR ''_'' tunnelID"

definition allowedSetName :: "string \<Rightarrow> string" where
  "allowedSetName tunnelID = ''allowed_'' @ ReplaceByte CHR ''-'' CHR ''_'' tunnelID"

definition dnsClientSetName :: "string \<Rightarrow> string" where
  "dnsClientSetName egressID = ''dns_clients_'' @ ReplaceByte CHR ''-'' CHR ''_'' egressID"

definition setName :: "egress_group \<Rightarrow> string" where
  "setName g =
     (if eg_ID g = EgressDirect then ''client_direct''
      else ''client_'' @ ReplaceByte CHR ''-'' CHR ''_'' (eg_ID g))"

definition admittedSetName :: string where
  "admittedSetName = ''dns_clients_admitted''"

subsection \<open>What the renderer looks up in a plan\<close>

definition dnsDestinationFor :: "egress_group \<Rightarrow> dns_destination list \<Rightarrow> dns_destination option" where
  "dnsDestinationFor g destinations = find (\<lambda>d. eg_Addresses g = dn_ClientAddresses d) destinations"

definition admittedDNSClients :: "firewall_plan \<Rightarrow> string list" where
  "admittedDNSClients plan = sort (remdups (concat (map eg_Addresses (fp_Egresses plan))))"

text \<open>The entries of the loop's \<open>add\<close>: first come, first kept; no empty and no direct tunnel.\<close>

fun add_allowed :: "string list \<Rightarrow> (string \<times> string list) list \<Rightarrow> (string \<times> string list) list" where
  "add_allowed seen [] = []"
| "add_allowed seen ((i, clients) # rest) =
     (if i = [] \<or> i = EgressDirect \<or> i \<in> set seen then add_allowed seen rest
      else (i, clients) # add_allowed (i # seen) rest)"

definition allowedSets :: "firewall_plan \<Rightarrow> (string \<times> string list) list" where
  "allowedSets plan = add_allowed []
     (map (\<lambda>g. (eg_ID g, eg_Clients g)) (fp_Egresses plan) @
      map (\<lambda>n. (in_TunnelID n, in_Clients n)) (fp_Internals plan) @
      map (\<lambda>e. (se_TunnelID e, se_Clients e)) (fp_Socks plan))"

definition anyProxied :: "firewall_plan \<Rightarrow> bool" where
  "anyProxied plan \<longleftrightarrow> list_ex eg_Proxied (fp_Egresses plan) \<or> list_ex in_Proxied (fp_Internals plan)"

subsection \<open>The fingerprint\<close>

definition rulesetFormatVersion :: int where "rulesetFormatVersion = 5"

text \<open>A slice left nil is printed as null; one with \<open>omitempty\<close> is left out.\<close>

definition nil_strs :: "string list \<Rightarrow> json" where
  "nil_strs xs = (if xs = [] then JNull else JStrs xs)"

definition destination_json :: "dns_destination \<Rightarrow> json" where
  "destination_json d = JObj
     (field ''client_addresses'' (nil_strs (dn_ClientAddresses d)) @
      field ''resolver_address'' (JStr (dn_ResolverAddress d)))"

definition port_acl_json :: "client_port_acl \<Rightarrow> json" where
  "port_acl_json a = JObj
     (omit_str ''source_address'' (cp_SourceAddress a) @ field ''target_address'' (JStr (cp_TargetAddress a)) @
      field ''protocol'' (JStr (cp_Protocol a)) @ field ''port'' (JNum (uint (cp_Port a))))"

definition network_json :: "internal_network \<Rightarrow> json" where
  "network_json n = JObj
     (field ''tunnel_id'' (JStr (in_TunnelID n)) @ field ''mark'' (JNum (uint (in_Mark n))) @
      omit_bool ''proxied'' (in_Proxied n) @ field ''interface'' (JStr (in_Interface n)) @
      omit_strs ''routes'' (in_Routes n) @ omit_strs ''zones'' (in_Zones n) @
      omit_strs ''resolvers'' (in_Resolvers n) @ omit_strs ''clients'' (in_Clients n))"

definition socks_json :: "socks_endpoint \<Rightarrow> json" where
  "socks_json e = JObj
     (field ''tunnel_id'' (JStr (se_TunnelID e)) @ field ''address'' (JStr (se_Address e)) @
      field ''interface'' (JStr (se_Interface e)) @ field ''port'' (JNum (uint (se_Port e))) @
      omit_strs ''clients'' (se_Clients e))"

definition group_json :: "egress_group \<Rightarrow> json" where
  "group_json g = JObj
     (field ''id'' (JStr (eg_ID g)) @ omit_bool ''proxied'' (eg_Proxied g) @
      field ''mark'' (JNum (uint (eg_Mark g))) @ field ''interface'' (JStr (eg_Interface g)) @
      field ''addresses'' (nil_strs (eg_Addresses g)) @ omit_strs ''clients'' (eg_Clients g))"

definition plan_json :: "firewall_plan \<Rightarrow> json" where
  "plan_json p = JObj
     (field ''ingress_interface'' (JStr (fp_IngressInterface p)) @
      field ''uplink_interface'' (JStr (fp_UplinkInterface p)) @
      field ''listen_port'' (JNum (uint (fp_ListenPort p))) @
      field ''management_port'' (JNum (uint (fp_ManagementPort p))) @
      field ''client_cidr'' (JStr (fp_ClientCIDR p)) @ field ''dns_address'' (JStr (fp_DNSAddress p)) @
      omit_list ''dns_destinations'' destination_json (fp_DNSDestinations p) @
      omit_str ''link_base'' (fp_LinkBase p) @
      omit_list ''internals'' network_json (fp_Internals p) @ omit_list ''socks'' socks_json (fp_Socks p) @
      omit_bool ''alt_udp443'' (fp_AltUDP443 p) @ omit_num ''reality_port'' (uint (fp_RealityPort p)) @
      omit_list ''client_acls'' port_acl_json (fp_ClientACLs p) @
      field ''egresses'' (JArr (map group_json (fp_Egresses p))))"

definition Fingerprint :: "firewall_plan \<Rightarrow> string" where
  "Fingerprint plan = take 16 (HexEncode (Sha256 (json_text (JObj
     (field ''version'' (JNum rulesetFormatVersion) @ field ''plan'' (plan_json plan))))))"

subsection \<open>Rules\<close>

text \<open>A negated match carries \<open>True\<close>.\<close>

datatype nft_match =
    Iifname bool string | Oifname bool string | IifLo
  | SaddrIn string | DaddrIn string | Saddr bool string | Daddr string
  | Dport string "16 word" | SynOfHandshake | Established | MetaMark bool "32 word"
  | ICMP | NfProto string

datatype nft_stmt =
    SetMark "32 word" | SaveMark | ClampMSS nat | DnatTo string | DnatPort "16 word" | Masquerade
  | Accept | Drop | Return | Reset

type_synonym nft_rule = "nft_match list \<times> nft_stmt list"

record nft_chain =
  ch_Name :: string
  ch_Head :: string
  ch_Rules :: "nft_rule list"

record nft_set =
  st_Name :: string
  st_Interval :: bool
  st_Elements :: "string list"

definition marked :: nft_match where "marked = MetaMark True 0"

definition forwardedMSSClamp :: nat where "forwardedMSSClamp = 1240"

text \<open>The sets in the order they are declared.\<close>

definition group_sets :: "firewall_plan \<Rightarrow> nft_set list" where
  "group_sets plan =
     map (\<lambda>g. \<lparr>st_Name = setName g, st_Interval = False, st_Elements = eg_Addresses g\<rparr>) (fp_Egresses plan)"

definition admitted_sets :: "firewall_plan \<Rightarrow> nft_set list" where
  "admitted_sets plan =
     (if admittedDNSClients plan = [] then []
      else [\<lparr>st_Name = admittedSetName, st_Interval = False, st_Elements = admittedDNSClients plan\<rparr>])"

text \<open>The groups whose clients have a resolver of their own, with that resolver.\<close>

definition resolved_groups :: "firewall_plan \<Rightarrow> (egress_group \<times> dns_destination) list" where
  "resolved_groups plan =
     List.map_filter (\<lambda>g. case dnsDestinationFor g (fp_DNSDestinations plan) of
         None \<Rightarrow> None
       | Some d \<Rightarrow> if dn_ClientAddresses d = [] then None else Some (g, d)) (fp_Egresses plan)"

definition dns_client_sets :: "firewall_plan \<Rightarrow> nft_set list" where
  "dns_client_sets plan =
     map (\<lambda>(g, d). \<lparr>st_Name = dnsClientSetName (eg_ID g), st_Interval = False, st_Elements = dn_ClientAddresses d\<rparr>)
       (resolved_groups plan)"

definition allowed_client_sets :: "firewall_plan \<Rightarrow> nft_set list" where
  "allowed_client_sets plan =
     map (\<lambda>(i, clients). \<lparr>st_Name = allowedSetName i, st_Interval = False, st_Elements = clients\<rparr>) (allowedSets plan)"

definition internal_sets :: "firewall_plan \<Rightarrow> nft_set list" where
  "internal_sets plan =
     map (\<lambda>n. \<lparr>st_Name = internalSetName (in_TunnelID n), st_Interval = True, st_Elements = in_Routes n\<rparr>) (fp_Internals plan)"

definition declared_sets :: "firewall_plan \<Rightarrow> nft_set list" where
  "declared_sets plan =
     group_sets plan @ admitted_sets plan @ dns_client_sets plan @ allowed_client_sets plan @ internal_sets plan"

definition prerouting_rules :: "firewall_plan \<Rightarrow> nft_rule list" where
  "prerouting_rules plan =
     ([Iifname True (fp_IngressInterface plan)], [Accept]) #
     map (\<lambda>n. ([DaddrIn (internalSetName (in_TunnelID n))], [SetMark (in_Mark n), SaveMark, Return])) (fp_Internals plan) @
     ([Daddr (fp_ClientCIDR plan)], [Return]) #
     map (\<lambda>g. ([SaddrIn (setName g)], [SetMark (eg_Mark g)])) (fp_Egresses plan) @
     [([], [SaveMark])]"

definition acl_rule :: "firewall_plan \<Rightarrow> client_port_acl \<Rightarrow> nft_rule" where
  "acl_rule plan acl =
     ([Iifname False (fp_IngressInterface plan), Oifname False (fp_IngressInterface plan),
       Saddr False (if cp_SourceAddress acl = [] then fp_ClientCIDR plan else cp_SourceAddress acl),
       Daddr (cp_TargetAddress acl), Dport (cp_Protocol acl) (cp_Port acl)], [Accept])"

definition forward_rules :: "firewall_plan \<Rightarrow> nft_rule list" where
  "forward_rules plan =
     (let ingress = Iifname False (fp_IngressInterface plan) in
     ([SynOfHandshake], [ClampMSS forwardedMSSClamp]) #
     ([Established], [Accept]) #
     map (acl_rule plan) (fp_ClientACLs plan) @
     ([ingress, Oifname False (fp_IngressInterface plan)], [Drop]) #
     ([ingress, Dport ''tcp'' 853], [Reset]) #
     map (\<lambda>n. ([ingress, SaddrIn (allowedSetName (in_TunnelID n)), DaddrIn (internalSetName (in_TunnelID n)),
                Oifname False (in_Interface n)], [Accept])) (fp_Internals plan) @
     map (\<lambda>g. ([ingress, SaddrIn (setName g), Oifname False (eg_Interface g)], [Accept])) (fp_Egresses plan) @
     map (\<lambda>g. ([Iifname False (eg_Interface g), Oifname False (fp_UplinkInterface plan)], [Accept]))
       (filter eg_Proxied (fp_Egresses plan)) @
     map (\<lambda>n. ([Iifname False (in_Interface n), Oifname False (fp_UplinkInterface plan)], [Accept]))
       (filter in_Proxied (fp_Internals plan)) @
     map (\<lambda>e. ([ingress, SaddrIn (allowedSetName (se_TunnelID e)), Oifname False (se_Interface e),
                Dport ''tcp'' (se_Port e)], [Accept])) (fp_Socks plan))"

text \<open>The rules on the resolver port are printed for UDP and TCP alike.\<close>

definition dns_pair :: "nft_match list \<Rightarrow> nft_stmt \<Rightarrow> nft_rule list" where
  "dns_pair ms v = [(ms @ [Dport ''udp'' 53], [v]), (ms @ [Dport ''tcp'' 53], [v])]"

definition serves_dns :: "firewall_plan \<Rightarrow> bool" where
  "serves_dns plan \<longleftrightarrow> admittedDNSClients plan \<noteq> [] \<and> fp_DNSAddress plan \<noteq> []"

definition input_dns_rules :: "firewall_plan \<Rightarrow> nft_rule list" where
  "input_dns_rules plan =
     (let ingress = Iifname False (fp_IngressInterface plan) in
     concat (map (\<lambda>(g, d).
       dns_pair [ingress, SaddrIn (dnsClientSetName (eg_ID g)), Daddr (dn_ResolverAddress d)] Accept @
       dns_pair [ingress, SaddrIn (dnsClientSetName (eg_ID g))] Drop) (resolved_groups plan)) @
     (if serves_dns plan then dns_pair [ingress, SaddrIn admittedSetName, Daddr (fp_DNSAddress plan)] Accept else []) @
     dns_pair [ingress] Drop)"

definition input_rules :: "firewall_plan \<Rightarrow> nft_rule list" where
  "input_rules plan =
     input_dns_rules plan @
     [([Established], [Accept])] @
     (if serves_dns plan then dns_pair [IifLo, marked, Daddr (fp_DNSAddress plan)] Accept else []) @
     [([IifLo, marked], [Drop]), ([IifLo], [Accept]), ([ICMP], [Accept]),
      ([Dport ''tcp'' (fp_ManagementPort plan)], [Accept]), ([Dport ''udp'' (fp_ListenPort plan)], [Accept])] @
     (if fp_RealityPort plan \<noteq> 0 then [([Dport ''tcp'' (fp_RealityPort plan)], [Accept])] else [])"

definition output_mark_rules :: "firewall_plan \<Rightarrow> nft_rule list" where
  "output_mark_rules plan =
     ([marked], [Return]) #
     map (\<lambda>n. ([DaddrIn (internalSetName (in_TunnelID n))], [SetMark (in_Mark n)])) (fp_Internals plan)"

definition output_rules :: "firewall_plan \<Rightarrow> nft_rule list" where
  "output_rules plan =
     ([NfProto ''ipv6''], [Drop]) #
     map (\<lambda>g. ([MetaMark False (eg_Mark g), Oifname True (eg_Interface g)], [Drop]))
       (filter (\<lambda>g. eg_ID g \<noteq> EgressDirect) (fp_Egresses plan)) @
     map (\<lambda>n. ([MetaMark False (in_Mark n), Oifname True (in_Interface n)], [Drop])) (fp_Internals plan)"

definition prerouting_nat_rules :: "firewall_plan \<Rightarrow> nft_rule list" where
  "prerouting_nat_rules plan =
     (let ingress = Iifname False (fp_IngressInterface plan) in
     concat (map (\<lambda>(g, d). dns_pair [ingress, SaddrIn (dnsClientSetName (eg_ID g))] (DnatTo (dn_ResolverAddress d)))
       (resolved_groups plan)) @
     (if serves_dns plan then dns_pair [ingress, SaddrIn admittedSetName] (DnatTo (fp_DNSAddress plan)) else []) @
     (if fp_AltUDP443 plan
      then [([Iifname False (fp_UplinkInterface plan), NfProto ''ipv4'', Dport ''udp'' RealityPort], [DnatPort (fp_ListenPort plan)])]
      else []))"

definition postrouting_rules :: "firewall_plan \<Rightarrow> nft_rule list" where
  "postrouting_rules plan =
     map (\<lambda>g. ([Saddr False (fp_ClientCIDR plan), Oifname False (eg_Interface g)], [Masquerade]))
       (filter (\<lambda>g. eg_Interface g = fp_UplinkInterface plan) (fp_Egresses plan)) @
     map (\<lambda>n. ([Saddr True (fp_ClientCIDR plan), Oifname False (in_Interface n)], [Masquerade])) (fp_Internals plan) @
     (if fp_LinkBase plan \<noteq> [] \<and> anyProxied plan
      then [([Saddr False (fp_LinkBase plan), Oifname False (fp_UplinkInterface plan)], [Masquerade])] else [])"

definition ruleset_chains :: "firewall_plan \<Rightarrow> nft_chain list" where
  "ruleset_chains plan =
     [\<lparr>ch_Name = ''prerouting'', ch_Head = ''type filter hook prerouting priority mangle; policy accept;'',
       ch_Rules = prerouting_rules plan\<rparr>,
      \<lparr>ch_Name = ''forward'', ch_Head = ''type filter hook forward priority filter; policy drop;'',
       ch_Rules = forward_rules plan\<rparr>,
      \<lparr>ch_Name = ''input'', ch_Head = ''type filter hook input priority filter; policy drop;'',
       ch_Rules = input_rules plan\<rparr>] @
     (if fp_Internals plan = [] then []
      else [\<lparr>ch_Name = ''output_mark'', ch_Head = ''type route hook output priority mangle; policy accept;'',
             ch_Rules = output_mark_rules plan\<rparr>]) @
     [\<lparr>ch_Name = ''output'', ch_Head = ''type filter hook output priority filter; policy accept;'',
       ch_Rules = output_rules plan\<rparr>,
      \<lparr>ch_Name = ''prerouting_nat'', ch_Head = ''type nat hook prerouting priority dstnat; policy accept;'',
       ch_Rules = prerouting_nat_rules plan\<rparr>,
      \<lparr>ch_Name = ''postrouting'', ch_Head = ''type nat hook postrouting priority srcnat; policy accept;'',
       ch_Rules = postrouting_rules plan\<rparr>]"

subsection \<open>Text\<close>

text \<open>\<open>%q\<close>, for texts whose bytes above 127 form printable characters.\<close>

definition quote_char :: "char \<Rightarrow> string" where
  "quote_char c =
     (let b = code c in
      if c = CHR 0x22 \<or> c = CHR 0x5C then [CHR 0x5C, c]
      else if b = 7 then [CHR 0x5C, CHR ''a''] else if b = 8 then [CHR 0x5C, CHR ''b'']
      else if b = 9 then [CHR 0x5C, CHR ''t''] else if b = 10 then [CHR 0x5C, CHR ''n'']
      else if b = 11 then [CHR 0x5C, CHR ''v''] else if b = 12 then [CHR 0x5C, CHR ''f'']
      else if b = 13 then [CHR 0x5C, CHR ''r'']
      else if b < 32 \<or> b = 127 then [CHR 0x5C, CHR ''x''] @ HexEncode [c]
      else [c])"

definition Quote :: "string \<Rightarrow> string" where
  "Quote s = [CHR 0x22] @ concat (map quote_char s) @ [CHR 0x22]"

definition hex32 :: "32 word \<Rightarrow> string" where
  "hex32 w = ''0x'' @ HexEncode (word32_be w)"

definition not_equal :: "bool \<Rightarrow> string" where
  "not_equal b = (if b then ''!= '' else [])"

fun match_text :: "nft_match \<Rightarrow> string" where
  "match_text (Iifname b i) = ''iifname '' @ not_equal b @ Quote i"
| "match_text (Oifname b i) = ''oifname '' @ not_equal b @ Quote i"
| "match_text IifLo = ''iif lo''"
| "match_text (SaddrIn s) = ''ip saddr @'' @ s"
| "match_text (DaddrIn s) = ''ip daddr @'' @ s"
| "match_text (Saddr b a) = ''ip saddr '' @ not_equal b @ a"
| "match_text (Daddr a) = ''ip daddr '' @ a"
| "match_text (Dport proto p) = proto @ '' dport '' @ Itoa (unat p)"
| "match_text SynOfHandshake = ''tcp flags & (syn|rst) == syn''"
| "match_text Established = ''ct state established,related''"
| "match_text (MetaMark b m) = ''meta mark '' @ not_equal b @ hex32 m"
| "match_text ICMP = ''ip protocol icmp''"
| "match_text (NfProto f) = ''meta nfproto '' @ f"

fun stmt_text :: "nft_stmt \<Rightarrow> string" where
  "stmt_text (SetMark m) = ''meta mark set '' @ hex32 m"
| "stmt_text SaveMark = ''ct mark set meta mark''"
| "stmt_text (ClampMSS n) = ''tcp option maxseg size set '' @ Itoa n"
| "stmt_text (DnatTo a) = ''dnat ip to '' @ a @ '':53''"
| "stmt_text (DnatPort p) = ''dnat to :'' @ Itoa (unat p)"
| "stmt_text Masquerade = ''masquerade''"
| "stmt_text Accept = ''accept''"
| "stmt_text Drop = ''drop''"
| "stmt_text Return = ''return''"
| "stmt_text Reset = ''reject with tcp reset''"

definition rule_text :: "nft_rule \<Rightarrow> string" where
  "rule_text r = Join '' '' (map match_text (fst r) @ map stmt_text (snd r))"

definition nft_line :: "nat \<Rightarrow> string \<Rightarrow> string" where
  "nft_line tabs s = replicate tabs TAB @ s @ [NL]"

definition set_text :: "nft_set \<Rightarrow> string" where
  "set_text s =
     nft_line 1 (''set '' @ st_Name s @ '' {'') @ nft_line 2 ''type ipv4_addr'' @
     (if st_Interval s then nft_line 2 ''flags interval'' else []) @
     (if st_Elements s = [] then [] else nft_line 2 (''elements = { '' @ Join '', '' (st_Elements s) @ '' }'')) @
     nft_line 1 ''}'' @ nft_line 0 []"

definition chain_text :: "nft_chain \<Rightarrow> string" where
  "chain_text c =
     nft_line 1 (''chain '' @ ch_Name c @ '' {'') @ nft_line 2 (ch_Head c) @
     concat (map (\<lambda>r. nft_line 2 (rule_text r)) (ch_Rules c)) @ nft_line 1 ''}''"

definition ruleset_head :: "firewall_plan \<Rightarrow> string" where
  "ruleset_head plan =
     concat (map (nft_line 0)
       [''# Managed by vpn-hub. Manual edits are reverted on the next reconcile.'', [],
        ''# Creating the table before deleting it makes the definition below an atomic'',
        ''# replacement of this table alone, leaving any other ruleset on the host intact.'',
        ''table inet vpn_hub'', ''delete table inet vpn_hub'', [], ''table inet vpn_hub {'']) @
     nft_line 1 (''comment '' @ Quote (''vpn-hub:'' @ Fingerprint plan)) @ nft_line 0 []"

definition RenderRuleset :: "firewall_plan \<Rightarrow> string" where
  "RenderRuleset plan =
     ruleset_head plan @ concat (map set_text (declared_sets plan)) @
     Join (nft_line 0 []) (map chain_text (ruleset_chains plan)) @ nft_line 0 ''}''"

end
