(* ===== verification/Conntrack.thy ===== *)
theory Conntrack
  imports Nftables Deploy
begin

text \<open>
  The stateful half of \<open>internal/adapters/linux/nftables.go\<close>: the file that remembers whose DNS
  answers the loaded ruleset was built for, which conntrack entries a change of ruleset makes stale,
  and \<open>Apply\<close> and \<open>CommitDNSRepopulation\<close> over them.  What \<open>nft\<close> and \<open>conntrack\<close> answer, and how the
  writes end, is an argument; what is done to the host is the list of actions taken, in order.
\<close>

subsection \<open>The state file\<close>

record dns_conntrack_mapping =
  cm_ClientAddress :: string
  cm_ResolverAddress :: string

record dns_conntrack_state =
  cs_ClientCIDR :: string
  cs_IngressInterface :: string
  cs_Mappings :: "dns_conntrack_mapping list"
  cs_PlanFingerprint :: string
  cs_CleanupScopes :: "string list"
  cs_PendingRepopulate :: bool

text \<open>The resolver each client asks; a later group's entry for an address replaces an earlier one.\<close>

definition group_resolver :: "firewall_plan \<Rightarrow> egress_group \<Rightarrow> string" where
  "group_resolver plan g =
     (case dnsDestinationFor g (fp_DNSDestinations plan) of
        None \<Rightarrow> fp_DNSAddress plan
      | Some d \<Rightarrow> dn_ResolverAddress d)"

definition client_resolvers :: "firewall_plan \<Rightarrow> (string \<times> string) list" where
  "client_resolvers plan =
     rev (concat (map (\<lambda>g. map (\<lambda>a. (a, group_resolver plan g)) (eg_Addresses g)) (fp_Egresses plan)))"

definition dnsConntrackStateFor :: "firewall_plan \<Rightarrow> dns_conntrack_state" where
  "dnsConntrackStateFor plan =
     (let resolvers = client_resolvers plan in
      \<lparr>cs_ClientCIDR = fp_ClientCIDR plan, cs_IngressInterface = fp_IngressInterface plan,
       cs_Mappings = map (\<lambda>a. \<lparr>cm_ClientAddress = a, cm_ResolverAddress = lookup_str resolvers a\<rparr>)
         (sort (remdups (map fst resolvers))),
       cs_PlanFingerprint = Fingerprint plan, cs_CleanupScopes = [], cs_PendingRepopulate = False\<rparr>)"

text \<open>A mapping whose connections may still go to a resolver that is no longer the client's.\<close>

definition stale_mapping :: "dns_conntrack_state \<Rightarrow> dns_conntrack_state \<Rightarrow> dns_conntrack_mapping \<Rightarrow> bool" where
  "stale_mapping previous current m \<longleftrightarrow>
     cs_IngressInterface previous \<noteq> cs_IngressInterface current \<or>
     map_of (rev (map (\<lambda>c. (cm_ClientAddress c, cm_ResolverAddress c)) (cs_Mappings current))) (cm_ClientAddress m)
       \<noteq> Some (cm_ResolverAddress m)"

definition dnsConntrackCleanupScopes :: "dns_conntrack_state option \<Rightarrow> dns_conntrack_state \<Rightarrow> string list" where
  "dnsConntrackCleanupScopes previous current =
     (case previous of
        None \<Rightarrow> if cs_ClientCIDR current = [] then [] else [cs_ClientCIDR current]
      | Some p \<Rightarrow> sort (remdups (cs_CleanupScopes p @
          map cm_ClientAddress (filter (stale_mapping p current) (cs_Mappings p)))))"

subsection \<open>Reading and writing it\<close>

definition mapping_json :: "dns_conntrack_mapping \<Rightarrow> json" where
  "mapping_json m = JObj
     (field ''client_address'' (JStr (cm_ClientAddress m)) @ field ''resolver_address'' (JStr (cm_ResolverAddress m)))"

definition conntrack_json :: "dns_conntrack_state \<Rightarrow> json" where
  "conntrack_json s = JObj
     (field ''client_cidr'' (JStr (cs_ClientCIDR s)) @ field ''ingress_interface'' (JStr (cs_IngressInterface s)) @
      field ''mappings'' (if cs_Mappings s = [] then JNull else JArr (map mapping_json (cs_Mappings s))) @
      omit_str ''plan_fingerprint'' (cs_PlanFingerprint s) @ omit_strs ''cleanup_scopes'' (cs_CleanupScopes s) @
      omit_bool ''pending_repopulate'' (cs_PendingRepopulate s))"

definition dec_mapping :: "json \<Rightarrow> dns_conntrack_mapping option" where
  "dec_mapping j = do {
     kvs \<leftarrow> obj_val (Some j);
     a \<leftarrow> str_field kvs ''client_address''; r \<leftarrow> str_field kvs ''resolver_address'';
     Some \<lparr>cm_ClientAddress = a, cm_ResolverAddress = r\<rparr> }"

definition dec_conntrack :: "json \<Rightarrow> dns_conntrack_state option" where
  "dec_conntrack j = do {
     kvs \<leftarrow> obj_val (Some j);
     c \<leftarrow> str_field kvs ''client_cidr''; i \<leftarrow> str_field kvs ''ingress_interface'';
     ms \<leftarrow> list_val dec_mapping (map_of kvs ''mappings''); f \<leftarrow> str_field kvs ''plan_fingerprint'';
     cl \<leftarrow> strs_field kvs ''cleanup_scopes''; p \<leftarrow> bool_val (map_of kvs ''pending_repopulate'');
     Some \<lparr>cs_ClientCIDR = c, cs_IngressInterface = i, cs_Mappings = ms, cs_PlanFingerprint = f,
           cs_CleanupScopes = cl, cs_PendingRepopulate = p\<rparr> }"

text \<open>\<open>hex.DecodeString\<close> into eight bytes.\<close>

definition is_fingerprint :: "string \<Rightarrow> bool" where
  "is_fingerprint s \<longleftrightarrow> length s = 16 \<and> list_all (\<lambda>c. hex_val c \<noteq> None) s"

definition conntrack_ok :: "dns_conntrack_state \<Rightarrow> bool" where
  "conntrack_ok s \<longleftrightarrow>
     ParsePrefix (cs_ClientCIDR s) \<noteq> None \<and> cs_IngressInterface s \<noteq> [] \<and>
     (cs_PendingRepopulate s \<longrightarrow> is_fingerprint (cs_PlanFingerprint s)) \<and>
     list_all (\<lambda>c. ParseAddr c \<noteq> None \<or> ParsePrefix c \<noteq> None) (cs_CleanupScopes s) \<and>
     list_all (\<lambda>m. ParseAddr (cm_ClientAddress m) \<noteq> None \<and> ParseAddr (cm_ResolverAddress m) \<noteq> None) (cs_Mappings s)"

datatype nft_error =
    ReadConntrackState | WriteConntrackState | TransitionLock | ReadRuleset | DecodeNftOutput
  | WriteRuleset | ApplyRuleset | ClearConntrack string string
  | RepopulationUnavailable | RepopulationPlanChanged | CleanupPending

definition readDNSConntrackState :: "file_content \<Rightarrow> (nft_error, dns_conntrack_state option) result" where
  "readDNSConntrackState f =
     (case f of
        Absent \<Rightarrow> Inr None
      | Unreadable \<Rightarrow> Inl ReadConntrackState
      | Garbage \<Rightarrow> Inr None
      | Content j \<Rightarrow>
          (case dec_conntrack j of
             None \<Rightarrow> Inr None
           | Some s \<Rightarrow> if conntrack_ok s then Inr (Some s) else Inr None))"

definition writeDNSConntrackState :: "io \<Rightarrow> dns_conntrack_state \<Rightarrow> file_content \<Rightarrow> nft_error option \<times> file_content" where
  "writeDNSConntrackState io s f =
     ((case write_error io of None \<Rightarrow> None | Some _ \<Rightarrow> Some WriteConntrackState), write_content io (conntrack_json s) f)"

subsection \<open>Observe\<close>

definition isMissingTable :: "string \<Rightarrow> bool" where
  "isMissingTable message \<longleftrightarrow>
     (let m = ToLower message in Contains m ''no such file or directory'' \<or> Contains m ''does not exist'')"

text \<open>An entry's table, when it has one: its comment.\<close>

definition dec_table :: "json \<Rightarrow> string option option" where
  "dec_table j = do {
     kvs \<leftarrow> obj_val (Some j);
     (case map_of kvs ''table'' of
        None \<Rightarrow> Some None
      | Some JNull \<Rightarrow> Some None
      | Some (JObj t) \<Rightarrow> map_option Some (str_field t ''comment'')
      | Some _ \<Rightarrow> None) }"

definition parseFingerprint :: "json option \<Rightarrow> (nft_error, string) result" where
  "parseFingerprint output =
     of_option DecodeNftOutput (do {
       j \<leftarrow> output;
       kvs \<leftarrow> obj_val (Some j);
       tables \<leftarrow> list_val dec_table (map_of kvs ''nftables'');
       Some (case List.map_filter id tables of [] \<Rightarrow> [] | c # _ \<Rightarrow> TrimPrefix c ''vpn-hub:'') })"

text \<open>What \<open>nft -j list table inet vpn_hub\<close> answers: an error's text, or its output (\<open>None\<close> when it is not JSON).\<close>

definition NftObserve :: "(string, json option) result \<Rightarrow> (nft_error, string) result" where
  "NftObserve listing =
     (case listing of
        Inl message \<Rightarrow> if isMissingTable message then Inr [] else Inl ReadRuleset
      | Inr output \<Rightarrow> parseFingerprint output)"

subsection \<open>Conntrack entries\<close>

text \<open>The answer of one \<open>conntrack -D\<close>: its output and the exit code, \<open>None\<close> when it did not run.\<close>

datatype conntrack_answer = Deleted | DeleteFailed string "int option"

definition zeroDNSConntrackDeletion :: "string \<Rightarrow> bool" where
  "zeroDNSConntrackDeletion s \<longleftrightarrow>
     HasPrefix s ''conntrack v'' \<and>
     (case CutByte CHR '' '' (drop (length ''conntrack v'') s) of
        None \<Rightarrow> False
      | Some (version, rest) \<Rightarrow>
          list_all (\<lambda>f. f \<noteq> [] \<and> list_all is_digit f) (Split CHR ''.'' version) \<and>
          rest = ''(conntrack-tools): 0 flow entries have been deleted.'')"

fun isZeroDNSConntrackDeletion :: "conntrack_answer \<Rightarrow> bool" where
  "isZeroDNSConntrackDeletion Deleted = False"
| "isZeroDNSConntrackDeletion (DeleteFailed output exit) =
     (exit = Some 1 \<and> zeroDNSConntrackDeletion (TrimSuffix output [NL]))"

definition cleared :: "conntrack_answer \<Rightarrow> bool" where
  "cleared answer \<longleftrightarrow> answer = Deleted \<or> isZeroDNSConntrackDeletion answer"

datatype nft_action =
  WroteState dns_conntrack_state | WroteRuleset string | LoadedRuleset | ClearedConntrack string string

fun clear_each ::
    "(string \<Rightarrow> string \<Rightarrow> conntrack_answer) \<Rightarrow> (string \<times> string) list \<Rightarrow> nft_error option \<times> nft_action list" where
  "clear_each answer [] = (None, [])"
| "clear_each answer ((scope, protocol) # rest) =
     (if cleared (answer scope protocol)
      then map_prod id ((#) (ClearedConntrack scope protocol)) (clear_each answer rest)
      else (Some (ClearConntrack protocol scope), []))"

definition clearDNSConntrack ::
    "(string \<Rightarrow> string \<Rightarrow> conntrack_answer) \<Rightarrow> string list \<Rightarrow> nft_error option \<times> nft_action list" where
  "clearDNSConntrack answer scopes =
     clear_each answer (concat (map (\<lambda>scope. [(scope, ''udp''), (scope, ''tcp'')]) scopes))"

subsection \<open>Apply and CommitDNSRepopulation\<close>

text \<open>What the host answers during one \<open>Apply\<close>.\<close>

record nft_env =
  ne_Locked :: bool
  ne_Listing :: "(string, json option) result"
  ne_State :: io
  ne_Ruleset :: bool
  ne_Load :: bool
  ne_Conntrack :: "string \<Rightarrow> string \<Rightarrow> conntrack_answer"
  ne_Settled :: io

type_synonym nft_result = "((bool \<times> nft_error option) \<times> file_content) \<times> nft_action list"

definition wrote :: "io \<Rightarrow> dns_conntrack_state \<Rightarrow> nft_action list" where
  "wrote io s = (if io = Failed then [] else [WroteState s])"

text \<open>The part of \<open>Apply\<close> after the ruleset is loaded.\<close>

definition apply_cleanup :: "nft_env \<Rightarrow> bool \<Rightarrow> dns_conntrack_state \<Rightarrow> string list \<Rightarrow> file_content \<Rightarrow> nft_result" where
  "apply_cleanup env repopulate transition scopes f =
     (case clearDNSConntrack (ne_Conntrack env) scopes of
        (Some e, acts) \<Rightarrow> (((repopulate, Some e), f), acts)
      | (None, acts) \<Rightarrow>
          if repopulate \<and> cs_CleanupScopes transition \<noteq> []
          then (case writeDNSConntrackState (ne_Settled env) (transition\<lparr>cs_CleanupScopes := []\<rparr>) f of
                  (e, f') \<Rightarrow> (((True, e), f'), acts @ wrote (ne_Settled env) (transition\<lparr>cs_CleanupScopes := []\<rparr>)))
          else (((repopulate, None), f), acts))"

definition apply_ruleset ::
    "nft_env \<Rightarrow> firewall_plan \<Rightarrow> bool \<Rightarrow> bool \<Rightarrow> dns_conntrack_state \<Rightarrow> string list \<Rightarrow> file_content \<Rightarrow> nft_result" where
  "apply_ruleset env plan rebuilt repopulate transition scopes f =
     (if \<not> rebuilt then apply_cleanup env repopulate transition scopes f
      else if \<not> ne_Ruleset env then (((False, Some WriteRuleset), f), [])
      else if \<not> ne_Load env then (((False, Some ApplyRuleset), f), [WroteRuleset (RenderRuleset plan)])
      else map_prod id (\<lambda>acts. WroteRuleset (RenderRuleset plan) # LoadedRuleset # acts)
             (apply_cleanup env repopulate transition scopes f))"

definition apply_transition ::
    "nft_env \<Rightarrow> firewall_plan \<Rightarrow> bool \<Rightarrow> bool \<Rightarrow> dns_conntrack_state \<Rightarrow> string list \<Rightarrow> file_content \<Rightarrow> nft_result" where
  "apply_transition env plan rebuilt repopulate transition scopes f =
     (if \<not> repopulate then apply_ruleset env plan rebuilt repopulate transition scopes f
      else (case writeDNSConntrackState (ne_State env) transition f of
              (Some e, f') \<Rightarrow> (((False, Some e), f'), wrote (ne_State env) transition)
            | (None, f') \<Rightarrow> map_prod id ((#) (WroteState transition))
                (apply_ruleset env plan rebuilt repopulate transition scopes f')))"

definition NftApply :: "nft_env \<Rightarrow> firewall_plan \<Rightarrow> file_content \<Rightarrow> nft_result" where
  "NftApply env plan f =
     (if \<not> ne_Locked env then (((False, Some TransitionLock), f), [])
      else let loaded = NftObserve (ne_Listing env) in
      (case readDNSConntrackState f of
         Inl e \<Rightarrow> (((False, Some e), f), [])
       | Inr previous \<Rightarrow>
           (let current = dnsConntrackStateFor plan;
                scopes = dnsConntrackCleanupScopes previous current;
                rebuilt = (loaded \<noteq> Inr (Fingerprint plan));
                repopulate = (rebuilt \<or> (case previous of None \<Rightarrow> True | Some p \<Rightarrow> cs_PendingRepopulate p) \<or> scopes \<noteq> []);
                transition = current\<lparr>cs_PendingRepopulate := repopulate, cs_CleanupScopes := scopes\<rparr>
            in apply_transition env plan rebuilt repopulate transition scopes f)))"

definition CommitDNSRepopulation :: "bool \<Rightarrow> io \<Rightarrow> firewall_plan \<Rightarrow> file_content \<Rightarrow> nft_error option \<times> file_content" where
  "CommitDNSRepopulation locked io plan f =
     (if \<not> locked then (Some TransitionLock, f)
      else case readDNSConntrackState f of
        Inl e \<Rightarrow> (Some e, f)
      | Inr None \<Rightarrow> (Some RepopulationUnavailable, f)
      | Inr (Some s) \<Rightarrow>
          if cs_PlanFingerprint s \<noteq> Fingerprint plan then (Some RepopulationPlanChanged, f)
          else if \<not> cs_PendingRepopulate s then (None, f)
          else if cs_CleanupScopes s \<noteq> [] then (Some CleanupPending, f)
          else writeDNSConntrackState io (s\<lparr>cs_PendingRepopulate := False\<rparr>) f)"

end
