(* ===== verification/ConntrackFacts.thy ===== *)
theory ConntrackFacts
  imports Conntrack
begin

text \<open>
  Facts about the firewall transition: the state file reads back, a pass that may have emptied the
  resolver's sets leaves a debt (\<open>owes\<close>) that only the acknowledgement clears, and the contract the
  reconciler relies on as the locale \<open>refill_port\<close>, interpreted on \<open>NftApply\<close>.
\<close>

subsection \<open>The file reads back\<close>

lemma dec_mapping_json: "dec_mapping (mapping_json m) = Some m"
  by (simp add: mapping_json_def dec_mapping_def str_field_def json_simps del: map_of_append)

lemma map_of_last_bool: "map_of (omit_bool k b) x = (if x = k then if b then Some (JBool True) else None else None)"
  by (simp add: omit_bool_def)

lemma dec_conntrack_json: "dec_conntrack (conntrack_json s) = Some s"
proof -
  have ms: "list_val dec_mapping (Some (JArr (map mapping_json ms))) = Some ms" for ms
    using list_val_map(1)[of dec_mapping mapping_json "\<lambda>x. x"] by (simp add: dec_mapping_json)
  show ?thesis
    by (cases "cs_Mappings s")
      (auto simp: conntrack_json_def dec_conntrack_def str_field_def strs_field_def json_simps ms[of "_ # _", simplified]
        list_val_def[of dec_mapping "Some JNull"] map_of_last_bool simp del: map_of_append)
qed

interpretation conntrack: json_store conntrack_json dec_conntrack "\<lambda>s. s"
  by unfold_locales (rule dec_conntrack_json)

lemma read_stored:
  "readDNSConntrackState (Content (conntrack_json s)) = Inr (if conntrack_ok s then Some s else None)"
  by (simp add: readDNSConntrackState_def dec_conntrack_json)

text \<open>What the file says is still to be done, as far as it can be read.\<close>

definition owes :: "file_content \<Rightarrow> bool" where
  "owes f \<longleftrightarrow>
     (case readDNSConntrackState f of Inl _ \<Rightarrow> True | Inr None \<Rightarrow> True | Inr (Some s) \<Rightarrow> cs_PendingRepopulate s)"

lemma owes_written: "cs_PendingRepopulate s \<Longrightarrow> owes (Content (conntrack_json s))"
  by (simp add: owes_def read_stored)

lemma owes_write:
  "owes f \<Longrightarrow> cs_PendingRepopulate s \<Longrightarrow> owes (snd (writeDNSConntrackState io s f))"
  by (cases io) (simp_all add: writeDNSConntrackState_def owes_written)

lemma write_ok:
  "fst (writeDNSConntrackState io s f) = None \<Longrightarrow> io = Done \<and> snd (writeDNSConntrackState io s f) = Content (conntrack_json s)"
  by (cases io) (simp_all add: writeDNSConntrackState_def)

subsection \<open>One Apply\<close>

definition result_of :: "nft_result \<Rightarrow> bool" where "result_of r = fst (fst (fst r))"
definition error_of :: "nft_result \<Rightarrow> nft_error option" where "error_of r = snd (fst (fst r))"
definition file_of :: "nft_result \<Rightarrow> file_content" where "file_of r = snd (fst r)"
definition actions_of :: "nft_result \<Rightarrow> nft_action list" where "actions_of r = snd r"

lemmas nft_result_simps [simp] = result_of_def error_of_def file_of_def actions_of_def

lemma apply_cleanup_facts:
  assumes "cs_PendingRepopulate s" "owes f"
  shows "owes (file_of (apply_cleanup env True s scopes f))" "result_of (apply_cleanup env True s scopes f)"
  using assms owes_write[of f "s\<lparr>cs_CleanupScopes := []\<rparr>"]
  by (auto simp: apply_cleanup_def split: prod.splits option.splits)
    (metis dns_conntrack_state.select_convs(6) dns_conntrack_state.surjective dns_conntrack_state.update_convs(5) snd_conv)

lemma apply_ruleset_facts:
  assumes "cs_PendingRepopulate s" "owes f"
  shows "owes (file_of (apply_ruleset env plan rebuilt True s scopes f))"
    "error_of (apply_ruleset env plan rebuilt True s scopes f) = None \<Longrightarrow>
      result_of (apply_ruleset env plan rebuilt True s scopes f)"
  using apply_cleanup_facts[OF assms, of env scopes] assms(2)
  by (auto simp: apply_ruleset_def map_prod_def split: prod.splits)

lemma clear_actions: "x \<in> set (snd (clear_each answer xs)) \<Longrightarrow> \<exists>scope protocol. x = ClearedConntrack scope protocol"
  by (induction answer xs rule: clear_each.induct) (auto split: if_splits)

lemma clearDNSConntrack_actions:
  assumes "clearDNSConntrack answer scopes = (e, acts)" "x \<in> set acts"
  shows "\<exists>scope protocol. x = ClearedConntrack scope protocol"
  using clear_actions[of x answer "concat (map (\<lambda>scope. [(scope, ''udp''), (scope, ''tcp'')]) scopes)"] assms
  by (simp add: clearDNSConntrack_def)

lemma wrote_actions: "x \<in> set (wrote io s) \<Longrightarrow> x = WroteState s"
  by (simp add: wrote_def split: if_splits)

lemma apply_cleanup_actions:
  assumes "x \<in> set (actions_of (apply_cleanup env rep s scopes f))"
  shows "(\<exists>scope protocol. x = ClearedConntrack scope protocol) \<or> (\<exists>s'. x = WroteState s')"
proof -
  obtain e acts where c: "clearDNSConntrack (ne_Conntrack env) scopes = (e, acts)" by fastforce
  obtain w f' where w: "writeDNSConntrackState (ne_Settled env) (s\<lparr>cs_CleanupScopes := []\<rparr>) f = (w, f')" by fastforce
  have "x \<in> set acts \<or> x \<in> set (wrote (ne_Settled env) (s\<lparr>cs_CleanupScopes := []\<rparr>))"
    using assms by (cases e) (auto simp: apply_cleanup_def c w split: if_splits)
  then show ?thesis using clearDNSConntrack_actions[OF c] wrote_actions by blast
qed

lemma apply_ruleset_loads:
  "LoadedRuleset \<in> set (actions_of (apply_ruleset env plan rebuilt rep s scopes f)) \<Longrightarrow> rebuilt"
  using apply_cleanup_actions[of LoadedRuleset env rep s scopes f] by (auto simp: apply_ruleset_def split: if_splits)

text \<open>An Apply, by what it found in the file.\<close>

definition needs_refill :: "nft_env \<Rightarrow> firewall_plan \<Rightarrow> dns_conntrack_state option \<Rightarrow> bool" where
  "needs_refill env plan previous \<longleftrightarrow>
     NftObserve (ne_Listing env) \<noteq> Inr (Fingerprint plan) \<or>
     (case previous of None \<Rightarrow> True | Some p \<Rightarrow> cs_PendingRepopulate p) \<or>
     dnsConntrackCleanupScopes previous (dnsConntrackStateFor plan) \<noteq> []"

definition transition_for :: "firewall_plan \<Rightarrow> dns_conntrack_state option \<Rightarrow> dns_conntrack_state" where
  "transition_for plan previous =
     (dnsConntrackStateFor plan)\<lparr>cs_PendingRepopulate := True,
        cs_CleanupScopes := dnsConntrackCleanupScopes previous (dnsConntrackStateFor plan)\<rparr>"

lemma NftApply_eq:
  assumes "ne_Locked env" "readDNSConntrackState f = Inr previous"
  shows "NftApply env plan f =
    apply_transition env plan (NftObserve (ne_Listing env) \<noteq> Inr (Fingerprint plan)) (needs_refill env plan previous)
      ((dnsConntrackStateFor plan)\<lparr>cs_PendingRepopulate := needs_refill env plan previous,
         cs_CleanupScopes := dnsConntrackCleanupScopes previous (dnsConntrackStateFor plan)\<rparr>)
      (dnsConntrackCleanupScopes previous (dnsConntrackStateFor plan)) f"
  unfolding NftApply_def needs_refill_def Let_def assms(2) using assms(1) by simp

lemma NftApply_quiet:
  assumes "ne_Locked env" "readDNSConntrackState f = Inr previous" "\<not> needs_refill env plan previous"
  shows "NftApply env plan f = (((False, None), f), [])"
  unfolding NftApply_eq[OF assms(1,2)] using assms(3)
  by (auto simp: apply_transition_def apply_ruleset_def apply_cleanup_def clearDNSConntrack_def needs_refill_def)

lemma NftApply_refill:
  assumes "ne_Locked env" "readDNSConntrackState f = Inr previous" "needs_refill env plan previous"
  shows "NftApply env plan f =
    (case writeDNSConntrackState (ne_State env) (transition_for plan previous) f of
       (Some e, f') \<Rightarrow> (((False, Some e), f'), wrote (ne_State env) (transition_for plan previous))
     | (None, f') \<Rightarrow> map_prod id ((#) (WroteState (transition_for plan previous)))
         (apply_ruleset env plan (NftObserve (ne_Listing env) \<noteq> Inr (Fingerprint plan)) True
           (transition_for plan previous)
           (dnsConntrackCleanupScopes previous (dnsConntrackStateFor plan)) f'))"
proof -
  have "needs_refill env plan previous = True" using assms(3) by simp
  then show ?thesis
    unfolding NftApply_eq[OF assms(1,2)] apply_transition_def transition_for_def by (simp only: not_True_eq_False if_False)
qed

lemma NftApply_cases:
  obtains (locked) "\<not> ne_Locked env" "NftApply env plan f = (((False, Some TransitionLock), f), [])"
    | (unread) e where "ne_Locked env" "readDNSConntrackState f = Inl e" "NftApply env plan f = (((False, Some e), f), [])"
    | (quiet) previous where "ne_Locked env" "readDNSConntrackState f = Inr previous" "\<not> needs_refill env plan previous"
        "NftApply env plan f = (((False, None), f), [])"
    | (refill) previous where "ne_Locked env" "readDNSConntrackState f = Inr previous" "needs_refill env plan previous"
proof (cases "ne_Locked env")
  case True
  show ?thesis
  proof (cases "readDNSConntrackState f")
    case (Inl e)
    with True unread[of e] show ?thesis by (simp add: NftApply_def Let_def)
  next
    case (Inr previous)
    with True quiet[of previous] refill[of previous] NftApply_quiet[OF True Inr, of plan] show ?thesis by blast
  qed
next
  case False
  with locked show ?thesis by (simp add: NftApply_def)
qed

lemma transition_pending [simp]: "cs_PendingRepopulate (transition_for plan previous)"
  by (simp add: transition_for_def)

lemma refill_facts:
  assumes "ne_Locked env" "readDNSConntrackState f = Inr previous" "needs_refill env plan previous"
  shows "owes f \<or> ne_State env \<noteq> Failed \<Longrightarrow> owes (file_of (NftApply env plan f))"
    "error_of (NftApply env plan f) = None \<Longrightarrow> result_of (NftApply env plan f)"
    "LoadedRuleset \<in> set (actions_of (NftApply env plan f)) \<Longrightarrow> ne_State env = Done"
proof -
  let ?t = "transition_for plan previous"
  define rebuilt where "rebuilt \<longleftrightarrow> NftObserve (ne_Listing env) \<noteq> Inr (Fingerprint plan)"
  define scopes where "scopes = dnsConntrackCleanupScopes previous (dnsConntrackStateFor plan)"
  obtain e f' where w: "writeDNSConntrackState (ne_State env) ?t f = (e, f')" by fastforce
  note eq = NftApply_refill[OF assms, folded rebuilt_def scopes_def, unfolded w prod.case]
  have stored: "ne_State env = Done \<and> f' = Content (conntrack_json ?t)" if "e = None"
    using write_ok[of "ne_State env" ?t f] w that by simp
  have written: "owes (Content (conntrack_json ?t))" by (rule owes_written) simp
  have owes': "owes f' \<Longrightarrow> owes (file_of (apply_ruleset env plan rebuilt True ?t scopes f'))"
    by (rule apply_ruleset_facts(1)) simp
  have result': "owes f' \<Longrightarrow> error_of (apply_ruleset env plan rebuilt True ?t scopes f') = None \<Longrightarrow>
      result_of (apply_ruleset env plan rebuilt True ?t scopes f')"
    by (rule apply_ruleset_facts(2)) simp_all
  show "error_of (NftApply env plan f) = None \<Longrightarrow> result_of (NftApply env plan f)"
    using result' stored written unfolding eq by (cases e) simp_all
  show "LoadedRuleset \<in> set (actions_of (NftApply env plan f)) \<Longrightarrow> ne_State env = Done"
    using stored wrote_actions[of LoadedRuleset "ne_State env" ?t] unfolding eq by (cases e) auto
  assume "owes f \<or> ne_State env \<noteq> Failed"
  then have "owes f'" using written w by (cases "ne_State env") (auto simp: writeDNSConntrackState_def)
  then show "owes (file_of (NftApply env plan f))"
    using owes' unfolding eq by (cases e) simp_all
qed

text \<open>What an Apply keeps and reports.\<close>

lemma apply_keeps: "owes f \<Longrightarrow> owes (file_of (NftApply env plan f))"
  by (cases rule: NftApply_cases[of env plan f]) (use refill_facts(1)[of env f _ plan] in auto)

lemma apply_reports:
  assumes "owes f" "error_of (NftApply env plan f) = None"
  shows "result_of (NftApply env plan f)"
proof (cases rule: NftApply_cases[of env plan f])
  case (quiet previous)
  then show ?thesis using assms(1) by (auto simp: owes_def needs_refill_def split: option.splits)
qed (use assms refill_facts(2)[of env f _ plan] in auto)

lemma apply_loads:
  assumes "LoadedRuleset \<in> set (actions_of (NftApply env plan f))"
  shows "owes (file_of (NftApply env plan f))"
proof (cases rule: NftApply_cases[of env plan f])
  case (refill previous)
  then show ?thesis using refill_facts(1,3)[OF refill] assms by simp
qed (use assms in simp_all)

subsection \<open>The contract of the packet filter's port\<close>

text \<open>
  What the reconciler relies on (\<open>ports.FirewallManager\<close>): an Apply that replaced the table leaves a
  debt, a debt survives every further Apply, and an Apply without error reports it.
\<close>

locale refill_port =
  fixes apply_step :: "'env \<Rightarrow> 'plan \<Rightarrow> 'st \<Rightarrow> (bool \<times> 'err option) \<times> 'st"
    and loads :: "'env \<Rightarrow> 'plan \<Rightarrow> 'st \<Rightarrow> bool"
    and debt :: "'st \<Rightarrow> bool"
  assumes load_leaves_debt: "loads env plan st \<Longrightarrow> debt (snd (apply_step env plan st))"
    and debt_survives: "debt st \<Longrightarrow> debt (snd (apply_step env plan st))"
    and debt_is_reported: "debt st \<Longrightarrow> snd (fst (apply_step env plan st)) = None \<Longrightarrow> fst (fst (apply_step env plan st))"
begin

definition run :: "('env \<times> 'plan) list \<Rightarrow> 'st \<Rightarrow> 'st" where
  "run steps st = foldl (\<lambda>st (env, plan). snd (apply_step env plan st)) st steps"

lemma debt_survives_run: "debt st \<Longrightarrow> debt (run steps st)"
  by (induction steps arbitrary: st) (auto simp: run_def debt_survives)

lemma reported_until_committed:
  assumes "loads env plan st"
    and "apply_step env' plan' (run steps (snd (apply_step env plan st))) = ((repopulate, None), st')"
  shows "repopulate"
proof -
  have "debt (run steps (snd (apply_step env plan st)))"
    by (rule debt_survives_run[OF load_leaves_debt[OF assms(1)]])
  from debt_is_reported[OF this, of env' plan'] assms(2) show ?thesis by simp
qed

end

interpretation packet_filter: refill_port
    "\<lambda>env plan f. fst (NftApply env plan f)"
    "\<lambda>env plan f. LoadedRuleset \<in> set (snd (NftApply env plan f))" owes
proof unfold_locales
  fix env plan st
  show "LoadedRuleset \<in> set (snd (NftApply env plan st)) \<Longrightarrow> owes (snd (fst (NftApply env plan st)))"
    using apply_loads[of env plan st] by simp
  show "owes st \<Longrightarrow> owes (snd (fst (NftApply env plan st)))"
    using apply_keeps[of st env plan] by simp
  show "owes st \<Longrightarrow> snd (fst (fst (NftApply env plan st))) = None \<Longrightarrow> fst (fst (fst (NftApply env plan st)))"
    using apply_reports[of st env plan] by simp
qed

end
