(* ===== verification/NftFacts.thy ===== *)
theory NftFacts
  imports Nftables HostFacts
begin

text \<open>
  What a rendered chain decides.  A chain is read the way \<open>nft(8)\<close> documents it: rule by rule, and
  the first matching rule that carries a verdict ends it.  What one packet matches is a parameter,
  \<open>holds\<close>; where a theorem is about a client, \<open>packet_of\<close> says what the packet's interfaces and
  source address are.
\<close>

subsection \<open>Verdicts and marks\<close>

fun terminal :: "nft_stmt \<Rightarrow> bool" where
  "terminal (SetMark m) = False"
| "terminal SaveMark = False"
| "terminal (ClampMSS n) = False"
| "terminal _ = True"

fun verdict :: "(nft_match \<Rightarrow> bool) \<Rightarrow> nft_rule list \<Rightarrow> nft_stmt option" where
  "verdict holds [] = None"
| "verdict holds (r # rs) =
     (case (if list_all holds (fst r) then find terminal (snd r) else None) of
        None \<Rightarrow> verdict holds rs
      | Some v \<Rightarrow> Some v)"

text \<open>The packet's mark when the chain ends.\<close>

definition set_mark :: "32 word \<Rightarrow> nft_stmt list \<Rightarrow> 32 word" where
  "set_mark = foldl (\<lambda>m s. case s of SetMark w \<Rightarrow> w | _ \<Rightarrow> m)"

fun mark_after :: "(nft_match \<Rightarrow> bool) \<Rightarrow> nft_rule list \<Rightarrow> 32 word \<Rightarrow> 32 word" where
  "mark_after holds [] m = m"
| "mark_after holds (r # rs) m =
     (if \<not> list_all holds (fst r) then mark_after holds rs m
      else if find terminal (snd r) = None then mark_after holds rs (set_mark m (snd r))
      else set_mark m (snd r))"

lemma verdict_append [simp]:
  "verdict holds (rs @ rs') = (case verdict holds rs of None \<Rightarrow> verdict holds rs' | Some v \<Rightarrow> Some v)"
  by (induction rs) (auto split: option.splits)

lemma verdict_map [simp]:
  assumes "terminal v"
  shows "verdict holds (map (\<lambda>x. (f x, [v])) xs) = (if \<exists>x \<in> set xs. list_all holds (f x) then Some v else None)"
  using assms by (induction xs) auto

lemma verdict_dns_pair [simp]:
  assumes "terminal v"
  shows "verdict holds (dns_pair ms v) =
    (if list_all holds ms \<and> (holds (Dport ''udp'' 53) \<or> holds (Dport ''tcp'' 53)) then Some v else None)"
  using assms by (auto simp: dns_pair_def)

lemma verdict_internals [simp]:
  "verdict holds (map (\<lambda>n. (f n, [SetMark (m n)])) xs) = None"
  by (induction xs) auto

lemma set_mark_simps [simp]:
  "set_mark m [] = m" "set_mark m (SetMark w # ss) = set_mark w ss" "set_mark m (SaveMark # ss) = set_mark m ss"
  "set_mark m (Return # ss) = set_mark m ss" "set_mark m (Accept # ss) = set_mark m ss"
  by (simp_all add: set_mark_def)

text \<open>Rules that end the chain when they match: the first match decides.\<close>

lemma mark_after_first:
  "mark_after holds (map (\<lambda>x. (f x, [SetMark (w x), SaveMark, Return])) xs @ rs) m =
     (case find (\<lambda>x. list_all holds (f x)) xs of Some x \<Rightarrow> w x | None \<Rightarrow> mark_after holds rs m)"
  by (induction xs) auto

text \<open>Rules that only set the mark, of which one matches.\<close>

lemma mark_after_none:
  assumes "\<forall>x \<in> set xs. \<not> list_all holds (f x)"
  shows "mark_after holds (map (\<lambda>x. (f x, [SetMark (w x)])) xs @ rs) m = mark_after holds rs m"
  using assms by (induction xs) auto

lemma mark_after_unique:
  assumes "x \<in> set xs" "\<And>y. y \<in> set xs \<Longrightarrow> list_all holds (f y) \<longleftrightarrow> y = x"
  shows "mark_after holds (map (\<lambda>x. (f x, [SetMark (w x)])) xs @ rs) m = mark_after holds rs (w x)"
  using assms
proof (induction xs arbitrary: m)
  case Nil
  then show ?case by simp
next
  case (Cons y ys)
  show ?case
  proof (cases "x \<in> set ys")
    case True
    with Cons show ?thesis by auto
  next
    case False
    with Cons.prems have "y = x" by auto
    moreover have "\<forall>z \<in> set ys. \<not> list_all holds (f z)"
      using False Cons.prems(2) by auto
    ultimately show ?thesis
      using Cons.prems mark_after_none[of ys holds f w rs] by simp
  qed
qed

subsection \<open>Set names\<close>

lemma replace_dash_inj:
  assumes "identifierPattern a" "identifierPattern b"
    and "ReplaceByte CHR ''-'' CHR ''_'' a = ReplaceByte CHR ''-'' CHR ''_'' b"
  shows "a = b"
proof -
  let ?f = "\<lambda>c. if c = CHR ''-'' then CHR ''_'' else c"
  have plain: "CHR ''_'' \<notin> set x" if "identifierPattern x" for x
    using that unfolding identifierPattern_def
    by (auto split: list.splits simp: list_all_iff is_lower_def is_digit_def code_def)
  have "inj_on ?f (set a \<union> set b)"
    using plain[OF assms(1)] plain[OF assms(2)] by (auto simp: inj_on_def)
  then show ?thesis
    using assms(3) by (simp add: ReplaceByte_def inj_on_map_eq_map)
qed

definition set_has :: "firewall_plan \<Rightarrow> string \<Rightarrow> string \<Rightarrow> bool" where
  "set_has plan name a \<longleftrightarrow> (\<exists>st \<in> set (declared_sets plan). st_Name st = name \<and> a \<in> set (st_Elements st))"

text \<open>The packet comes in on one interface, leaves on another and is sent from an address.\<close>

definition packet_of ::
    "firewall_plan \<Rightarrow> (nft_match \<Rightarrow> bool) \<Rightarrow> string \<Rightarrow> string \<Rightarrow> string \<Rightarrow> bool" where
  "packet_of plan holds input output source \<longleftrightarrow>
     (\<forall>neg i. holds (Iifname neg i) \<longleftrightarrow> (i = input) \<noteq> neg) \<and>
     (\<forall>neg i. holds (Oifname neg i) \<longleftrightarrow> (i = output) \<noteq> neg) \<and>
     (\<forall>name. holds (SaddrIn name) \<longleftrightarrow> set_has plan name source) \<and>
     (\<forall>w. holds (Saddr False (string_v4 w)) \<longleftrightarrow> source = string_v4 w)"

definition names_ok :: "firewall_plan \<Rightarrow> bool" where
  "names_ok plan \<longleftrightarrow>
     (\<forall>g \<in> set (fp_Egresses plan). identifierPattern (eg_ID g)) \<and>
     (\<forall>n \<in> set (fp_Internals plan). identifierPattern (in_TunnelID n) \<and> in_TunnelID n \<noteq> EgressDirect) \<and>
     (\<forall>e \<in> set (fp_Socks plan). identifierPattern (se_TunnelID e)) \<and>
     distinct (map eg_ID (fp_Egresses plan) @ map in_TunnelID (fp_Internals plan))"

lemma setName_eq: "setName g = ''client_'' @ ReplaceByte CHR ''-'' CHR ''_'' (eg_ID g)"
  by (simp add: setName_def EgressDirect_def ReplaceByte_def)

lemma direct_identifier [simp]: "identifierPattern EgressDirect"
  by code_simp

lemma admitted_identifier: "identifierPattern ''admitted''" "ReplaceByte CHR ''-'' CHR ''_'' ''admitted'' = ''admitted''"
  by code_simp+

lemma dnsClientSetName_admitted:
  "identifierPattern i \<Longrightarrow> dnsClientSetName i = admittedSetName \<longleftrightarrow> i = ''admitted''"
  using replace_dash_inj[of i "''admitted''"] admitted_identifier
  by (auto simp: dnsClientSetName_def admittedSetName_def)

lemmas set_names = setName_eq admittedSetName_def dnsClientSetName_def allowedSetName_def internalSetName_def

lemma name_heads [simp]:
  "hd (setName g) = CHR ''c''" "hd admittedSetName = CHR ''d''" "hd (dnsClientSetName i) = CHR ''d''"
  "hd (allowedSetName i) = CHR ''a''" "hd (internalSetName i) = CHR ''i''"
  by (simp_all add: set_names)

lemma family_heads:
  "st \<in> set (group_sets p) \<Longrightarrow> hd (st_Name st) = CHR ''c''"
  "st \<in> set (admitted_sets p) \<Longrightarrow> hd (st_Name st) = CHR ''d''"
  "st \<in> set (dns_client_sets p) \<Longrightarrow> hd (st_Name st) = CHR ''d''"
  "st \<in> set (allowed_client_sets p) \<Longrightarrow> hd (st_Name st) = CHR ''a''"
  "st \<in> set (internal_sets p) \<Longrightarrow> hd (st_Name st) = CHR ''i''"
  by (auto simp: group_sets_def admitted_sets_def dns_client_sets_def allowed_client_sets_def internal_sets_def
      split: if_splits)

lemma declared_in_family:
  assumes "st \<in> set (declared_sets p)"
  shows "(hd (st_Name st) = CHR ''c'' \<and> st \<in> set (group_sets p)) \<or>
    (hd (st_Name st) = CHR ''d'' \<and> (st \<in> set (admitted_sets p) \<or> st \<in> set (dns_client_sets p))) \<or>
    (hd (st_Name st) = CHR ''a'' \<and> st \<in> set (allowed_client_sets p)) \<or>
    (hd (st_Name st) = CHR ''i'' \<and> st \<in> set (internal_sets p))"
proof -
  consider "st \<in> set (group_sets p)" | "st \<in> set (admitted_sets p)" | "st \<in> set (dns_client_sets p)" |
      "st \<in> set (allowed_client_sets p)" | "st \<in> set (internal_sets p)"
    using assms by (auto simp: declared_sets_def)
  then show ?thesis using family_heads[of st p] by cases simp_all
qed

lemma family_declared:
  "st \<in> set (group_sets p) \<Longrightarrow> st \<in> set (declared_sets p)"
  "st \<in> set (admitted_sets p) \<Longrightarrow> st \<in> set (declared_sets p)"
  "st \<in> set (dns_client_sets p) \<Longrightarrow> st \<in> set (declared_sets p)"
  "st \<in> set (allowed_client_sets p) \<Longrightarrow> st \<in> set (declared_sets p)"
  by (simp_all add: declared_sets_def)

lemma group_of_id:
  assumes "names_ok p" "g \<in> set (fp_Egresses p)" "h \<in> set (fp_Egresses p)" "eg_ID g = eg_ID h"
  shows "g = h"
  using assms by (auto simp: names_ok_def distinct_map dest: inj_onD)

lemma setName_inj:
  assumes "names_ok p" "g \<in> set (fp_Egresses p)" "h \<in> set (fp_Egresses p)"
  shows "setName g = setName h \<longleftrightarrow> g = h"
proof
  assume eq: "setName g = setName h"
  have "identifierPattern (eg_ID g)" "identifierPattern (eg_ID h)"
    using assms by (simp_all add: names_ok_def)
  then have "eg_ID g = eg_ID h"
    by (rule replace_dash_inj) (use eq in \<open>simp add: setName_eq\<close>)
  then show "g = h" using group_of_id assms by blast
qed simp

lemma set_has_client:
  assumes "names_ok p" "g \<in> set (fp_Egresses p)"
  shows "set_has p (setName g) a \<longleftrightarrow> a \<in> set (eg_Addresses g)"
proof
  assume "set_has p (setName g) a"
  then obtain st where "st \<in> set (declared_sets p)" "st_Name st = setName g" "a \<in> set (st_Elements st)"
    by (auto simp: set_has_def)
  then obtain h where "h \<in> set (fp_Egresses p)" "setName h = setName g" "a \<in> set (eg_Addresses h)"
    using declared_in_family[of st p] by (auto simp: group_sets_def)
  then show "a \<in> set (eg_Addresses g)" using setName_inj[OF assms(1)] assms(2) by metis
next
  assume "a \<in> set (eg_Addresses g)"
  then show "set_has p (setName g) a"
    unfolding set_has_def using assms(2)
    by (intro bexI[of _ "\<lparr>st_Name = setName g, st_Interval = False, st_Elements = eg_Addresses g\<rparr>"])
      (auto intro!: family_declared(1) simp: group_sets_def)
qed

lemma add_allowed_iff:
  "(i, c) \<in> set (add_allowed seen xs) \<longleftrightarrow> i \<noteq> [] \<and> i \<noteq> EgressDirect \<and> i \<notin> set seen \<and> map_of xs i = Some c"
  by (induction seen xs rule: add_allowed.induct) (auto split: if_splits)

lemma allowedSets_identifier:
  assumes "names_ok p" "(i, c) \<in> set (allowedSets p)"
  shows "identifierPattern i"
proof -
  let ?ids = "map eg_ID (fp_Egresses p) @ map in_TunnelID (fp_Internals p) @ map se_TunnelID (fp_Socks p)"
  have "i \<in> set ?ids"
    using assms(2) by (auto simp: allowedSets_def add_allowed_iff dest!: map_of_SomeD)
  then show ?thesis using assms(1) by (auto simp: names_ok_def)
qed

lemma set_has_allowed:
  assumes "names_ok p" "identifierPattern i"
  shows "set_has p (allowedSetName i) a \<longleftrightarrow> (\<exists>c. (i, c) \<in> set (allowedSets p) \<and> a \<in> set c)"
proof
  assume "set_has p (allowedSetName i) a"
  then obtain st where "st \<in> set (declared_sets p)" "st_Name st = allowedSetName i" "a \<in> set (st_Elements st)"
    by (auto simp: set_has_def)
  then obtain j c where jc: "(j, c) \<in> set (allowedSets p)" "allowedSetName j = allowedSetName i" "a \<in> set c"
    using declared_in_family[of st p] by (auto simp: allowed_client_sets_def)
  have "j = i"
    using replace_dash_inj[OF allowedSets_identifier[OF assms(1) jc(1)] assms(2)] jc(2) by (simp add: allowedSetName_def)
  then show "\<exists>c. (i, c) \<in> set (allowedSets p) \<and> a \<in> set c" using jc by blast
next
  assume "\<exists>c. (i, c) \<in> set (allowedSets p) \<and> a \<in> set c"
  then obtain c where "(i, c) \<in> set (allowedSets p)" "a \<in> set c" by blast
  then show "set_has p (allowedSetName i) a"
    unfolding set_has_def
    by (intro bexI[of _ "\<lparr>st_Name = allowedSetName i, st_Interval = False, st_Elements = c\<rparr>"])
      (auto intro!: family_declared(4) image_eqI[of _ _ "(i, c)"] simp: allowed_client_sets_def)
qed

lemma dnsDestinationFor_Some:
  assumes "dnsDestinationFor g ds = Some d"
  shows "d \<in> set ds" "dn_ClientAddresses d = eg_Addresses g"
  using assms by (auto simp: dnsDestinationFor_def find_Some_iff)

lemma resolved_groups_iff:
  "(g, d) \<in> set (resolved_groups p) \<longleftrightarrow>
     g \<in> set (fp_Egresses p) \<and> dnsDestinationFor g (fp_DNSDestinations p) = Some d \<and> eg_Addresses g \<noteq> []"
proof -
  have "(case dnsDestinationFor h (fp_DNSDestinations p) of None \<Rightarrow> None
      | Some d' \<Rightarrow> if dn_ClientAddresses d' = [] then None else Some (h, d')) = Some (g, d) \<longleftrightarrow>
    h = g \<and> dnsDestinationFor g (fp_DNSDestinations p) = Some d \<and> eg_Addresses g \<noteq> []" for h
    using dnsDestinationFor_Some(2)[of h "fp_DNSDestinations p"]
    by (cases "dnsDestinationFor h (fp_DNSDestinations p)") auto
  then show ?thesis by (simp add: resolved_groups_def set_map_filter_iff)
qed

lemma set_has_admitted:
  assumes "names_ok p"
  shows "set_has p admittedSetName a \<longleftrightarrow> (\<exists>g \<in> set (fp_Egresses p). a \<in> set (eg_Addresses g))"
proof
  assume "set_has p admittedSetName a"
  then obtain st where "st \<in> set (declared_sets p)" "st_Name st = admittedSetName" "a \<in> set (st_Elements st)"
    by (auto simp: set_has_def)
  then consider "st \<in> set (admitted_sets p)" | "st \<in> set (dns_client_sets p)"
    using declared_in_family[of st p] by auto
  then show "\<exists>g \<in> set (fp_Egresses p). a \<in> set (eg_Addresses g)"
  proof cases
    case 1
    with \<open>a \<in> set (st_Elements st)\<close> show ?thesis
      by (auto simp: admitted_sets_def admittedDNSClients_def split: if_splits)
  next
    case 2
    then obtain g d where "(g, d) \<in> set (resolved_groups p)" "st_Elements st = dn_ClientAddresses d"
      by (auto simp: dns_client_sets_def)
    with \<open>a \<in> set (st_Elements st)\<close> show ?thesis
      using dnsDestinationFor_Some(2)[of g "fp_DNSDestinations p" d] by (auto simp: resolved_groups_iff)
  qed
next
  assume "\<exists>g \<in> set (fp_Egresses p). a \<in> set (eg_Addresses g)"
  then have "a \<in> set (admittedDNSClients p)" by (auto simp: admittedDNSClients_def)
  then show "set_has p admittedSetName a"
    unfolding set_has_def
    by (intro bexI[of _ "\<lparr>st_Name = admittedSetName, st_Interval = False, st_Elements = admittedDNSClients p\<rparr>"])
      (auto intro!: family_declared(2) simp: admitted_sets_def)
qed

lemma set_has_dns:
  assumes "names_ok p" "(g, d) \<in> set (resolved_groups p)" "eg_ID g \<noteq> ''admitted''"
  shows "set_has p (dnsClientSetName (eg_ID g)) a \<longleftrightarrow> a \<in> set (eg_Addresses g)"
proof
  have ids: "\<And>h. h \<in> set (fp_Egresses p) \<Longrightarrow> identifierPattern (eg_ID h)" using assms(1) by (auto simp: names_ok_def)
  have g: "g \<in> set (fp_Egresses p)" using assms(2) by (simp add: resolved_groups_iff)
  assume "set_has p (dnsClientSetName (eg_ID g)) a"
  then obtain st where "st \<in> set (declared_sets p)" "st_Name st = dnsClientSetName (eg_ID g)" "a \<in> set (st_Elements st)"
    by (auto simp: set_has_def)
  moreover have "st_Name st \<noteq> admittedSetName"
    using dnsClientSetName_admitted[OF ids[OF g]] assms(3) calculation by simp
  ultimately obtain h e where he: "(h, e) \<in> set (resolved_groups p)"
      "dnsClientSetName (eg_ID h) = dnsClientSetName (eg_ID g)" "a \<in> set (dn_ClientAddresses e)"
    using declared_in_family[of st p] by (auto simp: admitted_sets_def dns_client_sets_def split: if_splits)
  then have h: "h \<in> set (fp_Egresses p)" "eg_Addresses h = dn_ClientAddresses e"
    by (auto simp: resolved_groups_iff dest: dnsDestinationFor_Some(2))
  have "eg_ID h = eg_ID g"
    using replace_dash_inj[OF ids[OF h(1)] ids[OF g]] he(2) by (simp add: dnsClientSetName_def)
  then show "a \<in> set (eg_Addresses g)" using group_of_id[OF assms(1) h(1) g] he(3) h(2) by simp
next
  assume "a \<in> set (eg_Addresses g)"
  moreover have "dn_ClientAddresses d = eg_Addresses g"
    using assms(2) by (auto simp: resolved_groups_iff dest: dnsDestinationFor_Some(2))
  ultimately show "set_has p (dnsClientSetName (eg_ID g)) a"
    unfolding set_has_def using assms(2)
    by (intro bexI[of _ "\<lparr>st_Name = dnsClientSetName (eg_ID g), st_Interval = False, st_Elements = dn_ClientAddresses d\<rparr>"])
      (auto intro!: family_declared(3) image_eqI[of _ _ "(g, d)"] simp: dns_client_sets_def)
qed

end
