(* ===== verification/NftPolicy.thy ===== *)
theory NftPolicy
  imports NftFacts
begin

text \<open>
  The policy each chain implements, and the lemmas that the rendered chains implement it for every
  plan: forwarding, the kill switch of the output chain, the marks, and the resolver port.
\<close>

subsection \<open>Forwarding\<close>

text \<open>From a client to somewhere else than a client.\<close>

definition client_may_leave :: "firewall_plan \<Rightarrow> (nft_match \<Rightarrow> bool) \<Rightarrow> bool" where
  "client_may_leave plan holds \<longleftrightarrow>
     (\<exists>g \<in> set (fp_Egresses plan). holds (SaddrIn (setName g)) \<and> holds (Oifname False (eg_Interface g))) \<or>
     (\<exists>n \<in> set (fp_Internals plan). holds (SaddrIn (allowedSetName (in_TunnelID n))) \<and>
        holds (DaddrIn (internalSetName (in_TunnelID n))) \<and> holds (Oifname False (in_Interface n))) \<or>
     (\<exists>e \<in> set (fp_Socks plan). holds (SaddrIn (allowedSetName (se_TunnelID e))) \<and>
        holds (Oifname False (se_Interface e)) \<and> holds (Dport ''tcp'' (se_Port e)))"

text \<open>From a proxy's namespace to the internet.\<close>

definition proxy_may_leave :: "firewall_plan \<Rightarrow> (nft_match \<Rightarrow> bool) \<Rightarrow> bool" where
  "proxy_may_leave plan holds \<longleftrightarrow> holds (Oifname False (fp_UplinkInterface plan)) \<and>
     ((\<exists>g \<in> set (fp_Egresses plan). eg_Proxied g \<and> holds (Iifname False (eg_Interface g))) \<or>
      (\<exists>n \<in> set (fp_Internals plan). in_Proxied n \<and> holds (Iifname False (in_Interface n))))"

definition acl_matches :: "firewall_plan \<Rightarrow> (nft_match \<Rightarrow> bool) \<Rightarrow> bool" where
  "acl_matches plan holds \<longleftrightarrow> (\<exists>a \<in> set (fp_ClientACLs plan). list_all holds (fst (acl_rule plan a)))"

definition may_forward :: "firewall_plan \<Rightarrow> (nft_match \<Rightarrow> bool) \<Rightarrow> bool" where
  "may_forward plan holds \<longleftrightarrow>
     (let client = holds (Iifname False (fp_IngressInterface plan)) in
      holds Established \<or> acl_matches plan holds \<or>
      (\<not> (client \<and> (holds (Oifname False (fp_IngressInterface plan)) \<or> holds (Dport ''tcp'' 853))) \<and>
       (client \<and> client_may_leave plan holds \<or> proxy_may_leave plan holds)))"

lemma forward_verdict: "verdict holds (forward_rules plan) = Some Accept \<longleftrightarrow> may_forward plan holds"
proof -
  have acl: "map (acl_rule plan) acls = map (\<lambda>a. (fst (acl_rule plan a), [Accept])) acls" for acls
    by (simp add: acl_rule_def)
  show ?thesis
    unfolding forward_rules_def Let_def acl
    by (auto simp: may_forward_def acl_matches_def client_may_leave_def proxy_may_leave_def Let_def)
qed

subsection \<open>Marks\<close>

lemma prerouting_mark:
  "mark_after holds (prerouting_rules plan) m =
     (if holds (Iifname True (fp_IngressInterface plan)) then m
      else case find (\<lambda>n. holds (DaddrIn (internalSetName (in_TunnelID n)))) (fp_Internals plan) of
        Some n \<Rightarrow> in_Mark n
      | None \<Rightarrow> if holds (Daddr (fp_ClientCIDR plan)) then m
          else mark_after holds (map (\<lambda>g. ([SaddrIn (setName g)], [SetMark (eg_Mark g)])) (fp_Egresses plan) @
                 [([], [SaveMark])]) m)"
  using mark_after_first[of holds "\<lambda>n :: internal_network. [DaddrIn (internalSetName (in_TunnelID n))]" in_Mark]
  by (auto simp: prerouting_rules_def split: option.split)

lemma own_group_mark:
  assumes "names_ok plan" "g \<in> set (fp_Egresses plan)" "packet_of plan holds input output a"
    and "\<And>h. h \<in> set (fp_Egresses plan) \<Longrightarrow> a \<in> set (eg_Addresses h) \<longleftrightarrow> h = g"
  shows "mark_after holds (map (\<lambda>g. ([SaddrIn (setName g)], [SetMark (eg_Mark g)])) (fp_Egresses plan) @ rs) m =
    mark_after holds rs (eg_Mark g)"
  using assms(3) set_has_client[OF assms(1)] assms(4)
  by (intro mark_after_unique[OF assms(2)]) (simp add: packet_of_def)

subsection \<open>What the host itself may send\<close>

lemma verdict_marked:
  "verdict holds (map (\<lambda>x. ([MetaMark False (m x), Oifname True (i x)], [Drop])) xs) =
     (if \<exists>x \<in> set xs. holds (MetaMark False (m x)) \<and> holds (Oifname True (i x)) then Some Drop else None)"
  by (subst verdict_map) auto

lemma output_verdict:
  "verdict holds (output_rules plan) = Some Drop \<longleftrightarrow>
     holds (NfProto ''ipv6'') \<or>
     (\<exists>g \<in> set (fp_Egresses plan). eg_ID g \<noteq> EgressDirect \<and> holds (MetaMark False (eg_Mark g)) \<and>
        holds (Oifname True (eg_Interface g))) \<or>
     (\<exists>n \<in> set (fp_Internals plan). holds (MetaMark False (in_Mark n)) \<and> holds (Oifname True (in_Interface n)))"
  by (auto simp: output_rules_def verdict_marked)

lemma output_marks:
  "mark_after holds (output_mark_rules plan) m =
     (if holds marked then m
      else foldl (\<lambda>w n. if holds (DaddrIn (internalSetName (in_TunnelID n))) then in_Mark n else w) m (fp_Internals plan))"
proof -
  have "mark_after holds (map (\<lambda>n. ([DaddrIn (internalSetName (in_TunnelID n))], [SetMark (in_Mark n)])) ns) m =
    foldl (\<lambda>w n. if holds (DaddrIn (internalSetName (in_TunnelID n))) then in_Mark n else w) m ns" for ns :: "internal_network list"
    by (induction ns arbitrary: m) auto
  then show ?thesis by (simp add: output_mark_rules_def)
qed

subsection \<open>The resolver port\<close>

definition to_port_53 :: "(nft_match \<Rightarrow> bool) \<Rightarrow> bool" where
  "to_port_53 holds \<longleftrightarrow> holds (Dport ''udp'' 53) \<or> holds (Dport ''tcp'' 53)"

lemma verdict_concat_none:
  assumes "\<And>x. x \<in> set xs \<Longrightarrow> verdict holds (f x) = None"
  shows "verdict holds (concat (map f xs)) = None"
  using assms by (induction xs) auto

lemma verdict_concat_unique:
  assumes "x \<in> set xs" "\<And>y. y \<in> set xs \<Longrightarrow> y \<noteq> x \<Longrightarrow> verdict holds (f y) = None"
    and "verdict holds (f x) = Some v"
  shows "verdict holds (concat (map f xs)) = Some v"
  using assms
proof (induction xs)
  case (Cons y ys)
  show ?case
  proof (cases "y = x")
    case True
    with Cons.prems(3) show ?thesis by simp
  next
    case False
    with Cons show ?thesis by simp
  qed
qed simp

text \<open>A packet from a client that only its own group's resolver set names.\<close>

definition only_resolved_by ::
    "firewall_plan \<Rightarrow> (nft_match \<Rightarrow> bool) \<Rightarrow> egress_group \<Rightarrow> dns_destination \<Rightarrow> bool" where
  "only_resolved_by plan holds g d \<longleftrightarrow>
     holds (Iifname False (fp_IngressInterface plan)) \<and> (g, d) \<in> set (resolved_groups plan) \<and>
     (\<forall>(h, e) \<in> set (resolved_groups plan). holds (SaddrIn (dnsClientSetName (eg_ID h))) \<longleftrightarrow> (h, e) = (g, d))"

lemma client_dns_input:
  assumes "only_resolved_by plan holds g d" "to_port_53 holds"
  shows "verdict holds (input_rules plan) = Some (if holds (Daddr (dn_ResolverAddress d)) then Accept else Drop)"
proof -
  let ?v = "if holds (Daddr (dn_ResolverAddress d)) then Accept else Drop"
  have "verdict holds (concat (map (\<lambda>(g, d).
       dns_pair [Iifname False (fp_IngressInterface plan), SaddrIn (dnsClientSetName (eg_ID g)), Daddr (dn_ResolverAddress d)] Accept @
       dns_pair [Iifname False (fp_IngressInterface plan), SaddrIn (dnsClientSetName (eg_ID g))] Drop) (resolved_groups plan))) = Some ?v"
    by (rule verdict_concat_unique[where x = "(g, d)"])
      (use assms in \<open>auto simp: only_resolved_by_def to_port_53_def\<close>)
  then show ?thesis by (simp add: input_rules_def input_dns_rules_def Let_def)
qed

lemma client_dns_redirect:
  assumes "only_resolved_by plan holds g d" "to_port_53 holds"
  shows "verdict holds (prerouting_nat_rules plan) = Some (DnatTo (dn_ResolverAddress d))"
proof -
  have "verdict holds (concat (map (\<lambda>(g, d).
       dns_pair [Iifname False (fp_IngressInterface plan), SaddrIn (dnsClientSetName (eg_ID g))] (DnatTo (dn_ResolverAddress d)))
         (resolved_groups plan))) = Some (DnatTo (dn_ResolverAddress d))"
    by (rule verdict_concat_unique[where x = "(g, d)"])
      (use assms in \<open>auto simp: only_resolved_by_def to_port_53_def\<close>)
  then show ?thesis by (simp add: prerouting_nat_rules_def Let_def)
qed

lemma own_resolver_only:
  assumes "names_ok plan" "packet_of plan holds (fp_IngressInterface plan) output a" "(g, d) \<in> set (resolved_groups plan)"
    and "\<And>h. h \<in> set (fp_Egresses plan) \<Longrightarrow> a \<in> set (eg_Addresses h) \<longleftrightarrow> h = g"
    and "\<And>h. h \<in> set (fp_Egresses plan) \<Longrightarrow> eg_ID h \<noteq> ''admitted''"
  shows "only_resolved_by plan holds g d"
proof -
  have "holds (SaddrIn (dnsClientSetName (eg_ID h))) \<longleftrightarrow> (h, e) = (g, d)" if he: "(h, e) \<in> set (resolved_groups plan)" for h e
  proof -
    have h: "h \<in> set (fp_Egresses plan)" using he by (simp add: resolved_groups_iff)
    have "holds (SaddrIn (dnsClientSetName (eg_ID h))) \<longleftrightarrow> a \<in> set (eg_Addresses h)"
      using assms(2) set_has_dns[OF assms(1) he assms(5)[OF h]] by (simp add: packet_of_def)
    moreover have "h = g \<Longrightarrow> e = d" using he assms(3) by (simp add: resolved_groups_iff)
    ultimately show ?thesis using assms(4)[OF h] by auto
  qed
  then show ?thesis using assms(2,3) by (auto simp: only_resolved_by_def packet_of_def)
qed

text \<open>What a marked packet may reach on the host over loopback.\<close>

lemma marked_loopback_input:
  assumes "holds IifLo" "holds marked" "\<not> holds Established" "\<not> holds (Iifname False (fp_IngressInterface plan))"
  shows "verdict holds (input_rules plan) =
    Some (if serves_dns plan \<and> holds (Daddr (fp_DNSAddress plan)) \<and> to_port_53 holds then Accept else Drop)"
proof -
  have "verdict holds (concat (map (\<lambda>(g, d).
       dns_pair [Iifname False (fp_IngressInterface plan), SaddrIn (dnsClientSetName (eg_ID g)), Daddr (dn_ResolverAddress d)] Accept @
       dns_pair [Iifname False (fp_IngressInterface plan), SaddrIn (dnsClientSetName (eg_ID g))] Drop) (resolved_groups plan))) = None"
    using assms(4) by (intro verdict_concat_none) auto
  then have "verdict holds (input_dns_rules plan) = None"
    using assms(4) by (simp add: input_dns_rules_def Let_def)
  then show ?thesis using assms(1-3) by (auto simp: input_rules_def to_port_53_def)
qed

text \<open>What the hub's own ports answer to: neither clients nor the host itself.\<close>

lemma host_input:
  assumes "\<not> holds IifLo" "\<not> holds (Iifname False (fp_IngressInterface plan))"
  shows "verdict holds (input_rules plan) = Some Accept \<longleftrightarrow>
    holds Established \<or> holds ICMP \<or> holds (Dport ''tcp'' (fp_ManagementPort plan)) \<or>
    holds (Dport ''udp'' (fp_ListenPort plan)) \<or> (fp_RealityPort plan \<noteq> 0 \<and> holds (Dport ''tcp'' (fp_RealityPort plan)))"
    "verdict holds (input_rules plan) \<in> {None, Some Accept}"
proof -
  have "verdict holds (concat (map (\<lambda>(g, d).
       dns_pair [Iifname False (fp_IngressInterface plan), SaddrIn (dnsClientSetName (eg_ID g)), Daddr (dn_ResolverAddress d)] Accept @
       dns_pair [Iifname False (fp_IngressInterface plan), SaddrIn (dnsClientSetName (eg_ID g))] Drop) (resolved_groups plan))) = None"
    using assms(2) by (intro verdict_concat_none) auto
  then have "verdict holds (input_dns_rules plan) = None"
    using assms(2) by (simp add: input_dns_rules_def Let_def)
  then show "verdict holds (input_rules plan) = Some Accept \<longleftrightarrow>
    holds Established \<or> holds ICMP \<or> holds (Dport ''tcp'' (fp_ManagementPort plan)) \<or>
    holds (Dport ''udp'' (fp_ListenPort plan)) \<or> (fp_RealityPort plan \<noteq> 0 \<and> holds (Dport ''tcp'' (fp_RealityPort plan)))"
    "verdict holds (input_rules plan) \<in> {None, Some Accept}"
    using assms by (simp_all add: input_rules_def)
qed

end
