(* ===== verification/NftClaims.thy ===== *)
theory NftClaims
  imports NftPolicy HostClaims Reconcile
begin

text \<open>
  The rendered ruleset against the configuration: what a deployed device may reach, which mark its
  packets carry, where marked packets may leave, and whose resolver answers.  The ruleset is the one
  of a pass, the plan with the SOCKS endpoints of its namespaces.
\<close>

subsection \<open>The ruleset of a pass\<close>

definition v4_clients :: "desired_state \<Rightarrow> bool" where
  "v4_clients s \<longleftrightarrow> (\<exists>subnet. parseNetworkPrefix (hub_ClientCIDR (ds_Hub s)) = Some subnet \<and> Is4 (pfx_addr subnet))"

definition with_socks :: "firewall_plan \<Rightarrow> egress_spec list \<Rightarrow> firewall_plan" where
  "with_socks p specs = p\<lparr>fp_Socks := socksEndpoints specs p\<rparr>"

lemma with_socks_simps [simp]:
  "fp_Egresses (with_socks p specs) = fp_Egresses p" "fp_Internals (with_socks p specs) = fp_Internals p"
  "fp_ClientCIDR (with_socks p specs) = fp_ClientCIDR p" "fp_IngressInterface (with_socks p specs) = fp_IngressInterface p"
  "fp_UplinkInterface (with_socks p specs) = fp_UplinkInterface p" "fp_ClientACLs (with_socks p specs) = fp_ClientACLs p"
  "fp_DNSDestinations (with_socks p specs) = fp_DNSDestinations p" "fp_DNSAddress (with_socks p specs) = fp_DNSAddress p"
  "fp_Socks (with_socks p specs) = socksEndpoints specs p"
  by (simp_all add: with_socks_def)

lemma placed_ids:
  assumes "state_ok s" "BuildFirewallPlan s u = Inr p"
  shows "set (map pl_id (placements p)) = t_ID ` set (ds_Tunnels s)"
proof -
  obtain pairs permitted where parts: "mapE device_address (ds_Devices s) = Inr pairs"
    "fp_Egresses p = plan_groups s u pairs permitted"
    "fp_Internals p = internalNetworks (ds_Tunnels s) (internal_mark s pairs) permitted (proxied_map (ds_Tunnels s))"
    using plan_parts[OF assms(2)] by metis
  have "set (map pl_id (placements p)) = set (tunnel_egresses pairs (ds_Tunnels s)) \<union>
      t_ID ` {t \<in> set (ds_Tunnels s). t_Role t = RolePrivateNetwork}"
    unfolding placement_ids parts(2,3) internal_ids
      plan_tunnel_groups[OF state_ok_parts(5)[OF assms(1)]] tunnel_group_ids by auto
  moreover have "set (tunnel_egresses pairs (ds_Tunnels s)) = t_ID ` {t \<in> set (ds_Tunnels s). t_Role t = RoleEgress}"
    using egress_ids_of_tunnels[OF assms(1) parts(1)] by (force simp: set_tunnel_egresses)
  moreover have "t_Role t = RoleEgress \<or> t_Role t = RolePrivateNetwork" if "t \<in> set (ds_Tunnels s)" for t
    using state_ok_parts(7)[OF assms(1) that] by (auto simp: tunnel_state_ok_def)
  ultimately show ?thesis by blast
qed

lemma group_tunnels:
  assumes "state_ok s" "BuildFirewallPlan s u = Inr p" "g \<in> set (fp_Egresses p)" "eg_ID g \<noteq> EgressDirect"
  shows "eg_ID g \<in> t_ID ` set (ds_Tunnels s)"
  using assms(3,4) unfolding placed_ids[OF assms(1,2), symmetric] placement_ids by auto

lemma internal_tunnels:
  assumes "state_ok s" "BuildFirewallPlan s u = Inr p" "n \<in> set (fp_Internals p)"
  shows "in_TunnelID n \<in> t_ID ` set (ds_Tunnels s)"
  using assms(3) unfolding placed_ids[OF assms(1,2), symmetric] placement_ids by auto

lemma spec_tunnels:
  assumes "state_ok s" "BuildFirewallPlan s u = Inr p" "BuildEgressSpecs s p tunnels = Inr specs"
  shows "es_TunnelID ` set specs = t_ID ` set (ds_Tunnels s)"
  using arg_cong[OF egress_spec_ids(1)[OF assms(3)], of set] placed_ids[OF assms(1,2)] by simp

lemma socks_of_specs:
  "e \<in> set (socksEndpoints specs p) \<Longrightarrow>
     \<exists>sp \<in> set specs. se_TunnelID e = es_TunnelID sp \<and> se_Interface e = es_HostVeth sp \<and> se_Port e = es_SocksPort sp"
  by (auto simp: socksEndpoints_def Let_def)

lemma rendered_names_ok:
  assumes "state_ok s" "BuildFirewallPlan s u = Inr p" "BuildEgressSpecs s p tunnels = Inr specs"
  shows "names_ok (with_socks p specs)"
proof -
  have ident: "identifierPattern i \<and> i \<noteq> EgressDirect" if "i \<in> t_ID ` set (ds_Tunnels s)" for i
    using that state_ok_parts(7)[OF assms(1)] by (auto simp: tunnel_state_ok_def)
  obtain pairs permitted where parts: "fp_Egresses p = plan_groups s u pairs permitted"
    using plan_parts[OF assms(2)] by metis
  have groups: "identifierPattern (eg_ID g)" if "g \<in> set (fp_Egresses p)" for g
    using ident[OF group_tunnels[OF assms(1,2) that]] by (cases "eg_ID g = EgressDirect") auto
  have internals: "identifierPattern (in_TunnelID n) \<and> in_TunnelID n \<noteq> EgressDirect" if "n \<in> set (fp_Internals p)" for n
    by (rule ident[OF internal_tunnels[OF assms(1,2) that]])
  have socks: "identifierPattern (se_TunnelID e)" if "e \<in> set (socksEndpoints specs p)" for e
    using socks_of_specs[OF that] spec_tunnels[OF assms] ident by auto
  have "distinct (map eg_ID (fp_Egresses p))"
    unfolding parts by (rule group_ids_distinct[OF state_ok_parts(5)[OF assms(1)]])
  moreover have "distinct (map in_TunnelID (fp_Internals p))"
    using placement_ids_distinct[OF assms(1,2)] unfolding placement_ids by simp
  moreover have "set (map eg_ID (fp_Egresses p)) \<inter> set (map in_TunnelID (fp_Internals p)) = {}"
  proof -
    have "set (map eg_ID (filter (\<lambda>g. eg_ID g \<noteq> EgressDirect) (fp_Egresses p))) \<inter> set (map in_TunnelID (fp_Internals p)) = {}"
      using placement_ids_distinct[OF assms(1,2)] unfolding placement_ids distinct_append by blast
    then show ?thesis using internals by fastforce
  qed
  ultimately have "distinct (map eg_ID (fp_Egresses p) @ map in_TunnelID (fp_Internals p))"
    unfolding distinct_append by blast
  with groups internals socks show ?thesis by (simp add: names_ok_def)
qed

lemma admitted_device:
  assumes "state_ok s" "v4_clients s" "d \<in> set (ds_Devices s)" "hostAddress (dd_Address d) = Some a"
    and "mapE device_address (ds_Devices s) = Inr pairs"
  shows "a \<in> admitted s t \<longleftrightarrow> may_use t d"
proof -
  obtain subnet where sub: "parseNetworkPrefix (hub_ClientCIDR (ds_Hub s)) = Some subnet" "Is4 (pfx_addr subnet)"
    using assms(2) by (auto simp: v4_clients_def)
  have "e = d" if "e \<in> set (ds_Devices s)" "hostAddress (dd_Address e) = Some a" for e
  proof -
    have "(d, a) \<in> set pairs" "(e, a) \<in> set pairs"
      using assms(3,4) that pairs_iff(1)[OF assms(5)] by force+
    then show ?thesis
      using host_addresses_distinct[OF assms(1) sub assms(5)] unfolding distinct_map inj_on_def by fastforce
  qed
  then show ?thesis using assms(3,4) unfolding admitted_def mem_Collect_eq by blast
qed

text \<open>The \<open>allowed_\<close> set of a tunnel holds the clients that tunnel admits.\<close>

lemma allowed_set_of_tunnel:
  assumes "state_ok s" "BuildFirewallPlan s u = Inr p" "BuildEgressSpecs s p tunnels = Inr specs"
    and "t \<in> set (ds_Tunnels s)"
  shows "set_has (with_socks p specs) (allowedSetName (t_ID t)) a \<longleftrightarrow> a \<in> admitted s t"
proof -
  let ?q = "with_socks p specs"
  let ?groups = "map (\<lambda>g. (eg_ID g, eg_Clients g)) (fp_Egresses p)"
  let ?nets = "map (\<lambda>n. (in_TunnelID n, in_Clients n)) (fp_Internals p)"
  have t: "identifierPattern (t_ID t)" "t_ID t \<noteq> EgressDirect" "t_ID t \<noteq> []"
    using state_ok_parts(7)[OF assms(1,4)] by (auto simp: tunnel_state_ok_def identifierPattern_def)
  have dist: "distinct (map fst (?groups @ ?nets))"
    using rendered_names_ok[OF assms(1-3)] by (simp add: names_ok_def comp_def)
  have "\<exists>c. (t_ID t, c) \<in> set (?groups @ ?nets) \<and> set c = admitted s t"
  proof (cases "t_Role t = RoleEgress")
    case True
    then obtain g where "g \<in> set (fp_Egresses p)" "eg_ID g = t_ID t" "set (eg_Clients g) = admitted s t"
      using tunnel_clients[OF assms(1,2,4)] by auto
    then show ?thesis by (intro exI[of _ "eg_Clients g"]) force
  next
    case False
    then obtain n where "n \<in> set (fp_Internals p)" "in_TunnelID n = t_ID t" "set (in_Clients n) = admitted s t"
      using tunnel_clients[OF assms(1,2,4)] by auto
    then show ?thesis by (intro exI[of _ "in_Clients n"]) force
  qed
  then obtain c where c: "map_of (?groups @ ?nets) (t_ID t) = Some c" "set c = admitted s t"
    using map_of_is_SomeI[OF dist] by blast
  then have "map_of (?groups @ ?nets @ map (\<lambda>e. (se_TunnelID e, se_Clients e)) (fp_Socks ?q)) (t_ID t) = Some c"
    by (auto simp: map_add_def split: option.splits)
  then have "(t_ID t, c') \<in> set (allowedSets ?q) \<longleftrightarrow> c' = c" for c'
    using t by (auto simp: allowedSets_def add_allowed_iff)
  then show ?thesis
    using set_has_allowed[OF rendered_names_ok[OF assms(1-3)] t(1)] c(2) by simp
qed

subsection \<open>Forwarding\<close>

lemma interfaces_differ [simp]: "EgressInterface i \<noteq> IngressInterface" "EgressInterface i = EgressInterface j \<longleftrightarrow> i = j"
  by (simp_all add: EgressInterface_def IngressInterface_def)

lemma group_interface:
  assumes "state_ok s" "BuildFirewallPlan s u = Inr p" "g \<in> set (fp_Egresses p)"
  shows "eg_Interface g = (if eg_ID g = EgressDirect then u else EgressInterface (eg_ID g))"
    "eg_ID g = EgressDirect \<Longrightarrow> \<not> eg_Proxied g"
proof -
  obtain pairs permitted where parts: "fp_Egresses p = plan_groups s u pairs permitted"
    using plan_parts[OF assms(2)] by metis
  have direct: "g \<in> set (direct_group u pairs)" if "eg_ID g = EgressDirect"
    using assms(3) tunnel_groups_not_direct[OF state_ok_parts(5)[OF assms(1)], of g pairs permitted] that
    unfolding parts plan_groups_split by auto
  show "eg_ID g = EgressDirect \<Longrightarrow> \<not> eg_Proxied g"
    using direct by (auto simp: direct_group_def split: if_splits)
  show "eg_Interface g = (if eg_ID g = EgressDirect then u else EgressInterface (eg_ID g))"
    using tunnel_group_of(1)[of g s u pairs permitted] assms(3) direct unfolding parts
    by (auto simp: direct_group_def split: if_splits)
qed

lemma internal_interface:
  assumes "BuildFirewallPlan s u = Inr p" "n \<in> set (fp_Internals p)"
  shows "in_Interface n = EgressInterface (in_TunnelID n)"
    "\<exists>t \<in> set (ds_Tunnels s). t_ID t = in_TunnelID n \<and> t_Role t = RolePrivateNetwork"
proof -
  obtain pairs permitted where "fp_Internals p = internalNetworks (ds_Tunnels s) (internal_mark s pairs) permitted (proxied_map (ds_Tunnels s))"
    using plan_parts[OF assms(1)] by metis
  with assms(2) obtain t where "t \<in> set (ds_Tunnels s)" "t_Role t = RolePrivateNetwork" "in_TunnelID n = t_ID t"
    "in_Interface n = EgressInterface (t_ID t)"
    using internal_network_of[of n] by metis
  then show "in_Interface n = EgressInterface (in_TunnelID n)"
    "\<exists>t \<in> set (ds_Tunnels s). t_ID t = in_TunnelID n \<and> t_Role t = RolePrivateNetwork" by auto
qed

lemma spec_of_id:
  assumes "BuildEgressSpecs s p tunnels = Inr specs" "sp \<in> set specs"
  obtains i where "i < length (placements p)" "spec_at s i (placements p ! i) sp"
  using egress_specs_facts[OF assms(1)] assms(2) by (metis in_set_conv_nth)

lemma placement_device:
  assumes "state_ok s" "BuildFirewallPlan s u = Inr p" "pl \<in> set (placements p)"
  shows "pl_device pl = EgressInterface (pl_id pl)"
  using assms(3) group_interface(1)[OF assms(1,2)] internal_interface(1)[OF assms(2)]
  by (auto simp: placements_def)

lemma spec_device:
  assumes "state_ok s" "BuildFirewallPlan s u = Inr p" "BuildEgressSpecs s p tunnels = Inr specs" "sp \<in> set specs"
  shows "es_HostVeth sp = EgressInterface (es_TunnelID sp)" "es_SocksPort sp \<noteq> 0"
proof -
  obtain i where i: "i < length (placements p)" "spec_at s i (placements p ! i) sp"
    using spec_of_id[OF assms(3,4)] .
  then show "es_HostVeth sp = EgressInterface (es_TunnelID sp)"
    using placement_device[OF assms(1,2) nth_mem[OF i(1)]] by (simp add: spec_at_def)
  have "es_SocksPort sp = of_nat (11080 + i)" "i < 16384" using i(2) by (simp_all add: spec_at_def)
  then have "unat (es_SocksPort sp) = 11080 + i" by (simp add: unat_word_ariths unat_of_nat)
  then show "es_SocksPort sp \<noteq> 0" by (cases "es_SocksPort sp = 0") simp_all
qed

lemma device_networks:
  assumes "state_ok s" "BuildFirewallPlan s u = Inr p" "BuildEgressSpecs s p tunnels = Inr specs"
    and "\<forall>t \<in> set (ds_Tunnels s). set_has (with_socks p specs) (allowedSetName (t_ID t)) a \<longleftrightarrow> may_use t d"
  shows "(\<exists>n \<in> set (fp_Internals p). set_has (with_socks p specs) (allowedSetName (in_TunnelID n)) a \<and>
        holds (DaddrIn (internalSetName (in_TunnelID n))) \<and> output = in_Interface n) \<longleftrightarrow>
      (\<exists>t \<in> set (ds_Tunnels s). may_use t d \<and> output = EgressInterface (t_ID t) \<and>
        t_Role t = RolePrivateNetwork \<and> holds (DaddrIn (internalSetName (t_ID t))))" (is "?L \<longleftrightarrow> ?R")
proof
  assume ?L
  then show ?R using internal_interface[OF assms(2)] assms(4) by (metis (no_types, lifting))
next
  assume ?R
  then obtain t where t: "t \<in> set (ds_Tunnels s)" "may_use t d" "output = EgressInterface (t_ID t)"
    "t_Role t = RolePrivateNetwork" "holds (DaddrIn (internalSetName (t_ID t)))" by blast
  then obtain n where "n \<in> set (fp_Internals p)" "in_TunnelID n = t_ID t"
    using tunnel_clients[OF assms(1,2) t(1)] by auto
  then show ?L using t assms(4)[rule_format, OF t(1)] internal_interface(1)[OF assms(2)] by (intro bexI[of _ n]) simp_all
qed

lemma device_socks:
  assumes "state_ok s" "BuildFirewallPlan s u = Inr p" "BuildEgressSpecs s p tunnels = Inr specs"
    and "\<forall>t \<in> set (ds_Tunnels s). set_has (with_socks p specs) (allowedSetName (t_ID t)) a \<longleftrightarrow> may_use t d"
  shows "(\<exists>e \<in> set (socksEndpoints specs p). set_has (with_socks p specs) (allowedSetName (se_TunnelID e)) a \<and>
        output = se_Interface e \<and> holds (Dport ''tcp'' (se_Port e))) \<longleftrightarrow>
      (\<exists>t \<in> set (ds_Tunnels s). may_use t d \<and> output = EgressInterface (t_ID t) \<and>
        (\<exists>sp \<in> set specs. es_TunnelID sp = t_ID t \<and> holds (Dport ''tcp'' (es_SocksPort sp))))" (is "?L \<longleftrightarrow> ?R")
proof
  assume ?L
  then obtain e where e: "e \<in> set (socksEndpoints specs p)" "set_has (with_socks p specs) (allowedSetName (se_TunnelID e)) a"
    "output = se_Interface e" "holds (Dport ''tcp'' (se_Port e))" by blast
  then obtain sp where sp: "sp \<in> set specs" "se_TunnelID e = es_TunnelID sp" "se_Interface e = es_HostVeth sp"
    "se_Port e = es_SocksPort sp" using socks_of_specs by blast
  then obtain t where t: "t \<in> set (ds_Tunnels s)" "es_TunnelID sp = t_ID t"
    using spec_tunnels[OF assms(1,2,3)] by blast
  then show ?R using e sp assms(4)[rule_format, OF t(1)] spec_device(1)[OF assms(1,2,3) sp(1)]
    by (intro bexI[of _ t] conjI bexI[of _ sp]) auto
next
  assume ?R
  then obtain t sp where t: "t \<in> set (ds_Tunnels s)" "may_use t d" "output = EgressInterface (t_ID t)"
    "sp \<in> set specs" "es_TunnelID sp = t_ID t" "holds (Dport ''tcp'' (es_SocksPort sp))" by blast
  moreover obtain e where "e \<in> set (socksEndpoints specs p)" "se_TunnelID e = es_TunnelID sp"
    "se_Interface e = es_HostVeth sp" "se_Port e = es_SocksPort sp"
    using spec_device(2)[OF assms(1,2,3) t(4)] t(4) by (force simp: socksEndpoints_def Let_def)
  ultimately show ?L using assms(4)[rule_format, OF t(1)] spec_device(1)[OF assms(1,2,3) t(4)]
    by (intro bexI[of _ e]) auto
qed

text \<open>C5: With an IPv4 client subnet, a packet a deployed device sends is forwarded exactly when it
  belongs to an established connection, a client ACL names it, or it is not client-to-client and not
  DNS over TLS and leaves by the link of the device's own egress, by the link of a private network
  that admits the device and towards that network's addresses, or towards the SOCKS port of a tunnel
  that admits the device.  There is no other way out: a tunnel that is down takes its traffic with it.\<close>
theorem device_traffic_leaves_only_as_configured:
  assumes "state_ok s" "v4_clients s" "BuildFirewallPlan s u = Inr p" "BuildEgressSpecs s p tunnels = Inr specs"
    and "d \<in> set (ds_Devices s)" "hostAddress (dd_Address d) = Some a"
    and "packet_of (with_socks p specs) holds IngressInterface output a"
  shows "verdict holds (forward_rules (with_socks p specs)) = Some Accept \<longleftrightarrow>
    holds Established \<or> acl_matches (with_socks p specs) holds \<or>
    (output \<noteq> IngressInterface \<and> \<not> holds (Dport ''tcp'' 853) \<and>
      (output = (if dd_Egress d = EgressDirect then u else EgressInterface (dd_Egress d)) \<or>
       (\<exists>t \<in> set (ds_Tunnels s). may_use t d \<and> output = EgressInterface (t_ID t) \<and>
          (t_Role t = RolePrivateNetwork \<and> holds (DaddrIn (internalSetName (t_ID t))) \<or>
           (\<exists>sp \<in> set specs. es_TunnelID sp = t_ID t \<and> holds (Dport ''tcp'' (es_SocksPort sp)))))))"
    (is "_ \<longleftrightarrow> _ \<or> _ \<or> (_ \<and> _ \<and> ?leaves)")
proof -
  let ?q = "with_socks p specs"
  obtain subnet where sub: "parseNetworkPrefix (hub_ClientCIDR (ds_Hub s)) = Some subnet" "Is4 (pfx_addr subnet)"
    using assms(2) by (auto simp: v4_clients_def)
  obtain pairs where pairs: "mapE device_address (ds_Devices s) = Inr pairs" "fp_IngressInterface p = IngressInterface"
    using plan_parts[OF assms(3)] by metis
  obtain g where g: "g \<in> set (fp_Egresses p)" "eg_ID g = dd_Egress d"
    "\<And>h. h \<in> set (fp_Egresses p) \<Longrightarrow> a \<in> set (eg_Addresses h) \<longleftrightarrow> h = g"
    using device_group[OF assms(1,3) sub assms(5,6)] by blast
  note names = rendered_names_ok[OF assms(1,3,4)]
  have packet: "holds (Iifname False i) \<longleftrightarrow> i = IngressInterface" "holds (Oifname False i) \<longleftrightarrow> output = i"
    "holds (SaddrIn n) \<longleftrightarrow> set_has ?q n a" for i n
    using assms(7) by (auto simp: packet_of_def)
  have clients: "set_has ?q (setName h) a \<longleftrightarrow> h = g" if "h \<in> set (fp_Egresses p)" for h
    using set_has_client[OF names, of h a] g(3) that by simp
  have allowed: "\<forall>t \<in> set (ds_Tunnels s). set_has ?q (allowedSetName (t_ID t)) a \<longleftrightarrow> may_use t d"
    using allowed_set_of_tunnel[OF assms(1,3,4)] admitted_device[OF assms(1,2,5,6) pairs(1)] by simp
  have own: "(\<exists>h \<in> set (fp_Egresses p). set_has ?q (setName h) a \<and> output = eg_Interface h) \<longleftrightarrow>
      output = (if dd_Egress d = EgressDirect then u else EgressInterface (dd_Egress d))"
    using clients g(1,2) group_interface(1)[OF assms(1,3) g(1)] by auto
  note networks = device_networks[of s u p tunnels specs a d holds "output", OF assms(1,3,4) allowed]
  note socks = device_socks[of s u p tunnels specs a d "output" holds, OF assms(1,3,4) allowed]
  have leaves: "client_may_leave ?q holds \<longleftrightarrow> ?leaves"
    unfolding client_may_leave_def packet with_socks_simps own networks socks by blast
  have "\<not> proxy_may_leave ?q holds"
    using group_interface[OF assms(1,3)] internal_interface(1)[OF assms(3)]
    by (auto simp: proxy_may_leave_def packet)
  then show ?thesis
    unfolding forward_verdict may_forward_def Let_def with_socks_simps packet pairs(2) leaves by blast
qed

subsection \<open>Marks\<close>

lemma spec_of_group:
  assumes "state_ok s" "BuildFirewallPlan s u = Inr p" "BuildEgressSpecs s p tunnels = Inr specs"
    and "i < length (filter (\<lambda>g. eg_ID g \<noteq> EgressDirect) (fp_Egresses p))"
  shows "i < length specs" "es_TunnelID (specs ! i) = eg_ID (filter (\<lambda>g. eg_ID g \<noteq> EgressDirect) (fp_Egresses p) ! i)"
    "es_Mark (specs ! i) = eg_Mark (filter (\<lambda>g. eg_ID g \<noteq> EgressDirect) (fp_Egresses p) ! i)"
    "hostOf (es_HostAddress (specs ! i)) = string_v4 (link_host i)"
proof -
  show i: "i < length specs" using egress_specs_facts(1)[OF assms(3)] assms(4) by (simp add: placements_def)
  have "spec_at s i (placements p ! i) (specs ! i)" by (rule egress_specs_facts(2)[OF assms(3) i])
  then show "es_TunnelID (specs ! i) = eg_ID (filter (\<lambda>g. eg_ID g \<noteq> EgressDirect) (fp_Egresses p) ! i)"
    "es_Mark (specs ! i) = eg_Mark (filter (\<lambda>g. eg_ID g \<noteq> EgressDirect) (fp_Egresses p) ! i)"
    "hostOf (es_HostAddress (specs ! i)) = string_v4 (link_host i)"
    using assms(4) by (simp_all add: spec_at_def placements_def nth_append)
qed

text \<open>C6: Before routing, a packet from a deployed device gets the mark of the private network its
  destination belongs to, no mark if it is addressed to another client, and otherwise the mark of the
  device's own egress, which is the mark its namespace is reached by.\<close>
theorem device_traffic_carries_its_own_mark:
  assumes "state_ok s" "v4_clients s" "BuildFirewallPlan s u = Inr p" "BuildEgressSpecs s p tunnels = Inr specs"
    and "d \<in> set (ds_Devices s)" "hostAddress (dd_Address d) = Some a"
    and "packet_of (with_socks p specs) holds IngressInterface output a"
  shows "\<exists>g \<in> set (fp_Egresses p). eg_ID g = dd_Egress d \<and>
    mark_after holds (prerouting_rules (with_socks p specs)) m =
      (case find (\<lambda>n. holds (DaddrIn (internalSetName (in_TunnelID n)))) (fp_Internals p) of
         Some n \<Rightarrow> in_Mark n
       | None \<Rightarrow> if holds (Daddr (hub_ClientCIDR (ds_Hub s))) then m else eg_Mark g) \<and>
    (dd_Egress d = EgressDirect \<or> (\<exists>sp \<in> set specs. es_TunnelID sp = dd_Egress d \<and> es_Mark sp = eg_Mark g))"
proof -
  obtain subnet where sub: "parseNetworkPrefix (hub_ClientCIDR (ds_Hub s)) = Some subnet" "Is4 (pfx_addr subnet)"
    using assms(2) by (auto simp: v4_clients_def)
  have plan: "fp_IngressInterface p = IngressInterface" "fp_ClientCIDR p = hub_ClientCIDR (ds_Hub s)"
    using plan_parts[OF assms(3)] by metis+
  obtain g where g: "g \<in> set (fp_Egresses p)" "eg_ID g = dd_Egress d"
    "\<And>h. h \<in> set (fp_Egresses p) \<Longrightarrow> a \<in> set (eg_Addresses h) \<longleftrightarrow> h = g"
    using device_group[OF assms(1,3) sub assms(5,6)] by blast
  note groups = own_group_mark[OF rendered_names_ok[OF assms(1,3,4)], unfolded with_socks_simps, OF g(1) assms(7) g(3)]
  have "\<not> holds (Iifname True IngressInterface)" using assms(7) by (simp add: packet_of_def)
  then have "mark_after holds (prerouting_rules (with_socks p specs)) m =
      (case find (\<lambda>n. holds (DaddrIn (internalSetName (in_TunnelID n)))) (fp_Internals p) of
         Some n \<Rightarrow> in_Mark n
       | None \<Rightarrow> if holds (Daddr (hub_ClientCIDR (ds_Hub s))) then m else eg_Mark g)"
    unfolding prerouting_mark with_socks_simps plan by (simp add: groups split: option.split)
  moreover have "\<exists>sp \<in> set specs. es_TunnelID sp = dd_Egress d \<and> es_Mark sp = eg_Mark g" if "dd_Egress d \<noteq> EgressDirect"
  proof -
    have "g \<in> set (filter (\<lambda>g. eg_ID g \<noteq> EgressDirect) (fp_Egresses p))" using g(1,2) that by simp
    then obtain i where i: "i < length (filter (\<lambda>g. eg_ID g \<noteq> EgressDirect) (fp_Egresses p))"
      "filter (\<lambda>g. eg_ID g \<noteq> EgressDirect) (fp_Egresses p) ! i = g"
      unfolding in_set_conv_nth by blast
    note spec = spec_of_group[OF assms(1,3,4) i(1), unfolded i(2) g(2)]
    have "specs ! i \<in> set specs" by (rule nth_mem[OF spec(1)])
    with spec(2,3) show ?thesis by blast
  qed
  ultimately show ?thesis using g(1,2) by blast
qed

text \<open>C8: What the host itself sends is dropped exactly when it is IPv6 or carries the mark of a namespace
  and leaves by anything but that namespace's link: a missing route never lets marked traffic out
  through the uplink.\<close>
theorem marked_packets_leave_by_their_own_link:
  assumes "state_ok s" "BuildFirewallPlan s u = Inr p" "BuildEgressSpecs s p tunnels = Inr specs"
    and "\<And>w. holds (MetaMark False w) \<longleftrightarrow> w = mark" "\<And>i. holds (Oifname True i) \<longleftrightarrow> i \<noteq> output"
  shows "verdict holds (output_rules (with_socks p specs)) = Some Drop \<longleftrightarrow>
    holds (NfProto ''ipv6'') \<or> (\<exists>sp \<in> set specs. es_Mark sp = mark \<and> output \<noteq> es_HostVeth sp)"
proof -
  have specs: "(\<exists>sp \<in> set specs. es_Mark sp = mark \<and> output \<noteq> es_HostVeth sp) \<longleftrightarrow>
      (\<exists>pl \<in> set (placements p). pl_mark pl = mark \<and> output \<noteq> pl_device pl)" (is "?L \<longleftrightarrow> ?R")
  proof
    assume ?L
    then obtain sp where sp: "sp \<in> set specs" "es_Mark sp = mark" "output \<noteq> es_HostVeth sp" by blast
    obtain i where "i < length (placements p)" "spec_at s i (placements p ! i) sp"
      using spec_of_id[OF assms(3) sp(1)] .
    then show ?R using sp by (intro bexI[of _ "placements p ! i"]) (simp_all add: spec_at_def)
  next
    assume ?R
    then obtain i where i: "i < length (placements p)" "pl_mark (placements p ! i) = mark" "output \<noteq> pl_device (placements p ! i)"
      by (metis in_set_conv_nth)
    then have "spec_at s i (placements p ! i) (specs ! i)" "i < length specs"
      using egress_specs_facts[OF assms(3)] by auto
    then show ?L using i by (intro bexI[of _ "specs ! i"]) (simp_all add: spec_at_def)
  qed
  show ?thesis
    unfolding output_verdict specs assms(4,5) with_socks_simps
    by (auto simp: placements_def ball_Un bex_Un)
qed

subsection \<open>Resolvers\<close>

lemma own_destination:
  assumes "state_ok s" "BuildFirewallPlan s u = Inr p" "BuildEgressSpecs s p tunnels = Inr specs"
    and "g \<in> set (fp_Egresses p)" "\<And>h. h \<in> set (fp_Egresses p) \<Longrightarrow> a \<in> set (eg_Addresses h) \<longleftrightarrow> h = g"
  shows "\<exists>d. dnsDestinationFor g (fp_DNSDestinations p) = Some d \<and>
    (if eg_ID g = EgressDirect then dn_ResolverAddress d = hub_DNSAddress (ds_Hub s)
     else \<exists>sp \<in> set specs. es_TunnelID sp = eg_ID g \<and> dn_ResolverAddress d = hostOf (es_HostAddress sp))"
proof -
  obtain pairs permitted where parts: "fp_Egresses p = plan_groups s u pairs permitted"
    "dnsDestinations (fp_Egresses p) (hub_DNSAddress (ds_Hub s)) = Inr (fp_DNSDestinations p)"
    using plan_parts[OF assms(2)] by metis
  let ?dg = "direct_group u pairs" and ?gs = "tunnel_groups s pairs permitted"
  have tg: "\<forall>g \<in> set ?gs. eg_ID g \<noteq> EgressDirect"
    using tunnel_groups_not_direct[OF state_ok_parts(5)[OF assms(1)]] by blast
  have gs: "filter (\<lambda>g. eg_ID g \<noteq> EgressDirect) (fp_Egresses p) = ?gs"
    using plan_tunnel_groups[OF state_ok_parts(5)[OF assms(1)]] parts(1) by simp
  have set_ds: "set (fp_DNSDestinations p) = snd ` (dns_entry (hub_DNSAddress (ds_Hub s)) ` set ?dg) \<union>
      {snd (dns_entry (string_v4 (link_host i)) (?gs ! i)) |i. i < length ?gs \<and> eg_Addresses (?gs ! i) \<noteq> []}"
    using dnsDestinations_entries[of u pairs ?gs] parts(2) tg unfolding parts(1) plan_groups_split by blast
  have sorted: "sort (eg_Addresses h) = eg_Addresses h" if "h \<in> set (fp_Egresses p)" for h
    using group_addresses[of h s u pairs permitted] that unfolding parts(1) by (simp add: sort_key_id_if_sorted)
  have members: "h \<in> set (fp_Egresses p) \<longleftrightarrow> h \<in> set ?dg \<or> h \<in> set ?gs" for h
    unfolding parts(1) plan_groups_split by simp
  have found: "(\<exists>h \<in> set ?dg. e = snd (dns_entry (hub_DNSAddress (ds_Hub s)) h)) \<or>
      (\<exists>i < length ?gs. e = snd (dns_entry (string_v4 (link_host i)) (?gs ! i)))" if "e \<in> set (fp_DNSDestinations p)" for e
    using that unfolding set_ds by auto
  have "\<exists>e \<in> set (fp_DNSDestinations p). dn_ClientAddresses e = eg_Addresses g"
  proof (cases "g \<in> set ?dg")
    case True
    then have "snd (dns_entry (hub_DNSAddress (ds_Hub s)) g) \<in> set (fp_DNSDestinations p)"
      unfolding set_ds by blast
    then show ?thesis using sorted[OF assms(4)] by (force simp: dns_entry_def)
  next
    case False
    then obtain i where "i < length ?gs" "?gs ! i = g" using assms(4) members by (auto simp: in_set_conv_nth)
    moreover have "eg_Addresses g \<noteq> []" using assms(5)[OF assms(4)] by auto
    ultimately have "snd (dns_entry (string_v4 (link_host i)) g) \<in> set (fp_DNSDestinations p)"
      unfolding set_ds by blast
    then show ?thesis using sorted[OF assms(4)] by (force simp: dns_entry_def)
  qed
  then have "dnsDestinationFor g (fp_DNSDestinations p) \<noteq> None"
    unfolding dnsDestinationFor_def find_None_iff by metis
  then obtain e where e: "dnsDestinationFor g (fp_DNSDestinations p) = Some e" by blast
  have own: "h = g" if "h \<in> set (fp_Egresses p)" "dn_ClientAddresses e = sort (eg_Addresses h)" for h
    using assms(5)[OF that(1)] assms(5)[OF assms(4)] that(2) sorted[OF that(1)] dnsDestinationFor_Some(2)[OF e] by simp
  from found[OF dnsDestinationFor_Some(1)[OF e]] show ?thesis
  proof (elim disjE bexE exE conjE)
    fix h assume h: "h \<in> set ?dg" "e = snd (dns_entry (hub_DNSAddress (ds_Hub s)) h)"
    then have "h = g" using own[of h] members by (simp add: dns_entry_def)
    then show ?thesis using e h direct_group_id by (intro exI[of _ e]) (auto simp: dns_entry_def)
  next
    fix i assume i: "i < length ?gs" "e = snd (dns_entry (string_v4 (link_host i)) (?gs ! i))"
    then have "?gs ! i = g" using own[of "?gs ! i"] members nth_mem[OF i(1)] by (simp add: dns_entry_def)
    moreover have "eg_ID g \<noteq> EgressDirect" using calculation tg nth_mem[OF i(1)] by auto
    ultimately show ?thesis
      using e i spec_of_group[OF assms(1-3), unfolded gs, OF i(1)]
      by (intro exI[of _ e]) (auto simp: dns_entry_def intro!: bexI[of _ "specs ! i"])
  qed
qed

text \<open>C7: Whatever resolver a deployed device addresses, its query is redirected to the resolver of its own
  egress (the hub's own for a device on the uplink, its namespace's otherwise), and a query that reaches
  the hub is accepted only there.  The tunnel identifier \<open>admitted\<close>, whose set would be the one of
  every client, is excluded.\<close>
theorem queries_go_to_the_devices_own_resolver:
  assumes "state_ok s" "v4_clients s" "BuildFirewallPlan s u = Inr p" "BuildEgressSpecs s p tunnels = Inr specs"
    and "d \<in> set (ds_Devices s)" "hostAddress (dd_Address d) = Some a"
    and "packet_of (with_socks p specs) holds IngressInterface output a" "to_port_53 holds"
    and "\<And>t. t \<in> set (ds_Tunnels s) \<Longrightarrow> t_ID t \<noteq> ''admitted''"
  shows "\<exists>r. (if dd_Egress d = EgressDirect then r = hub_DNSAddress (ds_Hub s)
              else \<exists>sp \<in> set specs. es_TunnelID sp = dd_Egress d \<and> r = hostOf (es_HostAddress sp)) \<and>
    verdict holds (prerouting_nat_rules (with_socks p specs)) = Some (DnatTo r) \<and>
    verdict holds (input_rules (with_socks p specs)) = Some (if holds (Daddr r) then Accept else Drop)"
proof -
  obtain subnet where sub: "parseNetworkPrefix (hub_ClientCIDR (ds_Hub s)) = Some subnet" "Is4 (pfx_addr subnet)"
    using assms(2) by (auto simp: v4_clients_def)
  have ingress: "fp_IngressInterface p = IngressInterface" using plan_parts[OF assms(3)] by metis
  obtain g where g: "g \<in> set (fp_Egresses p)" "eg_ID g = dd_Egress d"
    "\<And>h. h \<in> set (fp_Egresses p) \<Longrightarrow> a \<in> set (eg_Addresses h) \<longleftrightarrow> h = g"
    using device_group[OF assms(1,3) sub assms(5,6)] by blast
  obtain e where e: "dnsDestinationFor g (fp_DNSDestinations p) = Some e"
    "if eg_ID g = EgressDirect then dn_ResolverAddress e = hub_DNSAddress (ds_Hub s)
     else \<exists>sp \<in> set specs. es_TunnelID sp = eg_ID g \<and> dn_ResolverAddress e = hostOf (es_HostAddress sp)"
    using own_destination[OF assms(1,3,4) g(1,3)] by blast
  have "(g, e) \<in> set (resolved_groups (with_socks p specs))"
    using g(1) e(1) g(3)[OF g(1)] by (auto simp: resolved_groups_iff)
  moreover have "eg_ID h \<noteq> ''admitted''" if "h \<in> set (fp_Egresses p)" for h
  proof (cases "eg_ID h = EgressDirect")
    case False
    then show ?thesis using group_tunnels[OF assms(1,3) that] assms(9) by (metis imageE)
  qed (simp add: EgressDirect_def)
  ultimately have "only_resolved_by (with_socks p specs) holds g e"
    using own_resolver_only[OF rendered_names_ok[OF assms(1,3,4)], of holds] assms(7) ingress g(3) by simp
  then show ?thesis
    using client_dns_redirect[OF _ assms(8)] client_dns_input[OF _ assms(8)] e(2) unfolding g(2)
    by (intro exI[of _ "dn_ResolverAddress e"] conjI) simp_all
qed

subsection \<open>Client ACLs and revocation\<close>

lemma plan_acls:
  assumes "BuildFirewallPlan s u = Inr p" "r \<in> set (ds_ClientACLs s)"
    and "acl_Source r = ClientACLAny \<or> acl_Source r \<notin> dd_ID ` set (ds_Devices s)"
    and "distinct (map dd_ID (ds_Devices s))" "e \<in> set (ds_Devices s)" "dd_ID e = acl_Target r"
    and "hostAddress (dd_Address e) = Some b"
  shows "\<lparr>cp_SourceAddress = [], cp_TargetAddress = b, cp_Protocol = acl_Protocol r, cp_Port = acl_Port r\<rparr>
    \<in> set (fp_ClientACLs p)"
proof -
  obtain pairs where parts: "mapE device_address (ds_Devices s) = Inr pairs"
    "fp_ClientACLs p = clientPortACLs (ds_ClientACLs s) (rev (map (\<lambda>(d, a). (dd_ID d, a)) pairs))"
    using plan_parts[OF assms(1)] by metis
  let ?m = "rev (map (\<lambda>(d, a). (dd_ID d, a)) pairs)"
  have pairs: "pairs = map (\<lambda>d. (d, the (hostAddress (dd_Address d)))) (ds_Devices s)" by (rule pairs_iff(1)[OF parts(1)])
  have "map fst ?m = rev (map dd_ID (ds_Devices s))" by (simp add: pairs rev_map comp_def)
  then have keys: "distinct (map fst ?m)" "fst ` set ?m = dd_ID ` set (ds_Devices s)"
    using assms(4) by (simp, metis image_set set_rev)
  have "(acl_Target r, b) \<in> set ?m" using assms(5-7) by (force simp: pairs)
  then have "lookup_str ?m (acl_Target r) = b" using map_of_is_SomeI[OF keys(1)] by (simp add: lookup_str_def)
  moreover have "lookup_str ?m (acl_Source r) = []" if "acl_Source r \<noteq> ClientACLAny"
  proof -
    have "map_of ?m (acl_Source r) = None"
      using assms(3) that unfolding map_of_eq_None_iff keys(2) by blast
    then show ?thesis by (simp add: lookup_str_def)
  qed
  ultimately show ?thesis
    using assms(2) unfolding parts(2) clientPortACLs_def set_sort by (auto intro!: image_eqI[of _ _ r])
qed


subsection \<open>The hub's own ports\<close>

text \<open>C27: From outside (neither a client nor the host itself) the hub accepts exactly established connections,
  ICMP, SSH, the port clients dial, and TCP 443 when the fallback is configured; everything else meets the
  chain's drop policy.\<close>
theorem hub_exposes_exactly_its_ports:
  assumes "BuildFirewallPlan s u = Inr p" "hubListenPort (hub_Endpoint (ds_Hub s)) = Inr port"
    and "\<not> holds IifLo" "\<not> holds (Iifname False IngressInterface)"
  shows "verdict holds (input_rules (with_socks p specs)) \<in> {None, Some Accept} \<and>
    (verdict holds (input_rules (with_socks p specs)) = Some Accept \<longleftrightarrow>
      holds Established \<or> holds ICMP \<or> holds (Dport ''tcp'' 22) \<or> holds (Dport ''udp'' port) \<or>
      (rf_Enabled (fb_Reality (hub_Fallback (ds_Hub s))) \<and> holds (Dport ''tcp'' 443)))"
proof -
  have plan: "fp_IngressInterface p = IngressInterface" "fp_ManagementPort p = 22" "fp_ListenPort p = port"
    "fp_RealityPort p = (if rf_Enabled (fb_Reality (hub_Fallback (ds_Hub s))) then 443 else 0)"
    using assms(1,2)
    by (auto simp: BuildFirewallPlan_def Let_def bindE_Inr_iff ManagementPort_def RealityPort_def split: if_splits)
  show ?thesis
    using host_input[of holds "with_socks p specs"] assms(3,4) plan
    by (simp add: with_socks_def split: if_splits)
qed

text \<open>The fallback listener's connections, which reach the host over loopback with a mark, may use the hub's
  resolver and nothing else on the host.\<close>
theorem marked_loopback_reaches_only_the_resolver:
  assumes "BuildFirewallPlan s u = Inr p" "holds IifLo" "holds marked" "\<not> holds Established"
    and "\<not> holds (Iifname False IngressInterface)"
  shows "verdict holds (input_rules (with_socks p specs)) =
    Some (if admittedDNSClients p \<noteq> [] \<and> hub_DNSAddress (ds_Hub s) \<noteq> [] \<and>
             holds (Daddr (hub_DNSAddress (ds_Hub s))) \<and> to_port_53 holds then Accept else Drop)"
proof -
  have plan: "fp_IngressInterface p = IngressInterface" "fp_DNSAddress p = hub_DNSAddress (ds_Hub s)"
    using plan_parts[OF assms(1)] by metis+
  show ?thesis
    using marked_loopback_input[of holds "with_socks p specs"] assms plan
    by (simp add: serves_dns_def with_socks_def admittedDNSClients_def)
qed

subsection \<open>A tunnel called admitted\<close>

text \<open>The set of one tunnel's resolver clients takes the name of the set of all clients.\<close>

lemma admitted_tunnel_shares_the_set_of_all_clients:
  "dnsClientSetName ''admitted'' = admittedSetName"
  by code_simp

text \<open>Every client is then redirected to that tunnel's resolver, unless its own group comes first.\<close>

lemma admitted_tunnel_takes_every_query:
  assumes "names_ok plan" "resolved_groups plan = (g, e) # rest" "eg_ID g = ''admitted''"
    and "h \<in> set (fp_Egresses plan)" "a \<in> set (eg_Addresses h)"
    and "packet_of plan holds (fp_IngressInterface plan) output a" "to_port_53 holds"
  shows "verdict holds (prerouting_nat_rules plan) = Some (DnatTo (dn_ResolverAddress e))"
proof -
  have "holds (SaddrIn (dnsClientSetName (eg_ID g)))"
    using assms(4-6) set_has_admitted[OF assms(1)] unfolding assms(3) admitted_tunnel_shares_the_set_of_all_clients
    by (auto simp: packet_of_def)
  moreover have "holds (Iifname False (fp_IngressInterface plan))" using assms(6) by (simp add: packet_of_def)
  ultimately show ?thesis using assms(2,7) by (auto simp: prerouting_nat_rules_def Let_def to_port_53_def)
qed

subsection \<open>A concrete packet\<close>

text \<open>A packet of a client, with the further matches listed.\<close>

definition sample_packet :: "firewall_plan \<Rightarrow> string \<Rightarrow> string \<Rightarrow> nft_match list \<Rightarrow> nft_match \<Rightarrow> bool" where
  "sample_packet plan output source extra m =
     (case m of Iifname neg i \<Rightarrow> (i = IngressInterface) \<noteq> neg | Oifname neg i \<Rightarrow> (i = output) \<noteq> neg
      | SaddrIn name \<Rightarrow> set_has plan name source | Saddr neg a \<Rightarrow> (a = source) \<noteq> neg | _ \<Rightarrow> m \<in> set extra)"

lemma sample_packet_of: "packet_of plan (sample_packet plan output source extra) IngressInterface output source"
  by (auto simp: packet_of_def sample_packet_def)

lemma sample_v4: "v4_clients sample_state"
  using sample_subnet by (auto simp: v4_clients_def)

lemmas sample_pass = sample_state_ok sample_v4 sample_plan_built sample_specs_built

lemma laptop_deployed: "deploy_device sample_laptop \<in> set (ds_Devices sample_state)" "dd_Egress (deploy_device sample_laptop) = ''nl''"
  by (simp add: sample_state_simps) (simp add: sample_laptop_def)

theorem device_traffic_leaves_only_as_configured_witness:
  "verdict (sample_packet (with_socks sample_plan sample_specs) ''vh-nl'' ''10.80.0.2'' [])
     (forward_rules (with_socks sample_plan sample_specs)) = Some Accept"
  using device_traffic_leaves_only_as_configured[OF sample_pass laptop_deployed(1) sample_host_address
      sample_packet_of[of "with_socks sample_plan sample_specs" "''vh-nl''" "''10.80.0.2''" "[]"]] laptop_deployed(2)
  by (simp add: sample_packet_def EgressInterface_def IngressInterface_def EgressDirect_def)

theorem device_traffic_carries_its_own_mark_witness:
  "\<exists>sp \<in> set sample_specs. es_TunnelID sp = ''nl'' \<and>
    mark_after (sample_packet (with_socks sample_plan sample_specs) ''vh-nl'' ''10.80.0.2'' [])
      (prerouting_rules (with_socks sample_plan sample_specs)) 0 = es_Mark sp"
proof -
  let ?h = "sample_packet (with_socks sample_plan sample_specs) ''vh-nl'' ''10.80.0.2'' []"
  have "find (\<lambda>n. ?h (DaddrIn (internalSetName (in_TunnelID n)))) (fp_Internals sample_plan) = None"
    "\<not> ?h (Daddr (hub_ClientCIDR (ds_Hub sample_state)))"
    by (simp_all add: find_None_iff sample_packet_def)
  with device_traffic_carries_its_own_mark[OF sample_pass laptop_deployed(1) sample_host_address
      sample_packet_of[of _ "''vh-nl''" _ "[]"], of 0] laptop_deployed(2)
  show ?thesis by (force simp: EgressDirect_def)
qed

definition marked_packet :: "32 word \<Rightarrow> string \<Rightarrow> nft_match \<Rightarrow> bool" where
  "marked_packet mark output m =
     (case m of MetaMark neg w \<Rightarrow> (w = mark) \<noteq> neg | Oifname neg i \<Rightarrow> (i = output) \<noteq> neg | _ \<Rightarrow> False)"

theorem marked_packets_leave_by_their_own_link_witness:
  "\<exists>sp \<in> set sample_specs.
     verdict (marked_packet (es_Mark sp) ''eth0'') (output_rules (with_socks sample_plan sample_specs)) = Some Drop"
proof -
  have "''nl'' \<in> es_TunnelID ` set sample_specs"
    unfolding spec_tunnels[OF sample_state_ok sample_plan_built sample_specs_built]
    by (simp add: sample_state_simps sample_nl_def)
  then obtain sp where sp: "sp \<in> set sample_specs" "es_TunnelID sp = ''nl''" by auto
  then have "''eth0'' \<noteq> es_HostVeth sp"
    using spec_device(1)[OF sample_state_ok sample_plan_built sample_specs_built sp(1)] by (simp add: EgressInterface_def)
  moreover have "marked_packet w o' (MetaMark False v) \<longleftrightarrow> v = w" "marked_packet w o' (Oifname True i) \<longleftrightarrow> i \<noteq> o'" for w o' v i
    by (simp_all add: marked_packet_def)
  ultimately have "verdict (marked_packet (es_Mark sp) ''eth0'') (output_rules (with_socks sample_plan sample_specs)) = Some Drop"
    using marked_packets_leave_by_their_own_link[OF sample_state_ok sample_plan_built sample_specs_built,
        of "marked_packet (es_Mark sp) ''eth0''" "es_Mark sp" "''eth0''"] sp(1) by blast
  with sp(1) show ?thesis by blast
qed

theorem queries_go_to_the_devices_own_resolver_witness:
  "\<exists>sp \<in> set sample_specs. es_TunnelID sp = ''nl'' \<and>
    verdict (sample_packet (with_socks sample_plan sample_specs) [] ''10.80.0.2'' [Dport ''udp'' 53])
      (prerouting_nat_rules (with_socks sample_plan sample_specs)) = Some (DnatTo (hostOf (es_HostAddress sp)))"
proof -
  have "t_ID t \<noteq> ''admitted''" if "t \<in> set (ds_Tunnels sample_state)" for t
    using that by (auto simp: sample_state_simps sample_nl_def sample_corp_def)
  moreover have "to_port_53 (sample_packet (with_socks sample_plan sample_specs) [] ''10.80.0.2'' [Dport ''udp'' 53])"
    by (simp add: to_port_53_def sample_packet_def)
  ultimately show ?thesis
    using queries_go_to_the_devices_own_resolver[OF sample_pass laptop_deployed(1) sample_host_address
      sample_packet_of[of _ "[]" _ "[Dport ''udp'' 53]"]] laptop_deployed(2)
    by (force simp: EgressDirect_def)
qed


theorem hub_exposes_exactly_its_ports_witness:
  "verdict (\<lambda>m. m = Dport ''tcp'' 22) (input_rules (with_socks sample_plan [])) = Some Accept"
proof -
  have "hubListenPort (hub_Endpoint (ds_Hub sample_state)) \<noteq> Inl e" for e
    using sample_plan_built by (auto simp: BuildFirewallPlan_def)
  then obtain port where "hubListenPort (hub_Endpoint (ds_Hub sample_state)) = Inr port" by (metis sum.exhaust)
  from hub_exposes_exactly_its_ports[OF sample_plan_built this, of "\<lambda>m. m = Dport ''tcp'' 22"] show ?thesis by simp
qed

theorem marked_loopback_reaches_only_the_resolver_witness:
  "verdict (\<lambda>m. m = IifLo \<or> m = marked \<or> m = Dport ''tcp'' 22) (input_rules (with_socks sample_plan [])) = Some Drop"
  using marked_loopback_reaches_only_the_resolver[OF sample_plan_built, of "\<lambda>m. m = IifLo \<or> m = marked \<or> m = Dport ''tcp'' 22"]
  by (simp add: marked_def)

end
