(* ===== verification/ConntrackClaims.thy ===== *)
theory ConntrackClaims
  imports ConntrackFacts NftClaims
begin

text \<open>
  What the firewall transition guarantees: whose connections are cleared when the ruleset changes,
  that no cleanup and no refill of the resolver's sets is forgotten, and that a pass without errors
  settles.
\<close>

subsection \<open>Whose connections are stale\<close>

lemma client_resolver_of_group:
  assumes "g \<in> set (fp_Egresses plan)" "a \<in> set (eg_Addresses g)"
    and "\<And>h. h \<in> set (fp_Egresses plan) \<Longrightarrow> a \<in> set (eg_Addresses h) \<Longrightarrow> h = g"
  shows "map_of (client_resolvers plan) a = Some (group_resolver plan g)"
proof -
  have "a \<in> fst ` set (client_resolvers plan)"
    using assms(1,2) by (force simp: client_resolvers_def)
  then obtain r where r: "map_of (client_resolvers plan) a = Some r"
    by (metis map_of_eq_None_iff not_None_eq)
  then obtain h where "h \<in> set (fp_Egresses plan)" "a \<in> set (eg_Addresses h)" "r = group_resolver plan h"
    by (auto simp: client_resolvers_def dest!: map_of_SomeD)
  with assms(3) r show ?thesis by blast
qed

lemma client_resolvers_keys:
  "fst ` set (client_resolvers plan) = {a. \<exists>g \<in> set (fp_Egresses plan). a \<in> set (eg_Addresses g)}"
  by (force simp: client_resolvers_def)

lemma current_mappings:
  "map_of (rev (map (\<lambda>c. (cm_ClientAddress c, cm_ResolverAddress c)) (cs_Mappings (dnsConntrackStateFor plan)))) a =
     map_of (client_resolvers plan) a"
proof -
  let ?r = "client_resolvers plan"
  let ?keys = "sort (remdups (map fst ?r))"
  have m: "map (\<lambda>c. (cm_ClientAddress c, cm_ResolverAddress c)) (cs_Mappings (dnsConntrackStateFor plan)) =
      map (\<lambda>a. (a, lookup_str ?r a)) ?keys"
    by (simp add: dnsConntrackStateFor_def Let_def)
  have dist: "distinct (map fst (rev (map (\<lambda>a. (a, lookup_str ?r a)) ?keys)))"
    by (simp add: rev_map[symmetric] comp_def)
  show ?thesis
  proof (cases "map_of ?r a")
    case None
    then have "a \<notin> set ?keys" by (simp add: map_of_eq_None_iff)
    then have "map_of (rev (map (\<lambda>a. (a, lookup_str ?r a)) ?keys)) a = None"
      unfolding map_of_eq_None_iff by (auto simp: image_image)
    with None m show ?thesis by simp
  next
    case (Some v)
    then have "a \<in> set ?keys" by (force dest: map_of_SomeD)
    then have "(a, lookup_str ?r a) \<in> set (rev (map (\<lambda>a. (a, lookup_str ?r a)) ?keys))" by simp
    then have "map_of (rev (map (\<lambda>a. (a, lookup_str ?r a)) ?keys)) a = Some (lookup_str ?r a)"
      by (rule map_of_is_SomeI[OF dist])
    with Some m show ?thesis by (simp add: lookup_str_def)
  qed
qed

text \<open>After a change of configuration, the DNS connections that are cleared are exactly the ones an earlier
  cleanup left over and those of clients whose resolver was another one, who are no longer admitted, or
  whose ingress interface changed.\<close>
theorem stale_connections_are_exactly_the_moved_clients:
  assumes "\<And>g h a. g \<in> set (fp_Egresses plan) \<Longrightarrow> h \<in> set (fp_Egresses plan) \<Longrightarrow>
      a \<in> set (eg_Addresses g) \<Longrightarrow> a \<in> set (eg_Addresses h) \<Longrightarrow> g = h"
  shows "scope \<in> set (dnsConntrackCleanupScopes (Some p) (dnsConntrackStateFor plan)) \<longleftrightarrow>
    scope \<in> set (cs_CleanupScopes p) \<or>
    (\<exists>m \<in> set (cs_Mappings p). cm_ClientAddress m = scope \<and>
       (cs_IngressInterface p \<noteq> fp_IngressInterface plan \<or>
        \<not> (\<exists>g \<in> set (fp_Egresses plan). scope \<in> set (eg_Addresses g) \<and> group_resolver plan g = cm_ResolverAddress m)))"
proof -
  have "map_of (client_resolvers plan) a = Some r \<longleftrightarrow>
      (\<exists>g \<in> set (fp_Egresses plan). a \<in> set (eg_Addresses g) \<and> group_resolver plan g = r)" for a r
  proof
    assume "map_of (client_resolvers plan) a = Some r"
    then show "\<exists>g \<in> set (fp_Egresses plan). a \<in> set (eg_Addresses g) \<and> group_resolver plan g = r"
      by (auto simp: client_resolvers_def dest!: map_of_SomeD)
  next
    assume "\<exists>g \<in> set (fp_Egresses plan). a \<in> set (eg_Addresses g) \<and> group_resolver plan g = r"
    then show "map_of (client_resolvers plan) a = Some r"
      using client_resolver_of_group assms by blast
  qed
  then have "stale_mapping p (dnsConntrackStateFor plan) m \<longleftrightarrow>
      cs_IngressInterface p \<noteq> fp_IngressInterface plan \<or>
      \<not> (\<exists>g \<in> set (fp_Egresses plan). cm_ClientAddress m \<in> set (eg_Addresses g) \<and> group_resolver plan g = cm_ResolverAddress m)" for m
    unfolding stale_mapping_def current_mappings by (simp add: dnsConntrackStateFor_def Let_def)
  then show ?thesis by (auto simp: dnsConntrackCleanupScopes_def)
qed

subsection \<open>Refills\<close>

text \<open>C18: Whenever the table was replaced, every later Apply without an error asks for the resolver's sets to be
  filled again, whatever configurations and failures come in between, until the refill is acknowledged.\<close>
theorem rebuilt_tables_are_refilled:
  assumes "LoadedRuleset \<in> set (snd (NftApply env plan f))"
    and "f' = foldl (\<lambda>g (e, p). snd (fst (NftApply e p g))) (snd (fst (NftApply env plan f))) later"
    and "fst (NftApply env' plan' f') = ((repopulate, None), f'')"
  shows "repopulate"
  using packet_filter.reported_until_committed[of env plan f env' plan' later repopulate f''] assms
  by (simp add: packet_filter.run_def)

subsection \<open>Cleanups\<close>

lemma hex_char_val: "n < 16 \<Longrightarrow> hex_val (hex_char n) \<noteq> None"
proof -
  have "\<forall>n \<in> set [0..<16]. hex_val (hex_char n) \<noteq> None" by code_simp
  then show "n < 16 \<Longrightarrow> hex_val (hex_char n) \<noteq> None" by simp
qed

lemma is_fingerprint_Fingerprint: "is_fingerprint (Fingerprint plan)"
proof -
  have "list_all (\<lambda>c. hex_val c \<noteq> None) (HexEncode bs)" for bs
  proof -
    have "hex_val (hex_char (code c div 16)) \<noteq> None" "hex_val (hex_char (code c mod 16)) \<noteq> None" for c
      by (intro hex_char_val; simp add: code_def less_mult_imp_div_less)+
    then show ?thesis unfolding HexEncode_def hex_byte_def by (simp add: list_all_iff del: not_None_eq)
  qed
  then show ?thesis
    unfolding is_fingerprint_def Fingerprint_def list_all_iff by (auto dest: in_set_takeD)
qed

lemma read_ok: "readDNSConntrackState f = Inr (Some p) \<Longrightarrow> conntrack_ok p"
  by (auto simp: readDNSConntrackState_def split: file_content.splits option.splits if_splits)

lemma transition_ok:
  assumes "readDNSConntrackState f = Inr previous" "conntrack_ok (dnsConntrackStateFor plan)"
  shows "conntrack_ok (transition_for plan previous)"
proof -
  have "ParseAddr c \<noteq> None \<or> ParsePrefix c \<noteq> None"
    if "c \<in> set (dnsConntrackCleanupScopes previous (dnsConntrackStateFor plan))" for c
  proof (cases previous)
    case None
    with that assms(2) show ?thesis by (auto simp: dnsConntrackCleanupScopes_def conntrack_ok_def split: if_splits)
  next
    case (Some p)
    with that read_ok[of f p] assms(1) show ?thesis
      by (auto simp: dnsConntrackCleanupScopes_def conntrack_ok_def list_all_iff)
  qed
  then show ?thesis
    using assms(2) is_fingerprint_Fingerprint[of plan]
    by (auto simp: transition_for_def conntrack_ok_def list_all_iff dnsConntrackStateFor_def Let_def)
qed

lemma clear_each_complete:
  "fst (clear_each answer xs) = None \<Longrightarrow> (s, p) \<in> set xs \<Longrightarrow> ClearedConntrack s p \<in> set (snd (clear_each answer xs))"
  by (induction answer xs rule: clear_each.induct) (auto split: if_splits)

lemma clear_complete:
  assumes "clearDNSConntrack answer scopes = (None, acts)" "scope \<in> set scopes"
  shows "ClearedConntrack scope ''udp'' \<in> set acts \<and> ClearedConntrack scope ''tcp'' \<in> set acts"
  using clear_each_complete[of answer "concat (map (\<lambda>scope. [(scope, ''udp''), (scope, ''tcp'')]) scopes)" scope] assms
  by (auto simp: clearDNSConntrack_def)

text \<open>After the first write, the scopes are in the file until every one of them was cleared.\<close>

lemma apply_ruleset_cleanup:
  assumes "scope \<in> set scopes"
  shows "(ClearedConntrack scope ''udp'' \<in> set (actions_of (apply_ruleset env plan rebuilt True t scopes f)) \<and>
          ClearedConntrack scope ''tcp'' \<in> set (actions_of (apply_ruleset env plan rebuilt True t scopes f))) \<or>
    (file_of (apply_ruleset env plan rebuilt True t scopes f) = f \<and>
     error_of (apply_ruleset env plan rebuilt True t scopes f) \<noteq> None)"
proof -
  obtain e acts where c: "clearDNSConntrack (ne_Conntrack env) scopes = (e, acts)" by fastforce
  show ?thesis
  proof (cases e)
    case None
    obtain w f' where "writeDNSConntrackState (ne_Settled env) (t\<lparr>cs_CleanupScopes := []\<rparr>) f = (w, f')" by fastforce
    with None c clear_complete[OF _ assms] show ?thesis
      by (auto simp: apply_ruleset_def apply_cleanup_def)
  next
    case (Some x)
    with c show ?thesis by (auto simp: apply_ruleset_def apply_cleanup_def)
  qed
qed

text \<open>C19: No stale connection is forgotten: after any Apply, a client whose connections had to be cleared has had
  them cleared for both protocols, or the Apply failed and the next one for the same plan still names it.\<close>
theorem stale_connections_are_cleared_or_remembered:
  assumes "readDNSConntrackState f = Inr previous" "conntrack_ok (dnsConntrackStateFor plan)"
    and "scope \<in> set (dnsConntrackCleanupScopes previous (dnsConntrackStateFor plan))"
    and "NftApply env plan f = (((repopulate, e), f'), acts)"
  shows "(ClearedConntrack scope ''udp'' \<in> set acts \<and> ClearedConntrack scope ''tcp'' \<in> set acts) \<or>
    (e \<noteq> None \<and> (\<exists>previous'. readDNSConntrackState f' = Inr previous' \<and>
       scope \<in> set (dnsConntrackCleanupScopes previous' (dnsConntrackStateFor plan))))"
proof (cases rule: NftApply_cases[of env plan f])
  case locked
  then show ?thesis using assms by auto
next
  case (unread e')
  then show ?thesis using assms(1) by simp
next
  case (quiet previous')
  then show ?thesis using assms(1,3) by (auto simp: needs_refill_def)
next
  case (refill previous')
  then have p: "previous' = previous" using assms(1) by simp
  let ?t = "transition_for plan previous" and ?scopes = "dnsConntrackCleanupScopes previous (dnsConntrackStateFor plan)"
  let ?rebuilt = "NftObserve (ne_Listing env) \<noteq> Inr (Fingerprint plan)"
  have remembered: "\<exists>previous'. readDNSConntrackState (Content (conntrack_json ?t)) = Inr previous' \<and>
      scope \<in> set (dnsConntrackCleanupScopes previous' (dnsConntrackStateFor plan))"
    using transition_ok[OF assms(1,2)] assms(3)
    by (auto simp: read_stored dnsConntrackCleanupScopes_def[of "Some ?t"]) (simp add: transition_for_def)
  note eq = NftApply_refill[OF refill(1,2)[unfolded p] refill(3)[unfolded p]]
  show ?thesis
  proof (cases "ne_State env")
    case Done
    obtain r e' g a where run: "apply_ruleset env plan ?rebuilt True ?t ?scopes (Content (conntrack_json ?t)) = (((r, e'), g), a)"
      by (metis surj_pair)
    have res: "e' = e" "g = f'" "set a \<subseteq> set acts"
      using assms(4) Done run unfolding eq by (auto simp: writeDNSConntrackState_def)
    show ?thesis
      using apply_ruleset_cleanup[OF assms(3), of env plan ?rebuilt ?t "Content (conntrack_json ?t)"] res remembered
      unfolding run by auto
  next
    case Failed
    with assms show ?thesis unfolding eq by (auto simp: writeDNSConntrackState_def)
  next
    case Unsynced
    with assms(4) remembered show ?thesis unfolding eq by (auto simp: writeDNSConntrackState_def)
  qed
qed

subsection \<open>Compiled plans\<close>

lemma plan_client_v4:
  assumes "state_ok s" "v4_clients s" "BuildFirewallPlan s u = Inr p" "g \<in> set (fp_Egresses p)" "a \<in> set (eg_Addresses g)"
  shows "\<exists>w. a = string_v4 w"
proof -
  obtain subnet where sub: "parseNetworkPrefix (hub_ClientCIDR (ds_Hub s)) = Some subnet" "Is4 (pfx_addr subnet)"
    using assms(2) by (auto simp: v4_clients_def)
  obtain pairs permitted where parts: "mapE device_address (ds_Devices s) = Inr pairs"
    "fp_Egresses p = plan_groups s u pairs permitted" using plan_parts[OF assms(3)] by metis
  have "a \<in> set (grouped pairs (eg_ID g))"
    using assms(4,5) group_addresses[of g s u pairs permitted] unfolding parts(2) by simp
  then obtain d where "(d, a) \<in> set pairs" by (auto simp: grouped_iff)
  then have d: "d \<in> set (ds_Devices s)" "a = the (hostAddress (dd_Address d))"
    using pairs_iff(1)[OF parts(1)] by auto
  obtain w where "hostAddress (dd_Address d) = Some (string_v4 w)" by (rule device_address_v4[OF assms(1) sub d(1)])
  with d(2) show ?thesis by auto
qed

lemma plan_resolver_parses:
  assumes "state_ok s" "BuildFirewallPlan s u = Inr p" "d \<in> set (fp_DNSDestinations p)"
  shows "ParseAddr (dn_ResolverAddress d) \<noteq> None"
proof -
  obtain pairs permitted where parts: "fp_Egresses p = plan_groups s u pairs permitted"
    "dnsDestinations (fp_Egresses p) (hub_DNSAddress (ds_Hub s)) = Inr (fp_DNSDestinations p)"
    using plan_parts[OF assms(2)] by metis
  have hub: "ParseAddr (hub_DNSAddress (ds_Hub s)) \<noteq> None" using state_ok_parts(1)[OF assms(1)] by (auto simp: hub_ok_def)
  have "\<forall>g \<in> set (tunnel_groups s pairs permitted). eg_ID g \<noteq> EgressDirect"
    using tunnel_groups_not_direct[OF state_ok_parts(5)[OF assms(1)]] by blast
  from dnsDestinations_entries[OF parts(2)[unfolded parts(1) plan_groups_split] this] assms(3)
  have "d \<in> snd ` (dns_entry (hub_DNSAddress (ds_Hub s)) ` set (direct_group u pairs)) \<or>
      (\<exists>i. d = snd (dns_entry (string_v4 (link_host i)) (tunnel_groups s pairs permitted ! i)))"
    by blast
  then consider "dn_ResolverAddress d = hub_DNSAddress (ds_Hub s)" | i where "dn_ResolverAddress d = string_v4 (link_host i)"
  proof (elim disjE exE)
    assume "d \<in> snd ` (dns_entry (hub_DNSAddress (ds_Hub s)) ` set (direct_group u pairs))"
    then show ?thesis using that(1) by (auto simp: dns_entry_def)
  next
    fix i assume "d = snd (dns_entry (string_v4 (link_host i)) (tunnel_groups s pairs permitted ! i))"
    then show ?thesis by (intro that(2)) (simp add: dns_entry_def)
  qed
  then show ?thesis using hub ParseAddr_string_v4 by cases simp_all
qed

lemma compiled_conntrack_ok:
  assumes "state_ok s" "v4_clients s" "BuildFirewallPlan s u = Inr p"
  shows "conntrack_ok (dnsConntrackStateFor (with_socks p specs))"
proof -
  have plan: "fp_IngressInterface p = IngressInterface" "fp_ClientCIDR p = hub_ClientCIDR (ds_Hub s)"
    "fp_DNSAddress p = hub_DNSAddress (ds_Hub s)" using plan_parts[OF assms(3)] by metis+
  have hub: "ParsePrefix (hub_ClientCIDR (ds_Hub s)) \<noteq> None" "ParseAddr (hub_DNSAddress (ds_Hub s)) \<noteq> None"
    using state_ok_parts(1)[OF assms(1)] by (auto simp: hub_ok_def parseNetworkPrefix_def split: option.splits)
  let ?q = "with_socks p specs"
  have resolver: "ParseAddr (group_resolver ?q g) \<noteq> None" for g
  proof (cases "dnsDestinationFor g (fp_DNSDestinations p)")
    case None
    then show ?thesis using hub(2) plan(3) by (simp add: group_resolver_def)
  next
    case (Some d)
    then show ?thesis
      using plan_resolver_parses[OF assms(1,3) dnsDestinationFor_Some(1)[OF Some]] by (simp add: group_resolver_def)
  qed
  have "ParseAddr a \<noteq> None \<and> ParseAddr (lookup_str (client_resolvers ?q) a) \<noteq> None"
    if keys: "a \<in> fst ` set (client_resolvers ?q)" for a
  proof
    obtain g where "g \<in> set (fp_Egresses p)" "a \<in> set (eg_Addresses g)"
      using keys unfolding client_resolvers_keys by auto
    then show "ParseAddr a \<noteq> None" using plan_client_v4[OF assms] ParseAddr_string_v4 by (metis option.distinct(1))
    obtain r where "map_of (client_resolvers ?q) a = Some r" using keys by (metis map_of_eq_None_iff not_None_eq)
    moreover from this have "ParseAddr r \<noteq> None"
      using resolver by (auto simp: client_resolvers_def dest!: map_of_SomeD)
    ultimately show "ParseAddr (lookup_str (client_resolvers ?q) a) \<noteq> None" by (simp add: lookup_str_def)
  qed
  then show ?thesis
    using hub(1) plan by (auto simp: conntrack_ok_def dnsConntrackStateFor_def Let_def list_all_iff IngressInterface_def)
qed

subsection \<open>Settling\<close>

definition env_ok :: "nft_env \<Rightarrow> bool" where
  "env_ok env \<longleftrightarrow> ne_Locked env \<and> ne_State env = Done \<and> ne_Ruleset env \<and> ne_Load env \<and> ne_Settled env = Done \<and>
     (\<forall>scope protocol. cleared (ne_Conntrack env scope protocol))"

lemma clear_all:
  assumes "\<forall>scope protocol. cleared (answer scope protocol)"
  shows "fst (clearDNSConntrack answer scopes) = None"
proof -
  have "fst (clear_each answer xs) = None" for xs using assms by (induction xs) auto
  then show ?thesis by (simp add: clearDNSConntrack_def)
qed

lemma nothing_stale: "dnsConntrackCleanupScopes (Some (dnsConntrackStateFor plan)) (dnsConntrackStateFor plan) = []"
proof -
  have "\<not> stale_mapping (dnsConntrackStateFor plan) (dnsConntrackStateFor plan) m"
    if member: "m \<in> set (cs_Mappings (dnsConntrackStateFor plan))" for m
  proof -
    obtain a where "a \<in> fst ` set (client_resolvers plan)" "m = \<lparr>cm_ClientAddress = a, cm_ResolverAddress = lookup_str (client_resolvers plan) a\<rparr>"
      using member by (auto simp: dnsConntrackStateFor_def Let_def)
    then show ?thesis
      unfolding stale_mapping_def current_mappings by (auto simp: lookup_str_def map_of_eq_None_iff split: option.splits)
  qed
  moreover have "cs_CleanupScopes (dnsConntrackStateFor plan) = []" by (simp add: dnsConntrackStateFor_def Let_def)
  ultimately show ?thesis by (simp add: dnsConntrackCleanupScopes_def)
qed

lemma apply_ok:
  assumes "env_ok env" "readDNSConntrackState f = Inr previous" "needs_refill env plan previous"
  shows "fst (NftApply env plan f) =
    ((True, None), Content (conntrack_json ((dnsConntrackStateFor plan)\<lparr>cs_PendingRepopulate := True\<rparr>)))"
proof -
  let ?t = "transition_for plan previous" and ?scopes = "dnsConntrackCleanupScopes previous (dnsConntrackStateFor plan)"
  obtain acts where c: "clearDNSConntrack (ne_Conntrack env) ?scopes = (None, acts)"
    using clear_all[of "ne_Conntrack env" ?scopes] assms(1) by (cases "clearDNSConntrack (ne_Conntrack env) ?scopes") (auto simp: env_ok_def)
  have t: "cs_CleanupScopes ?t = ?scopes" "?t\<lparr>cs_CleanupScopes := []\<rparr> = (dnsConntrackStateFor plan)\<lparr>cs_PendingRepopulate := True\<rparr>"
    "?scopes = [] \<Longrightarrow> ?t = (dnsConntrackStateFor plan)\<lparr>cs_PendingRepopulate := True\<rparr>"
    by (simp_all add: transition_for_def dnsConntrackStateFor_def Let_def)
  have env: "ne_Locked env" "ne_State env = Done" "ne_Ruleset env" "ne_Load env" "ne_Settled env = Done"
    using assms(1) by (simp_all add: env_ok_def)
  have "fst (apply_cleanup env True ?t ?scopes (Content (conntrack_json ?t))) =
      ((True, None), Content (conntrack_json ((dnsConntrackStateFor plan)\<lparr>cs_PendingRepopulate := True\<rparr>)))"
    using t env by (simp add: apply_cleanup_def c writeDNSConntrackState_def)
  then show ?thesis
    unfolding NftApply_refill[OF env(1) assms(2,3)]
    by (simp add: env writeDNSConntrackState_def apply_ruleset_def)
qed

text \<open>A pass without errors settles: an Apply on a host that answers succeeds, acknowledging its refill is
  accepted, and from then on an Apply of the same plan to the loaded table changes nothing and asks for
  nothing.\<close>
theorem a_clean_pass_settles:
  assumes "state_ok s" "v4_clients s" "BuildFirewallPlan s u = Inr p"
    and "env_ok env" "readDNSConntrackState f = Inr previous"
    and "ne_Locked env'" "NftObserve (ne_Listing env') = Inr (Fingerprint (with_socks p specs))"
  shows "\<exists>repopulate f1 f2. fst (NftApply env (with_socks p specs) f) = ((repopulate, None), f1) \<and>
    (if repopulate then CommitDNSRepopulation True Done (with_socks p specs) f1 = (None, f2) else f2 = f1) \<and>
    NftApply env' (with_socks p specs) f2 = (((False, None), f2), [])"
proof (cases "needs_refill env (with_socks p specs) previous")
  case False
  then have "NftApply env (with_socks p specs) f = (((False, None), f), [])"
    using NftApply_quiet assms(4,5) by (simp add: env_ok_def)
  moreover have "\<not> needs_refill env' (with_socks p specs) previous" using False assms(7) by (simp add: needs_refill_def)
  ultimately show ?thesis using NftApply_quiet[OF assms(6,5)]
    by (intro exI[of _ False] exI[of _ f]) simp
next
  case True
  let ?q = "with_socks p specs"
  let ?c = "dnsConntrackStateFor ?q"
  let ?f1 = "Content (conntrack_json (?c\<lparr>cs_PendingRepopulate := True\<rparr>))" and ?f2 = "Content (conntrack_json ?c)"
  have ok: "conntrack_ok ?c" by (rule compiled_conntrack_ok[OF assms(1-3)])
  have fields: "cs_PlanFingerprint ?c = Fingerprint ?q" "cs_CleanupScopes ?c = []" "cs_PendingRepopulate ?c = False"
    by (simp_all add: dnsConntrackStateFor_def Let_def)
  have ok': "conntrack_ok (?c\<lparr>cs_PendingRepopulate := True\<rparr>)"
    using ok is_fingerprint_Fingerprint[of ?q] fields by (simp add: conntrack_ok_def)
  have same: "?c\<lparr>cs_PendingRepopulate := False\<rparr> = ?c" by (simp add: dnsConntrackStateFor_def Let_def)
  have "CommitDNSRepopulation True Done ?q ?f1 = (None, ?f2)"
    using ok' fields by (simp add: same CommitDNSRepopulation_def read_stored writeDNSConntrackState_def)
  moreover have "readDNSConntrackState ?f2 = Inr (Some ?c)" using ok by (simp add: read_stored)
  then have "NftApply env' ?q ?f2 = (((False, None), ?f2), [])"
    by (rule NftApply_quiet[OF assms(6)]) (simp add: needs_refill_def assms(7) nothing_stale fields)
  ultimately show ?thesis using apply_ok[OF assms(4,5) True] by (intro exI[of _ True] exI conjI) simp_all
qed

subsection \<open>A concrete host\<close>

text \<open>A host without the table, on which everything works.\<close>

definition fresh_env :: nft_env where
  "fresh_env = \<lparr>ne_Locked = True, ne_Listing = Inl ''Error: No such file or directory'', ne_State = Done, ne_Ruleset = True,
     ne_Load = True, ne_Conntrack = (\<lambda>scope protocol. Deleted), ne_Settled = Done\<rparr>"

lemma fresh_env_ok: "env_ok fresh_env" "ne_Locked fresh_env" "ne_State fresh_env = Done" "ne_Ruleset fresh_env" "ne_Load fresh_env"
  by (simp_all add: env_ok_def fresh_env_def cleared_def)

lemma fresh_env_observe: "NftObserve (ne_Listing fresh_env) = Inr []"
  unfolding fresh_env_def by code_simp

lemma Fingerprint_nonempty: "Fingerprint plan \<noteq> []"
  using is_fingerprint_Fingerprint[of plan] by (auto simp: is_fingerprint_def)

lemma fresh_needs_refill: "needs_refill fresh_env plan previous"
  using Fingerprint_nonempty[of plan] by (simp add: needs_refill_def fresh_env_observe eq_commute)

lemma read_absent: "readDNSConntrackState Absent = Inr None"
  by (simp add: readDNSConntrackState_def)

definition sample_filter :: firewall_plan where
  "sample_filter = with_socks sample_plan sample_specs"

lemma sample_filter_applied:
  "fst (NftApply fresh_env sample_filter Absent) =
     ((True, None), Content (conntrack_json ((dnsConntrackStateFor sample_filter)\<lparr>cs_PendingRepopulate := True\<rparr>)))"
  by (rule apply_ok[OF fresh_env_ok(1) read_absent fresh_needs_refill])

theorem rebuilt_tables_are_refilled_witness:
  "fst (fst (fst (NftApply fresh_env sample_filter (snd (fst (NftApply fresh_env sample_filter Absent))))))"
proof -
  have loaded: "LoadedRuleset \<in> set (snd (NftApply fresh_env sample_filter Absent))"
    unfolding NftApply_refill[OF fresh_env_ok(2) read_absent fresh_needs_refill]
    by (simp add: writeDNSConntrackState_def fresh_env_ok apply_ruleset_def fresh_env_observe
        Fingerprint_nonempty[of sample_filter, THEN not_sym])
  let ?f = "snd (fst (NftApply fresh_env sample_filter Absent))"
  obtain previous where "readDNSConntrackState ?f = Inr previous" unfolding sample_filter_applied by (simp add: read_stored)
  from apply_ok[OF fresh_env_ok(1) this fresh_needs_refill, of sample_filter] rebuilt_tables_are_refilled[OF loaded, of ?f "[]"]
  show ?thesis by (metis foldl_Nil fst_conv)
qed

text \<open>A laptop whose configuration no longer admits anyone.\<close>

definition sample_conntrack :: dns_conntrack_state where
  "sample_conntrack = \<lparr>cs_ClientCIDR = ''10.80.0.0/24'', cs_IngressInterface = IngressInterface,
     cs_Mappings = [\<lparr>cm_ClientAddress = ''10.80.0.2'', cm_ResolverAddress = ''10.90.0.1''\<rparr>],
     cs_PlanFingerprint = [], cs_CleanupScopes = [], cs_PendingRepopulate = False\<rparr>"

theorem stale_connections_are_exactly_the_moved_clients_witness:
  "''10.80.0.2'' \<in> set (dnsConntrackCleanupScopes (Some sample_conntrack)
     (dnsConntrackStateFor (sample_filter\<lparr>fp_Egresses := []\<rparr>)))"
  by (subst stale_connections_are_exactly_the_moved_clients) (auto simp: sample_conntrack_def)

theorem stale_connections_are_cleared_or_remembered_witness:
  "ClearedConntrack ''10.80.0.0/24'' ''udp'' \<in> set (snd (NftApply fresh_env sample_filter Absent))"
proof -
  have cidr: "fp_ClientCIDR sample_plan = ''10.80.0.0/24''"
    using plan_parts[OF sample_plan_built] by (metis sample_state_simps(3) sample_hub_def hub.select_convs(3))
  have "''10.80.0.0/24'' \<in> set (dnsConntrackCleanupScopes None (dnsConntrackStateFor sample_filter))"
    by (simp add: dnsConntrackCleanupScopes_def dnsConntrackStateFor_def Let_def sample_filter_def cidr)
  from stale_connections_are_cleared_or_remembered[OF read_absent _ this, of fresh_env] sample_filter_applied
    compiled_conntrack_ok[OF sample_state_ok sample_v4 sample_plan_built, of sample_specs]
  show ?thesis by (metis (no_types, lifting) sample_filter_def prod.collapse)
qed

definition loaded_env :: nft_env where
  "loaded_env = fresh_env\<lparr>ne_Listing := Inr (Some (JObj [(''nftables'',
     JArr [JObj [(''table'', JObj [(''comment'', JStr (''vpn-hub:'' @ Fingerprint sample_filter))])]])]))\<rparr>"

lemma loaded_env_observe: "NftObserve (ne_Listing loaded_env) = Inr (Fingerprint sample_filter)"
  by (simp add: loaded_env_def NftObserve_def parseFingerprint_def obj_val_def list_val_def dec_table_def
      str_field_def str_val_def map_filter_simps of_option_def TrimPrefix_def HasPrefix_def)

theorem a_clean_pass_settles_witness:
  "\<exists>f1 f2. fst (NftApply fresh_env sample_filter Absent) = ((True, None), f1) \<and>
    CommitDNSRepopulation True Done sample_filter f1 = (None, f2) \<and>
    NftApply loaded_env sample_filter f2 = (((False, None), f2), [])"
proof -
  have "ne_Locked loaded_env" by (simp add: loaded_env_def fresh_env_ok)
  from a_clean_pass_settles[OF sample_state_ok sample_v4 sample_plan_built fresh_env_ok(1) read_absent this,
      of sample_specs, folded sample_filter_def, OF loaded_env_observe] sample_filter_applied
  show ?thesis by (metis fst_conv)
qed

end
