(* ===== verification/Runner.thy ===== *)
theory Runner
  imports GoStrings "HOL-Library.State_Monad"
begin

text \<open>
  The ground the adapters of \<open>internal/adapters/linux\<close> stand on: the \<open>runner\<close> that executes a host
  command (\<open>ingress.go\<close>), and the files of the runtime directory (\<open>writeIfChanged\<close> of \<open>egress.go\<close>,
  \<open>write\<close> of \<open>dnsmasq.go\<close>).

  An adapter is a computation in the library's state monad over a \<open>host\<close>: the files the hub wrote
  and the log of everything it did, newest first.  What the host answers to a command, and how a
  write, a read or a removal ends, is an \<open>env\<close>: functions of the log so far, so the host may answer
  the same command differently every time.  A fallible step returns a sum, and an error keeps the
  command or the path it is about.
\<close>

subsection \<open>The host and its answers\<close>

datatype host_error =
    RunFailed "string list" string
  | WriteFailed string
  | ReadFailed string
  | RemoveFailed string
  | Refused string
  | Cancelled
  | Wrapped string host_error
  | Joined "host_error list"
  | Panic

datatype event =
    Ran "string list" "(string, string) result"
  | Wrote string string
  | WriteBroke string "string option"
  | Removed string
  | RemoveBroke string

record host =
  h_Log :: "event list"
  h_Files :: "string \<Rightarrow> string option"

text \<open>
  \<open>e_Run\<close> is the error's text or the output; \<open>e_Write\<close> is \<open>None\<close> for a write that succeeds and
  otherwise what it leaves behind; \<open>e_Read\<close> and \<open>e_Remove\<close> say whether an existing file can be read
  and removed; \<open>e_Cancelled\<close> says whether the context ends while the adapter waits.
\<close>

record env =
  e_Run :: "event list \<Rightarrow> string list \<Rightarrow> (string, string) result"
  e_Read :: "event list \<Rightarrow> string \<Rightarrow> bool"
  e_Write :: "event list \<Rightarrow> string \<Rightarrow> string \<Rightarrow> string option option"
  e_Remove :: "event list \<Rightarrow> string \<Rightarrow> bool"
  e_Cancelled :: "event list \<Rightarrow> bool"

type_synonym 'a io_op = "(host, 'a) state"
type_synonym 'a try_op = "(host, (host_error, 'a) result) state"

datatype read_answer = NotExist | NoRead | Data string

subsection \<open>Steps\<close>

definition returns :: "'a \<Rightarrow> 'a io_op" where
  "returns x = State (\<lambda>h. (x, h))"

definition fails :: "host_error \<Rightarrow> 'a try_op" where
  "fails e = returns (Inl e)"

definition ok :: "unit try_op" where
  "ok = returns (Inr ())"

text \<open>\<open>exec\<close> is a call whose error matters, \<open>attempt\<close> one whose error is dropped (\<open>_, _ = run(...)\<close>).\<close>

definition answered :: "env \<Rightarrow> string list \<Rightarrow> (string, string) result io_op" where
  "answered env cmd = State (\<lambda>h.
     let a = e_Run env (h_Log h) cmd in (a, h\<lparr>h_Log := Ran cmd a # h_Log h\<rparr>))"

definition exec :: "env \<Rightarrow> string list \<Rightarrow> string try_op" where
  "exec env cmd = do { a \<leftarrow> answered env cmd; returns (mapErr (RunFailed cmd) a) }"

definition attempt :: "env \<Rightarrow> string list \<Rightarrow> unit io_op" where
  "attempt env cmd = do { _ \<leftarrow> answered env cmd; returns () }"

definition readFile :: "env \<Rightarrow> string \<Rightarrow> read_answer io_op" where
  "readFile env path = State (\<lambda>h.
     ((case h_Files h path of
         None \<Rightarrow> NotExist
       | Some c \<Rightarrow> if e_Read env (h_Log h) path then Data c else NoRead), h))"

definition writeFile :: "env \<Rightarrow> string \<Rightarrow> string \<Rightarrow> unit try_op" where
  "writeFile env path content = State (\<lambda>h.
     (case e_Write env (h_Log h) path content of
        None \<Rightarrow> (Inr (), h\<lparr>h_Log := Wrote path content # h_Log h, h_Files := (h_Files h)(path := Some content)\<rparr>)
      | Some left \<Rightarrow>
          (Inl (WriteFailed path), h\<lparr>h_Log := WriteBroke path left # h_Log h, h_Files := (h_Files h)(path := left)\<rparr>)))"

text \<open>\<open>os.Remove\<close>, where a file that does not exist is not an error for any caller.\<close>

definition removeFile :: "env \<Rightarrow> string \<Rightarrow> unit try_op" where
  "removeFile env path = State (\<lambda>h.
     (if h_Files h path = None then (Inr (), h)
      else if e_Remove env (h_Log h) path
        then (Inr (), h\<lparr>h_Log := Removed path # h_Log h, h_Files := (h_Files h)(path := None)\<rparr>)
        else (Inl (RemoveFailed path), h\<lparr>h_Log := RemoveBroke path # h_Log h\<rparr>)))"

text \<open>A pause between two attempts: whether the context ended meanwhile.\<close>

definition cancelled :: "env \<Rightarrow> bool io_op" where
  "cancelled env = State (\<lambda>h. (e_Cancelled env (h_Log h), h))"

definition discard :: "'a try_op \<Rightarrow> unit io_op" where
  "discard m = do { _ \<leftarrow> m; returns () }"

text \<open>Sequencing that stops at the first error, and the loop over it.\<close>

definition andThen :: "'a try_op \<Rightarrow> ('a \<Rightarrow> 'b try_op) \<Rightarrow> 'b try_op" where
  "andThen m f = do { r \<leftarrow> m; (case r of Inl e \<Rightarrow> fails e | Inr x \<Rightarrow> f x) }"

fun inOrder :: "unit try_op list \<Rightarrow> unit try_op" where
  "inOrder [] = ok"
| "inOrder (m # ms) = andThen m (\<lambda>_. inOrder ms)"

definition forEach :: "'a list \<Rightarrow> ('a \<Rightarrow> unit try_op) \<Rightarrow> unit try_op" where
  "forEach xs f = inOrder (map f xs)"

fun attemptAll :: "env \<Rightarrow> string list list \<Rightarrow> unit io_op" where
  "attemptAll env [] = returns ()"
| "attemptAll env (c # cs) = do { attempt env c; attemptAll env cs }"

definition run :: "env \<Rightarrow> string list \<Rightarrow> unit try_op" where
  "run env cmd = andThen (exec env cmd) (\<lambda>_. ok)"

definition wrapping :: "string \<Rightarrow> 'a try_op \<Rightarrow> 'a try_op" where
  "wrapping context m = do { r \<leftarrow> m; returns (mapErr (Wrapped context) r) }"

text \<open>\<open>errors.Join\<close>: nil when every part is nil.\<close>

definition joined :: "host_error list \<Rightarrow> (host_error, unit) result" where
  "joined es = (if es = [] then Inr () else Inl (Joined es))"

subsection \<open>Files of the runtime directory\<close>

definition DefaultRuntimeDir :: string where
  "DefaultRuntimeDir = ''/run/vpn-hub''"

definition joinPath :: "string \<Rightarrow> string \<Rightarrow> string" where
  "joinPath dir name = dir @ ''/'' @ name"

text \<open>Whether the file's contents changed.\<close>

definition writeIfChanged :: "env \<Rightarrow> string \<Rightarrow> string \<Rightarrow> bool try_op" where
  "writeIfChanged env path content = do {
     existing \<leftarrow> readFile env path;
     (if existing = Data content then returns (Inr False)
      else andThen (writeFile env path content) (\<lambda>_. returns (Inr True))) }"

subsection \<open>Commands every adapter uses\<close>

definition service :: "string \<Rightarrow> string" where
  "service unit = unit @ ''.service''"

definition stop_cmd :: "string \<Rightarrow> string list" where
  "stop_cmd unit = [''systemctl'', ''stop'', service unit]"

definition active_cmd :: "string \<Rightarrow> string list" where
  "active_cmd unit = [''systemctl'', ''is-active'', ''--quiet'', service unit]"

subsection \<open>Weakest preconditions\<close>

definition wp :: "('s, 'a) state \<Rightarrow> ('a \<Rightarrow> 's \<Rightarrow> bool) \<Rightarrow> 's \<Rightarrow> bool" where
  "wp m Q h = (case run_state m h of (x, h') \<Rightarrow> Q x h')"

named_theorems wp_rules \<open>weakest preconditions of the steps\<close>

lemma wp_run: "run_state m h = (x, h') \<Longrightarrow> wp m Q h \<longleftrightarrow> Q x h'"
  by (simp add: wp_def)

lemma wpD: "wp m Q h \<Longrightarrow> run_state m h = (x, h') \<Longrightarrow> Q x h'"
  by (simp add: wp_def)

lemma wp_bind [wp_rules]: "wp (m \<bind> f) Q = wp m (\<lambda>x. wp (f x) Q)"
  by (simp add: wp_def fun_eq_iff split: prod.splits)

lemma wp_returns [wp_rules]: "wp (returns x) Q = Q x"
  by (simp add: wp_def returns_def fun_eq_iff)

lemma wp_fails [wp_rules]: "wp (fails e) Q = Q (Inl e)"
  by (simp add: fails_def wp_returns)

lemma wp_ok [wp_rules]: "wp ok Q = Q (Inr ())"
  by (simp add: ok_def wp_returns)

lemma wp_answered [wp_rules]:
  "wp (answered env cmd) Q = (\<lambda>h.
     Q (e_Run env (h_Log h) cmd) (h\<lparr>h_Log := Ran cmd (e_Run env (h_Log h) cmd) # h_Log h\<rparr>))"
  by (simp add: wp_def answered_def Let_def fun_eq_iff)

lemma wp_exec [wp_rules]:
  "wp (exec env cmd) Q = (\<lambda>h.
     Q (mapErr (RunFailed cmd) (e_Run env (h_Log h) cmd)) (h\<lparr>h_Log := Ran cmd (e_Run env (h_Log h) cmd) # h_Log h\<rparr>))"
  by (simp add: exec_def wp_rules)

lemma wp_attempt [wp_rules]:
  "wp (attempt env cmd) Q = (\<lambda>h. Q () (h\<lparr>h_Log := Ran cmd (e_Run env (h_Log h) cmd) # h_Log h\<rparr>))"
  by (simp add: attempt_def wp_rules)

lemma wp_readFile [wp_rules]:
  "wp (readFile env path) Q = (\<lambda>h.
     Q (case h_Files h path of
          None \<Rightarrow> NotExist
        | Some c \<Rightarrow> if e_Read env (h_Log h) path then Data c else NoRead) h)"
  by (simp add: wp_def readFile_def fun_eq_iff)

lemma wp_writeFile [wp_rules]:
  "wp (writeFile env path content) Q = (\<lambda>h.
     (case e_Write env (h_Log h) path content of
        None \<Rightarrow> Q (Inr ()) (h\<lparr>h_Log := Wrote path content # h_Log h, h_Files := (h_Files h)(path := Some content)\<rparr>)
      | Some left \<Rightarrow>
          Q (Inl (WriteFailed path)) (h\<lparr>h_Log := WriteBroke path left # h_Log h, h_Files := (h_Files h)(path := left)\<rparr>)))"
  by (simp add: wp_def writeFile_def fun_eq_iff split: option.split)

lemma wp_removeFile [wp_rules]:
  "wp (removeFile env path) Q = (\<lambda>h.
     (if h_Files h path = None then Q (Inr ()) h
      else if e_Remove env (h_Log h) path
        then Q (Inr ()) (h\<lparr>h_Log := Removed path # h_Log h, h_Files := (h_Files h)(path := None)\<rparr>)
        else Q (Inl (RemoveFailed path)) (h\<lparr>h_Log := RemoveBroke path # h_Log h\<rparr>)))"
  by (simp add: wp_def removeFile_def fun_eq_iff)

lemma wp_cancelled [wp_rules]: "wp (cancelled env) Q = (\<lambda>h. Q (e_Cancelled env (h_Log h)) h)"
  by (simp add: wp_def cancelled_def fun_eq_iff)

lemma wp_discard [wp_rules]: "wp (discard m) Q = wp m (\<lambda>_. Q ())"
  by (simp add: discard_def wp_rules)

lemma wp_andThen [wp_rules]:
  "wp (andThen m f) Q = wp m (\<lambda>r. case r of Inl e \<Rightarrow> Q (Inl e) | Inr x \<Rightarrow> wp (f x) Q)"
proof -
  have "wp (case r of Inl e \<Rightarrow> fails e | Inr x \<Rightarrow> f x) Q = (case r of Inl e \<Rightarrow> Q (Inl e) | Inr x \<Rightarrow> wp (f x) Q)" for r
    by (cases r) (simp_all add: wp_rules)
  then show ?thesis by (simp add: andThen_def wp_rules)
qed

lemma wp_wrapping [wp_rules]: "wp (wrapping c m) Q = wp m (\<lambda>r. Q (mapErr (Wrapped c) r))"
  by (simp add: wrapping_def wp_rules)

lemma wp_run_cmd [wp_rules]:
  "wp (run env cmd) Q = (\<lambda>h.
     Q (case e_Run env (h_Log h) cmd of Inl e \<Rightarrow> Inl (RunFailed cmd e) | Inr _ \<Rightarrow> Inr ())
       (h\<lparr>h_Log := Ran cmd (e_Run env (h_Log h) cmd) # h_Log h\<rparr>))"
  by (simp add: run_def wp_rules fun_eq_iff split: sum.split)

lemma wp_if [wp_rules]: "wp (if b then m else n) Q = (if b then wp m Q else wp n Q)"
  by simp

lemma wp_writeIfChanged [wp_rules]:
  "wp (writeIfChanged env path content) Q = (\<lambda>h.
     (if h_Files h path = Some content \<and> e_Read env (h_Log h) path then Q (Inr False) h
      else (case e_Write env (h_Log h) path content of
        None \<Rightarrow> Q (Inr True) (h\<lparr>h_Log := Wrote path content # h_Log h, h_Files := (h_Files h)(path := Some content)\<rparr>)
      | Some left \<Rightarrow>
          Q (Inl (WriteFailed path)) (h\<lparr>h_Log := WriteBroke path left # h_Log h, h_Files := (h_Files h)(path := left)\<rparr>))))"
  by (auto simp: writeIfChanged_def wp_rules fun_eq_iff split: option.split)

lemma wp_mono: "wp m Q h \<Longrightarrow> (\<And>x h'. Q x h' \<Longrightarrow> R x h') \<Longrightarrow> wp m R h"
  by (auto simp: wp_def split: prod.splits)

lemma wp_conj: "wp m (\<lambda>x h'. Q x h' \<and> R x h') h \<longleftrightarrow> wp m Q h \<and> wp m R h"
  by (auto simp: wp_def split: prod.splits)

lemma wp_True [simp]: "wp m (\<lambda>_ _. True) h"
  by (simp add: wp_def split: prod.splits)

text \<open>Sequencing with an intermediate assertion.\<close>

lemma wp_then:
  assumes "wp m P h" "\<And>x h'. P x h' \<Longrightarrow> wp (f x) Q h'"
  shows "wp (m \<bind> f) Q h"
  unfolding wp_bind by (rule wp_mono[OF assms])

lemma wp_seq:
  assumes "wp m P h" "\<And>e h'. P (Inl e) h' \<Longrightarrow> Q (Inl e) h'" "\<And>x h'. P (Inr x) h' \<Longrightarrow> wp (f x) Q h'"
  shows "wp (andThen m f) Q h"
  unfolding wp_andThen
  by (rule wp_mono[OF assms(1)]) (auto split: sum.split intro: assms(2,3))

lemma wp_both: "wp m P h \<Longrightarrow> wp m Q h \<Longrightarrow> wp m (\<lambda>x h'. P x h' \<and> Q x h') h"
  by (simp add: wp_def split_beta)

text \<open>A loop with an invariant of the elements already treated.\<close>

lemma wp_forEach:
  assumes "I [] h"
    and "\<And>pre x post h. xs = pre @ x # post \<Longrightarrow> I pre h \<Longrightarrow>
           wp (f x) (\<lambda>r h'. case r of Inl e \<Rightarrow> E e h' | Inr _ \<Rightarrow> I (pre @ [x]) h') h"
  shows "wp (forEach xs f) (\<lambda>r h'. case r of Inl e \<Rightarrow> E e h' | Inr _ \<Rightarrow> I xs h') h"
proof -
  have "wp (inOrder (map f post)) (\<lambda>r h'. case r of Inl e \<Rightarrow> E e h' | Inr _ \<Rightarrow> I xs h') h"
    if "xs = pre @ post" "I pre h" for pre post h
    using that
  proof (induction post arbitrary: pre h)
    case Nil
    then show ?case by (simp add: wp_rules)
  next
    case (Cons x post)
    let ?R = "\<lambda>r h'. case r of Inl e \<Rightarrow> E e h' | Inr _ \<Rightarrow> I xs h'"
    have rest: "wp (inOrder (map f post)) ?R h'" if "I (pre @ [x]) h'" for h'
      using Cons.IH[of "pre @ [x]" h'] Cons.prems that by simp
    show ?case
      unfolding list.map inOrder.simps wp_andThen
    proof (rule wp_mono[OF assms(2)[OF Cons.prems]])
      fix r h' assume "case r of Inl e \<Rightarrow> E e h' | Inr _ \<Rightarrow> I (pre @ [x]) h'"
      then show "(case r of Inl e \<Rightarrow> ?R (Inl e) | Inr _ \<Rightarrow> wp (inOrder (map f post)) ?R) h'"
        using rest by (cases r) simp_all
    qed
  qed
  from this[of "[]" xs h] assms(1) show ?thesis by (simp add: forEach_def)
qed

text \<open>
  A relation between the host before and after that every step respects and that composes is
  respected by the sequences and loops built from the steps.
\<close>

named_theorems io_rel \<open>relations respected by every composition of steps\<close>

lemma io_rel_iff: "state_io_rel R m \<longleftrightarrow> (\<forall>h. wp m (\<lambda>_. R h) h)"
  by (simp add: state_io_rel_def wp_def split_beta)

lemma io_rel_wp: "state_io_rel R m \<Longrightarrow> wp m (\<lambda>_. R h) h"
  by (simp add: io_rel_iff)

lemma io_rel_returns [io_rel]: "reflp R \<Longrightarrow> state_io_rel R (returns x)"
  by (simp add: io_rel_iff wp_rules reflp_def)

lemma io_rel_bind [io_rel]:
  assumes "transp R" "state_io_rel R m" "\<And>x. state_io_rel R (f x)"
  shows "state_io_rel R (m \<bind> f)"
  unfolding io_rel_iff wp_rules
proof
  fix h
  show "wp m (\<lambda>x. wp (f x) (\<lambda>_. R h)) h"
  proof (rule wp_mono[OF io_rel_wp[OF assms(2)]])
    fix x h1 assume "R h h1"
    then show "wp (f x) (\<lambda>_. R h) h1"
      by (rule_tac wp_mono[OF io_rel_wp[OF assms(3)]]) (rule transpD[OF assms(1)])
  qed
qed

lemma io_rel_fails [io_rel]: "reflp R \<Longrightarrow> state_io_rel R (fails e)"
  by (simp add: fails_def io_rel_returns)

lemma io_rel_ok [io_rel]: "reflp R \<Longrightarrow> state_io_rel R ok"
  by (simp add: ok_def io_rel_returns)

lemma io_rel_discard [io_rel]: "reflp R \<Longrightarrow> transp R \<Longrightarrow> state_io_rel R m \<Longrightarrow> state_io_rel R (discard m)"
  unfolding discard_def by (intro io_rel)

lemma io_rel_wrapping [io_rel]:
  "reflp R \<Longrightarrow> transp R \<Longrightarrow> state_io_rel R m \<Longrightarrow> state_io_rel R (wrapping c m)"
  unfolding wrapping_def by (intro io_rel)

lemma io_rel_andThen [io_rel]:
  assumes "reflp R" "transp R" "state_io_rel R m" "\<And>x. state_io_rel R (f x)"
  shows "state_io_rel R (andThen m f)"
proof -
  have "state_io_rel R (case r of Inl e \<Rightarrow> fails e | Inr x \<Rightarrow> f x)" for r
    using assms by (cases r) (auto intro: io_rel)
  then show ?thesis unfolding andThen_def using assms by (intro io_rel)
qed

lemma io_rel_forEach [io_rel]:
  assumes "reflp R" "transp R" "\<And>x. x \<in> set xs \<Longrightarrow> state_io_rel R (f x)"
  shows "state_io_rel R (forEach xs f)"
  unfolding forEach_def using assms(3)
  by (induction xs) (auto intro!: io_rel assms(1,2))

lemma io_rel_if [io_rel]:
  "(b \<Longrightarrow> state_io_rel R m) \<Longrightarrow> (\<not> b \<Longrightarrow> state_io_rel R n) \<Longrightarrow> state_io_rel R (if b then m else n)"
  by simp

text \<open>The log only grows.\<close>

definition extends :: "host \<Rightarrow> host \<Rightarrow> bool" where
  "extends h h' \<longleftrightarrow> (\<exists>new. h_Log h' = new @ h_Log h)"

lemma extends_refl [simp]: "extends h h"
  by (simp add: extends_def)

lemma extends_trans: "extends h h1 \<Longrightarrow> extends h1 h2 \<Longrightarrow> extends h h2"
  by (auto simp: extends_def)

lemma extends_preorder [simp]: "reflp extends" "transp extends"
  by (auto simp: reflp_def transp_def intro: extends_trans)

lemma extends_steps [io_rel]:
  "state_io_rel extends (answered env cmd)" "state_io_rel extends (exec env cmd)"
  "state_io_rel extends (attempt env cmd)" "state_io_rel extends (run env cmd)"
  "state_io_rel extends (readFile env path)" "state_io_rel extends (writeFile env path content)"
  "state_io_rel extends (removeFile env path)" "state_io_rel extends (writeIfChanged env path content)"
  by (auto simp: io_rel_iff wp_rules extends_def split: option.split)

text \<open>What was done since.\<close>

definition since :: "host \<Rightarrow> host \<Rightarrow> event list" where
  "since h h' = take (length (h_Log h') - length (h_Log h)) (h_Log h')"

lemma since_eq [simp]: "h_Log h' = new @ h_Log h \<Longrightarrow> since h h' = new"
  by (simp add: since_def)

text \<open>Success of a sequence, read off its steps.\<close>

lemma andThen_Inr_iff:
  "run_state (andThen m f) h = (Inr y, h') \<longleftrightarrow>
     (\<exists>x h1. run_state m h = (Inr x, h1) \<and> run_state (f x) h1 = (Inr y, h'))"
  by (auto simp: andThen_def fails_def returns_def split: prod.splits sum.splits)

subsection \<open>A host that answers\<close>

text \<open>A host where every command and every write succeeds, and the quietest of them.\<close>

definition obliging :: "env \<Rightarrow> bool" where
  "obliging env \<longleftrightarrow> (\<forall>log cmd. isOk (e_Run env log cmd)) \<and> (\<forall>log path content. e_Write env log path content = None)"

lemma obliging_answers:
  assumes "obliging env"
  obtains g where "\<And>log cmd. e_Run env log cmd = Inr (g log cmd)" "\<And>log path content. e_Write env log path content = None"
proof -
  have "\<forall>log cmd. \<exists>out. e_Run env log cmd = Inr out" using assms by (simp add: obliging_def isOk_iff)
  then obtain g where "\<forall>log cmd. e_Run env log cmd = Inr (g log cmd)" by metis
  with assms that show thesis by (simp add: obliging_def)
qed

definition calm_env :: env where
  "calm_env = \<lparr>e_Run = \<lambda>_ _. Inr [], e_Read = \<lambda>_ _. True, e_Write = \<lambda>_ _ _. None, e_Remove = \<lambda>_ _. True,
    e_Cancelled = \<lambda>_. False\<rparr>"

definition bare_host :: host where
  "bare_host = \<lparr>h_Log = [], h_Files = \<lambda>_. None\<rparr>"

lemma calm_simps [simp]:
  "e_Run calm_env l c = Inr []" "e_Read calm_env l p" "e_Write calm_env l p t = None" "e_Remove calm_env l p"
  "\<not> e_Cancelled calm_env l"
  by (simp_all add: calm_env_def)

lemma calm_obliging: "obliging calm_env"
  by (simp add: obliging_def)

end
