(* ===== verification/GoRunes.thy ===== *)
theory GoRunes
  imports Json
begin

text \<open>
  Ranging over a Go string: the UTF-8 encodings of its runes, where a byte that starts no valid
  encoding is a rune of its own (\<open>utf8.DecodeRuneInString\<close>).
\<close>

definition rune_width :: "string \<Rightarrow> nat" where
  "rune_width s = max 1 (utf8_len s)"

lemma rune_width_pos [simp]: "0 < rune_width s"
  by (simp add: rune_width_def)

function runes :: "string \<Rightarrow> string list" where
  "runes s = (if s = [] then [] else take (rune_width s) s # runes (drop (rune_width s) s))"
  by pat_completeness auto
termination
  by (relation "measure length") auto

declare runes.simps [simp del]

lemma runes_Nil [simp]: "runes [] = []"
  by (simp add: runes.simps)

lemma concat_runes: "concat (runes s) = s"
proof (induction s rule: runes.induct)
  case (1 s)
  then show ?case by (cases "s = []") (simp_all add: runes.simps[of s])
qed

lemma rune_width_ascii: "code c < 0x80 \<Longrightarrow> rune_width (c # s) = 1"
  by (simp add: rune_width_def utf8_len_def)

lemma runes_ascii: "list_all (\<lambda>c. code c < 0x80) s \<Longrightarrow> runes s = map (\<lambda>c. [c]) s"
proof (induction s)
  case (Cons c s)
  then show ?case by (simp add: runes.simps[of "c # s"] rune_width_ascii)
qed simp

end
