(* ===== verification/Dnsmasq.thy ===== *)
theory Dnsmasq
  imports HostSpecs Runner GoRunes
begin

text \<open>
  \<open>internal/adapters/linux/dnsmasq.go\<close>: the configuration of every resolver of a DNS plan and the
  pass that writes them, starts the transient units that serve them and stops the units the plan no
  longer names.  \<open>systemctl\<close> and \<open>systemd-run\<close> are the runner's answers.
\<close>

subsection \<open>Names\<close>

definition hubResolverUnit :: string where "hubResolverUnit = ''vpn-hub-dns''"
definition upstreamResolverUnit :: string where "upstreamResolverUnit = ''vpn-hub-resolver-public''"
definition clientResolverPrefix :: string where "clientResolverPrefix = ''vpn-hub-resolver-client-''"
definition publicResolverPrefix :: string where "publicResolverPrefix = ''vpn-hub-resolver-public-''"
definition privateResolverPrefix :: string where "privateResolverPrefix = ''vpn-hub-resolver-net-''"
definition legacyResolverPrefix :: string where "legacyResolverPrefix = ''vpn-hub-dns-''"

definition safe_symbol :: "char \<Rightarrow> bool" where
  "safe_symbol c \<longleftrightarrow> is_letter c \<or> is_digit c \<or> c = CHR ''-'' \<or> c = CHR ''_''"

definition safeUnitSuffix :: "string \<Rightarrow> string" where
  "safeUnitSuffix v =
     (let s = map (\<lambda>r. case r of [c] \<Rightarrow> if safe_symbol c then c else CHR ''-'' | _ \<Rightarrow> CHR ''-'') (runes v)
      in if s = [] then ''private'' else s)"

definition clientResolverUnit :: "string \<Rightarrow> string" where
  "clientResolverUnit egressID = clientResolverPrefix @ safeUnitSuffix egressID"

definition clientResolverConfig :: "string \<Rightarrow> string" where
  "clientResolverConfig egressID = ''dnsmasq-client-'' @ safeUnitSuffix egressID @ ''.conf''"

definition publicResolverUnit :: "string \<Rightarrow> string" where
  "publicResolverUnit egressID = publicResolverPrefix @ safeUnitSuffix egressID"

definition publicResolverConfig :: "string \<Rightarrow> string" where
  "publicResolverConfig egressID = ''dnsmasq-public-'' @ safeUnitSuffix egressID @ ''.conf''"

definition privateResolverUnit :: "string \<Rightarrow> string" where
  "privateResolverUnit tunnelID = privateResolverPrefix @ safeUnitSuffix tunnelID"

definition privateResolverConfig :: "string \<Rightarrow> string" where
  "privateResolverConfig tunnelID = ''dnsmasq-private-'' @ safeUnitSuffix tunnelID @ ''.conf''"

subsection \<open>The configurations\<close>

definition text_of :: "string list \<Rightarrow> string" where
  "text_of ls = concat (map (\<lambda>l. l @ [NL]) ls)"

definition resolver_head :: "string \<Rightarrow> string list" where
  "resolver_head listen =
     [''# Managed by vpn-hub. Manual edits are reverted on the next reconcile.'', ''no-resolv'', ''no-hosts'',
      ''bind-interfaces'', ''listen-address='' @ listen]"

definition server_line :: "string \<Rightarrow> string" where
  "server_line upstream = ''server='' @ upstream"

definition zone_lines :: "dns_zone_route \<Rightarrow> string list" where
  "zone_lines z =
     map (\<lambda>r. ''server=/'' @ zr_Zone z @ ''/'' @ r)
       (if zr_ForwardAddress z \<noteq> [] then [zr_ForwardAddress z] else zr_Resolvers z) @
     [''nftset=/'' @ zr_Zone z @ ''/inet#vpn_hub#'' @ zr_Set z]"

definition client_lines :: "dns_plan \<Rightarrow> dns_egress_resolver \<Rightarrow> string list" where
  "client_lines plan r =
     resolver_head (er_HubAddress r) @ [''local-service''] @ concat (map zone_lines (dpl_Zones plan)) @
     (if er_Namespace r \<noteq> [] then [server_line (er_NamespaceAddress r)]
      else map server_line (er_PublicResolvers r))"

definition RenderClientResolver :: "dns_plan \<Rightarrow> dns_egress_resolver \<Rightarrow> string" where
  "RenderClientResolver plan r = text_of (client_lines plan r)"

definition RenderPublicResolver :: "dns_egress_resolver \<Rightarrow> string" where
  "RenderPublicResolver r =
     text_of (resolver_head (er_NamespaceAddress r) @ map server_line (er_PublicResolvers r))"

definition RenderPrivateResolver :: "dns_private_resolver \<Rightarrow> string" where
  "RenderPrivateResolver r = text_of (resolver_head (dr_Address r) @ map server_line (dr_Resolvers r))"

subsection \<open>Commands\<close>

definition start_cmd :: "string \<Rightarrow> string \<Rightarrow> string \<Rightarrow> string list" where
  "start_cmd unit namespace config =
     [''systemd-run'', ''--quiet'', ''--collect'', ''--unit='' @ unit, ''--property=Restart=on-failure''] @
     (if namespace \<noteq> [] then [''ip'', ''netns'', ''exec'', namespace] else []) @
     [''dnsmasq'', ''--keep-in-foreground'', ''--conf-file='' @ config]"

definition list_cmd :: "string \<Rightarrow> string list" where
  "list_cmd pattern = [''systemctl'', ''list-units'', ''--all'', ''--plain'', ''--no-legend'', pattern @ ''*.service'']"

subsection \<open>Stopping what the plan no longer names\<close>

definition unitNames :: "string \<Rightarrow> string \<Rightarrow> string list" where
  "unitNames answer pattern =
     concat (map (\<lambda>line. List.map_filter (\<lambda>field.
         let name = TrimSuffix field ''.service'' in
         if HasSuffix field ''.service'' \<and> HasPrefix name pattern then Some name else None) (Fields line))
       (Split NL answer))"

definition listResolverUnits :: "env \<Rightarrow> string \<Rightarrow> string list try_op" where
  "listResolverUnits env pattern =
     andThen (wrapping (''list '' @ pattern @ ''* units'') (exec env (list_cmd pattern)))
       (\<lambda>answer. returns (Inr (unitNames answer pattern)))"

definition wanted_units :: "dns_plan \<Rightarrow> string list" where
  "wanted_units plan =
     map (\<lambda>r. privateResolverUnit (dr_TunnelID r)) (dpl_PrivateResolvers plan) @
     concat (map (\<lambda>r. clientResolverUnit (er_EgressID r) #
       (if er_Namespace r \<noteq> [] then [publicResolverUnit (er_EgressID r)] else [])) (dpl_EgressResolvers plan))"

text \<open>The units of one generated space that are not wanted are stopped and their files removed.\<close>

fun sweep_units :: "env \<Rightarrow> string \<Rightarrow> string list \<Rightarrow> string \<Rightarrow> (string \<Rightarrow> string) \<Rightarrow> string list \<Rightarrow> unit io_op" where
  "sweep_units env dir wanted prefix config [] = returns ()"
| "sweep_units env dir wanted prefix config (unit # units) = do {
     (if unit \<in> set wanted then returns ()
      else do {
        attempt env (stop_cmd unit);
        discard (removeFile env (joinPath dir (config (TrimPrefix unit prefix)))) });
     sweep_units env dir wanted prefix config units }"

definition units_found :: "(host_error, string list) result \<Rightarrow> string list" where
  "units_found r = (case r of Inl _ \<Rightarrow> [] | Inr us \<Rightarrow> us)"

definition errors_of :: "(host_error, 'a) result \<Rightarrow> host_error list" where
  "errors_of r = (case r of Inl e \<Rightarrow> [e] | Inr _ \<Rightarrow> [])"

definition sweep_space :: "env \<Rightarrow> string \<Rightarrow> string list \<Rightarrow> string \<Rightarrow> (string \<Rightarrow> string) \<Rightarrow> host_error list io_op" where
  "sweep_space env dir wanted prefix config = do {
     found \<leftarrow> listResolverUnits env prefix;
     sweep_units env dir wanted prefix config (units_found found);
     returns (errors_of found) }"

fun sweep_spaces :: "env \<Rightarrow> string \<Rightarrow> string list \<Rightarrow> (string \<times> (string \<Rightarrow> string)) list \<Rightarrow> host_error list io_op" where
  "sweep_spaces env dir wanted [] = returns []"
| "sweep_spaces env dir wanted ((prefix, config) # spaces) = do {
     errs \<leftarrow> sweep_space env dir wanted prefix config;
     more \<leftarrow> sweep_spaces env dir wanted spaces;
     returns (errs @ more) }"

text \<open>Everything under the older prefix is stopped.\<close>

definition sweep_legacy :: "env \<Rightarrow> host_error list io_op" where
  "sweep_legacy env = do {
     legacy \<leftarrow> listResolverUnits env legacyResolverPrefix;
     attemptAll env (map stop_cmd (units_found legacy));
     returns (errors_of legacy) }"

definition generated_spaces :: "(string \<times> (string \<Rightarrow> string)) list" where
  "generated_spaces =
     [(privateResolverPrefix, privateResolverConfig), (publicResolverPrefix, publicResolverConfig),
      (clientResolverPrefix, clientResolverConfig)]"

definition forgetStaleResolvers :: "env \<Rightarrow> string \<Rightarrow> dns_plan \<Rightarrow> unit try_op" where
  "forgetStaleResolvers env dir plan = do {
     legacy \<leftarrow> sweep_legacy env;
     errs \<leftarrow> sweep_spaces env dir (wanted_units plan) generated_spaces;
     returns (joined (legacy @ errs)) }"

subsection \<open>Starting what it names\<close>

definition restart :: "env \<Rightarrow> string \<Rightarrow> string \<Rightarrow> string \<Rightarrow> unit try_op" where
  "restart env unit namespace config = do {
     attempt env (stop_cmd unit);
     run env (start_cmd unit namespace config) }"

definition ensureRunning :: "env \<Rightarrow> string \<Rightarrow> string \<Rightarrow> string \<Rightarrow> bool \<Rightarrow> unit try_op" where
  "ensureRunning env unit namespace config changed =
     (if changed then restart env unit namespace config
      else do {
        active \<leftarrow> answered env (active_cmd unit);
        (if isOk active then ok else restart env unit namespace config) })"

text \<open>One resolver: its unit, its namespace (empty for the main one), its file and the file's contents.\<close>

record resolver_job =
  rj_Unit :: string
  rj_Namespace :: string
  rj_Config :: string
  rj_Content :: string

definition private_job :: "string \<Rightarrow> dns_private_resolver \<Rightarrow> resolver_job" where
  "private_job dir r =
     \<lparr>rj_Unit = privateResolverUnit (dr_TunnelID r), rj_Namespace = dr_Namespace r,
      rj_Config = joinPath dir (privateResolverConfig (dr_TunnelID r)), rj_Content = RenderPrivateResolver r\<rparr>"

definition public_job :: "string \<Rightarrow> dns_egress_resolver \<Rightarrow> resolver_job" where
  "public_job dir r =
     \<lparr>rj_Unit = publicResolverUnit (er_EgressID r), rj_Namespace = er_Namespace r,
      rj_Config = joinPath dir (publicResolverConfig (er_EgressID r)), rj_Content = RenderPublicResolver r\<rparr>"

definition client_job :: "string \<Rightarrow> dns_plan \<Rightarrow> dns_egress_resolver \<Rightarrow> resolver_job" where
  "client_job dir plan r =
     \<lparr>rj_Unit = clientResolverUnit (er_EgressID r), rj_Namespace = [],
      rj_Config = joinPath dir (clientResolverConfig (er_EgressID r)), rj_Content = RenderClientResolver plan r\<rparr>"

definition resolver_jobs :: "string \<Rightarrow> dns_plan \<Rightarrow> resolver_job list" where
  "resolver_jobs dir plan =
     map (private_job dir) (dpl_PrivateResolvers plan) @
     map (public_job dir) (filter (\<lambda>r. er_Namespace r \<noteq> []) (dpl_EgressResolvers plan)) @
     map (client_job dir plan) (dpl_EgressResolvers plan)"

definition serve :: "env \<Rightarrow> bool \<Rightarrow> resolver_job \<Rightarrow> unit try_op" where
  "serve env repopulate j =
     andThen (writeIfChanged env (rj_Config j) (rj_Content j)) (\<lambda>changed.
       ensureRunning env (rj_Unit j) (rj_Namespace j) (rj_Config j) (changed \<or> repopulate))"

definition DnsApply :: "env \<Rightarrow> string \<Rightarrow> dns_plan \<Rightarrow> bool \<Rightarrow> unit try_op" where
  "DnsApply env dir plan repopulate = do {
     stale \<leftarrow> forgetStaleResolvers env dir plan;
     attempt env (stop_cmd hubResolverUnit);
     attempt env (stop_cmd upstreamResolverUnit);
     andThen (forEach (resolver_jobs dir plan) (serve env repopulate)) (\<lambda>_. returns stale) }"

end
