(* ===== verification/RunnerFacts.thy ===== *)
theory RunnerFacts
  imports Runner
begin

text \<open>
  What a pass did, read off the log: the events since its start, the commands a successful pass must
  have run, and the steps that write nothing.
\<close>

lemma extendsI: "h_Log h' = new @ h_Log h \<Longrightarrow> extends h h'"
  by (auto simp: extends_def)

lemma since_split: "extends h h1 \<Longrightarrow> extends h1 h2 \<Longrightarrow> since h h2 = since h1 h2 @ since h h1"
  by (auto simp: extends_def since_def)

lemma since_same [simp]: "since h h = []"
  by (simp add: since_def)

lemma log_since: "extends h h' \<Longrightarrow> h_Log h' = since h h' @ h_Log h"
  by (auto simp: extends_def since_def)

lemma extends_cancelled [io_rel]: "state_io_rel extends (cancelled env)"
  by (simp add: io_rel_iff wp_rules)

lemma io_rel_weaken: "state_io_rel R m \<Longrightarrow> (\<And>h h'. R h h' \<Longrightarrow> S h h') \<Longrightarrow> state_io_rel S m"
  by (simp add: state_io_rel_def)

lemma io_rel_state [io_rel]: "reflp R \<Longrightarrow> state_io_rel R (State (\<lambda>h. (f h, h)))"
  by (simp add: io_rel_iff wp_def reflp_def)

lemma io_rel_sum [io_rel]:
  "(\<And>e. r = Inl e \<Longrightarrow> state_io_rel R (f e)) \<Longrightarrow> (\<And>x. r = Inr x \<Longrightarrow> state_io_rel R (g x)) \<Longrightarrow>
    state_io_rel R (case r of Inl e \<Rightarrow> f e | Inr x \<Rightarrow> g x)"
  by (cases r) simp_all

lemma io_rel_option [io_rel]:
  "(r = None \<Longrightarrow> state_io_rel R f) \<Longrightarrow> (\<And>x. r = Some x \<Longrightarrow> state_io_rel R (g x)) \<Longrightarrow>
    state_io_rel R (case r of None \<Rightarrow> f | Some x \<Rightarrow> g x)"
  by (cases r) simp_all

lemma io_rel_prod [io_rel]: "(\<And>a b. p = (a, b) \<Longrightarrow> state_io_rel R (f a b)) \<Longrightarrow> state_io_rel R (case p of (a, b) \<Rightarrow> f a b)"
  by (cases p) simp

lemma io_rel_attemptAll [io_rel]:
  "reflp R \<Longrightarrow> transp R \<Longrightarrow> (\<And>c. c \<in> set cs \<Longrightarrow> state_io_rel R (attempt env c)) \<Longrightarrow> state_io_rel R (attemptAll env cs)"
  by (induction cs) (auto intro!: io_rel)

subsection \<open>Events a pass avoids\<close>

text \<open>No event since satisfies \<open>P\<close>.\<close>

definition avoids :: "(event \<Rightarrow> bool) \<Rightarrow> host \<Rightarrow> host \<Rightarrow> bool" where
  "avoids P h h' \<longleftrightarrow> extends h h' \<and> (\<forall>e \<in> set (since h h'). \<not> P e)"

lemma avoids_trans: "avoids P h h1 \<Longrightarrow> avoids P h1 h2 \<Longrightarrow> avoids P h h2"
  using since_split[of h h1 h2] extends_trans[of h h1 h2] by (auto simp: avoids_def)

lemma avoids_preorder [simp]: "reflp (avoids P)" "transp (avoids P)"
  by (auto simp: reflp_def avoids_def[of P x x for x] intro!: transpI elim: avoids_trans)

lemma avoids_run:
  assumes "\<And>a. \<not> P (Ran cmd a)"
  shows "state_io_rel (avoids P) (answered env cmd)" "state_io_rel (avoids P) (exec env cmd)"
    "state_io_rel (avoids P) (attempt env cmd)" "state_io_rel (avoids P) (run env cmd)"
  using assms by (auto simp: io_rel_iff wp_rules avoids_def extends_def)

lemma avoids_files:
  assumes "\<And>p c. \<not> P (Wrote p c)" "\<And>p l. \<not> P (WriteBroke p l)" "\<And>p. \<not> P (Removed p)" "\<And>p. \<not> P (RemoveBroke p)"
  shows "state_io_rel (avoids P) (writeFile env path c)" "state_io_rel (avoids P) (writeIfChanged env path c)"
    "state_io_rel (avoids P) (removeFile env path)" "state_io_rel (avoids P) (readFile env path)"
  using assms by (auto simp: io_rel_iff wp_rules avoids_def extends_def split: option.split)

subsection \<open>Events a success implies\<close>

text \<open>A success of \<open>m\<close> has an event that satisfies \<open>E\<close>.\<close>

definition ensures :: "'a try_op \<Rightarrow> (event \<Rightarrow> bool) \<Rightarrow> bool" where
  "ensures m E \<longleftrightarrow> (\<forall>h. wp m (\<lambda>r h'. extends h h' \<and> (isOk r \<longrightarrow> (\<exists>e \<in> set (since h h'). E e))) h)"

lemma ensuresI: "(\<And>h. wp m (\<lambda>r h'. extends h h' \<and> (isOk r \<longrightarrow> (\<exists>e \<in> set (since h h'). E e))) h) \<Longrightarrow> ensures m E"
  by (simp add: ensures_def)

lemma ensuresD:
  assumes "ensures m E" "run_state m h = (Inr x, h')"
  shows "extends h h'" "\<exists>e \<in> set (since h h'). E e"
  using wpD[OF assms(1)[unfolded ensures_def, rule_format] assms(2)] by (simp_all add: isOk_def)

lemma ensures_run: "(\<And>out. E (Ran cmd (Inr out))) \<Longrightarrow> ensures (run env cmd) E"
  by (auto simp: ensures_def wp_rules extends_def isOk_def split: sum.split)

lemma ensures_first:
  assumes "ensures m E" "\<And>x. state_io_rel extends (f x)"
  shows "ensures (andThen m f) E"
proof (rule ensuresI)
  fix h
  show "wp (andThen m f) (\<lambda>r h'. extends h h' \<and> (isOk r \<longrightarrow> (\<exists>e \<in> set (since h h'). E e))) h"
  proof (rule wp_seq[OF assms(1)[unfolded ensures_def, rule_format]])
    fix x h1 assume 1: "extends h h1 \<and> (isOk (Inr x :: (host_error, 'a) result) \<longrightarrow> (\<exists>e \<in> set (since h h1). E e))"
    show "wp (f x) (\<lambda>r h'. extends h h' \<and> (isOk r \<longrightarrow> (\<exists>e \<in> set (since h h'). E e))) h1"
    proof (rule wp_mono[OF io_rel_wp[OF assms(2)]])
      fix r h2 assume "extends h1 h2"
      then show "extends h h2 \<and> (isOk r \<longrightarrow> (\<exists>e \<in> set (since h h2). E e))"
        using 1 since_split[of h h1 h2] extends_trans[of h h1 h2] by (auto simp: isOk_def)
    qed
  qed (simp_all add: isOk_def)
qed

lemma ensures_then:
  assumes "state_io_rel extends m" "\<And>x. ensures (f x) E"
  shows "ensures (andThen m f) E"
proof (rule ensuresI)
  fix h
  show "wp (andThen m f) (\<lambda>r h'. extends h h' \<and> (isOk r \<longrightarrow> (\<exists>e \<in> set (since h h'). E e))) h"
  proof (rule wp_seq[OF io_rel_wp[OF assms(1)]])
    fix x h1 assume 1: "extends h h1"
    show "wp (f x) (\<lambda>r h'. extends h h' \<and> (isOk r \<longrightarrow> (\<exists>e \<in> set (since h h'). E e))) h1"
    proof (rule wp_mono[OF assms(2)[unfolded ensures_def, rule_format]])
      fix r h2 assume "extends h1 h2 \<and> (isOk r \<longrightarrow> (\<exists>e \<in> set (since h1 h2). E e))"
      then show "extends h h2 \<and> (isOk r \<longrightarrow> (\<exists>e \<in> set (since h h2). E e))"
        using 1 since_split[of h h1 h2] extends_trans[of h h1 h2] by auto
    qed
  qed (simp_all add: isOk_def)
qed

lemma ensures_if: "(b \<Longrightarrow> ensures m E) \<Longrightarrow> (\<not> b \<Longrightarrow> ensures n E) \<Longrightarrow> ensures (if b then m else n) E"
  by simp

lemma ensures_wrapping: "ensures m E \<Longrightarrow> ensures (wrapping c m) E"
proof (rule ensuresI)
  fix h assume "ensures m E"
  then show "wp (wrapping c m) (\<lambda>r h'. extends h h' \<and> (isOk r \<longrightarrow> (\<exists>e \<in> set (since h h'). E e))) h"
    unfolding wp_wrapping ensures_def
    by (elim allE[of _ h] wp_mono) (auto simp: isOk_def mapErr_def split: sum.splits)
qed

lemma ensures_forEach:
  assumes "x \<in> set xs" "ensures (f x) E" "\<And>y. y \<in> set xs \<Longrightarrow> state_io_rel extends (f y)"
  shows "ensures (forEach xs f) E"
  using assms unfolding forEach_def
proof (induction xs)
  case (Cons y ys)
  have later: "state_io_rel extends (inOrder (map f ys))"
    using Cons.prems(3) io_rel_forEach[of extends ys f] by (simp add: forEach_def)
  show ?case
  proof (cases "x = y")
    case True
    then show ?thesis using Cons.prems later by (auto intro: ensures_first)
  next
    case False
    then have "ensures (inOrder (map f ys)) E" using Cons by simp
    then show ?thesis using Cons.prems(3) by (auto intro: ensures_then)
  qed
qed simp

subsection \<open>Steps that cannot fail\<close>

lemma isOk_mapErr: "isOk (mapErr f r) = isOk r"
  by (cases r) (simp_all add: isOk_def)

named_theorems successes \<open>steps that succeed on an obliging host\<close>

definition succeeds :: "'a try_op \<Rightarrow> bool" where
  "succeeds m \<longleftrightarrow> (\<forall>h. isOk (fst (run_state m h)))"

lemma succeeds_wp: "succeeds m \<longleftrightarrow> (\<forall>h. wp m (\<lambda>r _. isOk r) h)"
  by (simp add: succeeds_def wp_def split_beta)

lemma succeeds_run: "succeeds m \<Longrightarrow> \<exists>x h'. run_state m h = (Inr x, h')"
  unfolding succeeds_def by (metis isOk_iff prod.collapse)

lemma succeeds_ok [successes]: "succeeds ok"
  by (simp add: succeeds_wp wp_rules isOk_def)

lemma succeeds_returns [successes]: "isOk r \<Longrightarrow> succeeds (returns r)"
  by (simp add: succeeds_wp wp_rules)

lemma succeeds_andThen [successes]:
  assumes "succeeds m" "\<And>x. succeeds (f x)"
  shows "succeeds (andThen m f)"
proof -
  have "isOk (fst (run_state (andThen m f) h))" for h
  proof -
    obtain x h1 where 1: "run_state m h = (Inr x, h1)" using succeeds_run[OF assms(1)] by blast
    obtain y h2 where 2: "run_state (f x) h1 = (Inr y, h2)" using succeeds_run[OF assms(2)] by blast
    have "run_state (andThen m f) h = (Inr y, h2)" unfolding andThen_Inr_iff using 1 2 by blast
    then show ?thesis by (simp add: isOk_def)
  qed
  then show ?thesis by (simp add: succeeds_def)
qed

lemma succeeds_then [successes]: "(\<And>x. succeeds (f x)) \<Longrightarrow> succeeds (m \<bind> f)"
  by (simp add: succeeds_def split_beta)

lemma succeeds_forEach [successes]: "(\<And>x. x \<in> set xs \<Longrightarrow> succeeds (f x)) \<Longrightarrow> succeeds (forEach xs f)"
  unfolding forEach_def by (induction xs) (auto intro!: successes)

lemma succeeds_wrapping [successes]: "succeeds m \<Longrightarrow> succeeds (wrapping c m)"
  unfolding succeeds_wp wp_wrapping isOk_mapErr .

lemma succeeds_if [successes]: "(b \<Longrightarrow> succeeds m) \<Longrightarrow> (\<not> b \<Longrightarrow> succeeds n) \<Longrightarrow> succeeds (if b then m else n)"
  by simp

lemma obliging_exec: "obliging env \<Longrightarrow> \<exists>out. e_Run env log cmd = Inr out"
  by (simp add: obliging_def isOk_iff)

lemma succeeds_steps [successes]:
  assumes "obliging env"
  shows "succeeds (run env cmd)" "succeeds (exec env cmd)" "succeeds (writeIfChanged env path c)"
    "succeeds (writeFile env path c)"
proof -
  obtain g where "\<And>log cmd. e_Run env log cmd = Inr (g log cmd)" "\<And>log path content. e_Write env log path content = None"
    using obliging_answers[OF assms] by metis
  then show "succeeds (run env cmd)" "succeeds (exec env cmd)" "succeeds (writeIfChanged env path c)"
    "succeeds (writeFile env path c)"
    by (simp_all add: succeeds_wp wp_rules isOk_def)
qed

end
