(* ===== verification/DnsmasqClaims.thy ===== *)
theory DnsmasqClaims
  imports Dnsmasq CompileClaims RunnerFacts
begin

text \<open>
  What a pass of the resolver adapter leaves behind: every resolver of the plan serves its present
  configuration, and no unit outside the plan keeps running.
\<close>

subsection \<open>What the log says of one unit and its file\<close>

definition started_unit :: "string list \<Rightarrow> string option" where
  "started_unit cmd =
     (case cmd of
        c # _ # _ # w # _ \<Rightarrow> if c = ''systemd-run'' \<and> HasPrefix w ''--unit='' then Some (drop 7 w) else None
      | _ \<Rightarrow> None)"

fun about_unit :: "string \<Rightarrow> event \<Rightarrow> bool" where
  "about_unit unit (Ran cmd _) \<longleftrightarrow> cmd = stop_cmd unit \<or> cmd = active_cmd unit \<or> started_unit cmd = Some unit"
| "about_unit unit _ \<longleftrightarrow> False"

fun about_file :: "string \<Rightarrow> event \<Rightarrow> bool" where
  "about_file path (Wrote p _) \<longleftrightarrow> p = path"
| "about_file path (WriteBroke p _) \<longleftrightarrow> p = path"
| "about_file path (Removed p) \<longleftrightarrow> p = path"
| "about_file path (RemoveBroke p) \<longleftrightarrow> p = path"
| "about_file path (Ran _ _) \<longleftrightarrow> False"

definition last_word :: "string \<Rightarrow> string \<Rightarrow> host \<Rightarrow> event option" where
  "last_word unit config h = find (\<lambda>e. about_unit unit e \<or> about_file config e) (h_Log h)"

definition stopped :: "string \<Rightarrow> host \<Rightarrow> bool" where
  "stopped unit h \<longleftrightarrow> (\<exists>answer. find (about_unit unit) (h_Log h) = Some (Ran (stop_cmd unit) answer))"

text \<open>
  A resolver is up to date: its file holds it, and the last thing that happened to its
  unit or its file is that it was started from it, or that it was found active while the file had
  held it since before the pass and nobody asked for the answers to be filled in again.
\<close>

definition up_to_date :: "host \<Rightarrow> bool \<Rightarrow> resolver_job \<Rightarrow> host \<Rightarrow> bool" where
  "up_to_date before repopulate j h \<longleftrightarrow>
     h_Files h (rj_Config j) = Some (rj_Content j) \<and>
     (\<exists>answer.
        last_word (rj_Unit j) (rj_Config j) h =
          Some (Ran (start_cmd (rj_Unit j) (rj_Namespace j) (rj_Config j)) (Inr answer)) \<or>
        last_word (rj_Unit j) (rj_Config j) h = Some (Ran (active_cmd (rj_Unit j)) (Inr answer)) \<and>
        \<not> repopulate \<and> h_Files before (rj_Config j) = Some (rj_Content j))"

lemma service_inj [simp]: "service u = service v \<longleftrightarrow> u = v"
  by (simp add: service_def)

lemma cmd_inj [simp]:
  "stop_cmd u = stop_cmd v \<longleftrightarrow> u = v" "active_cmd u = active_cmd v \<longleftrightarrow> u = v"
  "stop_cmd u \<noteq> active_cmd v" "active_cmd v \<noteq> stop_cmd u"
  "start_cmd v n c \<noteq> stop_cmd u" "start_cmd v n c \<noteq> active_cmd u"
  "list_cmd p \<noteq> stop_cmd u" "list_cmd p \<noteq> active_cmd u"
  by (simp_all add: stop_cmd_def active_cmd_def start_cmd_def list_cmd_def)

lemma started_unit_simps [simp]:
  "started_unit (start_cmd u n c) = Some u" "started_unit (stop_cmd u) = None"
  "started_unit (active_cmd u) = None" "started_unit (list_cmd p) = None"
  by (simp_all add: started_unit_def start_cmd_def stop_cmd_def active_cmd_def list_cmd_def HasPrefix_def)

lemma serve_serves:
  "wp (serve env repopulate j) (\<lambda>r h'. r = Inr () \<longrightarrow> up_to_date h repopulate j h') h"
  by (auto simp: serve_def ensureRunning_def restart_def wp_rules up_to_date_def last_word_def isOk_def
      split: option.split sum.split)

lemma serve_frame:
  assumes "u \<noteq> rj_Unit j" "c \<noteq> rj_Config j"
  shows "wp (serve env repopulate j)
           (\<lambda>_ h'. last_word u c h' = last_word u c h \<and> h_Files h' c = h_Files h c) h"
  using assms
  by (auto simp: serve_def ensureRunning_def restart_def wp_rules last_word_def isOk_def
      split: option.split sum.split)

lemma serve_keeps_stopped:
  "u \<noteq> rj_Unit j \<Longrightarrow> wp (serve env repopulate j) (\<lambda>_ h'. stopped u h \<longrightarrow> stopped u h') h"
  by (auto simp: serve_def ensureRunning_def restart_def wp_rules stopped_def isOk_def
      split: option.split sum.split)

subsection \<open>The names of a plan\<close>

lemma identifier_safe: "identifierPattern i \<Longrightarrow> safeUnitSuffix i = i"
proof -
  assume i: "identifierPattern i"
  then have all: "list_all (\<lambda>c. is_lower c \<or> is_digit c \<or> c = CHR ''-'') i"
    by (auto simp: identifierPattern_def split: list.splits)
  then have "list_all (\<lambda>c. code c < 0x80) i"
    by (auto simp: list_all_iff is_lower_def is_digit_def code_def)
  then have "runes i = map (\<lambda>c. [c]) i" by (rule runes_ascii)
  moreover have "map (\<lambda>c. if safe_symbol c then c else CHR ''-'') i = i"
    using all by (intro map_idI) (auto simp: list_all_iff safe_symbol_def is_letter_def)
  moreover have "i \<noteq> []" using i by auto
  ultimately show ?thesis by (simp add: safeUnitSuffix_def comp_def Let_def)
qed

definition plan_names_ok :: "dns_plan \<Rightarrow> bool" where
  "plan_names_ok plan \<longleftrightarrow>
     distinct (map dr_TunnelID (dpl_PrivateResolvers plan)) \<and> distinct (map er_EgressID (dpl_EgressResolvers plan)) \<and>
     (\<forall>r \<in> set (dpl_PrivateResolvers plan). identifierPattern (dr_TunnelID r)) \<and>
     (\<forall>r \<in> set (dpl_EgressResolvers plan). identifierPattern (er_EgressID r))"

lemmas unit_names = clientResolverUnit_def publicResolverUnit_def privateResolverUnit_def
  clientResolverPrefix_def publicResolverPrefix_def privateResolverPrefix_def

lemmas config_names = clientResolverConfig_def publicResolverConfig_def privateResolverConfig_def joinPath_def

lemma wanted_units_eq: "set (wanted_units plan) = set (map rj_Unit (resolver_jobs dir plan))"
  by (auto simp: wanted_units_def resolver_jobs_def private_job_def public_job_def client_job_def comp_def
      image_Un image_image split: if_splits)

lemma jobs_separate:
  assumes "plan_names_ok plan"
  shows "distinct (map rj_Unit (resolver_jobs dir plan))" "distinct (map rj_Config (resolver_jobs dir plan))"
proof -
  note ok = assms[unfolded plan_names_ok_def]
  have safe: "inj_on (\<lambda>r. safeUnitSuffix (er_EgressID r)) (set (dpl_EgressResolvers plan))"
    "inj_on (\<lambda>r. safeUnitSuffix (dr_TunnelID r)) (set (dpl_PrivateResolvers plan))"
    using ok by (auto simp: inj_on_def distinct_map identifier_safe)
  have "distinct (dpl_EgressResolvers plan)" "distinct (dpl_PrivateResolvers plan)"
    using ok by (auto simp: distinct_map)
  with safe show "distinct (map rj_Unit (resolver_jobs dir plan))" "distinct (map rj_Config (resolver_jobs dir plan))"
    by (auto simp: resolver_jobs_def private_job_def public_job_def client_job_def unit_names config_names
        distinct_map inj_on_def)
qed

lemma plan_names:
  assumes "state_ok s" "BuildFirewallPlan s u = Inr p" "BuildDNSPlan s p specs = Inr dp"
  shows "plan_names_ok dp"
proof -
  obtain pairs permitted where parts: "mapE device_address (ds_Devices s) = Inr pairs"
    "fp_Egresses p = plan_groups s u pairs permitted"
    "fp_Internals p = internalNetworks (ds_Tunnels s) (internal_mark s pairs) permitted (proxied_map (ds_Tunnels s))"
    using plan_parts[OF assms(2)] by metis
  obtain nets where nets: "mapE (network_dns specs) (fp_Internals p) = Inr nets"
    "dpl_PrivateResolvers dp = sort_key dr_TunnelID (concat (map fst nets))" by (rule dns_parts[OF assms(3)])
  obtain rs where rs: "mapE (egress_resolver s specs) (filter (\<lambda>g. eg_Addresses g \<noteq> []) (fp_Egresses p)) = Inr rs"
    "dpl_EgressResolvers dp = sort_key er_EgressID rs"
    using assms(3) by (auto simp: BuildDNSPlan_def bindE_Inr_iff split: if_splits)
  have er: "er_EgressID r = eg_ID g" if "egress_resolver s specs g = Inr r" for g r
    using that by (auto simp: egress_resolver_def split: if_splits option.splits)
  have ids: "map er_EgressID rs = map eg_ID (filter (\<lambda>g. eg_Addresses g \<noteq> []) (fp_Egresses p))"
    using mapE_map[OF rs(1)] er by blast
  have "distinct (map eg_ID (fp_Egresses p))"
    unfolding parts(2) by (rule group_ids_distinct[OF state_ok_parts(5)[OF assms(1)]])
  then have d1: "distinct (map er_EgressID (dpl_EgressResolvers dp))"
    unfolding rs(2) distinct_map_sort_key ids by (rule distinct_map_filter)
  have one: "map dr_TunnelID (fst q) = [] \<or> map dr_TunnelID (fst q) = [in_TunnelID n]"
    if "network_dns specs n = Inr q" for n q
    using that by (auto simp: network_dns_def Let_def split: if_splits prod.splits)
  have sub: "distinct (map in_TunnelID ns) \<Longrightarrow>
      distinct (map dr_TunnelID (concat (map fst qs))) \<and> set (map dr_TunnelID (concat (map fst qs))) \<subseteq> set (map in_TunnelID ns)"
    if "mapE (network_dns specs) ns = Inr qs" for ns qs
    using that
  proof (induction ns arbitrary: qs)
    case (Cons n ns)
    then obtain q qs' where q: "network_dns specs n = Inr q" "mapE (network_dns specs) ns = Inr qs'" "qs = q # qs'"
      by (auto simp: bindE_Inr_iff)
    have step: "distinct (ys @ xs) \<and> set (ys @ xs) \<subseteq> insert k A"
      if "distinct xs \<and> set xs \<subseteq> A" "k \<notin> A" "ys = [] \<or> ys = [k]" for xs ys A and k :: string
      using that by auto
    have "distinct (map dr_TunnelID (concat (map fst qs'))) \<and>
        set (map dr_TunnelID (concat (map fst qs'))) \<subseteq> set (map in_TunnelID ns)"
      using Cons.IH[OF _ q(2)] Cons.prems(1) by auto
    from step[OF this _ one[OF q(1)]] Cons.prems(1) show ?case unfolding q(3)
      by (simp del: set_map)
  qed simp
  have int_ids: "map in_TunnelID (fp_Internals p) = map t_ID (sort_key t_ID (filter (\<lambda>t. t_Role t = RolePrivateNetwork) (ds_Tunnels s)))"
    unfolding parts(3) internal_ids ..
  have "distinct (map in_TunnelID (fp_Internals p))"
    unfolding int_ids using state_ok_parts(4)[OF assms(1)] by (simp add: distinct_map_sort_key distinct_map_filter)
  from sub[OF nets(1) this]
  have d2: "distinct (map dr_TunnelID (dpl_PrivateResolvers dp))"
    "set (map dr_TunnelID (dpl_PrivateResolvers dp)) \<subseteq> set (map in_TunnelID (fp_Internals p))"
    unfolding nets(2) distinct_map_sort_key by auto
  have tid: "identifierPattern (t_ID t)" if "t \<in> set (ds_Tunnels s)" for t
    using state_ok_parts(7)[OF assms(1) that] by (simp add: tunnel_state_ok_def)
  have "identifierPattern (dr_TunnelID r)" if "r \<in> set (dpl_PrivateResolvers dp)" for r
  proof -
    have "dr_TunnelID r \<in> set (map in_TunnelID (fp_Internals p))" using that d2(2) by auto
    then show ?thesis unfolding int_ids using tid by auto
  qed
  moreover have "identifierPattern (er_EgressID r)" if "r \<in> set (dpl_EgressResolvers dp)" for r
  proof -
    have "er_EgressID r \<in> set (map er_EgressID rs)" using that rs(2) by auto
    then have "er_EgressID r \<in> set (map eg_ID (plan_groups s u pairs permitted))" unfolding ids parts(2) by auto
    then consider "er_EgressID r = EgressDirect" | "er_EgressID r \<in> set (tunnel_egresses pairs (ds_Tunnels s))"
      unfolding group_ids using direct_group_id by fastforce
    then show ?thesis
    proof cases
      case 1
      then show ?thesis by (simp add: EgressDirect_def identifierPattern_def is_lower_def code_def)
    next
      case 2
      then show ?thesis using egress_ids_of_tunnels[OF assms(1) parts(1)] tid by metis
    qed
  qed
  ultimately show ?thesis using d1 d2(1) by (simp add: plan_names_ok_def)
qed

subsection \<open>Serving the plan\<close>

text \<open>Before anything is written, files only disappear.\<close>

definition only_removed :: "host \<Rightarrow> host \<Rightarrow> bool" where
  "only_removed h h' \<longleftrightarrow> (\<forall>p. h_Files h' p = None \<or> h_Files h' p = h_Files h p)"

lemma only_removed_preorder [simp]: "reflp only_removed" "transp only_removed"
  by (auto simp: only_removed_def reflp_def transp_def) metis

lemma only_removed_steps [io_rel]:
  "state_io_rel only_removed (answered env cmd)" "state_io_rel only_removed (exec env cmd)"
  "state_io_rel only_removed (attempt env cmd)" "state_io_rel only_removed (removeFile env path)"
  by (auto simp: io_rel_iff wp_rules only_removed_def)

lemma io_rel_list [io_rel]:
  "reflp R \<Longrightarrow> transp R \<Longrightarrow> state_io_rel R (exec env (list_cmd p)) \<Longrightarrow> state_io_rel R (listResolverUnits env p)"
  unfolding listResolverUnits_def by (intro io_rel)

lemma io_rel_sweep_units [io_rel]:
  assumes "reflp R" "transp R" "\<And>u. u \<in> set us \<Longrightarrow> u \<notin> set W \<Longrightarrow> state_io_rel R (attempt env (stop_cmd u))"
    and "\<And>p. state_io_rel R (removeFile env p)"
  shows "state_io_rel R (sweep_units env dir W prefix config us)"
  using assms(3) by (induction us) (auto intro!: io_rel assms(1,2,4))

lemma sweep_only_removes: "state_io_rel only_removed (forgetStaleResolvers env dir plan)"
proof -
  have "state_io_rel only_removed (sweep_spaces env dir W spaces)" for W spaces
    by (induction spaces) (auto simp: sweep_space_def intro!: io_rel)
  then show ?thesis unfolding forgetStaleResolvers_def sweep_legacy_def by (intro io_rel) auto
qed

lemma serve_all:
  assumes "distinct (map rj_Unit js)" "distinct (map rj_Config js)"
  shows "wp (forEach js (serve env repopulate)) (\<lambda>r h'. r = Inr () \<longrightarrow> (\<forall>j \<in> set js. up_to_date h repopulate j h')) h"
proof -
  let ?I = "\<lambda>pre h'. (\<forall>j \<in> set pre. up_to_date h repopulate j h') \<and>
      (\<forall>j \<in> set js. rj_Config j \<notin> rj_Config ` set pre \<longrightarrow> h_Files h' (rj_Config j) = h_Files h (rj_Config j))"
  have "wp (forEach js (serve env repopulate)) (\<lambda>r h'. case r of Inl e \<Rightarrow> True | Inr _ \<Rightarrow> ?I js h') h"
  proof (rule wp_forEach[where I = ?I and E = "\<lambda>_ _. True"])
    show "?I [] h" by simp
  next
    fix pre j post h1
    assume js: "js = pre @ j # post" and I: "?I pre h1"
    have old: "h_Files h1 (rj_Config j) = h_Files h (rj_Config j)" using I assms(2) js by auto
    have "wp (serve env repopulate j) (\<lambda>r h'. r = Inr () \<longrightarrow> up_to_date h repopulate j h') h1"
      by (rule wp_mono[OF serve_serves]) (auto simp: up_to_date_def old)
    moreover have "wp (serve env repopulate j) (\<lambda>r h'. \<forall>i \<in> set pre. up_to_date h repopulate i h') h1"
    proof -
      have "wp (serve env repopulate j) (\<lambda>_ h'. up_to_date h repopulate i h') h1" if "i \<in> set pre" for i
      proof -
        have "rj_Unit j \<notin> rj_Unit ` set pre" "rj_Config j \<notin> rj_Config ` set pre" using js assms by auto
        then have "rj_Unit i \<noteq> rj_Unit j" "rj_Config i \<noteq> rj_Config j" using that by (metis imageI)+
        from serve_frame[OF this] show ?thesis
          by (rule wp_mono) (use I that in \<open>auto simp: up_to_date_def\<close>)
      qed
      then show ?thesis by (simp add: wp_def split_beta)
    qed
    moreover have "wp (serve env repopulate j) (\<lambda>r h'. \<forall>i \<in> set js. rj_Config i \<notin> rj_Config ` set (pre @ [j]) \<longrightarrow>
        h_Files h' (rj_Config i) = h_Files h (rj_Config i)) h1"
    proof -
      have "wp (serve env repopulate j) (\<lambda>_ h'. h_Files h' c = h_Files h1 c) h1" if "c \<noteq> rj_Config j" for c
        by (auto simp: serve_def ensureRunning_def restart_def wp_rules isOk_def that split: option.split sum.split)
      then show ?thesis using I by (auto simp: wp_def split_beta)
    qed
    ultimately show "wp (serve env repopulate j) (\<lambda>r h'. case r of Inl e \<Rightarrow> True | Inr _ \<Rightarrow> ?I (pre @ [j]) h') h1"
      by (auto simp: wp_def split: prod.splits sum.splits)
  qed
  then show ?thesis by (rule wp_mono) auto
qed


subsection \<open>Units the plan no longer names\<close>

lemma find_append: "find P (xs @ ys) = (case find P xs of None \<Rightarrow> find P ys | Some x \<Rightarrow> Some x)"
  by (induction xs) auto

text \<open>
  What every part of the pass respects, for the units outside \<open>W\<close>: one that is stopped stays so, and
  one that \<open>systemctl\<close> listed under a prefix of ours ends up stopped.
\<close>

definition reaps :: "string set \<Rightarrow> host \<Rightarrow> host \<Rightarrow> bool" where
  "reaps W h h' \<longleftrightarrow> extends h h' \<and> (\<forall>u. u \<notin> W \<longrightarrow> stopped u h \<longrightarrow> stopped u h') \<and>
     (\<forall>prefix out u. Ran (list_cmd prefix) (Inr out) \<in> set (since h h') \<longrightarrow> u \<in> set (unitNames out prefix) \<longrightarrow>
        u \<notin> W \<longrightarrow> stopped u h')"

lemma reaps_refl: "reaps W h h"
  by (simp add: reaps_def since_def)

lemma reaps_trans: "reaps W h h1 \<Longrightarrow> reaps W h1 h2 \<Longrightarrow> reaps W h h2"
proof -
  assume *: "reaps W h h1" "reaps W h1 h2"
  then obtain new1 new2 where new: "h_Log h1 = new1 @ h_Log h" "h_Log h2 = new2 @ h_Log h1"
    by (auto simp: reaps_def extends_def)
  then have "since h h2 = new2 @ new1" "since h h1 = new1" "since h1 h2 = new2" by (simp_all add: since_def)
  with * show ?thesis unfolding reaps_def using extends_trans by fastforce
qed

lemma reaps_preorder [simp]: "reflp (reaps W)" "transp (reaps W)"
  using reaps_refl reaps_trans by (auto simp: reflp_def intro: transpI)

fun listing :: "event \<Rightarrow> bool" where
  "listing (Ran cmd _) \<longleftrightarrow> (\<exists>prefix. cmd = list_cmd prefix)"
| "listing _ \<longleftrightarrow> False"

lemma not_listing [simp]:
  "\<not> listing (Ran (stop_cmd u) a)" "\<not> listing (Ran (active_cmd u) a)" "\<not> listing (Ran (start_cmd u n c) a)"
  by (auto dest: arg_cong[of _ _ length] simp: list_cmd_def stop_cmd_def active_cmd_def start_cmd_def)

lemma unlisted: "\<forall>e \<in> set new. \<not> listing e \<Longrightarrow> Ran (list_cmd p) a \<notin> set new"
  using listing.simps(1) by blast

definition hushed :: "string set \<Rightarrow> host \<Rightarrow> host \<Rightarrow> bool" where
  "hushed W h h' \<longleftrightarrow> (\<exists>new. h_Log h' = new @ h_Log h \<and> (\<forall>e \<in> set new. \<not> listing e)) \<and>
     (\<forall>u. u \<notin> W \<longrightarrow> stopped u h \<longrightarrow> stopped u h')"

lemma hushed_preorder [simp]: "reflp (hushed W)" "transp (hushed W)"
proof -
  show "reflp (hushed W)" by (simp add: reflp_def hushed_def)
  show "transp (hushed W)"
  proof (rule transpI)
    fix h1 h2 h3 assume *: "hushed W h1 h2" "hushed W h2 h3"
    then obtain a b where "h_Log h2 = a @ h_Log h1" "\<forall>e \<in> set a. \<not> listing e"
      "h_Log h3 = b @ h_Log h2" "\<forall>e \<in> set b. \<not> listing e" by (auto simp: hushed_def)
    then have "h_Log h3 = (b @ a) @ h_Log h1 \<and> (\<forall>e \<in> set (b @ a). \<not> listing e)" by auto
    with * show "hushed W h1 h3" unfolding hushed_def by blast
  qed
qed

lemma hushed_event:
  assumes "h_Log h' = e # h_Log h" "\<not> listing e"
    and "\<And>u. u \<notin> W \<Longrightarrow> about_unit u e \<Longrightarrow> \<exists>a. e = Ran (stop_cmd u) a"
  shows "hushed W h h'"
  using assms by (fastforce simp: hushed_def stopped_def)

lemma hushed_steps [io_rel]:
  "state_io_rel (hushed W) (attempt env (stop_cmd u))" "state_io_rel (hushed W) (removeFile env path)"
  "state_io_rel (hushed W) (writeIfChanged env path content)"
  "u \<in> W \<Longrightarrow> state_io_rel (hushed W) (answered env (active_cmd u))"
  "u \<in> W \<Longrightarrow> state_io_rel (hushed W) (run env (start_cmd u n c))"
  unfolding io_rel_iff wp_rules
  by (auto simp del: listing.simps(1) split: option.split intro: hushed_event reflpD[OF hushed_preorder(1)])

lemma hushed_serve: "rj_Unit j \<in> W \<Longrightarrow> state_io_rel (hushed W) (serve env repopulate j)"
  unfolding serve_def ensureRunning_def restart_def by (intro io_rel) simp_all

lemma hushed_reaps: "hushed W h h' \<Longrightarrow> reaps W h h'"
  by (fastforce simp: hushed_def reaps_def extends_def)

lemma reaps_steps [io_rel]:
  "state_io_rel (reaps W) (attempt env (stop_cmd u))"
  "rj_Unit j \<in> W \<Longrightarrow> state_io_rel (reaps W) (serve env repopulate j)"
  using hushed_steps(1) hushed_serve by (fastforce simp: state_io_rel_def intro: hushed_reaps)+

lemma stopped_now: "wp (attempt env (stop_cmd u)) (\<lambda>_. stopped u) h"
  by (simp add: wp_rules stopped_def)

lemma stays_stopped:
  assumes "state_io_rel (hushed {}) m" "stopped u h"
  shows "wp m (\<lambda>_. stopped u) h"
  by (rule wp_mono[OF io_rel_wp[OF assms(1)]]) (use assms(2) in \<open>simp add: hushed_def\<close>)

lemma hushed_sweep: "state_io_rel (hushed {}) (sweep_units env dir W prefix config us)"
  by (intro io_rel) simp_all

lemma sweep_stops:
  assumes "u \<in> set us" "u \<notin> set W"
  shows "wp (sweep_units env dir W prefix config us) (\<lambda>_. stopped u) h"
  using assms(1)
proof (induction us arbitrary: h)
  case (Cons v us h)
  show ?case
  proof (cases "u = v")
    case True
    let ?rest = "do { discard (removeFile env (joinPath dir (config (TrimPrefix v prefix))));
        sweep_units env dir W prefix config us }"
    have "wp (attempt env (stop_cmd v)) (\<lambda>_. wp ?rest (\<lambda>_. stopped v)) h"
      by (rule wp_mono[OF stopped_now]) (rule stays_stopped, auto intro!: io_rel hushed_sweep)
    then show ?thesis using True assms(2) by (simp add: wp_rules)
  next
    case False
    then show ?thesis using Cons by (simp add: wp_bind) (simp add: wp_def split_beta)
  qed
qed simp

lemma stop_all_stops:
  assumes "u \<in> set us"
  shows "wp (attemptAll env (map stop_cmd us)) (\<lambda>_. stopped u) h"
  using assms
proof (induction us arbitrary: h)
  case (Cons v us h)
  have rest: "state_io_rel (hushed {}) (attemptAll env (map stop_cmd us))" by (intro io_rel) (auto intro: io_rel)
  show ?case
  proof (cases "u = v")
    case True
    have "wp (attempt env (stop_cmd v)) (\<lambda>_. wp (attemptAll env (map stop_cmd us)) (\<lambda>_. stopped v)) h"
      by (rule wp_mono[OF stopped_now]) (rule stays_stopped[OF rest])
    then show ?thesis using True by (simp add: wp_bind)
  next
    case False
    then show ?thesis using Cons by (simp add: wp_bind) (simp add: wp_def split_beta)
  qed
qed simp

text \<open>Listing a prefix and then stopping what was found there reaps it.\<close>

lemma list_then_stop:
  assumes "\<And>out h u. u \<in> set (unitNames out prefix) \<Longrightarrow> u \<notin> W \<Longrightarrow> wp (stop (unitNames out prefix)) (\<lambda>_. stopped u) h"
    and "\<And>us. state_io_rel (hushed {}) (stop us)"
  shows "state_io_rel (reaps W) (do { found \<leftarrow> listResolverUnits env prefix; stop (units_found found); returns (errors_of found) })"
  unfolding io_rel_iff
proof
  fix h :: host
  let ?a = "e_Run env (h_Log h) (list_cmd prefix)"
  let ?h1 = "h\<lparr>h_Log := Ran (list_cmd prefix) ?a # h_Log h\<rparr>"
  have kept: "stopped u ?h1 \<longleftrightarrow> stopped u h" for u by (simp add: stopped_def)
  show "wp (do { found \<leftarrow> listResolverUnits env prefix; stop (units_found found); returns (errors_of found) }) (\<lambda>_. reaps W h) h"
  proof (cases ?a)
    case (Inl e)
    have "wp (stop []) (\<lambda>_. reaps W h) ?h1"
    proof (rule wp_mono[OF io_rel_wp[OF assms(2)]])
      fix x h' assume "hushed {} ?h1 h'"
      moreover from this obtain new where "h_Log h' = new @ h_Log ?h1" "\<forall>e \<in> set new. \<not> listing e"
        by (auto simp: hushed_def)
      moreover from this have "since h h' = new @ [Ran (list_cmd prefix) (Inl e)]" using Inl by (simp add: since_def)
      ultimately have "extends h h' \<and> (\<forall>u. stopped u h \<longrightarrow> stopped u h') \<and>
          (\<forall>prefix' out'. Ran (list_cmd prefix') (Inr out') \<notin> set (since h h'))"
        by (auto simp: extends_def hushed_def kept dest: unlisted)
      then show "reaps W h h'" by (auto simp: reaps_def)
    qed
    then show ?thesis using Inl by (simp add: listResolverUnits_def wp_rules units_found_def)
  next
    case (Inr out)
    have "wp (stop (unitNames out prefix)) (\<lambda>_ h'. hushed {} ?h1 h' \<and>
        (\<forall>u. u \<in> set (unitNames out prefix) \<longrightarrow> u \<notin> W \<longrightarrow> stopped u h')) ?h1"
      using io_rel_wp[OF assms(2), of "unitNames out prefix" ?h1] assms(1)[of _ out ?h1] by (auto simp: wp_def split_beta)
    then have "wp (stop (unitNames out prefix)) (\<lambda>_. reaps W h) ?h1"
    proof (rule wp_mono)
      fix x h'
      assume *: "hushed {} ?h1 h' \<and> (\<forall>u. u \<in> set (unitNames out prefix) \<longrightarrow> u \<notin> W \<longrightarrow> stopped u h')"
      then obtain new where new: "h_Log h' = new @ h_Log ?h1" "\<forall>e \<in> set new. \<not> listing e"
        by (auto simp: hushed_def)
      then have log: "since h h' = new @ [Ran (list_cmd prefix) (Inr out)]" using Inr by (simp add: since_def)
      have "prefix' = prefix \<and> out' = out" if "Ran (list_cmd prefix') (Inr out') \<in> set (since h h')" for prefix' out'
        using that new(2) log by (auto simp: list_cmd_def)
      moreover have "extends h h'" using new(1) by (simp add: extends_def)
      moreover have "\<forall>u. u \<notin> W \<longrightarrow> stopped u h \<longrightarrow> stopped u h'" using * by (simp add: hushed_def kept)
      ultimately show "reaps W h h'" using * unfolding reaps_def by blast
    qed
    then show ?thesis using Inr by (simp add: listResolverUnits_def wp_rules units_found_def)
  qed
qed

lemma sweep_reaps: "state_io_rel (reaps (set (wanted_units plan))) (forgetStaleResolvers env dir plan)"
proof -
  let ?W = "set (wanted_units plan)"
  have legacy: "state_io_rel (reaps ?W) (sweep_legacy env)"
    unfolding sweep_legacy_def
    by (rule list_then_stop[where stop = "\<lambda>us. attemptAll env (map stop_cmd us)"])
      (auto intro!: io_rel stop_all_stops hushed_steps)
  have "state_io_rel (reaps ?W) (sweep_space env dir (wanted_units plan) prefix config)" for prefix config
    unfolding sweep_space_def
    by (rule list_then_stop[where stop = "sweep_units env dir (wanted_units plan) prefix config"])
      (auto intro!: hushed_sweep sweep_stops)
  then have "state_io_rel (reaps ?W) (sweep_spaces env dir (wanted_units plan) spaces)" for spaces
    by (induction spaces) (auto intro!: io_rel)
  with legacy show ?thesis unfolding forgetStaleResolvers_def by (intro io_rel) simp_all
qed


subsection \<open>A pass that succeeds\<close>

lemma obliging_serve:
  assumes "obliging env"
  shows "wp (serve env repopulate j) (\<lambda>r _. r = Inr ()) h"
  by (rule obliging_answers[OF assms])
    (simp add: serve_def ensureRunning_def restart_def wp_rules)

lemma obliging_pass:
  assumes "obliging env"
  shows "wp (DnsApply env dir plan repopulate) (\<lambda>r _. r = Inr ()) h"
proof -
  obtain g where g: "\<And>log cmd. e_Run env log cmd = Inr (g log cmd)" "\<And>log path content. e_Write env log path content = None"
    using obliging_answers[OF assms] by blast
  have listed: "wp (listResolverUnits env p) (\<lambda>r _. isOk r) h" for p h
    by (simp add: listResolverUnits_def wp_rules g)
  have none: "errors_of r = []" if "isOk r" for r :: "(host_error, 'a) result"
    using that by (cases r) (simp_all add: errors_of_def)
  have legacy: "wp (sweep_legacy env) (\<lambda>r _. r = []) h" for h
    unfolding sweep_legacy_def wp_bind
    by (rule wp_mono[OF listed]) (simp add: wp_rules none)
  have space: "wp (sweep_space env dir W prefix config) (\<lambda>r _. r = []) h" for W prefix config h
    unfolding sweep_space_def wp_bind
    by (rule wp_mono[OF listed]) (simp add: wp_rules none)
  have spaces: "wp (sweep_spaces env dir W ss) (\<lambda>r _. r = []) h" for W ss h
  proof (induction ss arbitrary: h)
    case (Cons x ss)
    obtain prefix config where x: "x = (prefix, config)" by (cases x)
    show ?case unfolding x sweep_spaces.simps wp_bind
      by (rule wp_mono[OF space]) (rule wp_mono[OF Cons.IH], simp add: wp_rules)
  qed (simp add: wp_rules)
  have forget: "wp (forgetStaleResolvers env dir plan) (\<lambda>r _. r = Inr ()) h" for h
    unfolding forgetStaleResolvers_def wp_bind
    by (rule wp_mono[OF legacy]) (rule wp_mono[OF spaces], simp add: wp_rules joined_def)
  have loop: "wp (forEach js (serve env repopulate)) (\<lambda>r _. case r of Inl _ \<Rightarrow> False | Inr _ \<Rightarrow> True) h" for js h
    by (rule wp_forEach[where I = "\<lambda>_ _. True"]) (simp, rule wp_mono[OF obliging_serve[OF assms]], simp)
  show ?thesis unfolding DnsApply_def wp_bind
  proof (rule wp_mono[OF forget])
    fix r :: "(host_error, unit) result" and h1 assume "r = Inr ()"
    have "wp (andThen (forEach (resolver_jobs dir plan) (serve env repopulate)) (\<lambda>_. returns r)) (\<lambda>r _. r = Inr ()) h2" for h2
      unfolding wp_andThen by (rule wp_mono[OF loop]) (simp add: wp_rules \<open>r = Inr ()\<close> split: sum.splits)
    then show "wp (attempt env (stop_cmd hubResolverUnit)) (\<lambda>_. wp (attempt env (stop_cmd upstreamResolverUnit))
        (\<lambda>_. wp (andThen (forEach (resolver_jobs dir plan) (serve env repopulate)) (\<lambda>_. returns r)) (\<lambda>r _. r = Inr ()))) h1"
      by (simp add: wp_attempt)
  qed
qed


definition stray_listing :: string where
  "stray_listing = ''vpn-hub-resolver-net-old.service loaded active running''"

definition stray_env :: env where
  "stray_env = calm_env\<lparr>e_Run := \<lambda>_ cmd. if cmd = list_cmd privateResolverPrefix then Inr stray_listing else Inr []\<rparr>"

definition empty_plan :: dns_plan where
  "empty_plan = \<lparr>dpl_ClientCIDR = [], dpl_Zones = [], dpl_PrivateResolvers = [], dpl_EgressResolvers = []\<rparr>"


subsection \<open>A replacement that failed\<close>

text \<open>A resolver whose old process could neither be stopped nor replaced is taken for up to date by the next
  pass: the file already holds the new configuration and the old process is active, so nothing is started and the pass
  succeeds.\<close>
theorem a_failed_replacement_is_taken_for_done:
  assumes "h_Files h (rj_Config j) \<noteq> Some (rj_Content j)" "\<And>log p c. e_Write env log p c = None" "\<And>log p. e_Read env log p"
    and "\<And>log. e_Run env log (stop_cmd (rj_Unit j)) = Inl refused"
    and "\<And>log. e_Run env log (start_cmd (rj_Unit j) (rj_Namespace j) (rj_Config j)) = Inl taken"
    and "\<And>log. e_Run env log (active_cmd (rj_Unit j)) = Inr answer"
  shows "\<exists>e h1 h2. run_state (serve env repopulate j) h = (Inl e, h1) \<and> run_state (serve env False j) h1 = (Inr (), h2) \<and>
    (\<forall>cmd out. Ran cmd (Inr out) \<in> set (since h h2) \<longrightarrow> started_unit cmd = None)"
proof -
  have "wp (serve env repopulate j) (\<lambda>r h1. \<exists>e. r = Inl e \<and> wp (serve env False j)
      (\<lambda>r2 h2. r2 = Inr () \<and> (\<forall>cmd out. Ran cmd (Inr out) \<in> set (since h h2) \<longrightarrow> started_unit cmd = None)) h1) h"
    using assms by (auto simp: serve_def ensureRunning_def restart_def wp_rules since_def)
  then show ?thesis by (auto simp: wp_def split_beta) (metis prod.collapse)
qed

definition stuck_env :: env where
  "stuck_env = calm_env\<lparr>e_Run := \<lambda>_ cmd. if hd cmd = ''systemd-run'' \<or> cmd ! 1 = ''stop'' then Inl ''refused'' else Inr []\<rparr>"

definition a_job :: resolver_job where
  "a_job = \<lparr>rj_Unit = ''vpn-hub-resolver-client-direct'', rj_Namespace = [], rj_Config = ''/run/vpn-hub/dnsmasq-client-direct.conf'',
     rj_Content = ''no-resolv''\<rparr>"

theorem a_failed_replacement_is_taken_for_done_witness:
  "\<exists>e h1 h2. run_state (serve stuck_env True a_job) bare_host = (Inl e, h1) \<and> run_state (serve stuck_env False a_job) h1 = (Inr (), h2)"
proof -
  have "\<exists>e h1 h2. run_state (serve stuck_env True a_job) bare_host = (Inl e, h1) \<and> run_state (serve stuck_env False a_job) h1 = (Inr (), h2) \<and>
    (\<forall>cmd out. Ran cmd (Inr out) \<in> set (since bare_host h2) \<longrightarrow> started_unit cmd = None)"
    by (rule a_failed_replacement_is_taken_for_done[where refused = "''refused''" and taken = "''refused''" and answer = "[]"])
      (simp_all add: stuck_env_def calm_env_def bare_host_def stop_cmd_def start_cmd_def active_cmd_def)
  then show ?thesis by blast
qed

subsection \<open>The lines of a configuration\<close>

lemma Split_text_of: "\<forall>l \<in> set ls. NL \<notin> set l \<Longrightarrow> Split NL (text_of ls) = ls @ [[]]"
  by (induction ls) (simp_all add: text_of_def Split_append del: NL_def)

text \<open>Provided that no address of the plan carries a line break, the configuration of every egress consists of
  exactly the directives of its resolver, one per line, in the order of the zones.\<close>
theorem resolver_lines:
  assumes "NL \<notin> set (er_HubAddress r) \<union> set (er_NamespaceAddress r)" "\<forall>a \<in> set (er_PublicResolvers r). NL \<notin> set a"
    and "\<forall>z \<in> set (dpl_Zones plan). NL \<notin> set (zr_Zone z) \<union> set (zr_ForwardAddress z) \<union> set (zr_Set z) \<and>
      (\<forall>a \<in> set (zr_Resolvers z). NL \<notin> set a)"
  shows "Split NL (RenderClientResolver plan r) = client_lines plan r @ [[]]"
  unfolding RenderClientResolver_def
proof (rule Split_text_of)
  have "NL \<notin> set l" if "l \<in> set (zone_lines z)" "z \<in> set (dpl_Zones plan)" for l z
    using assms(3) that by (auto simp: zone_lines_def split: if_splits)
  with assms(1,2) show "\<forall>l \<in> set (client_lines plan r). NL \<notin> set l"
    by (auto simp: client_lines_def resolver_head_def server_line_def split: if_splits)
qed

definition rogue_line :: string where
  "rogue_line = ''address=/#/198.51.100.7''"

definition rogue_resolver :: string where
  "rogue_resolver = ''fe80::1%x'' @ NL # rogue_line"

definition rogue_config :: config where
  "rogue_config = sample_config\<lparr>cfg_Tunnels := [sample_nl, sample_corp\<lparr>t_DNSServers := [rogue_resolver]\<rparr>]\<rparr>"

lemma rogue_valid: "Validate rogue_config = Inr ()"
proof -
  have "ParseAddr rogue_resolver \<noteq> None" by code_simp
  then have t: "tunnel_ok ids (sample_corp\<lparr>t_DNSServers := [rogue_resolver]\<rparr>) \<longleftrightarrow> tunnel_ok ids sample_corp" for ids
    by (simp add: tunnel_ok_def tunnel_shape_ok_def source_ok_def sample_corp_def sample_addresses)
  have "valid_config sample_config" using sample_valid by (simp add: Validate_ok_iff)
  then have "valid_config rogue_config"
    by (simp add: valid_config_def rogue_config_def sample_config_def device_ids_def t egress_ok_def zones_of_def IsEnabled_def)
  then show ?thesis by (simp add: Validate_ok_iff)
qed

text \<open>Validation accepts a resolver address whose IPv6 zone carries a line break, and the forwarder of that network
  then has a directive of that address' choosing as a line of its own.\<close>
theorem resolver_addresses_can_inject:
  "Validate rogue_config = Inr () \<and> (\<exists>t \<in> set (cfg_Tunnels rogue_config). t_DNSServers t = [rogue_resolver] \<and>
     rogue_line \<in> set (Split NL (RenderPrivateResolver
       \<lparr>dr_TunnelID = t_ID t, dr_Namespace = namespace, dr_Address = ''10.90.0.2'', dr_Resolvers = t_DNSServers t\<rparr>)))"
proof (intro conjI rogue_valid bexI[of _ "sample_corp\<lparr>t_DNSServers := [rogue_resolver]\<rparr>"])
  have "RenderPrivateResolver \<lparr>dr_TunnelID = i, dr_Namespace = namespace, dr_Address = ''10.90.0.2'', dr_Resolvers = [rogue_resolver]\<rparr> =
      text_of (resolver_head ''10.90.0.2'' @ [''server=fe80::1%x'', rogue_line])" for i
    by (simp add: RenderPrivateResolver_def text_of_def server_line_def rogue_resolver_def)
  moreover have "\<forall>l \<in> set (resolver_head ''10.90.0.2'' @ [''server=fe80::1%x'', rogue_line]). NL \<notin> set l"
    by (simp add: resolver_head_def rogue_line_def)
  ultimately show "rogue_line \<in> set (Split NL (RenderPrivateResolver
       \<lparr>dr_TunnelID = t_ID (sample_corp\<lparr>t_DNSServers := [rogue_resolver]\<rparr>), dr_Namespace = namespace, dr_Address = ''10.90.0.2'',
         dr_Resolvers = t_DNSServers (sample_corp\<lparr>t_DNSServers := [rogue_resolver]\<rparr>)\<rparr>))"
    by (simp add: Split_text_of del: NL_def)
qed (simp_all add: rogue_config_def)

theorem resolver_lines_witness:
  "Split NL (RenderClientResolver
      (empty_plan\<lparr>dpl_Zones := [\<lparr>zr_Zone = ''corp.example'', zr_Resolvers = [], zr_ForwardAddress = ''10.90.0.2'', zr_Set = ''internal_corp''\<rparr>]\<rparr>)
      \<lparr>er_EgressID = ''direct'', er_ClientAddresses = [], er_HubAddress = ''10.80.0.1'', er_Namespace = [],
       er_NamespaceAddress = [], er_PublicResolvers = [''1.1.1.1'']\<rparr>) =
    [''# Managed by vpn-hub. Manual edits are reverted on the next reconcile.'', ''no-resolv'', ''no-hosts'',
     ''bind-interfaces'', ''listen-address=10.80.0.1'', ''local-service'', ''server=/corp.example/10.90.0.2'',
     ''nftset=/corp.example/inet#vpn_hub#internal_corp'', ''server=1.1.1.1'', []]"
  by (subst resolver_lines) (simp_all add: client_lines_def resolver_head_def zone_lines_def server_line_def empty_plan_def)

end
