(* ===== verification/JsonIndent.thy ===== *)
theory JsonIndent
  imports Json
begin

text \<open>
  Documents the adapters hand to other programs: a Go map, whose keys \<open>encoding/json\<close> prints in
  order, and the indented text of \<open>json.MarshalIndent(v, "", "  ")\<close>.
\<close>

definition jmap :: "(string \<times> json) list \<Rightarrow> json" where
  "jmap kvs = JObj (sort_key fst kvs)"

definition indentation :: "nat \<Rightarrow> string" where
  "indentation depth = replicate (2 * depth) CHR '' ''"

text \<open>The entries of an array or an object, each on a line of its own.\<close>

definition block_text :: "nat \<Rightarrow> string \<Rightarrow> string \<Rightarrow> string list \<Rightarrow> string" where
  "block_text depth opening closing entries =
     (if entries = [] then opening @ closing
      else opening @ NL # Join ('','' @ [NL]) (map (\<lambda>e. indentation (Suc depth) @ e) entries) @
           NL # indentation depth @ closing)"

fun indent_text :: "nat \<Rightarrow> json \<Rightarrow> string" where
  "indent_text depth (JArr xs) = block_text depth ''['' '']'' (map (indent_text (Suc depth)) xs)"
| "indent_text depth (JObj kvs) =
     block_text depth ''{'' ''}'' (map (\<lambda>(k, v). json_string k @ '': '' @ indent_text (Suc depth) v) kvs)"
| "indent_text depth j = json_text j"

definition MarshalIndent :: "json \<Rightarrow> string" where
  "MarshalIndent j = indent_text 0 j"

end
