(* ===== verification/Reality.thy ===== *)
theory Reality
  imports HostSpecs Runner JsonIndent
begin

text \<open>
  \<open>internal/adapters/linux/reality.go\<close>: the TCP/443 fallback listener.  Its configuration is rendered
  from the spec and handed to \<open>sing-box\<close> as a transient systemd unit; a file beside it records the
  fingerprint of the configuration the running process was started from.
\<close>

subsection \<open>Names\<close>

definition realityUnit :: string where "realityUnit = ''vpn-hub-reality''"
definition RealityConfigName :: string where "RealityConfigName = ''reality-singbox.json''"
definition RealityRunningUnknown :: string where "RealityRunningUnknown = ''running-unknown''"

definition reality_path :: "string \<Rightarrow> string" where
  "reality_path dir = joinPath dir RealityConfigName"

definition probe_path :: "string \<Rightarrow> string" where
  "probe_path dir = reality_path dir @ ''.check''"

definition appliedPath :: "string \<Rightarrow> string" where
  "appliedPath dir = joinPath dir (RealityConfigName @ ''.applied'')"

subsection \<open>The configuration\<close>

definition directOutbound :: "string \<Rightarrow> 32 word \<Rightarrow> json" where
  "directOutbound tag mark =
     jmap ([(''type'', JStr ''direct''), (''tag'', JStr tag), (''domain_strategy'', JStr ''ipv4_only'')] @
       (if mark \<noteq> 0 then [(''routing_mark'', JNum (uint mark))] else []))"

definition egress_tag :: "32 word \<Rightarrow> string" where
  "egress_tag mark = ''egress-'' @ Itoa (unat mark)"

text \<open>
  The loop over the users: their names and credentials, which outbound each is sent to, and the
  outbounds in the order their marks are first met.
\<close>

type_synonym reality_parts = "(string \<times> string) list \<times> (string \<times> string) list \<times> (string \<times> 32 word) list"

fun reality_loop :: "(32 word \<times> string) list \<Rightarrow> reality_user list \<Rightarrow> (host_error, reality_parts) result" where
  "reality_loop marked [] = Inr ([], [], [])"
| "reality_loop marked (u # us) =
     (if ru_DeviceID u = [] \<or> ru_UUID u = [] then Inl (Refused ''a REALITY user needs a device id and a credential'')
      else if ru_Mark u = 0 then
        bindE (reality_loop marked us) (\<lambda>(users, rules, outs). Inr ((ru_DeviceID u, ru_UUID u) # users, rules, outs))
      else (case map_of marked (ru_Mark u) of
          Some tag \<Rightarrow> bindE (reality_loop marked us) (\<lambda>(users, rules, outs).
            Inr ((ru_DeviceID u, ru_UUID u) # users, (ru_DeviceID u, tag) # rules, outs))
        | None \<Rightarrow> bindE (reality_loop ((ru_Mark u, egress_tag (ru_Mark u)) # marked) us) (\<lambda>(users, rules, outs).
            Inr ((ru_DeviceID u, ru_UUID u) # users, (ru_DeviceID u, egress_tag (ru_Mark u)) # rules,
                 (egress_tag (ru_Mark u), ru_Mark u) # outs))))"

definition user_json :: "string \<times> string \<Rightarrow> json" where
  "user_json = (\<lambda>(name, uuid). jmap [(''name'', JStr name), (''uuid'', JStr uuid), (''flow'', JStr ''xtls-rprx-vision'')])"

definition private_rule :: json where
  "private_rule = jmap [(''ip_is_private'', JBool True), (''outbound'', JStr ''block'')]"

definition user_rule :: "string \<times> string \<Rightarrow> json" where
  "user_rule = (\<lambda>(device, tag). jmap [(''auth_user'', JArr [JStr device]), (''outbound'', JStr tag)])"

definition reality_rules :: "reality_parts \<Rightarrow> json list" where
  "reality_rules = (\<lambda>(users, rules, outs). private_rule # map user_rule rules)"

definition reality_outbounds :: "reality_parts \<Rightarrow> json list" where
  "reality_outbounds = (\<lambda>(users, rules, outs).
     directOutbound ''direct'' 0 # jmap [(''type'', JStr ''block''), (''tag'', JStr ''block'')] #
     map (\<lambda>(tag, mark). directOutbound tag mark) outs)"

definition reality_inbound :: "reality_ingress_spec \<Rightarrow> reality_parts \<Rightarrow> json" where
  "reality_inbound spec = (\<lambda>(users, rules, outs).
     jmap [(''type'', JStr ''vless''), (''tag'', JStr ''reality-in''), (''listen'', JStr ''0.0.0.0''),
       (''listen_port'', JNum (uint (ri_Port spec))), (''users'', JArr (map user_json users)),
       (''tls'', jmap [(''enabled'', JBool True), (''server_name'', JStr (ri_ServerName spec)),
          (''reality'', jmap [(''enabled'', JBool True),
             (''handshake'', jmap [(''server'', JStr (ri_ServerName spec)), (''server_port'', JNum 443)]),
             (''private_key'', JStr (ri_PrivateKey spec)), (''short_id'', JArr [JStr (ri_ShortID spec)])])])])"

definition reality_json :: "reality_ingress_spec \<Rightarrow> reality_parts \<Rightarrow> json" where
  "reality_json spec parts =
     jmap [(''log'', jmap [(''level'', JStr ''warn''), (''timestamp'', JBool False)]),
       (''dns'', jmap [(''servers'', JArr [jmap [(''tag'', JStr ''hub''), (''address'', JStr (ri_DNSAddress spec))]]),
          (''strategy'', JStr ''ipv4_only'')]),
       (''inbounds'', JArr [reality_inbound spec parts]),
       (''outbounds'', JArr (reality_outbounds parts)),
       (''route'', jmap [(''rules'', JArr (reality_rules parts)), (''final'', JStr ''direct''),
          (''auto_detect_interface'', JBool False)])]"

definition RenderRealityServerConfig :: "reality_ingress_spec \<Rightarrow> (host_error, string) result" where
  "RenderRealityServerConfig spec =
     (if ri_ServerName spec = [] then Inl (Refused ''the REALITY listener needs a server_name to mimic'')
      else if ri_PrivateKey spec = [] \<or> ri_ShortID spec = [] then Inl (Refused ''the REALITY listener needs a private key and a short id'')
      else if ri_Port spec = 0 then Inl (Refused ''the REALITY listener needs a port'')
      else bindE (reality_loop [] (ri_Users spec)) (\<lambda>parts. Inr (MarshalIndent (reality_json spec parts) @ [NL])))"

definition config_fingerprint :: "string \<Rightarrow> string" where
  "config_fingerprint config = HexEncode (Sha256 config)"

definition RealityFingerprint :: "reality_ingress_spec \<Rightarrow> string" where
  "RealityFingerprint spec =
     (if \<not> ri_Enabled spec then []
      else case RenderRealityServerConfig spec of Inl _ \<Rightarrow> [] | Inr config \<Rightarrow> config_fingerprint config)"

subsection \<open>Asking and telling systemd\<close>

definition show_cmd :: "string list" where
  "show_cmd = [''systemctl'', ''show'', service realityUnit, ''--property=SubState'', ''--value'']"

definition reality_start_cmd :: "string \<Rightarrow> string list" where
  "reality_start_cmd path =
     [''systemd-run'', ''--quiet'', ''--collect'', ''--unit='' @ realityUnit,
      ''--property=Restart=on-failure'', ''--property=RestartSec=5s'',
      ''--property=NoNewPrivileges=true'', ''--property=UMask=0077'',
      ''--property=ProtectSystem=strict'', ''--property=ProtectHome=true'', ''--property=PrivateTmp=true'',
      ''--property=CapabilityBoundingSet=CAP_NET_BIND_SERVICE CAP_NET_ADMIN'',
      ''--property=AmbientCapabilities=CAP_NET_BIND_SERVICE CAP_NET_ADMIN'',
      ''sing-box'', ''run'', ''-c'', path]"

definition Applied :: "env \<Rightarrow> string \<Rightarrow> string try_op" where
  "Applied env dir = do {
     state \<leftarrow> answered env show_cmd;
     (case state of
        Inl e \<Rightarrow> if Contains e ''could not be found'' then returns (Inr [])
                 else fails (Wrapped ''ask systemd about the listener'' (RunFailed show_cmd e))
      | Inr out \<Rightarrow>
          (if TrimSpace out \<in> {''dead'', ''failed'', []} then returns (Inr [])
           else if TrimSpace out \<noteq> ''running'' then returns (Inr RealityRunningUnknown)
           else do {
             marker \<leftarrow> readFile env (appliedPath dir);
             (case marker of
                NotExist \<Rightarrow> returns (Inr RealityRunningUnknown)
              | NoRead \<Rightarrow> fails (ReadFailed (appliedPath dir))
              | Data fingerprint \<Rightarrow> returns (Inr (TrimSpace fingerprint))) })) }"

definition stopListener :: "env \<Rightarrow> unit try_op" where
  "stopListener env = do {
     answer \<leftarrow> answered env (stop_cmd realityUnit);
     (case answer of
        Inr _ \<Rightarrow> ok
      | Inl e \<Rightarrow> if Contains e ''not loaded'' then ok
                 else fails (Wrapped ''stop the listener'' (RunFailed (stop_cmd realityUnit) e))) }"

definition did_not_stay_up :: "env \<Rightarrow> unit try_op" where
  "did_not_stay_up env = do {
     journal \<leftarrow> answered env [''journalctl'', ''-u'', realityUnit, ''--no-pager'', ''-n'', ''10''];
     fails (Refused (''the listener did not stay up:'' @ NL #
       TrimSpace (case journal of Inl _ \<Rightarrow> [] | Inr text \<Rightarrow> text))) }"

text \<open>The attempts that are left; the first asks at once, the others after a pause.\<close>

fun confirm_attempts :: "env \<Rightarrow> bool \<Rightarrow> nat \<Rightarrow> unit try_op" where
  "confirm_attempts env first 0 = ok"
| "confirm_attempts env first (Suc n) = do {
     gone \<leftarrow> (if first then returns False else cancelled env);
     (if gone then fails Cancelled
      else andThen (wrapping ''ask systemd about the listener'' (exec env show_cmd)) (\<lambda>out.
        if TrimSpace out \<in> {''auto-restart'', ''failed'', ''dead''} then did_not_stay_up env
        else confirm_attempts env False n)) }"

definition confirmRunning :: "env \<Rightarrow> unit try_op" where
  "confirmRunning env = confirm_attempts env True 8"

subsection \<open>Apply\<close>

text \<open>Turning the fallback off.\<close>

definition remove_leftover :: "env \<Rightarrow> string \<Rightarrow> unit try_op" where
  "remove_leftover env path = wrapping (''remove '' @ path) (removeFile env path)"

definition apply_disabled :: "env \<Rightarrow> string \<Rightarrow> unit try_op" where
  "apply_disabled env dir =
     andThen (stopListener env) (\<lambda>_.
       forEach [reality_path dir, probe_path dir, appliedPath dir] (remove_leftover env))"

text \<open>What follows an accepted configuration: the record goes, the file changes, the process is replaced.\<close>

definition replace_listener :: "env \<Rightarrow> string \<Rightarrow> string \<Rightarrow> unit try_op" where
  "replace_listener env dir config =
     andThen (remove_leftover env (appliedPath dir)) (\<lambda>_.
     andThen (writeIfChanged env (reality_path dir) config) (\<lambda>_.
     andThen (stopListener env) (\<lambda>_.
     andThen (run env (reality_start_cmd (reality_path dir))) (\<lambda>_.
     andThen (confirmRunning env) (\<lambda>_.
     andThen (writeIfChanged env (appliedPath dir) (config_fingerprint config)) (\<lambda>_. ok))))))"

definition check_cmd :: "string \<Rightarrow> string list" where
  "check_cmd path = [''sing-box'', ''check'', ''-c'', path]"

definition reject_message :: string where
  "reject_message = ''the rendered listener configuration was rejected''"

definition check_and_replace :: "env \<Rightarrow> string \<Rightarrow> string \<Rightarrow> unit try_op" where
  "check_and_replace env dir config = do {
     verdict \<leftarrow> exec env (check_cmd (probe_path dir));
     (case verdict of
        Inl e \<Rightarrow> do {
          halted \<leftarrow> stopListener env;
          (case halted of
             Inl e2 \<Rightarrow> fails (Joined [Wrapped reject_message e, e2])
           | Inr _ \<Rightarrow> fails (Wrapped reject_message e)) }
      | Inr _ \<Rightarrow> replace_listener env dir config) }"

definition apply_config :: "env \<Rightarrow> string \<Rightarrow> string \<Rightarrow> unit try_op" where
  "apply_config env dir config = do {
     applied \<leftarrow> Applied env dir;
     (if applied = Inr (config_fingerprint config) then ok
      else andThen (writeIfChanged env (probe_path dir) config) (\<lambda>_. do {
        result \<leftarrow> check_and_replace env dir config;
        discard (removeFile env (probe_path dir));
        returns result })) }"

definition RealityApply :: "env \<Rightarrow> string \<Rightarrow> reality_ingress_spec \<Rightarrow> unit try_op" where
  "RealityApply env dir spec =
     (if \<not> ri_Enabled spec then apply_disabled env dir
      else case RenderRealityServerConfig spec of
        Inl e \<Rightarrow> fails e
      | Inr config \<Rightarrow> apply_config env dir config)"

end
