(* ===== verification/RealityClaims.thy ===== *)
theory RealityClaims
  imports Reality CompileClaims
begin

text \<open>
  The fallback listener over time: what the running process may be serving after any sequence of
  passes, some of which the agent does not survive, and what the record beside the configuration is
  worth.  Then the rendered configuration: who is sent where.
\<close>

subsection \<open>Reading the log\<close>

text \<open>The contents of a file after a log that starts on an empty runtime directory.\<close>

fun file_at :: "string \<Rightarrow> event list \<Rightarrow> string option" where
  "file_at p [] = None"
| "file_at p (Wrote q c # l) = (if q = p then Some c else file_at p l)"
| "file_at p (WriteBroke q left # l) = (if q = p then left else file_at p l)"
| "file_at p (Removed q # l) = (if q = p then None else file_at p l)"
| "file_at p (RemoveBroke q # l) = file_at p l"
| "file_at p (Ran cmd a # l) = file_at p l"

definition stop_worked :: "(string, string) result \<Rightarrow> bool" where
  "stop_worked a = (case a of Inr _ \<Rightarrow> True | Inl e \<Rightarrow> Contains e ''not loaded'')"

text \<open>
  The configurations the process may be serving.  An attempt to start it may make it serve the file
  of that moment; a stop that worked leaves none; and while there is a process, \<open>Restart=on-failure\<close>
  may make it read whatever is written to the file later.
\<close>

fun may_serve :: "string \<Rightarrow> event list \<Rightarrow> string set" where
  "may_serve path [] = {}"
| "may_serve path (Ran cmd a # l) =
     (if cmd = stop_cmd realityUnit then (if stop_worked a then {} else may_serve path l)
      else if cmd = reality_start_cmd path
        then (case file_at path l of None \<Rightarrow> may_serve path l | Some c \<Rightarrow> insert c (may_serve path l))
      else may_serve path l)"
| "may_serve path (Wrote q c # l) =
     (if q = path \<and> may_serve path l \<noteq> {} then insert c (may_serve path l) else may_serve path l)"
| "may_serve path (WriteBroke q left # l) =
     (case left of None \<Rightarrow> may_serve path l
      | Some c \<Rightarrow> if q = path \<and> may_serve path l \<noteq> {} then insert c (may_serve path l) else may_serve path l)"
| "may_serve path (Removed q # l) = may_serve path l"
| "may_serve path (RemoveBroke q # l) = may_serve path l"

text \<open>A record of full length is the fingerprint of everything the process may be serving.\<close>

definition record_true :: "string \<Rightarrow> event list \<Rightarrow> bool" where
  "record_true dir l \<longleftrightarrow>
     (\<forall>f. file_at (appliedPath dir) l = Some f \<longrightarrow> length f \<le> 64 \<and>
        (length f = 64 \<longrightarrow> (\<forall>c \<in> may_serve (reality_path dir) l. config_fingerprint c = f)))"

definition always_true :: "string \<Rightarrow> event list \<Rightarrow> bool" where
  "always_true dir l \<longleftrightarrow> (\<forall>new kept. l = new @ kept \<longrightarrow> record_true dir kept)"

definition host_of :: "event list \<Rightarrow> host" where
  "host_of l = \<lparr>h_Log = l, h_Files = \<lambda>p. file_at p l\<rparr>"

text \<open>A write that fails leaves the file as it was, without it, or with the beginning of the new contents.\<close>

definition truncates :: "env \<Rightarrow> bool" where
  "truncates env \<longleftrightarrow>
     (\<forall>l p c left. e_Write env l p c = Some left \<longrightarrow> left = None \<or> left = file_at p l \<or> (\<exists>k. left = Some (take k c)))"

text \<open>
  The hosts an agent can find: an empty one after boot, and what any pass leaves behind, be it cut
  short at any of its steps.
\<close>

inductive reality_host :: "string \<Rightarrow> host \<Rightarrow> bool" for dir where
  boot: "reality_host dir (host_of [])"
| pass: "reality_host dir h \<Longrightarrow> truncates env \<Longrightarrow> run_state (RealityApply env dir spec) h = (r, h') \<Longrightarrow> reality_host dir h'"
| died: "reality_host dir h \<Longrightarrow> truncates env \<Longrightarrow> run_state (RealityApply env dir spec) h = (r, h') \<Longrightarrow>
    h_Log h' = lost @ kept \<Longrightarrow> extends h (host_of kept) \<Longrightarrow> reality_host dir (host_of kept)"

subsection \<open>The invariant of the adapter's steps\<close>

definition sound :: "string \<Rightarrow> host \<Rightarrow> bool" where
  "sound dir h \<longleftrightarrow> h = host_of (h_Log h) \<and> always_true dir (h_Log h)"

lemma always_true_Cons: "always_true dir (e # l) \<longleftrightarrow> record_true dir (e # l) \<and> always_true dir l"
  by (auto simp: always_true_def Cons_eq_append_conv)

lemma always_true_Nil: "always_true dir []"
  by (simp add: always_true_def record_true_def)

lemma always_true_now: "always_true dir l \<Longrightarrow> record_true dir l"
  by (simp add: always_true_def)

lemma paths_differ [simp]:
  "reality_path dir \<noteq> appliedPath dir" "appliedPath dir \<noteq> reality_path dir"
  "probe_path dir \<noteq> appliedPath dir" "appliedPath dir \<noteq> probe_path dir"
  "reality_path dir \<noteq> probe_path dir" "probe_path dir \<noteq> reality_path dir"
  by (simp_all add: reality_path_def appliedPath_def probe_path_def joinPath_def RealityConfigName_def)

lemma start_not_stop [simp]: "reality_start_cmd p \<noteq> stop_cmd u" "stop_cmd u \<noteq> reality_start_cmd p"
  by (simp_all add: reality_start_cmd_def stop_cmd_def)

lemma length_fingerprint [simp]: "length (config_fingerprint c) = 64"
  by (simp add: config_fingerprint_def)

lemma sound_files: "sound dir h \<Longrightarrow> h_Files h p = file_at p (h_Log h)"
  unfolding sound_def host_of_def by (metis host.select_convs(2))

lemma soundI:
  assumes "sound dir h" "h_Log h' = e # h_Log h" "\<And>p. h_Files h' p = file_at p (e # h_Log h)" "record_true dir (e # h_Log h)"
  shows "sound dir h'"
  using assms by (cases h') (auto simp: sound_def host_of_def always_true_Cons)

text \<open>A command that neither stops nor starts the listener, and the removal of any file.\<close>

lemma sound_asked:
  assumes "sound dir h" "cmd \<noteq> stop_cmd realityUnit" "cmd \<noteq> reality_start_cmd (reality_path dir)"
  shows "wp (answered env cmd) (\<lambda>_ h'. sound dir h' \<and> (\<forall>p. h_Files h' p = h_Files h p) \<and>
      may_serve (reality_path dir) (h_Log h') = may_serve (reality_path dir) (h_Log h)) h"
proof -
  have "record_true dir (Ran cmd a # h_Log h)" for a
    using assms always_true_now[of dir "h_Log h"] by (simp add: sound_def record_true_def)
  then show ?thesis using assms by (auto simp: wp_rules sound_files intro!: soundI[OF assms(1)])
qed

lemma sound_removed:
  assumes "sound dir h"
  shows "wp (removeFile env p) (\<lambda>r h'. sound dir h' \<and> (r = Inr () \<longrightarrow> h_Files h' p = None) \<and>
      (\<forall>q. q \<noteq> p \<longrightarrow> h_Files h' q = h_Files h q) \<and> (h_Files h' p = None \<or> h_Files h' p = h_Files h p) \<and>
      may_serve (reality_path dir) (h_Log h') = may_serve (reality_path dir) (h_Log h)) h"
proof -
  have "record_true dir (Removed p # h_Log h)" "record_true dir (RemoveBroke p # h_Log h)"
    using assms always_true_now[of dir "h_Log h"] by (simp_all add: sound_def record_true_def)
  then show ?thesis using assms
    by (auto simp: wp_rules intro!: soundI[OF assms] simp: sound_files)
qed

lemma sound_stopped:
  assumes "sound dir h"
  shows "wp (stopListener env) (\<lambda>r h'. sound dir h' \<and> (\<forall>p. h_Files h' p = h_Files h p) \<and>
      (r = Inr () \<longrightarrow> may_serve (reality_path dir) (h_Log h') = {})) h"
proof -
  have "record_true dir (Ran (stop_cmd realityUnit) a # h_Log h)" for a
    using assms always_true_now[of dir "h_Log h"] by (auto simp: sound_def record_true_def)
  then show ?thesis using assms
    by (auto simp: stopListener_def wp_rules stop_worked_def split: sum.split intro!: soundI[OF assms] simp: sound_files)
qed

text \<open>A write, as long as it is not of the record, and of the configuration only while there is no record.\<close>

lemma sound_wrote:
  assumes "sound dir h" "p \<noteq> appliedPath dir" "p = reality_path dir \<longrightarrow> h_Files h (appliedPath dir) = None"
  shows "wp (writeIfChanged env p c) (\<lambda>r h'. sound dir h' \<and> (\<forall>q. q \<noteq> p \<longrightarrow> h_Files h' q = h_Files h q) \<and>
      (isOk r \<longrightarrow> h_Files h' p = Some c)) h"
proof -
  have rec: "record_true dir (h_Log h)" using assms(1) always_true_now by (simp add: sound_def)
  have none: "p = reality_path dir \<Longrightarrow> file_at (appliedPath dir) (h_Log h) = None"
    using assms(3) sound_files[OF assms(1)] by simp
  have "record_true dir (Wrote p c # h_Log h)" "record_true dir (WriteBroke p left # h_Log h)" for left
    using rec none assms(2) by (cases "p = reality_path dir"; auto simp: record_true_def split: option.split)+
  then show ?thesis using assms
    by (auto simp: wp_rules isOk_def split: option.split intro!: soundI[OF assms(1)] simp: sound_files)
qed

lemma sound_recorded:
  assumes "sound dir h" "truncates env" "h_Files h (appliedPath dir) = None"
    and "\<forall>c \<in> may_serve (reality_path dir) (h_Log h). config_fingerprint c = f" "length f = 64"
  shows "wp (writeIfChanged env (appliedPath dir) f) (\<lambda>r h'. sound dir h' \<and>
      may_serve (reality_path dir) (h_Log h') = may_serve (reality_path dir) (h_Log h)) h"
proof -
  have "file_at (appliedPath dir) (h_Log h) = None" using assms(3) sound_files[OF assms(1)] by simp
  then have left: "left = None \<or> (\<exists>k. left = Some (take k f))"
    if "e_Write env (h_Log h) (appliedPath dir) f = Some left" for left
    using assms(2) that unfolding truncates_def by metis
  have "record_true dir (WriteBroke (appliedPath dir) left # h_Log h)"
    if "left = None \<or> (\<exists>k. left = Some (take k f))" for left
    using that assms(4,5) by (auto simp: record_true_def)
  moreover have "record_true dir (Wrote (appliedPath dir) f # h_Log h)" using assms(4,5) by (simp add: record_true_def)
  ultimately show ?thesis using assms(1,3) left
    by (auto simp: wp_rules split: option.split intro!: soundI[OF assms(1)] simp: sound_files)
qed

text \<open>Steps that touch neither the files nor the process.\<close>

definition unmoved :: "string \<Rightarrow> host \<Rightarrow> host \<Rightarrow> bool" where
  "unmoved dir h h' \<longleftrightarrow> sound dir h' \<and> (\<forall>p. h_Files h' p = h_Files h p) \<and>
     may_serve (reality_path dir) (h_Log h') = may_serve (reality_path dir) (h_Log h)"

lemma unmoved_refl: "sound dir h \<Longrightarrow> unmoved dir h h"
  by (simp add: unmoved_def)

lemma unmoved_trans: "unmoved dir h h1 \<Longrightarrow> unmoved dir h1 h2 \<Longrightarrow> unmoved dir h h2"
  by (simp add: unmoved_def)

lemma unmoved_sound: "unmoved dir h h' \<Longrightarrow> sound dir h'"
  by (simp add: unmoved_def)

lemma plain_commands [simp]:
  "show_cmd \<noteq> stop_cmd u" "show_cmd \<noteq> reality_start_cmd p" "check_cmd q \<noteq> stop_cmd u" "check_cmd q \<noteq> reality_start_cmd p"
  "[''journalctl'', ''-u'', u, ''--no-pager'', ''-n'', ''10''] \<noteq> stop_cmd v"
  "[''journalctl'', ''-u'', u, ''--no-pager'', ''-n'', ''10''] \<noteq> reality_start_cmd p"
  by (simp_all add: show_cmd_def check_cmd_def stop_cmd_def reality_start_cmd_def)

lemma unmoved_asked:
  assumes "sound dir h" "cmd \<noteq> stop_cmd realityUnit" "cmd \<noteq> reality_start_cmd (reality_path dir)"
  shows "wp (answered env cmd) (\<lambda>_ h'. unmoved dir h h') h"
  unfolding unmoved_def by (rule sound_asked[OF assms])

lemma unmoved_exec:
  assumes "sound dir h" "cmd \<noteq> stop_cmd realityUnit" "cmd \<noteq> reality_start_cmd (reality_path dir)"
  shows "wp (wrapping c (exec env cmd)) (\<lambda>_. unmoved dir h) h"
  unfolding wp_wrapping exec_def
  by (rule wp_then[OF unmoved_asked[OF assms]]) (simp add: wp_returns)

lemma not_staying_unmoved: "sound dir h \<Longrightarrow> wp (did_not_stay_up env) (\<lambda>_. unmoved dir h) h"
  unfolding did_not_stay_up_def by (rule wp_then[OF unmoved_asked]) (simp_all add: wp_fails)

lemma confirm_unmoved: "sound dir h \<Longrightarrow> wp (confirm_attempts env first n) (\<lambda>_. unmoved dir h) h"
proof (induction n arbitrary: first h)
  case (Suc n first h)
  have "wp (did_not_stay_up env) (\<lambda>_. unmoved dir h) h1" "wp (confirm_attempts env False n) (\<lambda>_. unmoved dir h) h1"
    if "unmoved dir h h1" for h1
    using unmoved_trans[OF that] unmoved_sound[OF that]
    by (auto intro: wp_mono[OF not_staying_unmoved] wp_mono[OF Suc.IH])
  then have "wp (andThen (wrapping ''ask systemd about the listener'' (exec env show_cmd)) (\<lambda>out.
      if TrimSpace out \<in> {''auto-restart'', ''failed'', ''dead''} then did_not_stay_up env
      else confirm_attempts env False n)) (\<lambda>_. unmoved dir h) h"
    by (intro wp_seq[OF unmoved_exec[OF Suc.prems]]) simp_all
  then show ?case using unmoved_refl[OF Suc.prems]
    by (simp add: wp_bind) (simp add: wp_returns wp_cancelled wp_fails)
qed (simp add: wp_rules unmoved_refl)

lemma start_sound:
  assumes "sound dir h" "h_Files h (appliedPath dir) = None" "h_Files h (reality_path dir) = Some config"
    and "may_serve (reality_path dir) (h_Log h) = {}"
  shows "wp (run env (reality_start_cmd (reality_path dir))) (\<lambda>_ h'. sound dir h' \<and> (\<forall>p. h_Files h' p = h_Files h p) \<and>
      may_serve (reality_path dir) (h_Log h') = {config}) h"
proof -
  have files: "file_at (appliedPath dir) (h_Log h) = None" "file_at (reality_path dir) (h_Log h) = Some config"
    using assms(2,3) sound_files[OF assms(1)] by simp_all
  then have "record_true dir (Ran (reality_start_cmd (reality_path dir)) a # h_Log h)" for a
    by (simp add: record_true_def)
  then show ?thesis using files assms by (auto simp: wp_rules sound_files intro!: soundI[OF assms(1)])
qed

text \<open>What a pass that ran to its end has established.\<close>

definition established :: "string \<Rightarrow> string \<Rightarrow> host \<Rightarrow> bool" where
  "established dir config h \<longleftrightarrow>
     (\<forall>c \<in> may_serve (reality_path dir) (h_Log h). config_fingerprint c = config_fingerprint config) \<and>
     h_Files h (appliedPath dir) = Some (config_fingerprint config)"

definition ends_well :: "string \<Rightarrow> string \<Rightarrow> (host_error, unit) result \<Rightarrow> host \<Rightarrow> bool" where
  "ends_well dir config r h \<longleftrightarrow> sound dir h \<and> (r = Inr () \<longrightarrow> established dir config h)"

lemma record_end:
  assumes "sound dir h" "truncates env" "h_Files h (appliedPath dir) = None" "may_serve (reality_path dir) (h_Log h) = {config}"
  shows "wp (andThen (writeIfChanged env (appliedPath dir) (config_fingerprint config)) (\<lambda>_. ok)) (ends_well dir config) h"
proof (rule wp_seq)
  have "wp (writeIfChanged env (appliedPath dir) (config_fingerprint config))
      (\<lambda>r h'. isOk r \<longrightarrow> h_Files h' (appliedPath dir) = Some (config_fingerprint config)) h"
    using assms(3) by (simp add: wp_rules isOk_def split: option.split)
  then show "wp (writeIfChanged env (appliedPath dir) (config_fingerprint config))
      (\<lambda>r h'. (sound dir h' \<and> may_serve (reality_path dir) (h_Log h') = may_serve (reality_path dir) (h_Log h)) \<and>
        (isOk r \<longrightarrow> h_Files h' (appliedPath dir) = Some (config_fingerprint config))) h"
    using assms(4) by (intro wp_both sound_recorded[OF assms(1-3)]) simp_all
qed (use assms(4) in \<open>simp_all add: wp_ok ends_well_def established_def\<close>)

lemma replace_ends_well:
  assumes "sound dir h" "truncates env"
  shows "wp (replace_listener env dir config) (ends_well dir config) h"
proof -
  let ?none = "\<lambda>h. sound dir h \<and> h_Files h (appliedPath dir) = None"
  let ?file = "\<lambda>h. h_Files h (reality_path dir) = Some config"
  let ?serves = "\<lambda>h. may_serve (reality_path dir) (h_Log h)"
  let ?finish = "andThen (writeIfChanged env (appliedPath dir) (config_fingerprint config)) (\<lambda>_. ok)"
  have confirm: "wp (andThen (confirmRunning env) (\<lambda>_. ?finish)) (ends_well dir config) h"
    if "?none h" "?serves h = {config}" for h
    unfolding confirmRunning_def
    by (rule wp_seq[OF confirm_unmoved[of dir h]])
      (use that assms(2) in \<open>auto simp: ends_well_def unmoved_def intro!: record_end\<close>)
  have start: "wp (andThen (run env (reality_start_cmd (reality_path dir))) (\<lambda>_. andThen (confirmRunning env) (\<lambda>_. ?finish))) (ends_well dir config) h"
    if "?none h" "?file h" "?serves h = {}" for h
    by (rule wp_seq[OF start_sound[of dir h config]]) (use that in \<open>auto simp: ends_well_def intro!: confirm\<close>)
  have stop: "wp (andThen (stopListener env) (\<lambda>_. andThen (run env (reality_start_cmd (reality_path dir))) (\<lambda>_. andThen (confirmRunning env) (\<lambda>_. ?finish))))
      (ends_well dir config) h" if "?none h" "?file h" for h
    by (rule wp_seq[OF sound_stopped[of dir h]]) (use that in \<open>auto simp: ends_well_def intro!: start\<close>)
  show ?thesis unfolding replace_listener_def remove_leftover_def
  proof (rule wp_seq)
    show "wp (wrapping (''remove '' @ appliedPath dir) (removeFile env (appliedPath dir)))
        (\<lambda>r h'. sound dir h' \<and> (isOk r \<longrightarrow> ?none h')) h"
      unfolding wp_wrapping by (rule wp_mono[OF sound_removed[OF assms(1)]]) (auto simp: isOk_iff)
  next
    fix u h1 assume h1: "sound dir h1 \<and> (isOk (Inr u) \<longrightarrow> ?none h1)"
    show "wp (andThen (writeIfChanged env (reality_path dir) config)
          (\<lambda>_. andThen (stopListener env) (\<lambda>_. andThen (run env (reality_start_cmd (reality_path dir)))
          (\<lambda>_. andThen (confirmRunning env) (\<lambda>_. ?finish))))) (ends_well dir config) h1"
      by (rule wp_seq[OF sound_wrote[of dir h1 "reality_path dir"]])
        (use h1 in \<open>auto simp: ends_well_def intro!: stop\<close>)
  qed (simp add: ends_well_def)
qed

lemma TrimSpace_full:
  assumes "TrimSpace s = t" "length s \<le> length t"
  shows "s = t"
proof -
  obtain a b where "s = a @ TrimSpace s @ b" using TrimSpace_infix by blast
  with assms show ?thesis by auto
qed

lemma unknown_is_no_fingerprint [simp]:
  "RealityRunningUnknown \<noteq> config_fingerprint c" "config_fingerprint c \<noteq> RealityRunningUnknown"
  "[] \<noteq> config_fingerprint c" "config_fingerprint c \<noteq> []"
proof -
  have "length RealityRunningUnknown \<noteq> length (config_fingerprint c)" "length [] \<noteq> length (config_fingerprint c)"
    by (simp_all add: RealityRunningUnknown_def)
  then show "RealityRunningUnknown \<noteq> config_fingerprint c" "config_fingerprint c \<noteq> RealityRunningUnknown"
    "[] \<noteq> config_fingerprint c" "config_fingerprint c \<noteq> []" by metis+
qed

lemma applied_tells:
  assumes "sound dir h"
  shows "wp (Applied env dir) (\<lambda>r h'. unmoved dir h h' \<and> (r = Inr (config_fingerprint config) \<longrightarrow> established dir config h')) h"
  unfolding Applied_def
proof (rule wp_then[OF unmoved_asked[OF assms]])
  fix state h1 assume h1: "unmoved dir h h1"
  have rec: "record_true dir (h_Log h1)" using unmoved_sound[OF h1] always_true_now by (simp add: sound_def)
  have known: "established dir config h1" if "h_Files h1 (appliedPath dir) = Some f" "TrimSpace f = config_fingerprint config" for f
  proof -
    have "file_at (appliedPath dir) (h_Log h1) = Some f" using that(1) sound_files[OF unmoved_sound[OF h1]] by simp
    then have "length f \<le> 64" "length f = 64 \<Longrightarrow> \<forall>c \<in> may_serve (reality_path dir) (h_Log h1). config_fingerprint c = f"
      using rec by (auto simp: record_true_def)
    moreover from this have "f = config_fingerprint config" using TrimSpace_full[OF that(2)] by simp
    ultimately show ?thesis using that(1) by (simp add: established_def)
  qed
  have read: "wp (readFile env (appliedPath dir)) (\<lambda>m h'. unmoved dir h h' \<and>
      (\<forall>f. m = Data f \<longrightarrow> h_Files h' (appliedPath dir) = Some f) \<and> h' = h1) h1"
    using h1 by (simp add: wp_rules split: option.split)
  have marker: "wp (readFile env (appliedPath dir) \<bind> (\<lambda>m. case m of
        NotExist \<Rightarrow> returns (Inr RealityRunningUnknown) | NoRead \<Rightarrow> fails (ReadFailed (appliedPath dir))
      | Data f \<Rightarrow> returns (Inr (TrimSpace f))))
      (\<lambda>r h'. unmoved dir h h' \<and> (r = Inr (config_fingerprint config) \<longrightarrow> established dir config h')) h1"
    by (rule wp_then[OF read]) (auto simp: wp_rules known split: read_answer.split)
  show "wp (case state of
        Inl e \<Rightarrow> if Contains e ''could not be found'' then returns (Inr [])
                 else fails (Wrapped ''ask systemd about the listener'' (RunFailed show_cmd e))
      | Inr out \<Rightarrow>
          (if TrimSpace out \<in> {''dead'', ''failed'', []} then returns (Inr [])
           else if TrimSpace out \<noteq> ''running'' then returns (Inr RealityRunningUnknown)
           else do {
             marker \<leftarrow> readFile env (appliedPath dir);
             (case marker of
                NotExist \<Rightarrow> returns (Inr RealityRunningUnknown)
              | NoRead \<Rightarrow> fails (ReadFailed (appliedPath dir))
              | Data fingerprint \<Rightarrow> returns (Inr (TrimSpace fingerprint))) }))
      (\<lambda>r h'. unmoved dir h h' \<and> (r = Inr (config_fingerprint config) \<longrightarrow> established dir config h')) h1"
  proof (cases state)
    case (Inl e)
    then show ?thesis using h1 by (simp add: wp_returns wp_fails)
  next
    case (Inr out)
    then show ?thesis using h1 marker by (simp add: wp_returns)
  qed
qed simp_all

lemma check_ends_well:
  assumes "sound dir h" "truncates env"
  shows "wp (check_and_replace env dir config) (ends_well dir config) h"
  unfolding check_and_replace_def exec_def
proof (rule wp_then[where P = "\<lambda>v h'. sound dir h'"])
  show "wp (answered env (check_cmd (probe_path dir)) \<bind> (\<lambda>a. returns (mapErr (RunFailed (check_cmd (probe_path dir))) a))) (\<lambda>v h'. sound dir h') h"
    by (rule wp_then[OF unmoved_asked[OF assms(1)]]) (simp_all add: wp_returns unmoved_sound)
next
  fix verdict :: "(host_error, string) result" and h1 assume h1: "sound dir h1"
  have halt: "wp (stopListener env \<bind> (\<lambda>halted. case halted of
        Inl e2 \<Rightarrow> fails (Joined [Wrapped reject_message e, e2]) | Inr _ \<Rightarrow> fails (Wrapped reject_message e)))
      (ends_well dir config) h1" for e
    by (rule wp_then[OF sound_stopped[OF h1]]) (auto simp: wp_fails ends_well_def split: sum.split)
  show "wp (case verdict of
        Inl e \<Rightarrow> do {
          halted \<leftarrow> stopListener env;
          (case halted of
             Inl e2 \<Rightarrow> fails (Joined [Wrapped reject_message e, e2])
           | Inr _ \<Rightarrow> fails (Wrapped reject_message e)) }
      | Inr _ \<Rightarrow> replace_listener env dir config) (ends_well dir config) h1"
    using halt replace_ends_well[OF h1 assms(2)] by (cases verdict) simp_all
qed

lemma probe_gone:
  assumes "ends_well dir config r h"
  shows "wp (discard (removeFile env (probe_path dir))) (\<lambda>_. ends_well dir config r) h"
  unfolding wp_discard
  by (rule wp_mono[OF sound_removed]) (use assms in \<open>auto simp: ends_well_def established_def\<close>)

lemma apply_config_ends_well:
  assumes "sound dir h" "truncates env"
  shows "wp (apply_config env dir config) (ends_well dir config) h"
  unfolding apply_config_def
proof (rule wp_then[OF applied_tells[OF assms(1), where config = config]])
  fix applied h1
  assume h1: "unmoved dir h h1 \<and> (applied = Inr (config_fingerprint config) \<longrightarrow> established dir config h1)"
  then have sound1: "sound dir h1" using unmoved_sound by blast
  have rest: "wp (check_and_replace env dir config \<bind> (\<lambda>result. discard (removeFile env (probe_path dir)) \<bind> (\<lambda>_. returns result)))
      (ends_well dir config) h2" if "sound dir h2" for h2
    by (rule wp_then[OF check_ends_well[OF that assms(2)]])
      (rule wp_then[OF probe_gone], assumption, simp add: wp_returns)
  have "wp (andThen (writeIfChanged env (probe_path dir) config) (\<lambda>_.
      check_and_replace env dir config \<bind> (\<lambda>result. discard (removeFile env (probe_path dir)) \<bind> (\<lambda>_. returns result))))
      (ends_well dir config) h1"
    by (rule wp_seq[OF sound_wrote[OF sound1, of "probe_path dir"]]) (auto simp: ends_well_def[of dir config "Inl _"] intro: rest)
  then show "wp (if applied = Inr (config_fingerprint config) then ok
      else andThen (writeIfChanged env (probe_path dir) config) (\<lambda>_. do {
        result \<leftarrow> check_and_replace env dir config;
        discard (removeFile env (probe_path dir));
        returns result })) (ends_well dir config) h1"
    using h1 sound1 by (simp add: wp_ok ends_well_def)
qed

definition all_gone :: "string \<Rightarrow> host \<Rightarrow> bool" where
  "all_gone dir h \<longleftrightarrow> may_serve (reality_path dir) (h_Log h) = {} \<and>
     (\<forall>p \<in> {reality_path dir, probe_path dir, appliedPath dir}. h_Files h p = None)"

lemma disabled_ends_well:
  assumes "sound dir h"
  shows "wp (apply_disabled env dir) (\<lambda>r h'. sound dir h' \<and> (r = Inr () \<longrightarrow> all_gone dir h')) h"
  unfolding apply_disabled_def
proof (rule wp_seq[OF sound_stopped[OF assms]])
  fix u h1
  assume h1: "sound dir h1 \<and> (\<forall>p. h_Files h1 p = h_Files h p) \<and> (Inr u = Inr () \<longrightarrow> may_serve (reality_path dir) (h_Log h1) = {})"
  let ?I = "\<lambda>pre h'. sound dir h' \<and> may_serve (reality_path dir) (h_Log h') = {} \<and> (\<forall>p \<in> set pre. h_Files h' p = None)"
  have "wp (forEach [reality_path dir, probe_path dir, appliedPath dir] (remove_leftover env))
      (\<lambda>r h'. case r of Inl e \<Rightarrow> sound dir h' | Inr _ \<Rightarrow> ?I [reality_path dir, probe_path dir, appliedPath dir] h') h1"
  proof (rule wp_forEach[where I = ?I and E = "\<lambda>_. sound dir"])
    fix pre p post h2
    assume "?I pre h2"
    then show "wp (remove_leftover env p) (\<lambda>r h'. case r of Inl e \<Rightarrow> sound dir h' | Inr _ \<Rightarrow> ?I (pre @ [p]) h') h2"
      unfolding remove_leftover_def wp_wrapping
    proof (intro wp_mono[OF sound_removed[of dir h2]])
      fix r :: "(host_error, unit) result" and h3
      assume h3: "sound dir h3 \<and> (r = Inr () \<longrightarrow> h_Files h3 p = None) \<and> (\<forall>q. q \<noteq> p \<longrightarrow> h_Files h3 q = h_Files h2 q) \<and>
        (h_Files h3 p = None \<or> h_Files h3 p = h_Files h2 p) \<and>
        may_serve (reality_path dir) (h_Log h3) = may_serve (reality_path dir) (h_Log h2)"
      have "h_Files h3 q = None" if "q \<in> set pre" for q
        using h3 that \<open>?I pre h2\<close> by (cases "q = p") auto
      with h3 \<open>?I pre h2\<close>
      show "case mapErr (Wrapped (''remove '' @ p)) r of Inl e \<Rightarrow> sound dir h3 | Inr _ \<Rightarrow> ?I (pre @ [p]) h3"
        by (cases r) simp_all
    qed simp
  qed (use h1 in simp)
  then show "wp (forEach [reality_path dir, probe_path dir, appliedPath dir] (remove_leftover env))
      (\<lambda>r h'. sound dir h' \<and> (r = Inr () \<longrightarrow> all_gone dir h')) h1"
    by (rule wp_mono) (auto simp: all_gone_def split: sum.splits)
qed simp

lemma RealityApply_sound:
  assumes "sound dir h" "truncates env"
  shows "wp (RealityApply env dir spec) (\<lambda>_. sound dir) h"
proof (cases "ri_Enabled spec")
  case True
  have "wp (apply_config env dir config) (\<lambda>_. sound dir) h" for config
    by (rule wp_mono[OF apply_config_ends_well[OF assms]]) (simp add: ends_well_def)
  then show ?thesis using True assms(1) by (simp add: RealityApply_def wp_fails split: sum.split)
next
  case False
  have "wp (apply_disabled env dir) (\<lambda>_. sound dir) h" by (rule wp_mono[OF disabled_ends_well[OF assms(1)]]) simp
  then show ?thesis using False by (simp add: RealityApply_def)
qed

lemma reality_host_sound: "reality_host dir h \<Longrightarrow> sound dir h"
proof (induction rule: reality_host.induct)
  case boot
  then show ?case by (simp add: sound_def host_of_def always_true_Nil)
next
  case (pass h env spec r h')
  then show ?case using wpD[OF RealityApply_sound] by blast
next
  case (died h env spec r h' lost kept)
  then have "sound dir h'" using wpD[OF RealityApply_sound] by blast
  then have "always_true dir (lost @ kept)" using died.hyps by (simp add: sound_def)
  then have "always_true dir kept" by (auto simp: always_true_def)
  then show ?case by (simp add: sound_def host_of_def)
qed

subsection \<open>What passes and crashes leave behind\<close>

text \<open>C12: After any sequence of passes, each of which may fail anywhere or be cut short by a crash at any step,
  the record, when it has its full length, is the fingerprint of every configuration the listener may be serving, the ones it would read
  if it crashed and were restarted included.\<close>
theorem the_record_is_of_what_is_served:
  assumes "reality_host dir h" "h_Files h (appliedPath dir) = Some f" "length f = 64"
    and "c \<in> may_serve (reality_path dir) (h_Log h)"
  shows "config_fingerprint c = f"
proof -
  note s = reality_host_sound[OF assms(1)]
  have "record_true dir (h_Log h)" using s always_true_now by (simp add: sound_def)
  then show ?thesis using assms(2-4) sound_files[OF s] by (simp add: record_true_def)
qed

text \<open>A pass with the fallback on that reports success has left a listener that can only be serving the
  configuration rendered from the spec, and the record of it; so it is reported as applied.\<close>
theorem a_successful_pass_serves_the_spec:
  assumes "reality_host dir h" "truncates env" "ri_Enabled spec" "run_state (RealityApply env dir spec) h = (Inr (), h')"
  shows "\<exists>config. RenderRealityServerConfig spec = Inr config \<and> RealityFingerprint spec = config_fingerprint config \<and>
    h_Files h' (appliedPath dir) = Some (RealityFingerprint spec) \<and>
    (\<forall>c \<in> may_serve (reality_path dir) (h_Log h'). config_fingerprint c = RealityFingerprint spec)"
proof (cases "RenderRealityServerConfig spec")
  case (Inl e)
  then show ?thesis using assms(3,4) by (simp add: RealityApply_def fails_def returns_def)
next
  case (Inr config)
  then have "run_state (apply_config env dir config) h = (Inr (), h')" using assms(3,4) by (simp add: RealityApply_def)
  from wpD[OF apply_config_ends_well[OF reality_host_sound[OF assms(1)] assms(2)] this]
  have "established dir config h'" by (simp add: ends_well_def)
  then show ?thesis using Inr assms(3) by (simp add: established_def RealityFingerprint_def)
qed

text \<open>A pass with the fallback off that reports success leaves no process and no file that holds a key: neither
  the configuration nor the copy that was checked nor the record.\<close>
theorem switched_off_means_gone:
  assumes "reality_host dir h" "\<not> ri_Enabled spec" "run_state (RealityApply env dir spec) h = (Inr (), h')"
  shows "all_gone dir h'"
  using wpD[OF disabled_ends_well[OF reality_host_sound[OF assms(1)]], of env "Inr ()" h'] assms(2,3)
  by (simp add: RealityApply_def)

text \<open>When the rendered configuration is rejected, the pass fails, the configuration file is not touched, and the
  listener, which may still admit what the revision no longer admits, is down unless stopping it failed too.\<close>
theorem a_rejected_configuration_stops_the_listener:
  assumes "reality_host dir h" "run_state (check_and_replace env dir config) h = (r, h')"
    and "e_Run env (h_Log h) (check_cmd (probe_path dir)) = Inl e"
  shows "(\<exists>err. r = Inl err) \<and> h_Files h' (reality_path dir) = h_Files h (reality_path dir) \<and>
    (may_serve (reality_path dir) (h_Log h') = {} \<or> (\<exists>e1 e2. r = Inl (Joined [e1, e2])))"
proof -
  let ?h1 = "h\<lparr>h_Log := Ran (check_cmd (probe_path dir)) (Inl e) # h_Log h\<rparr>"
  note s = reality_host_sound[OF assms(1)]
  have s1: "sound dir ?h1"
    using wpD[OF unmoved_asked[OF s, of "check_cmd (probe_path dir)" env]] unmoved_sound[of dir h ?h1] assms(3)
    by (simp add: answered_def Let_def)
  have "wp (check_and_replace env dir config) (\<lambda>r h'. (\<exists>err. r = Inl err) \<and>
      h_Files h' (reality_path dir) = h_Files h (reality_path dir) \<and>
      (may_serve (reality_path dir) (h_Log h') = {} \<or> (\<exists>e1 e2. r = Inl (Joined [e1, e2])))) h"
    unfolding check_and_replace_def wp_bind wp_exec assms(3) mapErr_simps sum.case
    by (rule wp_mono[OF sound_stopped[OF s1]]) (auto simp: wp_fails split: sum.split)
  from wpD[OF this assms(2)] show ?thesis .
qed

subsection \<open>A quiet host\<close>

lemma TrimSpace_Nil [simp]: "TrimSpace [] = []"
  by code_simp

lemma calm_truncates: "truncates calm_env"
  by (simp add: truncates_def)

lemma calm_confirm:
  "wp (confirm_attempts calm_env first n) Q h =
     Q (Inr ()) (h\<lparr>h_Log := replicate n (Ran show_cmd (Inr [])) @ h_Log h\<rparr>)"
  by (induction n arbitrary: first h) (simp_all add: wp_rules replicate_app_Cons_same)

lemma replicated_questions [simp]:
  "may_serve p (replicate n (Ran show_cmd a) @ l) = may_serve p l" "file_at p (replicate n (Ran show_cmd a) @ l) = file_at p l"
  by (induction n) simp_all

lemma calm_pass:
  "wp (apply_config calm_env dir config) (\<lambda>r h'. r = Inr () \<and> may_serve (reality_path dir) (h_Log h') = {config}) (host_of [])"
  unfolding apply_config_def check_and_replace_def replace_listener_def confirmRunning_def Applied_def stopListener_def remove_leftover_def
  by (simp add: wp_rules calm_confirm host_of_def stop_worked_def)

definition a_spec :: reality_ingress_spec where
  "a_spec = \<lparr>ri_Enabled = True, ri_Port = 443, ri_ServerName = ''www.example.org'', ri_PrivateKey = ''key'', ri_ShortID = ''ab'',
     ri_DNSAddress = ''10.80.0.1'',
     ri_Users = [\<lparr>ru_DeviceID = ''laptop'', ru_UUID = ''uuid-1'', ru_Mark = 0x101\<rparr>,
       \<lparr>ru_DeviceID = ''phone'', ru_UUID = ''uuid-2'', ru_Mark = 0\<rparr>]\<rparr>"

lemma a_spec_renders: "\<exists>config. RenderRealityServerConfig a_spec = Inr config"
  by (simp add: RenderRealityServerConfig_def a_spec_def)

definition a_config :: string where
  "a_config = (case RenderRealityServerConfig a_spec of Inl _ \<Rightarrow> [] | Inr c \<Rightarrow> c)"

lemma a_config: "RenderRealityServerConfig a_spec = Inr a_config"
  using a_spec_renders by (auto simp: a_config_def)

definition served_host :: "string \<Rightarrow> host" where
  "served_host dir = snd (run_state (RealityApply calm_env dir a_spec) (host_of []))"

lemma served_run: "run_state (RealityApply calm_env dir a_spec) (host_of []) = (Inr (), served_host dir)"
  and served_config: "may_serve (reality_path dir) (h_Log (served_host dir)) = {a_config}"
  and served_reached: "reality_host dir (served_host dir)"
  and served_established: "established dir a_config (served_host dir)"
proof -
  have run: "run_state (RealityApply calm_env dir a_spec) (host_of []) = run_state (apply_config calm_env dir a_config) (host_of [])"
    by (simp add: RealityApply_def a_config) (simp add: a_spec_def)
  from calm_pass[of dir a_config] show one: "run_state (RealityApply calm_env dir a_spec) (host_of []) = (Inr (), served_host dir)"
    "may_serve (reality_path dir) (h_Log (served_host dir)) = {a_config}"
    unfolding served_host_def run wp_def by (auto simp: prod_eq_iff split: prod.splits)
  show "reality_host dir (served_host dir)" by (rule reality_host.pass[OF boot calm_truncates one(1)])
  from wpD[OF apply_config_ends_well[OF reality_host_sound[OF boot] calm_truncates] one(1)[unfolded run]]
  show "established dir a_config (served_host dir)" by (simp add: ends_well_def)
qed

theorem a_successful_pass_serves_the_spec_witness:
  "h_Files (served_host ''/run/vpn-hub'') (appliedPath ''/run/vpn-hub'') = Some (RealityFingerprint a_spec)"
proof -
  have "ri_Enabled a_spec" by (simp add: a_spec_def)
  from a_successful_pass_serves_the_spec[OF boot calm_truncates this served_run] show ?thesis by blast
qed

theorem the_record_is_of_what_is_served_witness:
  "\<exists>f. h_Files (served_host ''/run/vpn-hub'') (appliedPath ''/run/vpn-hub'') = Some f \<and>
     a_config \<in> may_serve (reality_path ''/run/vpn-hub'') (h_Log (served_host ''/run/vpn-hub'')) \<and> config_fingerprint a_config = f"
proof -
  obtain f where f: "h_Files (served_host ''/run/vpn-hub'') (appliedPath ''/run/vpn-hub'') = Some f" "length f = 64"
    using served_established by (auto simp: established_def)
  have c: "a_config \<in> may_serve (reality_path ''/run/vpn-hub'') (h_Log (served_host ''/run/vpn-hub''))"
    by (simp add: served_config)
  from f c the_record_is_of_what_is_served[OF served_reached f c] show ?thesis by blast
qed

theorem switched_off_means_gone_witness:
  "\<exists>h'. run_state (RealityApply calm_env ''/run/vpn-hub'' (a_spec\<lparr>ri_Enabled := False\<rparr>)) (served_host ''/run/vpn-hub'') = (Inr (), h') \<and>
     all_gone ''/run/vpn-hub'' h'"
proof -
  obtain r h' where run: "run_state (RealityApply calm_env ''/run/vpn-hub'' (a_spec\<lparr>ri_Enabled := False\<rparr>)) (served_host ''/run/vpn-hub'') = (r, h')"
    by fastforce
  have "wp (RealityApply calm_env ''/run/vpn-hub'' (a_spec\<lparr>ri_Enabled := False\<rparr>)) (\<lambda>r _. r = Inr ()) h" for h
    by (simp add: RealityApply_def apply_disabled_def stopListener_def remove_leftover_def forEach_def wp_rules)
  from wpD[OF this run] have r: "r = Inr ()" .
  have "\<not> ri_Enabled (a_spec\<lparr>ri_Enabled := False\<rparr>)" by simp
  from switched_off_means_gone[OF served_reached this run[unfolded r]] run r show ?thesis by blast
qed

theorem a_rejected_configuration_stops_the_listener_witness:
  "\<exists>r h'. run_state (check_and_replace (calm_env\<lparr>e_Run := \<lambda>_ cmd. if hd cmd = ''sing-box'' then Inl ''bad'' else Inr []\<rparr>) ''/run/vpn-hub'' a_config)
      (served_host ''/run/vpn-hub'') = (r, h') \<and> (\<exists>err. r = Inl err) \<and>
    h_Files h' (reality_path ''/run/vpn-hub'') = h_Files (served_host ''/run/vpn-hub'') (reality_path ''/run/vpn-hub'')"
proof -
  let ?env = "calm_env\<lparr>e_Run := \<lambda>_ cmd. if hd cmd = ''sing-box'' then Inl ''bad'' else Inr []\<rparr>"
  obtain r h' where run: "run_state (check_and_replace ?env ''/run/vpn-hub'' a_config) (served_host ''/run/vpn-hub'') = (r, h')" by fastforce
  have "e_Run ?env (h_Log (served_host ''/run/vpn-hub'')) (check_cmd (probe_path ''/run/vpn-hub'')) = Inl ''bad''"
    by (simp add: check_cmd_def)
  from a_rejected_configuration_stops_the_listener[OF served_reached run this] run show ?thesis by blast
qed

subsection \<open>The rendered configuration\<close>

lemma egress_tag_inj [simp]: "egress_tag m = egress_tag n \<longleftrightarrow> m = n"
  by (simp add: egress_tag_def Itoa_inj word_unat_eq_iff)

lemma egress_tag_fresh [simp]: "egress_tag m \<noteq> ''direct''" "egress_tag m \<noteq> ''block''"
  by (simp_all add: egress_tag_def)

lemma reality_loop_result:
  assumes "reality_loop marked us = Inr (users, rules, outs)" "\<forall>m t. map_of marked m = Some t \<longrightarrow> t = egress_tag m"
  shows "users = map (\<lambda>u. (ru_DeviceID u, ru_UUID u)) us \<and>
    rules = map (\<lambda>u. (ru_DeviceID u, egress_tag (ru_Mark u))) (filter (\<lambda>u. ru_Mark u \<noteq> 0) us) \<and>
    distinct (map snd outs) \<and> (\<forall>(t, m) \<in> set outs. t = egress_tag m) \<and>
    set (map snd outs) = ru_Mark ` set us - {0} - dom (map_of marked)"
  using assms
proof (induction us arbitrary: marked users rules outs)
  case (Cons u us)
  show ?case
  proof (cases "ru_Mark u = 0 \<or> map_of marked (ru_Mark u) \<noteq> None")
    case True
    then obtain users' rules' where rest: "reality_loop marked us = Inr (users', rules', outs)"
      and here: "users = (ru_DeviceID u, ru_UUID u) # users'"
        "rules = (if ru_Mark u = 0 then rules' else (ru_DeviceID u, egress_tag (ru_Mark u)) # rules')"
      using Cons.prems by (auto simp: bindE_Inr_iff split: if_splits option.splits)
    show ?thesis using Cons.IH[OF rest Cons.prems(2)] here True by auto
  next
    case False
    then obtain users' rules' outs' where rest: "reality_loop ((ru_Mark u, egress_tag (ru_Mark u)) # marked) us = Inr (users', rules', outs')"
      and here: "users = (ru_DeviceID u, ru_UUID u) # users'" "rules = (ru_DeviceID u, egress_tag (ru_Mark u)) # rules'"
        "outs = (egress_tag (ru_Mark u), ru_Mark u) # outs'"
      using Cons.prems(1) by (auto simp: bindE_Inr_iff split: if_splits option.splits)
    have "\<forall>m t. map_of ((ru_Mark u, egress_tag (ru_Mark u)) # marked) m = Some t \<longrightarrow> t = egress_tag m"
      using Cons.prems(2) by simp
    from Cons.IH[OF rest this] here False show ?thesis by (auto simp: dom_def)
  qed
qed simp



end
