(* ===== verification/AwgDump.thy ===== *)
theory AwgDump
  imports HostSpecs
begin

text \<open>
  \<open>internal/adapters/linux/awgdump.go\<close>: reading \<open>awg show <interface> dump\<close>.  Instants count
  nanoseconds from Go's zero time, and the zero time stands for no handshake.
\<close>

datatype dump_error =
    EmptyDump | HeaderTooShort nat | BadListenPort string | PeerTooShort nat nat | BadHandshake string string

definition unset :: string where
  "unset = ''(none)''"

text \<open>\<open>time.Unix(seconds, 0)\<close>.\<close>

definition unix_time :: "int \<Rightarrow> int" where
  "unix_time seconds = (seconds + 62135596800) * 1000000000"

text \<open>\<open>v, _ := strconv.ParseUint(s, 10, 64)\<close>: zero for a text that is no number, the largest value for one too large.\<close>

definition counter :: "string \<Rightarrow> 64 word" where
  "counter s =
     (if s = [] \<or> \<not> list_all is_digit s then 0 else of_nat (min (digits_val 0 s) (2 ^ 64 - 1)))"

definition parse_peer :: "nat \<times> string \<Rightarrow> (dump_error, peer_observation) result" where
  "parse_peer = (\<lambda>(index, line).
     let fields = Split TAB line in
     if length fields < 5 then Inl (PeerTooShort (index + 1) (length fields))
     else case ParseInt64 (fields ! 4) of
       None \<Rightarrow> Inl (BadHandshake (fields ! 0) (fields ! 4))
     | Some handshake \<Rightarrow>
         Inr \<lparr>po_PublicKey = fields ! 0,
              po_AllowedIPs = (if fields ! 3 \<noteq> unset then Split CHR '','' (fields ! 3) else []),
              po_LatestHandshake = (if handshake > 0 then unix_time handshake else 0),
              po_Endpoint = (if fields ! 2 \<noteq> unset then fields ! 2 else []),
              po_RxBytes = (if 7 \<le> length fields then counter (fields ! 5) else 0),
              po_TxBytes = (if 7 \<le> length fields then counter (fields ! 6) else 0)\<rparr>)"

definition ParseDump :: "string \<Rightarrow> (dump_error, ingress_observation) result" where
  "ParseDump answer =
     (let lines = Split NL (TrimRight answer [NL]); header = Split TAB (hd lines) in
      if TrimSpace (hd lines) = [] then Inl EmptyDump
      else if length header < 3 then Inl (HeaderTooShort (length header))
      else case ParseUint 16 (header ! 2) of
        None \<Rightarrow> Inl (BadListenPort (header ! 2))
      | Some port \<Rightarrow>
          bindE (mapE parse_peer (filter (\<lambda>(_, line). TrimSpace line \<noteq> []) (enumerate 0 (tl lines)))) (\<lambda>peers.
            Inr \<lparr>io_Exists = True, io_PublicKey = header ! 1, io_ListenPort = of_nat port, io_Peers = peers\<rparr>))"

definition absent_interface :: ingress_observation where
  "absent_interface = \<lparr>io_Exists = False, io_PublicKey = [], io_ListenPort = 0, io_Peers = []\<rparr>"

end
