(* ===== verification/IngressAdapter.thy ===== *)
theory IngressAdapter
  imports AwgDump Runner
begin

text \<open>
  \<open>internal/adapters/linux/ingress.go\<close>: the adapter that makes the client interface what its spec
  says.  The link type and the tool are parameters, as they are fields of the adapter.
\<close>

record ingress_adapter =
  ia_SecretsDir :: string
  ia_LinkType :: string
  ia_Tool :: string

definition link_type :: "ingress_adapter \<Rightarrow> string" where
  "link_type a = (if ia_LinkType a \<noteq> [] then ia_LinkType a else ''amneziawg'')"

definition tool :: "ingress_adapter \<Rightarrow> string" where
  "tool a = (if ia_Tool a \<noteq> [] then ia_Tool a else ''awg'')"

definition sortedKeys :: "(string \<times> string) list \<Rightarrow> string list" where
  "sortedKeys values = sort (remdups (map fst values))"

text \<open>The obfuscation parameters as arguments, in the order of their names.\<close>

definition parameter_args :: "(string \<times> string) list \<Rightarrow> string list" where
  "parameter_args values = concat (map (\<lambda>name. [ToLower name, lookup_str values name]) (sortedKeys values))"

definition dump_cmd :: "string \<Rightarrow> string \<Rightarrow> string list" where
  "dump_cmd t interface = [t, ''show'', interface, ''dump'']"

definition set_peer_cmd :: "string \<Rightarrow> string \<Rightarrow> string \<Rightarrow> string \<Rightarrow> string list" where
  "set_peer_cmd t interface key ips = [t, ''set'', interface, ''peer'', key, ''allowed-ips'', ips]"

definition remove_peer_cmd :: "string \<Rightarrow> string \<Rightarrow> string \<Rightarrow> string list" where
  "remove_peer_cmd t interface key = [t, ''set'', interface, ''peer'', key, ''remove'']"

text \<open>A command that fails means there is no such interface.\<close>

definition IngressObserve :: "env \<Rightarrow> ingress_adapter \<Rightarrow> string \<Rightarrow> ingress_observation try_op" where
  "IngressObserve env a name = do {
     answer \<leftarrow> answered env (dump_cmd (tool a) name);
     (case answer of
        Inl _ \<Rightarrow> returns (Inr absent_interface)
      | Inr out \<Rightarrow> returns (mapErr (\<lambda>_. Refused ''unreadable dump'') (ParseDump out))) }"

definition writePrivateKey :: "env \<Rightarrow> ingress_adapter \<Rightarrow> ingress_spec \<Rightarrow> string try_op" where
  "writePrivateKey env a spec =
     (let path = joinPath (if ia_SecretsDir a = [] then DefaultRuntimeDir else ia_SecretsDir a) (is_Interface spec @ ''.key'') in
      andThen (writeFile env path (is_PrivateKey spec @ [NL])) (\<lambda>_. returns (Inr path)))"

definition syncPeers :: "env \<Rightarrow> ingress_adapter \<Rightarrow> ingress_spec \<Rightarrow> ingress_observation \<Rightarrow> unit try_op" where
  "syncPeers env a spec observed =
     andThen (forEach (is_Peers spec) (\<lambda>p.
       run env (set_peer_cmd (tool a) (is_Interface spec) (ps_PublicKey p) (Join '','' (ps_AllowedIPs p))))) (\<lambda>_.
     forEach (filter (\<lambda>p. po_PublicKey p \<notin> set (map ps_PublicKey (is_Peers spec))) (io_Peers observed)) (\<lambda>p.
       run env (remove_peer_cmd (tool a) (is_Interface spec) (po_PublicKey p))))"

definition configure_cmd :: "ingress_adapter \<Rightarrow> ingress_spec \<Rightarrow> string \<Rightarrow> string list" where
  "configure_cmd a spec keyPath =
     [tool a, ''set'', is_Interface spec, ''private-key'', keyPath, ''listen-port'', Itoa (unat (is_ListenPort spec))] @
     parameter_args (is_Parameters spec)"

definition IngressApply :: "env \<Rightarrow> ingress_adapter \<Rightarrow> ingress_spec \<Rightarrow> unit try_op" where
  "IngressApply env a spec =
     (if is_Interface spec = [] \<or> is_Address spec = [] \<or> is_PrivateKey spec = []
      then fails (Refused ''ingress interface, address and private key are required'')
      else andThen (IngressObserve env a (is_Interface spec)) (\<lambda>observed.
        andThen (if io_Exists observed then ok
                 else run env [''ip'', ''link'', ''add'', ''dev'', is_Interface spec, ''type'', link_type a]) (\<lambda>_.
        andThen (writePrivateKey env a spec) (\<lambda>keyPath.
        andThen (run env (configure_cmd a spec keyPath)) (\<lambda>_.
        andThen (syncPeers env a spec observed) (\<lambda>_.
        andThen (run env [''ip'', ''addr'', ''replace'', is_Address spec, ''dev'', is_Interface spec]) (\<lambda>_.
          run env [''ip'', ''link'', ''set'', is_Interface spec, ''up''])))))))"

end
