(* ===== verification/IngressClaims.thy ===== *)
theory IngressClaims
  imports IngressAdapter HostClaims
begin

text \<open>
  The dump is read back as what was written into it, and a pass of the ingress adapter leaves the
  interface with exactly the peers of its spec.
\<close>

subsection \<open>Reading a dump\<close>

lemma eat_keeps: "eat us s = Some t \<Longrightarrow> c \<notin> \<Union> (set ` set us) \<Longrightarrow> c \<in> set s \<Longrightarrow> c \<in> set t"
  by (induction us) (auto simp: HasPrefix_iff split: if_splits)

lemma trim_runes_keeps: "c \<notin> \<Union> (set ` set us) \<Longrightarrow> c \<in> set s \<Longrightarrow> c \<in> set (trim_runes us s)"
proof (induction us s rule: trim_runes.induct)
  case (1 us s)
  then show ?case using eat_keeps[of us s] by (cases "eat us s") (simp_all add: trim_runes.simps[of us s])
qed

text \<open>Trimming keeps every byte that is part of no space.\<close>

lemma TrimSpace_keeps:
  assumes "c \<in> set s" "c \<notin> \<Union> (set ` set space_runes)"
  shows "c \<in> set (TrimSpace s)"
  unfolding TrimSpace_def
  using assms by (auto intro!: trim_runes_keeps)

lemma f_is_no_space: "CHR ''f'' \<notin> \<Union> (set ` set space_runes)"
  by code_simp

lemma TrimRight_line:
  assumes "s \<noteq> []" "last s \<noteq> c"
  shows "TrimRight (s @ [c]) [c] = s"
proof -
  obtain t x where "s = t @ [x]" using assms(1) by (metis rev_exhaust)
  then show ?thesis using assms(2) by (simp add: TrimRight_def)
qed

text \<open>The layout of a dump: the interface with its key pair and port, then one line for every peer.\<close>

definition peer_line :: "string \<Rightarrow> nat \<Rightarrow> peer_observation \<Rightarrow> string" where
  "peer_line psk seconds p =
     Join [TAB] [po_PublicKey p, psk, (if po_Endpoint p = [] then unset else po_Endpoint p),
       (if po_AllowedIPs p = [] then unset else Join '','' (po_AllowedIPs p)), Itoa seconds,
       Itoa (unat (po_RxBytes p)), Itoa (unat (po_TxBytes p)), ''off'']"

definition dump_text :: "string \<Rightarrow> (string \<times> nat) list \<Rightarrow> ingress_observation \<Rightarrow> string" where
  "dump_text private extras o' =
     Join [NL] (Join [TAB] [private, io_PublicKey o', Itoa (unat (io_ListenPort o')), ''off''] #
       map (\<lambda>((psk, seconds), p). peer_line psk seconds p) (zip extras (io_Peers o'))) @ [NL]"

definition plain :: "string \<Rightarrow> bool" where
  "plain s \<longleftrightarrow> TAB \<notin> set s \<and> NL \<notin> set s"

definition peer_printable :: "(string \<times> nat) \<times> peer_observation \<Rightarrow> bool" where
  "peer_printable = (\<lambda>((psk, seconds), p).
     plain psk \<and> plain (po_PublicKey p) \<and> plain (po_Endpoint p) \<and> po_Endpoint p \<noteq> unset \<and>
     (\<forall>ip \<in> set (po_AllowedIPs p). plain ip \<and> CHR '','' \<notin> set ip) \<and> po_AllowedIPs p \<noteq> [unset] \<and>
     seconds < 2 ^ 63 \<and> po_LatestHandshake p = (if seconds > 0 then unix_time (int seconds) else 0))"

lemma plain_Itoa [simp]: "plain (Itoa n)"
  by (simp add: plain_def Itoa_no_char is_digit_def code_def)

lemma plain_Join: "\<forall>w \<in> set ws. plain w \<Longrightarrow> plain sep \<Longrightarrow> plain (Join sep ws)"
  by (induction ws rule: induct_list012) (auto simp: plain_def)

lemma plain_words [simp]: "plain ''off''" "plain unset" "plain '',''"
  by (simp_all add: plain_def unset_def)

lemma ParseInt64_Itoa: "n < 2 ^ 63 \<Longrightarrow> ParseInt64 (Itoa n) = Some (int n)"
proof -
  assume n: "n < 2 ^ 63"
  obtain c cs where c: "Itoa n = c # cs" by (cases "Itoa n") auto
  have "is_digit c" using Itoa_digits[of n] c by simp
  then have "c \<noteq> CHR ''-''" "c \<noteq> CHR ''+''" by (auto simp: is_digit_def code_def)
  then show ?thesis using n Itoa_digits[of n] digits_val_Itoa[of n]
    by (simp add: ParseInt64_def c Let_def)
qed

lemma counter_Itoa: "counter (Itoa (unat w)) = w"
proof -
  have "unat w < 2 ^ 64" using unsigned_less[of w, where 'a = nat] by simp
  then have "unat w \<le> 2 ^ 64 - 1" by simp
  then show ?thesis using Itoa_digits by (simp add: counter_def min_absorb1)
qed

lemma parse_peer_line:
  assumes "peer_printable ((psk, seconds), p)"
  shows "parse_peer (i, peer_line psk seconds p) = Inr p"
proof -
  note ok = assms[unfolded peer_printable_def, simplified]
  let ?ips = "if po_AllowedIPs p = [] then unset else Join '','' (po_AllowedIPs p)"
  let ?words = "[po_PublicKey p, psk, (if po_Endpoint p = [] then unset else po_Endpoint p), ?ips, Itoa seconds,
       Itoa (unat (po_RxBytes p)), Itoa (unat (po_TxBytes p)), ''off'']"
  have "plain ?ips" using ok by (simp add: plain_Join)
  then have "\<forall>w \<in> set ?words. plain w" using ok by simp
  then have "\<forall>w \<in> set ?words. TAB \<notin> set w" by (simp add: plain_def del: TAB_def NL_def)
  then have split: "Split TAB (peer_line psk seconds p) = ?words"
    unfolding peer_line_def by (intro Split_Join) simp_all
  have ips: "(if ?ips \<noteq> unset then Split CHR '','' ?ips else []) = po_AllowedIPs p"
  proof (cases "po_AllowedIPs p = []")
    case False
    have s: "Split CHR '','' (Join '','' (po_AllowedIPs p)) = po_AllowedIPs p"
      using Split_Join[of "po_AllowedIPs p" "CHR '',''"] ok False by simp
    moreover have "Split CHR '','' unset = [unset]" by (simp add: Split_no_sep unset_def)
    ultimately have "Join '','' (po_AllowedIPs p) \<noteq> unset" using ok by metis
    then show ?thesis using False s by simp
  qed simp
  have parsed: "parse_peer (i, l) = Inr \<lparr>po_PublicKey = key, po_AllowedIPs = (if a \<noteq> unset then Split CHR '','' a else []),
      po_LatestHandshake = (if t > 0 then unix_time t else 0), po_Endpoint = (if e \<noteq> unset then e else []),
      po_RxBytes = counter r, po_TxBytes = counter w\<rparr>"
    if "Split TAB l = [key, s, e, a, h, r, w, k]" "ParseInt64 h = Some t" for l key s e a h r w k t
    using that by (simp add: parse_peer_def Let_def del: TAB_def)
  have hs: "ParseInt64 (Itoa seconds) = Some (int seconds)" using ok by (intro ParseInt64_Itoa) simp
  show ?thesis
    unfolding parsed[OF split hs] ips using ok by (cases p) (simp add: counter_Itoa)
qed

lemma kept_lines:
  assumes "\<And>l. l \<in> set ls \<Longrightarrow> TrimSpace l \<noteq> []"
  shows "filter (\<lambda>(_, line). TrimSpace line \<noteq> []) (enumerate n ls) = enumerate n ls"
  using assms by (induction ls arbitrary: n) auto

lemma ParseDump_reads:
  assumes "Split NL (TrimRight answer [NL]) = h # ls" "TrimSpace h \<noteq> []" "Split TAB h = [a, b, c, d]"
    and "ParseUint 16 c = Some n"
  shows "ParseDump answer = bindE (mapE parse_peer (filter (\<lambda>(_, line). TrimSpace line \<noteq> []) (enumerate 0 ls))) (\<lambda>peers.
    Inr \<lparr>io_Exists = True, io_PublicKey = b, io_ListenPort = of_nat n, io_Peers = peers\<rparr>)"
  using assms by (simp add: ParseDump_def Let_def del: NL_def TAB_def)

text \<open>What \<open>awg show dump\<close> prints of an interface is read back as that interface: its key and port and, for every
  peer, its key, endpoint, allowed addresses, last handshake and traffic.\<close>
theorem dumps_are_read_back:
  assumes "io_Exists o'" "plain private" "plain (io_PublicKey o')" "length extras = length (io_Peers o')"
    and "\<forall>x \<in> set (zip extras (io_Peers o')). peer_printable x"
  shows "ParseDump (dump_text private extras o') = Inr o'"
proof -
  let ?head = "Join [TAB] [private, io_PublicKey o', Itoa (unat (io_ListenPort o')), ''off'']"
  let ?peers = "zip extras (io_Peers o')"
  let ?lines = "map (\<lambda>((psk, seconds), p). peer_line psk seconds p) ?peers"
  have head: "Split TAB ?head = [private, io_PublicKey o', Itoa (unat (io_ListenPort o')), ''off'']"
    using assms(2,3) by (intro Split_Join) (auto simp: plain_def Itoa_no_char is_digit_def code_def)
  have line_plain: "NL \<notin> set (peer_line psk seconds p)" if "((psk, seconds), p) \<in> set ?peers" for psk seconds p
  proof -
    have ok: "peer_printable ((psk, seconds), p)" using assms(5) that by blast
    have "NL \<notin> set (if po_AllowedIPs p = [] then unset else Join '','' (po_AllowedIPs p))"
      using ok plain_Join[of "po_AllowedIPs p" "'',''"] by (auto simp: peer_printable_def plain_def unset_def)
    then show ?thesis using ok
      by (auto simp: peer_line_def peer_printable_def plain_def unset_def Itoa_no_char is_digit_def code_def)
  qed
  have nl: "\<forall>l \<in> set (?head # ?lines). NL \<notin> set l"
    using assms(2,3) line_plain by (auto simp: plain_def Itoa_no_char is_digit_def code_def)
  have ends: "last l = CHR ''f'' \<and> l \<noteq> []" if "l \<in> set (?head # ?lines)" for l
    using that by (auto simp: peer_line_def)
  have "last (Join [NL] ls) = last (last ls) \<and> Join [NL] ls \<noteq> []" if "ls \<noteq> []" "\<forall>l \<in> set ls. l \<noteq> []" for ls
    using that by (induction ls rule: induct_list012) auto
  then have "last (Join [NL] (?head # ?lines)) = CHR ''f'' \<and> Join [NL] (?head # ?lines) \<noteq> []"
    using ends ends[OF last_in_set[of "?head # ?lines"]] by (metis list.distinct(1))
  then have "TrimRight (dump_text private extras o') [NL] = Join [NL] (?head # ?lines)"
    unfolding dump_text_def by (intro TrimRight_line) simp_all
  then have lines: "Split NL (TrimRight (dump_text private extras o') [NL]) = ?head # ?lines"
    using Split_Join[of "?head # ?lines" NL] nl by simp
  have "CHR ''f'' \<in> set l" if "l \<in> set (?head # ?lines)" for l
    using ends[OF that] by (metis last_in_set)
  then have shown: "TrimSpace l \<noteq> []" if "l \<in> set (?head # ?lines)" for l
    using TrimSpace_keeps[of "CHR ''f''" l] f_is_no_space that by fastforce
  then have kept: "filter (\<lambda>(_, line). TrimSpace line \<noteq> []) (enumerate 0 ?lines) = enumerate 0 ?lines"
    by (intro kept_lines) simp
  let ?line = "\<lambda>((psk, seconds), p). peer_line psk seconds p"
  have "parse_peer (i, l) = Inr (snd x)" if x: "x \<in> set ?peers" and l: "l = ?line x" for i l x
  proof -
    have "peer_printable x" using assms(5) x by blast
    then show ?thesis unfolding l by (cases x; cases "fst x") (auto intro: parse_peer_line)
  qed
  then have "mapE parse_peer (enumerate n (map ?line xs)) = Inr (map snd xs)" if "set xs \<subseteq> set ?peers" for n xs
    using that by (induction xs arbitrary: n) auto
  from this[of ?peers 0] have peers: "mapE parse_peer (enumerate 0 ?lines) = Inr (io_Peers o')"
    using assms(4) by simp
  have port: "ParseUint 16 (Itoa (unat (io_ListenPort o'))) = Some (unat (io_ListenPort o'))"
    using unsigned_less[of "io_ListenPort o'", where 'a = nat] by (simp add: ParseUint_Itoa)
  have "TrimSpace ?head \<noteq> []" by (rule shown) (rule list.set_intros)
  from ParseDump_reads[OF lines this head port] show ?thesis using assms(1) kept peers by simp
qed

text \<open>A dump of two peers, one of them never seen.\<close>

definition sample_observation :: ingress_observation where
  "sample_observation = \<lparr>io_Exists = True, io_PublicKey = ''hub='', io_ListenPort = 585, io_Peers =
     [\<lparr>po_PublicKey = ''new='', po_AllowedIPs = [''10.0.0.2/32'', ''10.0.0.3/32''], po_LatestHandshake = unix_time 7,
        po_Endpoint = ''1.2.3.4:5'', po_RxBytes = 9, po_TxBytes = 8\<rparr>,
      \<lparr>po_PublicKey = ''old='', po_AllowedIPs = [], po_LatestHandshake = 0, po_Endpoint = [], po_RxBytes = 0,
        po_TxBytes = 0\<rparr>]\<rparr>"

definition sample_dump :: string where
  "sample_dump = dump_text ''key='' [(''psk'', 7), (unset, 0)] sample_observation"

theorem dumps_are_read_back_witness: "ParseDump sample_dump = Inr sample_observation"
  unfolding sample_dump_def
  by (rule dumps_are_read_back) (simp_all add: sample_observation_def peer_printable_def plain_def unset_def)

subsection \<open>The peers of the interface\<close>

text \<open>
  What the adapter relies on of \<open>awg\<close> and \<open>ip\<close>, for the peers as a function of what was run so far:
  setting a peer adds it, removing it takes it away, nothing else the pass runs changes them.
\<close>

definition leaves_peers :: "string \<Rightarrow> string \<Rightarrow> event \<Rightarrow> bool" where
  "leaves_peers t i e \<longleftrightarrow> (case e of
     Ran cmd _ \<Rightarrow> cmd = dump_cmd t i \<or> take 2 cmd = [''ip'', ''addr''] \<or>
       (take 2 cmd = [''ip'', ''link''] \<and> cmd ! 2 \<noteq> ''delete'') \<or>
       (take 4 cmd = [t, ''set'', i, ''private-key''] \<and> ''peer'' \<notin> set (drop 4 cmd))
   | Wrote _ _ \<Rightarrow> True | _ \<Rightarrow> False)"

definition peer_laws :: "string \<Rightarrow> string \<Rightarrow> (event list \<Rightarrow> string set) \<Rightarrow> bool" where
  "peer_laws t i peers \<longleftrightarrow>
     (\<forall>log k ips out. peers (Ran (set_peer_cmd t i k ips) (Inr out) # log) = insert k (peers log)) \<and>
     (\<forall>log k out. peers (Ran (remove_peer_cmd t i k) (Inr out) # log) = peers log - {k}) \<and>
     (\<forall>log e. leaves_peers t i e \<longrightarrow> peers (e # log) = peers log)"

text \<open>The dump lists the peers there are; an interface that does not exist has none.\<close>

definition dump_lists :: "env \<Rightarrow> string \<Rightarrow> string \<Rightarrow> event list \<Rightarrow> string set \<Rightarrow> bool" where
  "dump_lists env t i log keys \<longleftrightarrow> (case e_Run env log (dump_cmd t i) of
     Inl _ \<Rightarrow> keys = {}
   | Inr out \<Rightarrow> (case ParseDump out of Inl _ \<Rightarrow> True | Inr o' \<Rightarrow> set (map po_PublicKey (io_Peers o')) = keys))"

lemma set_peers:
  assumes "peer_laws t i peers"
  shows "wp (forEach ps (\<lambda>p. run env (set_peer_cmd t i (ps_PublicKey p) (Join '','' (ps_AllowedIPs p)))))
    (\<lambda>r h'. case r of Inl e \<Rightarrow> True | Inr _ \<Rightarrow> peers (h_Log h') = peers (h_Log h) \<union> ps_PublicKey ` set ps) h"
  by (rule wp_forEach[where I = "\<lambda>pre h'. peers (h_Log h') = peers (h_Log h) \<union> ps_PublicKey ` set pre" and E = "\<lambda>_ _. True"])
    (use assms in \<open>auto simp: wp_rules peer_laws_def split: sum.split\<close>)

lemma remove_peers:
  assumes "peer_laws t i peers"
  shows "wp (forEach ps (\<lambda>p. run env (remove_peer_cmd t i (po_PublicKey p))))
    (\<lambda>r h'. case r of Inl e \<Rightarrow> True | Inr _ \<Rightarrow> peers (h_Log h') = peers (h_Log h) - po_PublicKey ` set ps) h"
  by (rule wp_forEach[where I = "\<lambda>pre h'. peers (h_Log h') = peers (h_Log h) - po_PublicKey ` set pre" and E = "\<lambda>_ _. True"])
    (use assms in \<open>auto simp: wp_rules peer_laws_def split: sum.split\<close>)

lemma sync_syncs:
  assumes "peer_laws (tool a) (is_Interface spec) peers" "set (map po_PublicKey (io_Peers observed)) = peers (h_Log h)"
  shows "wp (syncPeers env a spec observed)
    (\<lambda>r h'. r = Inr () \<longrightarrow> peers (h_Log h') = set (map ps_PublicKey (is_Peers spec))) h"
  unfolding syncPeers_def
  apply (rule wp_seq[OF set_peers[OF assms(1)]], simp)
  apply (rule wp_mono[OF remove_peers[OF assms(1)]])
  using assms(2) by (auto split: sum.splits) (metis imageI)

text \<open>C20: After a pass that succeeds the interface has exactly the peers of its spec: every device of the spec is
  there and every other peer, a revoked device's included, is gone.  It rests on what \<open>awg set\<close> and \<open>awg show dump\<close>
  document, and on no obfuscation parameter spelling \<open>peer\<close>.\<close>
theorem revoked_peers_are_gone:
  assumes "peer_laws (tool a) (is_Interface spec) peers" "dump_lists env (tool a) (is_Interface spec) (h_Log h) (peers (h_Log h))"
    and "''peer'' \<notin> set (parameter_args (is_Parameters spec))"
    and "run_state (IngressApply env a spec) h = (Inr (), h')"
  shows "peers (h_Log h') = set (map ps_PublicKey (is_Peers spec))"
proof -
  let ?i = "is_Interface spec" and ?W = "set (map ps_PublicKey (is_Peers spec))"
  have quiet: "leaves_peers (tool a) ?i e \<Longrightarrow> peers (e # log) = peers log" for e log
    using assms(1) by (simp add: peer_laws_def)
  let ?seen = "\<lambda>o' h1. set (map po_PublicKey (io_Peers o')) = peers (h_Log h1)"
  have observe: "wp (IngressObserve env a ?i) (\<lambda>r h1. \<forall>o'. r = Inr o' \<longrightarrow> ?seen o' h1) h"
    using assms(2) quiet
    by (auto simp: IngressObserve_def dump_lists_def leaves_peers_def absent_interface_def wp_rules
        split: sum.splits)
  have link: "wp (if b then ok else run env [''ip'', ''link'', ''add'', ''dev'', ?i, ''type'', k]) (\<lambda>_ h2. ?seen o' h2) h1"
    if "?seen o' h1" for b k o' h1
    using that quiet by (simp add: wp_rules leaves_peers_def)
  have key: "wp (writePrivateKey env a spec) (\<lambda>r h2. \<forall>path. r = Inr path \<longrightarrow> ''peer'' \<noteq> path \<and> ?seen o' h2) h1"
    if "?seen o' h1" for o' h1
    using that quiet by (auto simp: writePrivateKey_def joinPath_def wp_rules leaves_peers_def Let_def split: option.split)
  have configure: "wp (run env (configure_cmd a spec path)) (\<lambda>_ h2. ?seen o' h2) h1"
    if "?seen o' h1" "''peer'' \<noteq> path" for path o' h1
  proof -
    have "''peer'' \<noteq> Itoa n" for n
      using Itoa_digits[of n] by (auto simp: is_digit_def code_def dest!: arg_cong[where f = "list_all is_digit"])
    then show ?thesis using that quiet assms(3) by (simp add: wp_rules leaves_peers_def configure_cmd_def)
  qed
  have last: "wp (run env (''ip'' # x # ws)) (\<lambda>_ h2. peers (h_Log h2) = ?W) h1"
    if "peers (h_Log h1) = ?W" "x = ''addr'' \<or> x = ''link'' \<and> hd ws \<noteq> ''delete'' \<and> ws \<noteq> []" for x ws h1
    using that quiet by (cases ws) (auto simp: wp_rules leaves_peers_def)
  have "wp (IngressApply env a spec) (\<lambda>r h2. r = Inr () \<longrightarrow> peers (h_Log h2) = ?W) h"
    unfolding IngressApply_def wp_if
  proof (split if_split, intro conjI impI)
    show "wp (andThen (IngressObserve env a ?i) (\<lambda>observed.
        andThen (if io_Exists observed then ok
                 else run env [''ip'', ''link'', ''add'', ''dev'', is_Interface spec, ''type'', link_type a]) (\<lambda>_.
        andThen (writePrivateKey env a spec) (\<lambda>keyPath.
        andThen (run env (configure_cmd a spec keyPath)) (\<lambda>_.
        andThen (syncPeers env a spec observed) (\<lambda>_.
        andThen (run env [''ip'', ''addr'', ''replace'', is_Address spec, ''dev'', is_Interface spec]) (\<lambda>_.
          run env [''ip'', ''link'', ''set'', is_Interface spec, ''up''])))))))
      (\<lambda>r h2. r = Inr () \<longrightarrow> peers (h_Log h2) = ?W) h"
      apply (rule wp_seq[OF observe], simp)
      apply (rule wp_seq[OF link], simp, simp)
      apply (rule wp_seq[OF key], assumption, simp)
      apply (rule wp_seq[OF configure], simp, simp, simp)
      apply (rule wp_seq[OF sync_syncs[OF assms(1)]], assumption, simp)
      apply (rule wp_seq[OF last], simp, simp, simp)
      by (rule wp_mono[OF last]) simp_all
  qed (simp add: wp_rules)
  then show ?thesis using wpD[OF _ assms(4)] by blast
qed

text \<open>A device was revoked while the interface was up.\<close>

definition sample_spec :: ingress_spec where
  "sample_spec = \<lparr>is_Interface = ''awg0'', is_Address = ''10.0.0.1/24'', is_ListenPort = 585, is_PrivateKey = ''key='',
     is_Parameters = [(''Jc'', ''4''), (''H1'', ''7'')],
     is_Peers = [\<lparr>ps_PublicKey = ''new='', ps_AllowedIPs = [''10.0.0.2/32'']\<rparr>]\<rparr>"

definition sample_adapter :: ingress_adapter where
  "sample_adapter = \<lparr>ia_SecretsDir = [], ia_LinkType = [], ia_Tool = []\<rparr>"

definition sample_change :: "event \<Rightarrow> string set \<Rightarrow> string set" where
  "sample_change e ks = (case e of
     Ran cmd (Inr _) \<Rightarrow>
       if take 4 cmd = [''awg'', ''set'', ''awg0'', ''peer''] \<and> length cmd = 6 then ks - {cmd ! 4}
       else if take 4 cmd = [''awg'', ''set'', ''awg0'', ''peer''] \<and> length cmd = 7 then insert (cmd ! 4) ks
       else ks
   | _ \<Rightarrow> ks)"

definition sample_peers :: "event list \<Rightarrow> string set" where
  "sample_peers log = foldr sample_change log {''old='', ''new=''}"

definition sample_env :: env where
  "sample_env = calm_env\<lparr>e_Run := \<lambda>_ cmd. if cmd = dump_cmd ''awg'' ''awg0'' then Inr sample_dump else Inr []\<rparr>"

lemma sample_laws: "peer_laws ''awg'' ''awg0'' sample_peers"
proof -
  have two: "take 2 cmd = [a, b]" if "take 4 cmd = [a, b, c, d]" for cmd a b c and d :: string
    using arg_cong[OF that, of "take 2"] by simp
  show ?thesis
  by (auto dest: two simp: peer_laws_def sample_peers_def sample_change_def set_peer_cmd_def remove_peer_cmd_def leaves_peers_def
      dump_cmd_def split: event.splits sum.splits)
qed

lemma sample_read: "ParseDump sample_dump = Inr sample_observation"
  by code_simp

lemma sample_lists: "dump_lists sample_env ''awg'' ''awg0'' [] (sample_peers [])"
  unfolding dump_lists_def sample_env_def
  by (auto simp: sample_read sample_observation_def sample_peers_def)

theorem revoked_peers_are_gone_witness:
  "\<exists>h'. run_state (IngressApply sample_env sample_adapter sample_spec) bare_host = (Inr (), h') \<and>
     sample_peers (h_Log h') = {''new=''}"
proof -
  let ?run = "run_state (IngressApply sample_env sample_adapter sample_spec) bare_host"
  have "fst ?run = Inr ()" by code_simp
  then obtain h' where h': "?run = (Inr (), h')" by (cases ?run) simp
  have spec: "''peer'' \<notin> set (parameter_args (is_Parameters sample_spec))" "is_Interface sample_spec = ''awg0''"
    by code_simp+
  have "sample_peers (h_Log h') = set (map ps_PublicKey (is_Peers sample_spec))"
    by (rule revoked_peers_are_gone[OF _ _ _ h'])
      (simp_all add: sample_laws sample_lists bare_host_def sample_adapter_def tool_def spec)
  then show ?thesis using h' by (auto simp: sample_spec_def)
qed

end
