(* ===== verification/SingBox.thy ===== *)
theory SingBox
  imports JsonIndent Runner
begin

text \<open>
  \<open>internal/adapters/linux/singbox.go\<close>: the configuration of the proxy client that serves an Xray
  tunnel inside its namespace.
\<close>

definition SingBoxTunInterface :: string where "SingBoxTunInterface = ''sb0''"
definition SingBoxTunAddress :: string where "SingBoxTunAddress = ''172.19.0.1/30''"
definition SingBoxOutboundMark :: nat where "SingBoxOutboundMark = 2"
definition SingBoxOutboundTable :: nat where "SingBoxOutboundTable = 200"

definition on_json :: "(string \<times> json) list \<Rightarrow> json" where
  "on_json kvs = jmap ((''enabled'', JBool True) # kvs)"

definition proxy_tls_json :: "proxy_tls \<Rightarrow> json" where
  "proxy_tls_json tls =
     on_json (omit_str ''server_name'' (pt_ServerName tls) @
       (if pt_Fingerprint tls \<noteq> [] then [(''utls'', on_json [(''fingerprint'', JStr (pt_Fingerprint tls))])] else []) @
       (if pr_Enabled (pt_Reality tls)
        then [(''reality'', on_json ((''public_key'', JStr (pr_PublicKey (pt_Reality tls))) #
                omit_str ''short_id'' (pr_ShortID (pt_Reality tls))))]
        else []))"

text \<open>The \<open>switch\<close> on the transport: nothing for none, an error for one the hub does not know.\<close>

definition transport_json :: "proxy_transport \<Rightarrow> (host_error, (string \<times> json) list) result" where
  "transport_json tr =
     (if px_Type tr = [] then Inr []
      else if px_Type tr = ''ws'' \<or> px_Type tr = ''httpupgrade'' then
        Inr [(''transport'', jmap ([(''type'', JStr (px_Type tr)), (''path'', JStr (px_Path tr))] @
          (if px_Host tr \<noteq> [] then [(''headers'', jmap [(''Host'', JStr (px_Host tr))])] else [])))]
      else if px_Type tr = ''grpc'' then
        Inr [(''transport'', jmap [(''type'', JStr ''grpc''), (''service_name'', JStr (px_ServiceName tr))])]
      else Inl (Refused ''unsupported transport''))"

definition outbound_json :: "proxy_tunnel \<Rightarrow> (string \<times> json) list \<Rightarrow> json" where
  "outbound_json tunnel transport =
     jmap ([(''type'', JStr ''vless''), (''tag'', JStr ''proxy''), (''server'', JStr (py_Server tunnel)),
        (''server_port'', JNum (uint (py_Port tunnel))), (''uuid'', JStr (py_UUID tunnel)),
        (''routing_mark'', JNum (int SingBoxOutboundMark))] @
       omit_str ''flow'' (py_Flow tunnel) @
       (if pt_Enabled (py_TLS tunnel) then [(''tls'', proxy_tls_json (py_TLS tunnel))] else []) @
       transport)"

definition tun_inbound :: json where
  "tun_inbound =
     jmap [(''type'', JStr ''tun''), (''tag'', JStr ''tun-in''), (''interface_name'', JStr SingBoxTunInterface),
       (''address'', JStrs [SingBoxTunAddress]), (''auto_route'', JBool False), (''sniff'', JBool False)]"

definition singbox_json :: "json \<Rightarrow> json" where
  "singbox_json outbound =
     jmap [(''log'', jmap [(''level'', JStr ''warn''), (''timestamp'', JBool False)]),
       (''inbounds'', JArr [tun_inbound]), (''outbounds'', JArr [outbound]),
       (''route'', jmap [(''auto_detect_interface'', JBool False)])]"

definition RenderSingBoxConfig :: "proxy_tunnel \<Rightarrow> (host_error, string) result" where
  "RenderSingBoxConfig tunnel =
     (if py_Protocol tunnel \<noteq> ''vless'' then Inl (Refused ''unsupported proxy protocol'')
      else if py_Server tunnel = [] \<or> py_Port tunnel = 0 \<or> py_UUID tunnel = []
        then Inl (Refused ''the proxy tunnel is missing a server, port or UUID'')
      else bindE (transport_json (py_Transport tunnel)) (\<lambda>transport.
        Inr (MarshalIndent (singbox_json (outbound_json tunnel transport)) @ [NL])))"

end
