(* ===== verification/EgressAdapter.thy ===== *)
theory EgressAdapter
  imports AwgDump IngressAdapter Dnsmasq Nftables SingBox
begin

text \<open>
  \<open>internal/adapters/linux/egress.go\<close>, \<open>socks.go\<close> and \<open>openvpn.go\<close>: every upstream tunnel in a network
  namespace of its own, steered into by a packet mark, and the removal of the namespaces a revision
  dropped.

  What the pass asks of the host besides commands and files is a parameter: the names a resolver
  returns, whether a socket is there, and the namespace names of a JSON listing.  A ruleset fed to
  \<open>nft\<close> on its standard input is the last word of the command's event.
\<close>

record world =
  w_Env :: env
  w_Lookup :: "event list \<Rightarrow> string \<Rightarrow> (string, string list) result"
  w_Stat :: "event list \<Rightarrow> string \<Rightarrow> bool"
  w_Names :: "string \<Rightarrow> string list option"

record egress_adapter =
  ea_SecretsDir :: string
  ea_RulePriority :: int
  ea_DirectNamespaces :: bool

definition secretsDir :: "egress_adapter \<Rightarrow> string" where
  "secretsDir e = (if ea_SecretsDir e \<noteq> [] then ea_SecretsDir e else DefaultRuntimeDir)"

definition rulePriority :: "egress_adapter \<Rightarrow> int" where
  "rulePriority e = (if ea_RulePriority e \<noteq> 0 then ea_RulePriority e else 1000)"

subsection \<open>Words and commands\<close>

text \<open>\<open>0x%x\<close>.\<close>

definition hex_mark :: "nat \<Rightarrow> string" where
  "hex_mark n = ''0x'' @ hex_nat n"

definition in_ns :: "string \<Rightarrow> string list \<Rightarrow> string list" where
  "in_ns namespace cmd = [''ip'', ''netns'', ''exec'', namespace] @ cmd"

definition ip_n :: "string \<Rightarrow> string list \<Rightarrow> string list" where
  "ip_n namespace cmd = [''ip'', ''-n'', namespace] @ cmd"

definition lifecycle_cmd :: "egress_adapter \<Rightarrow> string \<Rightarrow> string \<Rightarrow> string list" where
  "lifecycle_cmd e action namespace =
     (if ea_DirectNamespaces e then [''ip'', ''netns'', action, namespace]
      else [''systemd-run'', ''--quiet'', ''--wait'', ''--collect'', ''--unit=vpn-hub-netns-'' @ action @ ''-'' @ namespace,
        ''ip'', ''netns'', action, namespace])"

definition namespaceLifecycle :: "world \<Rightarrow> egress_adapter \<Rightarrow> string \<Rightarrow> string \<Rightarrow> unit try_op" where
  "namespaceLifecycle w e action namespace = run (w_Env w) (lifecycle_cmd e action namespace)"

definition supervised_cmd :: "string \<Rightarrow> string \<Rightarrow> string list \<Rightarrow> string list" where
  "supervised_cmd unit namespace program =
     [''systemd-run'', ''--quiet'', ''--collect'', ''--unit='' @ unit, ''--property=Restart=on-failure'',
      ''--property=RestartSec=5s''] @ in_ns namespace program"

definition proxy_unit :: "string \<Rightarrow> string" where "proxy_unit i = ''vpn-hub-proxy-'' @ i"
definition openvpn_unit :: "string \<Rightarrow> string" where "openvpn_unit i = ''vpn-hub-openvpn-'' @ i"
definition socks_unit :: "string \<Rightarrow> string" where "socks_unit i = ''vpn-hub-socks-'' @ i"

definition safeTableName :: "string \<Rightarrow> string" where
  "safeTableName tunnelID = drop (length ''internal_'') (internalSetName tunnelID)"

subsection \<open>Observation\<close>

definition parseNamespaces :: "world \<Rightarrow> string \<Rightarrow> (host_error, string list) result" where
  "parseNamespaces w answer =
     (let trimmed = TrimSpace answer in
      if trimmed = [] \<or> trimmed = ''[]'' then Inr []
      else case w_Names w trimmed of
        None \<Rightarrow> Inl (Refused ''decode namespace list'')
      | Some names \<Rightarrow> Inr (filter (\<lambda>n. n \<noteq> []) names))"

definition list_namespaces :: "string list" where
  "list_namespaces = [''ip'', ''-j'', ''netns'', ''list'']"

definition EgressObserve :: "world \<Rightarrow> string list try_op" where
  "EgressObserve w =
     andThen (wrapping ''list namespaces'' (exec (w_Env w) list_namespaces)) (\<lambda>out. returns (parseNamespaces w out))"

subsection \<open>The namespace and its link\<close>

definition forwarding_settings :: "string list" where
  "forwarding_settings =
     [''net.ipv4.ip_forward=1'', ''net.ipv6.conf.all.disable_ipv6=1'', ''net.ipv6.conf.default.disable_ipv6=1'']"

definition enableForwarding :: "world \<Rightarrow> string \<Rightarrow> unit try_op" where
  "enableForwarding w namespace =
     forEach forwarding_settings (\<lambda>s. wrapping ''set'' (run (w_Env w) (in_ns namespace [''sysctl'', ''-qw'', s])))"

text \<open>A namespace that is listed and cannot run a command is removed, and then counts as absent.\<close>

definition prove_namespace :: "world \<Rightarrow> egress_adapter \<Rightarrow> string \<Rightarrow> bool try_op" where
  "prove_namespace w e namespace = do {
     usable \<leftarrow> exec (w_Env w) (in_ns namespace [''true'']);
     (case usable of
        Inr _ \<Rightarrow> returns (Inr True)
      | Inl _ \<Rightarrow> andThen (wrapping ''remove unusable namespace'' (namespaceLifecycle w e ''del'' namespace))
                  (\<lambda>_. returns (Inr False))) }"

definition ensureNamespace :: "world \<Rightarrow> egress_adapter \<Rightarrow> egress_spec \<Rightarrow> unit try_op" where
  "ensureNamespace w e spec =
     andThen (EgressObserve w) (\<lambda>existing.
     andThen (if es_Namespace spec \<in> set existing then prove_namespace w e (es_Namespace spec)
              else returns (Inr False)) (\<lambda>present.
     andThen (if present then ok else namespaceLifecycle w e ''add'' (es_Namespace spec)) (\<lambda>_.
       enableForwarding w (es_Namespace spec))))"

definition create_link :: "world \<Rightarrow> egress_spec \<Rightarrow> unit try_op" where
  "create_link w spec = do {
     shown \<leftarrow> exec (w_Env w) [''ip'', ''link'', ''show'', es_HostVeth spec];
     (case shown of
        Inr _ \<Rightarrow> ok
      | Inl _ \<Rightarrow> forEach
          [[''ip'', ''link'', ''add'', es_HostVeth spec, ''type'', ''veth'', ''peer'', ''name'', es_PeerVeth spec],
           [''ip'', ''link'', ''set'', es_PeerVeth spec, ''netns'', es_Namespace spec]] (run (w_Env w))) }"

definition link_cmds :: "egress_spec \<Rightarrow> string list list" where
  "link_cmds spec =
     (let ns = ip_n (es_Namespace spec) in
      [[''ip'', ''addr'', ''flush'', ''dev'', es_HostVeth spec],
       [''ip'', ''addr'', ''replace'', es_HostAddress spec, ''dev'', es_HostVeth spec],
       [''ip'', ''link'', ''set'', es_HostVeth spec, ''up''],
       ns [''addr'', ''flush'', ''dev'', es_PeerVeth spec],
       ns [''addr'', ''replace'', es_PeerAddress spec, ''dev'', es_PeerVeth spec],
       ns [''link'', ''set'', es_PeerVeth spec, ''up''],
       ns [''link'', ''set'', ''lo'', ''up''],
       ns [''route'', ''replace'', es_ClientCIDR spec, ''via'', hostOf (es_HostAddress spec), ''dev'', es_PeerVeth spec]])"

definition ensureLink :: "world \<Rightarrow> egress_spec \<Rightarrow> unit try_op" where
  "ensureLink w spec = andThen (create_link w spec) (\<lambda>_. forEach (link_cmds spec) (run (w_Env w)))"

subsection \<open>Policy routing\<close>

definition lookup_words :: "string \<Rightarrow> string" where
  "lookup_words table = ''lookup '' @ table"

text \<open>A rule is added only when the listing of its mark does not already name the table.\<close>

definition add_rule_once :: "world \<Rightarrow> string list \<Rightarrow> string list \<Rightarrow> string \<Rightarrow> unit try_op" where
  "add_rule_once w show_cmd add_cmd table = do {
     existing \<leftarrow> exec (w_Env w) show_cmd;
     (case existing of
        Inr out \<Rightarrow> if Contains out (lookup_words table) then ok else run (w_Env w) add_cmd
      | Inl _ \<Rightarrow> run (w_Env w) add_cmd) }"

definition spec_table :: "egress_spec \<Rightarrow> string" where "spec_table spec = itoa_int (es_RouteTable spec)"
definition spec_mark :: "egress_spec \<Rightarrow> string" where "spec_mark spec = hex_mark (unat (es_Mark spec))"

definition mark_route_cmd :: "egress_spec \<Rightarrow> string list" where
  "mark_route_cmd spec =
     [''ip'', ''route'', ''replace'', ''default'', ''via'', hostOf (es_PeerAddress spec), ''dev'', es_HostVeth spec,
      ''table'', spec_table spec]"

definition mark_shown_cmd :: "egress_spec \<Rightarrow> string list" where
  "mark_shown_cmd spec = [''ip'', ''rule'', ''show'', ''fwmark'', spec_mark spec]"

definition mark_rule_cmd :: "egress_adapter \<Rightarrow> egress_spec \<Rightarrow> string list" where
  "mark_rule_cmd e spec =
     [''ip'', ''rule'', ''add'', ''fwmark'', spec_mark spec, ''lookup'', spec_table spec,
      ''priority'', itoa_int (rulePriority e)]"

definition ensurePolicyRouting :: "world \<Rightarrow> egress_adapter \<Rightarrow> egress_spec \<Rightarrow> unit try_op" where
  "ensurePolicyRouting w e spec =
     andThen (run (w_Env w) (mark_route_cmd spec)) (\<lambda>_.
       add_rule_once w (mark_shown_cmd spec) (mark_rule_cmd e spec) (spec_table spec))"

end
