(* ===== verification/EgressTunnels.thy ===== *)
theory EgressTunnels
  imports EgressAdapter
begin

text \<open>
  The upstream interface of a namespace, by the mechanism its protocol needs: \<open>ensureTunnel\<close> and what
  it calls in \<open>egress.go\<close> and \<open>openvpn.go\<close>, and the SOCKS proxy of \<open>socks.go\<close>.
\<close>

subsection \<open>Shared steps\<close>

definition nat_ruleset :: "string \<Rightarrow> string" where
  "nat_ruleset interface =
     text_of [''table inet vpn_hub_egress'', ''delete table inet vpn_hub_egress'', [],
       ''table inet vpn_hub_egress {'', [TAB] @ ''chain postrouting {'',
       [TAB, TAB] @ ''type nat hook postrouting priority srcnat; policy accept;'',
       [TAB, TAB] @ ''oifname '' @ Quote interface @ '' masquerade'', [TAB] @ ''}'', ''}'']"

definition nft_in_cmd :: "string \<Rightarrow> string \<Rightarrow> string list" where
  "nft_in_cmd namespace ruleset = in_ns namespace [''nft'', ''-f'', ''-'', ruleset]"

definition applyNamespaceRuleset :: "world \<Rightarrow> string \<Rightarrow> string \<Rightarrow> unit try_op" where
  "applyNamespaceRuleset w namespace ruleset =
     wrapping ''apply ruleset'' (run (w_Env w) (nft_in_cmd namespace ruleset))"

definition applyRuleset :: "world \<Rightarrow> string \<Rightarrow> unit try_op" where
  "applyRuleset w ruleset = wrapping ''apply ruleset'' (run (w_Env w) [''nft'', ''-f'', ''-'', ruleset])"

definition ensureNamespaceNAT :: "world \<Rightarrow> egress_spec \<Rightarrow> unit try_op" where
  "ensureNamespaceNAT w spec = applyNamespaceRuleset w (es_Namespace spec) (nat_ruleset (es_Interface spec))"

definition device_shown_cmd :: "egress_spec \<Rightarrow> string list" where
  "device_shown_cmd spec = ip_n (es_Namespace spec) [''link'', ''show'', es_Interface spec]"

definition device_up_cmd :: "egress_spec \<Rightarrow> string list" where
  "device_up_cmd spec = ip_n (es_Namespace spec) [''link'', ''set'', es_Interface spec, ''up'']"

definition default_route_cmd :: "egress_spec \<Rightarrow> string list" where
  "default_route_cmd spec = ip_n (es_Namespace spec) [''route'', ''replace'', ''default'', ''dev'', es_Interface spec]"

text \<open>The device is there, or the attempts are spent, or the context ended between two of them.\<close>

fun await_device :: "world \<Rightarrow> string \<Rightarrow> nat \<Rightarrow> string list \<Rightarrow> unit try_op" where
  "await_device w failure 0 cmd = ok"
| "await_device w failure (Suc n) cmd = do {
     shown \<leftarrow> exec (w_Env w) cmd;
     (case shown of
        Inr _ \<Rightarrow> ok
      | Inl e \<Rightarrow> do {
          stop \<leftarrow> cancelled (w_Env w);
          (if stop then fails Cancelled
           else if n = 0 then fails (Wrapped failure e)
           else await_device w failure n cmd) }) }"

text \<open>
  A supervised process is kept when its configuration did not change and it still \<open>answers\<close>, and is
  replaced otherwise.
\<close>

definition restart_supervised :: "world \<Rightarrow> string \<Rightarrow> string \<Rightarrow> string list \<Rightarrow> unit try_op" where
  "restart_supervised w unit namespace program = do {
     attempt (w_Env w) (stop_cmd unit);
     run (w_Env w) (supervised_cmd unit namespace program) }"

definition is_active :: "world \<Rightarrow> string \<Rightarrow> bool io_op" where
  "is_active w unit = do { r \<leftarrow> answered (w_Env w) (active_cmd unit); returns (isOk r) }"

definition keep_or_restart :: "world \<Rightarrow> bool \<Rightarrow> bool io_op \<Rightarrow> string \<Rightarrow> string \<Rightarrow> string list \<Rightarrow> unit try_op" where
  "keep_or_restart w changed answers unit namespace program =
     (if changed then restart_supervised w unit namespace program
      else do {
        fine \<leftarrow> answers;
        (if fine then ok else restart_supervised w unit namespace program) })"

subsection \<open>Xray\<close>

definition escape_route_cmd :: "egress_spec \<Rightarrow> string list" where
  "escape_route_cmd spec =
     ip_n (es_Namespace spec) [''route'', ''replace'', ''default'', ''via'', hostOf (es_HostAddress spec),
       ''dev'', es_PeerVeth spec, ''table'', Itoa SingBoxOutboundTable]"

definition ensureProxyEscapeRoute :: "world \<Rightarrow> egress_spec \<Rightarrow> unit try_op" where
  "ensureProxyEscapeRoute w spec =
     (let table = Itoa SingBoxOutboundTable; mark = hex_mark SingBoxOutboundMark in
      andThen (run (w_Env w) (escape_route_cmd spec)) (\<lambda>_.
        add_rule_once w (in_ns (es_Namespace spec) [''ip'', ''rule'', ''show'', ''fwmark'', mark])
          (in_ns (es_Namespace spec) [''ip'', ''rule'', ''add'', ''fwmark'', mark, ''lookup'', table, ''priority'', ''100''])
          table))"

definition ensureProxyRoutes :: "world \<Rightarrow> egress_spec \<Rightarrow> unit try_op" where
  "ensureProxyRoutes w spec =
     andThen (await_device w ''sing-box did not create its device'' 10 (device_shown_cmd spec)) (\<lambda>_.
     andThen (run (w_Env w) (device_up_cmd spec)) (\<lambda>_.
     andThen (run (w_Env w) (default_route_cmd spec)) (\<lambda>_.
       ensureNamespaceNAT w spec)))"

definition proxy_path :: "egress_adapter \<Rightarrow> egress_spec \<Rightarrow> string" where
  "proxy_path e spec = joinPath (secretsDir e) (es_TunnelID spec @ ''-singbox.json'')"

definition ensureProxy :: "world \<Rightarrow> egress_adapter \<Rightarrow> egress_spec \<Rightarrow> unit try_op" where
  "ensureProxy w e spec =
     andThen (ensureProxyEscapeRoute w spec) (\<lambda>_.
     andThen (returns (RenderSingBoxConfig (es_Proxy spec))) (\<lambda>config.
     andThen (writeIfChanged (w_Env w) (proxy_path e spec) config) (\<lambda>changed.
     andThen (keep_or_restart w changed (is_active w (proxy_unit (es_TunnelID spec))) (proxy_unit (es_TunnelID spec))
         (es_Namespace spec) [''sing-box'', ''run'', ''-c'', proxy_path e spec]) (\<lambda>_.
       ensureProxyRoutes w spec))))"

subsection \<open>WireGuard and AmneziaWG\<close>

definition create_device :: "world \<Rightarrow> egress_spec \<Rightarrow> string \<Rightarrow> unit try_op" where
  "create_device w spec kind = do {
     shown \<leftarrow> exec (w_Env w) (device_shown_cmd spec);
     (case shown of
        Inr _ \<Rightarrow> ok
      | Inl _ \<Rightarrow> forEach
          [[''ip'', ''link'', ''add'', es_Interface spec, ''type'', kind],
           [''ip'', ''link'', ''set'', es_Interface spec, ''netns'', es_Namespace spec]] (run (w_Env w))) }"

definition key_path :: "egress_adapter \<Rightarrow> string \<Rightarrow> string" where
  "key_path e name = joinPath (secretsDir e) (name @ ''.key'')"

definition writeKey :: "world \<Rightarrow> egress_adapter \<Rightarrow> string \<Rightarrow> string \<Rightarrow> string try_op" where
  "writeKey w e name secret =
     andThen (writeIfChanged (w_Env w) (key_path e name) (secret @ [NL])) (\<lambda>_. returns (Inr (key_path e name)))"

definition allowedOrDefault :: "string list \<Rightarrow> string list" where
  "allowedOrDefault allowed = (if allowed = [] then [''0.0.0.0/0''] else allowed)"

definition peer_args :: "egress_spec \<Rightarrow> string \<Rightarrow> string \<Rightarrow> string list" where
  "peer_args spec t keyPath =
     [t, ''set'', es_Interface spec, ''private-key'', keyPath] @ parameter_args (wt_Parameters (es_Tunnel spec)) @
     [''peer'', wp_PublicKey (wt_Peer (es_Tunnel spec)), ''endpoint'', wp_Endpoint (wt_Peer (es_Tunnel spec)),
      ''allowed-ips'', Join '','' (allowedOrDefault (wp_AllowedIPs (wt_Peer (es_Tunnel spec))))]"

definition preshared_args :: "world \<Rightarrow> egress_adapter \<Rightarrow> egress_spec \<Rightarrow> string list try_op" where
  "preshared_args w e spec =
     (if wp_PresharedKey (wt_Peer (es_Tunnel spec)) = [] then returns (Inr [])
      else andThen (writeKey w e (es_TunnelID spec @ ''-psk'') (wp_PresharedKey (wt_Peer (es_Tunnel spec))))
        (\<lambda>path. returns (Inr [''preshared-key'', path])))"

definition keepalive_args :: "egress_spec \<Rightarrow> string list" where
  "keepalive_args spec =
     (let k = wp_Keepalive (wt_Peer (es_Tunnel spec)) in
      if k > 0 then [''persistent-keepalive'', itoa_int k] else [])"

definition configure_device :: "world \<Rightarrow> egress_adapter \<Rightarrow> egress_spec \<Rightarrow> string \<Rightarrow> unit try_op" where
  "configure_device w e spec t =
     andThen (writeKey w e (es_TunnelID spec @ ''-private'') (wt_PrivateKey (es_Tunnel spec))) (\<lambda>keyPath.
     andThen (preshared_args w e spec) (\<lambda>psk.
       run (w_Env w) (in_ns (es_Namespace spec) (peer_args spec t keyPath @ psk @ keepalive_args spec))))"

definition dump_in_cmd :: "egress_spec \<Rightarrow> string \<Rightarrow> string list" where
  "dump_in_cmd spec t = in_ns (es_Namespace spec) (dump_cmd t (es_Interface spec))"

definition removeOtherPeers :: "world \<Rightarrow> egress_spec \<Rightarrow> string \<Rightarrow> unit try_op" where
  "removeOtherPeers w spec t = do {
     answer \<leftarrow> answered (w_Env w) (dump_in_cmd spec t);
     (case answer of
        Inl _ \<Rightarrow> ok
      | Inr out \<Rightarrow> (case ParseDump out of
            Inl _ \<Rightarrow> fails (Refused ''read peers'')
          | Inr observed \<Rightarrow>
              forEach (filter (\<lambda>p. po_PublicKey p \<noteq> wp_PublicKey (wt_Peer (es_Tunnel spec))) (io_Peers observed))
                (\<lambda>p. run (w_Env w) (in_ns (es_Namespace spec) (remove_peer_cmd t (es_Interface spec) (po_PublicKey p)))))) }"

definition device_cmds :: "egress_spec \<Rightarrow> string list list" where
  "device_cmds spec =
     map (\<lambda>a. ip_n (es_Namespace spec) [''addr'', ''replace'', a, ''dev'', es_Interface spec]) (wt_Addresses (es_Tunnel spec)) @
     (if wt_MTU (es_Tunnel spec) > 0
      then [ip_n (es_Namespace spec) [''link'', ''set'', es_Interface spec, ''mtu'', itoa_int (wt_MTU (es_Tunnel spec))]]
      else []) @
     [device_up_cmd spec, default_route_cmd spec]"

definition ensureWireGuardLike :: "world \<Rightarrow> egress_adapter \<Rightarrow> egress_spec \<Rightarrow> string \<Rightarrow> string \<Rightarrow> unit try_op" where
  "ensureWireGuardLike w e spec kind t =
     andThen (create_device w spec kind) (\<lambda>_.
     andThen (configure_device w e spec t) (\<lambda>_.
     andThen (removeOtherPeers w spec t) (\<lambda>_.
     andThen (forEach (device_cmds spec) (run (w_Env w))) (\<lambda>_.
       ensureNamespaceNAT w spec))))"

subsection \<open>OpenVPN\<close>

definition OpenVPNManagementSocket :: "string \<Rightarrow> string \<Rightarrow> string" where
  "OpenVPNManagementSocket dir tunnelID = joinPath dir (tunnelID @ ''-openvpn.sock'')"

definition RenderOpenVPNConfig :: "openvpn_tunnel \<Rightarrow> string \<Rightarrow> string \<Rightarrow> string" where
  "RenderOpenVPNConfig tunnel device socket =
     ov_Config tunnel @ (if HasSuffix (ov_Config tunnel) [NL] then [] else [NL]) @
     text_of [[], ''# Appended by vpn-hub. The provider'' @ [CHR 0x27] @ ''s own options above are untouched.'',
       ''dev '' @ device, ''dev-type tun'', ''nobind'', ''management '' @ socket @ '' unix'',
       ''management-client-user root'', ''script-security 0'']"

definition resolved :: "world \<Rightarrow> string \<Rightarrow> string list try_op" where
  "resolved w host = State (\<lambda>h. (mapErr (\<lambda>_. Refused ''resolve provider'') (w_Lookup w (h_Log h) host), h))"

definition remote_route_cmd :: "egress_spec \<Rightarrow> string \<Rightarrow> string list" where
  "remote_route_cmd spec address =
     ip_n (es_Namespace spec) [''route'', ''replace'', address @ ''/32'', ''via'', hostOf (es_HostAddress spec),
       ''dev'', es_PeerVeth spec]"

definition ensureRemoteRoutes :: "world \<Rightarrow> egress_spec \<Rightarrow> unit try_op" where
  "ensureRemoteRoutes w spec =
     forEach (ov_Remotes (es_OpenVPN spec)) (\<lambda>remote.
       andThen (resolved w (or_Host remote)) (\<lambda>addresses.
         forEach addresses (\<lambda>a. run (w_Env w) (remote_route_cmd spec a))))"

definition ensureOpenVPNRoutes :: "world \<Rightarrow> egress_spec \<Rightarrow> unit try_op" where
  "ensureOpenVPNRoutes w spec =
     andThen (await_device w ''openvpn did not create its device'' 60 (device_shown_cmd spec)) (\<lambda>_.
     andThen (run (w_Env w) (default_route_cmd spec)) (\<lambda>_.
       ensureNamespaceNAT w spec))"

text \<open>An active unit whose management socket is gone is restarted.\<close>

definition openvpn_answers :: "world \<Rightarrow> string \<Rightarrow> string \<Rightarrow> bool io_op" where
  "openvpn_answers w unit socket = do {
     active \<leftarrow> is_active w unit;
     State (\<lambda>h. (active \<and> w_Stat w (h_Log h) socket, h)) }"

definition openvpn_path :: "egress_adapter \<Rightarrow> egress_spec \<Rightarrow> string" where
  "openvpn_path e spec = joinPath (secretsDir e) (es_TunnelID spec @ ''-openvpn.conf'')"

definition ensureOpenVPN :: "world \<Rightarrow> egress_adapter \<Rightarrow> egress_spec \<Rightarrow> unit try_op" where
  "ensureOpenVPN w e spec =
     (let socket = OpenVPNManagementSocket (secretsDir e) (es_TunnelID spec); unit = openvpn_unit (es_TunnelID spec) in
      andThen (writeIfChanged (w_Env w) (openvpn_path e spec) (RenderOpenVPNConfig (es_OpenVPN spec) (es_Interface spec) socket))
        (\<lambda>changed.
      andThen (ensureRemoteRoutes w spec) (\<lambda>_.
      andThen (keep_or_restart w changed (openvpn_answers w unit socket) unit (es_Namespace spec)
          [''openvpn'', ''--config'', openvpn_path e spec]) (\<lambda>_.
        ensureOpenVPNRoutes w spec))))"

subsection \<open>By protocol\<close>

definition ensureTunnel :: "world \<Rightarrow> egress_adapter \<Rightarrow> egress_spec \<Rightarrow> unit try_op" where
  "ensureTunnel w e spec =
     (if es_Type spec = TunnelXray then ensureProxy w e spec
      else if es_Type spec = TunnelOpenVPN then ensureOpenVPN w e spec
      else if es_Type spec = TunnelAmneziaWG then ensureWireGuardLike w e spec ''amneziawg'' ''awg''
      else ensureWireGuardLike w e spec ''wireguard'' ''wg'')"

subsection \<open>The SOCKS proxy (socks.go)\<close>

definition socks_shown_cmd :: "string \<Rightarrow> string list" where
  "socks_shown_cmd unit = [''systemctl'', ''show'', ''--property=ExecStart'', ''--value'', service unit]"

text \<open>Running is not enough: it has to be running on the address and port of the spec.\<close>

definition socks_serves :: "world \<Rightarrow> string \<Rightarrow> string \<Rightarrow> string \<Rightarrow> bool io_op" where
  "socks_serves w unit listen port = do {
     current \<leftarrow> exec (w_Env w) (socks_shown_cmd unit);
     (case current of
        Inl _ \<Rightarrow> returns False
      | Inr line \<Rightarrow> do {
          active \<leftarrow> is_active w unit;
          returns (active \<and> Contains line (''-i '' @ listen) \<and> Contains line (''-p '' @ port)) }) }"

definition ensureSocks :: "world \<Rightarrow> egress_spec \<Rightarrow> unit try_op" where
  "ensureSocks w spec =
     (if es_SocksPort spec = 0 then ok
      else
        let unit = socks_unit (es_TunnelID spec); listen = hostOf (es_PeerAddress spec); port = Itoa (unat (es_SocksPort spec)) in
        keep_or_restart w False (socks_serves w unit listen port) unit (es_Namespace spec)
          [''microsocks'', ''-i'', listen, ''-p'', port])"

definition socks_ruleset :: "egress_spec \<Rightarrow> string" where
  "socks_ruleset spec =
     (let table = ''table inet vpn_hub_socks_'' @ safeTableName (es_TunnelID spec); port = Itoa (unat (es_SocksPort spec));
          host = hostOf (es_HostAddress spec); peer = hostOf (es_PeerAddress spec) in
      text_of [table, ''delete '' @ table, [], table @ '' {'',
        [TAB] @ ''chain prerouting {'',
        [TAB, TAB] @ ''type nat hook prerouting priority dstnat; policy accept;'',
        [TAB, TAB] @ ''ip daddr '' @ host @ '' tcp dport '' @ port @ '' dnat ip to '' @ peer @ '':'' @ port,
        [TAB] @ ''}'',
        [TAB] @ ''chain postrouting {'',
        [TAB, TAB] @ ''type nat hook postrouting priority srcnat; policy accept;'',
        [TAB, TAB] @ ''ip daddr '' @ peer @ '' tcp dport '' @ port @ '' masquerade'',
        [TAB] @ ''}'', ''}''])"

definition forwardSocks :: "world \<Rightarrow> egress_spec \<Rightarrow> unit try_op" where
  "forwardSocks w spec = (if es_SocksPort spec = 0 then ok else applyRuleset w (socks_ruleset spec))"

end
