(* ===== verification/EgressPass.thy ===== *)
theory EgressPass
  imports EgressTunnels
begin

text \<open>
  The pass over every tunnel (\<open>Apply\<close> of \<open>egress.go\<close>): each is converged and its failure gathered, and
  the namespaces the revision dropped are taken down with their processes, their secrets and their
  policy routing.  At the end, the state an OpenVPN client reports on its management socket.
\<close>

subsection \<open>One tunnel\<close>

definition applyOne :: "world \<Rightarrow> egress_adapter \<Rightarrow> egress_spec \<Rightarrow> unit try_op" where
  "applyOne w e spec =
     andThen (ensureNamespace w e spec) (\<lambda>_.
     andThen (ensureLink w spec) (\<lambda>_.
     andThen (ensurePolicyRouting w e spec) (\<lambda>_.
     andThen (ensureTunnel w e spec) (\<lambda>_.
     andThen (ensureSocks w spec) (\<lambda>_.
       forwardSocks w spec)))))"

fun applyAll :: "world \<Rightarrow> egress_adapter \<Rightarrow> egress_spec list \<Rightarrow> host_error list io_op" where
  "applyAll w e [] = returns []"
| "applyAll w e (spec # specs) = do {
     r \<leftarrow> wrapping (''egress '' @ es_TunnelID spec) (applyOne w e spec);
     more \<leftarrow> applyAll w e specs;
     returns (errors_of r @ more) }"

subsection \<open>Taking a namespace down\<close>

definition tunnel_of_namespace :: "string \<Rightarrow> string" where
  "tunnel_of_namespace namespace = TrimPrefix namespace ''vpn-hub-''"

fun mark_and_table :: "string list \<Rightarrow> string \<times> string \<Rightarrow> string \<times> string" where
  "mark_and_table (f # g # fs) (mark, table) =
     mark_and_table (g # fs) (if f = ''fwmark'' then g else mark, if f = ''lookup'' then g else table)"
| "mark_and_table fs found = found"

definition markAndTable :: "string \<Rightarrow> (string \<times> string) option" where
  "markAndTable line =
     (case mark_and_table (Fields line) ([], []) of (mark, table) \<Rightarrow>
        if mark \<noteq> [] \<and> table \<noteq> [] then Some (mark, table) else None)"

definition rules_cmd :: "string list" where
  "rules_cmd = [''ip'', ''rule'', ''show'']"

definition routes_cmd :: "string \<Rightarrow> string list" where
  "routes_cmd table = [''ip'', ''route'', ''show'', ''table'', table]"

definition rule_del_cmd :: "string \<Rightarrow> string \<Rightarrow> string list" where
  "rule_del_cmd mark table = [''ip'', ''rule'', ''del'', ''fwmark'', mark, ''lookup'', table]"

definition table_flush_cmd :: "string \<Rightarrow> string list" where
  "table_flush_cmd table = [''ip'', ''route'', ''flush'', ''table'', table]"

text \<open>A rule is the tunnel's when the routes of its table mention the tunnel's device.\<close>

definition forget_rule :: "world \<Rightarrow> string \<Rightarrow> string \<times> string \<Rightarrow> unit io_op" where
  "forget_rule w device = (\<lambda>(mark, table). do {
     routes \<leftarrow> answered (w_Env w) (routes_cmd table);
     (case routes of
        Inl _ \<Rightarrow> returns ()
      | Inr out \<Rightarrow>
          if Contains out device then attemptAll (w_Env w) [rule_del_cmd mark table, table_flush_cmd table]
          else returns ()) })"

fun forget_rules :: "world \<Rightarrow> string \<Rightarrow> string list \<Rightarrow> unit io_op" where
  "forget_rules w device [] = returns ()"
| "forget_rules w device (line # ls) = do {
     (case markAndTable line of None \<Rightarrow> returns () | Some mt \<Rightarrow> forget_rule w device mt);
     forget_rules w device ls }"

definition forgetRouting :: "world \<Rightarrow> string \<Rightarrow> unit io_op" where
  "forgetRouting w namespace = do {
     rules \<leftarrow> answered (w_Env w) rules_cmd;
     (case rules of
        Inl _ \<Rightarrow> returns ()
      | Inr out \<Rightarrow> forget_rules w (''vh-'' @ tunnel_of_namespace namespace) (Split NL out)) }"

definition secret_names :: "string \<Rightarrow> string list" where
  "secret_names i = [i @ ''-private.key'', i @ ''-psk.key'', i @ ''-singbox.json'', i @ ''-openvpn.conf'']"

fun remove_files :: "world \<Rightarrow> string list \<Rightarrow> unit io_op" where
  "remove_files w [] = returns ()"
| "remove_files w (p # ps) = do { discard (removeFile (w_Env w) p); remove_files w ps }"

definition forgetSecrets :: "world \<Rightarrow> egress_adapter \<Rightarrow> string \<Rightarrow> unit io_op" where
  "forgetSecrets w e i = remove_files w (map (joinPath (secretsDir e)) (secret_names i))"

definition retire_cmds :: "string \<Rightarrow> string list list" where
  "retire_cmds i =
     map stop_cmd [proxy_unit i, openvpn_unit i, socks_unit i, privateResolverUnit i, upstreamResolverUnit] @
     [[''nft'', ''delete'', ''table'', ''inet'', ''vpn_hub_socks_'' @ safeTableName i]]"

definition retire :: "world \<Rightarrow> egress_adapter \<Rightarrow> string \<Rightarrow> host_error list io_op" where
  "retire w e namespace = do {
     attemptAll (w_Env w) (retire_cmds (tunnel_of_namespace namespace));
     gone \<leftarrow> wrapping ''remove namespace'' (namespaceLifecycle w e ''del'' namespace);
     forgetSecrets w e (tunnel_of_namespace namespace);
     forgetRouting w namespace;
     returns (errors_of gone) }"

text \<open>Of the namespaces listed, those of the hub that no spec wants.\<close>

definition dropped :: "egress_spec list \<Rightarrow> string list \<Rightarrow> string list" where
  "dropped specs existing =
     filter (\<lambda>n. HasPrefix n ''vpn-hub-'' \<and> n \<notin> set (map es_Namespace specs)) existing"

fun retireAll :: "world \<Rightarrow> egress_adapter \<Rightarrow> string list \<Rightarrow> host_error list io_op" where
  "retireAll w e [] = returns []"
| "retireAll w e (n # ns) = do {
     gone \<leftarrow> retire w e n;
     more \<leftarrow> retireAll w e ns;
     returns (gone @ more) }"

text \<open>The collection runs whatever the tunnels' failures were; a failed listing is a failure of the pass.\<close>

definition collect_dropped :: "world \<Rightarrow> egress_adapter \<Rightarrow> egress_spec list \<Rightarrow> host_error list \<Rightarrow> unit try_op" where
  "collect_dropped w e specs failures = do {
     existing \<leftarrow> EgressObserve w;
     (case existing of
        Inl err \<Rightarrow> returns (joined (failures @ [err]))
      | Inr namespaces \<Rightarrow> do {
          more \<leftarrow> retireAll w e (dropped specs namespaces);
          returns (joined (failures @ more)) }) }"

definition EgressApply :: "world \<Rightarrow> egress_adapter \<Rightarrow> egress_spec list \<Rightarrow> unit try_op" where
  "EgressApply w e specs = do { failures \<leftarrow> applyAll w e specs; collect_dropped w e specs failures }"

subsection \<open>The state of an OpenVPN client\<close>

text \<open>Only a line whose newline arrived is read.\<close>

definition complete_lines :: "string \<Rightarrow> string list" where
  "complete_lines answer =
     (if HasSuffix answer [NL] then Split NL answer else butlast (Split NL answer))"

definition stage_of :: "string \<Rightarrow> string option" where
  "stage_of raw =
     (let line = TrimSpace raw; fields = Split CHR '','' line in
      if line = [] \<or> HasPrefix line ''>'' \<or> line = ''END'' then None
      else if 2 \<le> length fields \<and> fields ! 1 \<noteq> [] then Some (fields ! 1) else None)"

definition parseOpenVPNState :: "string \<Rightarrow> string option" where
  "parseOpenVPNState answer =
     (case List.map_filter stage_of (complete_lines answer) of [] \<Rightarrow> None | s # _ \<Rightarrow> Some s)"

text \<open>
  The reads of \<open>OpenVPNState\<close>: what each returned and whether it failed; when they run out, the
  deadline ended the next one.  \<open>None\<close> is an error.
\<close>

definition reply_ended :: "string \<Rightarrow> bool" where
  "reply_ended answer \<longleftrightarrow> Contains answer (NL # ''END'') \<or> HasPrefix answer ''END''"

fun OpenVPNState :: "string \<Rightarrow> (string \<times> bool) list \<Rightarrow> string option" where
  "OpenVPNState seen [] = (if seen \<noteq> [] then parseOpenVPNState seen else None)"
| "OpenVPNState seen ((chunk, broke) # reads) =
     (let now = seen @ chunk in
      if chunk \<noteq> [] \<and> (parseOpenVPNState now \<noteq> None \<or> reply_ended now) then parseOpenVPNState now
      else if broke then (if now \<noteq> [] then parseOpenVPNState now else None)
      else OpenVPNState now reads)"

end
