(* ===== verification/EgressClaims.thy ===== *)
theory EgressClaims
  imports EgressPass RunnerFacts
begin

text \<open>
  What a pass of the egress adapter guarantees: the order in which a tunnel is brought up, what a
  success means, and what becomes of the tunnels a revision dropped.
\<close>

subsection \<open>Every step only adds to the log\<close>

lemma await_extends [io_rel]: "state_io_rel extends (await_device w failure n cmd)"
  by (induction n) (auto intro!: io_rel)

lemma restart_extends [io_rel]: "state_io_rel extends (restart_supervised w u n p)"
  unfolding restart_supervised_def by (auto intro!: io_rel)

lemma active_extends [io_rel]: "state_io_rel extends (is_active w u)"
  unfolding is_active_def by (auto intro!: io_rel)

lemma keep_extends [io_rel]:
  "state_io_rel extends answers \<Longrightarrow> state_io_rel extends (keep_or_restart w c answers u n p)"
  unfolding keep_or_restart_def by (auto intro!: io_rel)

lemma add_rule_extends [io_rel]: "state_io_rel extends (add_rule_once w s a t)"
  unfolding add_rule_once_def by (auto intro!: io_rel)

lemma ruleset_extends [io_rel]:
  "state_io_rel extends (applyNamespaceRuleset w n r)" "state_io_rel extends (applyRuleset w r)"
  "state_io_rel extends (ensureNamespaceNAT w spec)"
  unfolding applyNamespaceRuleset_def applyRuleset_def ensureNamespaceNAT_def by (auto intro!: io_rel)

lemma write_key_extends [io_rel]:
  "state_io_rel extends (writeKey w e n s)" "state_io_rel extends (preshared_args w e spec)"
  unfolding writeKey_def preshared_args_def by (auto intro!: io_rel)

lemma device_extends [io_rel]:
  "state_io_rel extends (create_device w spec k)" "state_io_rel extends (configure_device w e spec t)"
  "state_io_rel extends (removeOtherPeers w spec t)"
  unfolding create_device_def configure_device_def removeOtherPeers_def by (auto intro!: io_rel)

lemma routes_extends [io_rel]:
  "state_io_rel extends (ensureProxyEscapeRoute w spec)" "state_io_rel extends (ensureProxyRoutes w spec)"
  "state_io_rel extends (ensureOpenVPNRoutes w spec)" "state_io_rel extends (ensureRemoteRoutes w spec)"
  unfolding ensureProxyEscapeRoute_def ensureProxyRoutes_def ensureOpenVPNRoutes_def ensureRemoteRoutes_def
    resolved_def Let_def
  by (auto intro!: io_rel)

lemma tunnel_extends [io_rel]:
  "state_io_rel extends (ensureProxy w e spec)" "state_io_rel extends (ensureOpenVPN w e spec)"
  "state_io_rel extends (ensureWireGuardLike w e spec k t)" "state_io_rel extends (ensureTunnel w e spec)"
  unfolding ensureProxy_def ensureOpenVPN_def ensureWireGuardLike_def ensureTunnel_def Let_def openvpn_answers_def
  by (auto intro!: io_rel)

lemma socks_extends [io_rel]:
  "state_io_rel extends (ensureSocks w spec)" "state_io_rel extends (forwardSocks w spec)"
  unfolding ensureSocks_def forwardSocks_def Let_def socks_serves_def by (auto intro!: io_rel)

lemma observe_extends [io_rel]: "state_io_rel extends (EgressObserve w)"
  unfolding EgressObserve_def by (auto intro!: io_rel)

lemma namespace_extends [io_rel]:
  "state_io_rel extends (namespaceLifecycle w e a n)" "state_io_rel extends (prove_namespace w e n)"
  "state_io_rel extends (ensureNamespace w e spec)"
  unfolding namespaceLifecycle_def prove_namespace_def ensureNamespace_def enableForwarding_def
  by (auto intro!: io_rel)

lemma link_extends [io_rel]:
  "state_io_rel extends (create_link w spec)" "state_io_rel extends (ensureLink w spec)"
  "state_io_rel extends (ensurePolicyRouting w e spec)"
  unfolding create_link_def ensureLink_def ensurePolicyRouting_def by (auto intro!: io_rel)

lemma apply_extends [io_rel]: "state_io_rel extends (applyOne w e spec)" "state_io_rel extends (applyAll w e specs)"
proof -
  show one: "state_io_rel extends (applyOne w e spec)" for spec unfolding applyOne_def by (auto intro!: io_rel)
  show "state_io_rel extends (applyAll w e specs)" by (induction specs) (auto intro!: io_rel one)
qed

subsection \<open>Routing before the tunnel\<close>

text \<open>
  A command that lets the upstream carry traffic: a supervised client is started, a WireGuard device
  is given its peer, or the namespace's default route is pointed at the device.
\<close>

definition starts_tunnel :: "egress_spec \<Rightarrow> string list \<Rightarrow> bool" where
  "starts_tunnel spec cmd \<longleftrightarrow>
     take 3 cmd = [''systemd-run'', ''--quiet'', ''--collect''] \<or>
     (take 4 cmd = in_ns (es_Namespace spec) [] \<and> take 1 (drop 4 cmd) \<in> {[''wg''], [''awg'']}) \<or> cmd = default_route_cmd spec"

text \<open>Marked traffic is sent into the namespace: the table has its route, and the mark its rule.\<close>

definition steered :: "egress_adapter \<Rightarrow> egress_spec \<Rightarrow> event set \<Rightarrow> bool" where
  "steered e spec evs \<longleftrightarrow>
     (\<exists>out. Ran (mark_route_cmd spec) (Inr out) \<in> evs) \<and>
     ((\<exists>out. Ran (mark_rule_cmd e spec) (Inr out) \<in> evs) \<or>
      (\<exists>out. Ran (mark_shown_cmd spec) (Inr out) \<in> evs \<and> Contains out (lookup_words (spec_table spec))))"

definition starting :: "egress_spec \<Rightarrow> event \<Rightarrow> bool" where
  "starting spec ev = (case ev of Ran cmd _ \<Rightarrow> starts_tunnel spec cmd | _ \<Rightarrow> False)"

lemma starting_simps [simp]:
  "starting spec (Ran cmd a) = starts_tunnel spec cmd" "\<not> starting spec (Wrote p c)" "\<not> starting spec (WriteBroke p l)"
  "\<not> starting spec (Removed p)" "\<not> starting spec (RemoveBroke p)"
  by (simp_all add: starting_def)

lemmas early_cmds = in_ns_def ip_n_def default_route_cmd_def list_namespaces_def lifecycle_cmd_def
  mark_route_cmd_def mark_shown_cmd_def mark_rule_cmd_def

lemma early [io_rel]:
  "\<not> starts_tunnel spec cmd \<Longrightarrow> state_io_rel (avoids (starting spec)) (run env cmd)"
  "\<not> starts_tunnel spec cmd \<Longrightarrow> state_io_rel (avoids (starting spec)) (exec env cmd)"
  by (auto intro: avoids_run)

lemma namespace_early: "state_io_rel (avoids (starting spec)) (ensureNamespace w e spec)"
proof -
  have observe: "state_io_rel (avoids (starting spec)) (EgressObserve w)"
    unfolding EgressObserve_def by (auto intro!: io_rel simp: starts_tunnel_def early_cmds)
  have lifecycle: "state_io_rel (avoids (starting spec)) (namespaceLifecycle w e a (es_Namespace spec))" for a
    unfolding namespaceLifecycle_def by (auto intro!: io_rel simp: starts_tunnel_def early_cmds)
  have forward: "state_io_rel (avoids (starting spec)) (enableForwarding w (es_Namespace spec))"
    unfolding enableForwarding_def by (auto intro!: io_rel simp: starts_tunnel_def early_cmds forwarding_settings_def)
  have prove: "state_io_rel (avoids (starting spec)) (prove_namespace w e (es_Namespace spec))"
    unfolding prove_namespace_def by (auto intro!: io_rel lifecycle simp: starts_tunnel_def early_cmds)
  show ?thesis unfolding ensureNamespace_def by (auto intro!: io_rel observe lifecycle forward prove)
qed

lemma link_early: "state_io_rel (avoids (starting spec)) (ensureLink w spec)"
  unfolding ensureLink_def create_link_def
  by (auto intro!: io_rel simp: starts_tunnel_def early_cmds link_cmds_def Let_def)

lemma routing_early:
  "wp (ensurePolicyRouting w e spec)
     (\<lambda>r h'. avoids (starting spec) h h' \<and> (r = Inr () \<longrightarrow> steered e spec (set (since h h')))) h"
  by (auto simp: ensurePolicyRouting_def add_rule_once_def wp_rules avoids_def extends_def starts_tunnel_def early_cmds
      steered_def since_def split: sum.split)

text \<open>Where an event stands in a log of which a later part has none of its kind.\<close>

lemma event_after:
  assumes "newer @ x # rest @ base = new @ mid @ base" "x \<notin> set mid"
  shows "set mid \<subseteq> set rest"
  using assms by (auto simp: append_eq_append_conv2 append_eq_Cons_conv Cons_eq_append_conv)

text \<open>C10: Policy routing is in place before the tunnel is: whatever the host answers, when a pass over a tunnel starts
  its client, gives its device a peer or points the namespace's default route at it, the rule and the
  table of its mark have been installed before, so marked traffic never finds the tunnel up and its
  own way missing.\<close>
theorem routing_stands_before_the_tunnel:
  assumes "run_state (applyOne w e spec) h = (r, h')" "h_Log h' = newer @ Ran cmd a # older @ h_Log h"
    and "starts_tunnel spec cmd"
  shows "steered e spec (set older)"
proof -
  let ?calm = "avoids (starting spec)"
  let ?Q = "\<lambda>r h'. ?calm h h' \<or> (\<exists>h1. ?calm h h1 \<and> steered e spec (set (since h h1)) \<and> extends h1 h')"
  have later: "wp (andThen (ensureTunnel w e spec) (\<lambda>_. andThen (ensureSocks w spec) (\<lambda>_. forwardSocks w spec))) ?Q h1"
    if "?calm h h1" "steered e spec (set (since h h1))" for h1
    using that by (intro wp_mono[OF io_rel_wp[where R = extends]]) (auto intro!: io_rel)
  have "wp (applyOne w e spec) ?Q h"
    unfolding applyOne_def
  proof (rule wp_seq[OF io_rel_wp[OF namespace_early]])
    fix u h1 assume 1: "?calm h h1"
    show "wp (andThen (ensureLink w spec) (\<lambda>_. andThen (ensurePolicyRouting w e spec) (\<lambda>_.
        andThen (ensureTunnel w e spec) (\<lambda>_. andThen (ensureSocks w spec) (\<lambda>_. forwardSocks w spec))))) ?Q h1"
    proof (rule wp_seq[OF io_rel_wp[OF link_early]])
      fix u h2 assume "?calm h1 h2"
      then have 2: "?calm h h2" using avoids_trans[OF 1] by simp
      show "wp (andThen (ensurePolicyRouting w e spec) (\<lambda>_.
        andThen (ensureTunnel w e spec) (\<lambda>_. andThen (ensureSocks w spec) (\<lambda>_. forwardSocks w spec)))) ?Q h2"
      proof (rule wp_seq[OF routing_early])
        fix u h3 assume 3: "?calm h2 h3 \<and> (Inr u = Inr () \<longrightarrow> steered e spec (set (since h2 h3)))"
        then have "?calm h h3" using avoids_trans[OF 2] by simp
        moreover have "set (since h2 h3) \<subseteq> set (since h h3)"
          using 2 3 since_split[of h h2 h3] by (auto simp: avoids_def)
        then have "steered e spec (set (since h h3))" using 3 by (auto simp: steered_def)
        ultimately show "wp (andThen (ensureTunnel w e spec) (\<lambda>_. andThen (ensureSocks w spec) (\<lambda>_. forwardSocks w spec))) ?Q h3"
          by (rule later)
      qed (simp add: avoids_trans[OF 2])
    qed (simp add: avoids_trans[OF 1])
  qed simp
  from wpD[OF this assms(1)] show ?thesis
  proof (elim disjE exE conjE)
    assume "?calm h h'"
    then show ?thesis using assms(2,3) since_eq[of h' "newer @ Ran cmd a # older" h] by (auto simp: avoids_def)
  next
    fix h1 assume h1: "?calm h h1" "steered e spec (set (since h h1))" "extends h1 h'"
    have "h_Log h1 = since h h1 @ h_Log h" using h1(1) by (intro log_since) (simp add: avoids_def)
    moreover have "h_Log h' = since h1 h' @ h_Log h1" by (rule log_since[OF h1(3)])
    ultimately have "newer @ Ran cmd a # (older @ h_Log h) = since h1 h' @ since h h1 @ h_Log h" using assms(2) by metis
    moreover have "Ran cmd a \<notin> set (since h h1)" using h1(1) assms(3) by (auto simp: avoids_def)
    ultimately have "set (since h h1) \<subseteq> set older" by (intro event_after) auto
    then show ?thesis using h1(2) by (auto simp: steered_def)
  qed
qed

subsection \<open>What success means\<close>

definition ran :: "string list \<Rightarrow> event \<Rightarrow> bool" where
  "ran cmd ev \<longleftrightarrow> (\<exists>out. ev = Ran cmd (Inr out))"

lemma ran_run: "ensures (run env cmd) (ran cmd)"
  by (rule ensures_run) (auto simp: ran_def)

lemma nat_ensured: "ensures (ensureNamespaceNAT w spec) (ran (nft_in_cmd (es_Namespace spec) (nat_ruleset (es_Interface spec))))"
  unfolding ensureNamespaceNAT_def applyNamespaceRuleset_def by (intro ensures_wrapping ran_run)

text \<open>The two commands that close a namespace: its default route and the translation of what leaves by it.\<close>

lemma tunnel_ensured:
  assumes "cmd \<in> {default_route_cmd spec, nft_in_cmd (es_Namespace spec) (nat_ruleset (es_Interface spec))}"
  shows "ensures (ensureTunnel w e spec) (ran cmd)"
proof -
  have last: "ensures (andThen m (\<lambda>_. ensureNamespaceNAT w spec)) (ran cmd)"
    if "ensures m (ran (default_route_cmd spec))" "state_io_rel extends m" for m
  proof (cases "cmd = default_route_cmd spec")
    case True
    then show ?thesis using that(1) by (auto intro: ensures_first io_rel)
  next
    case False
    then show ?thesis using assms that(2) nat_ensured by (auto intro: ensures_then)
  qed
  have devices: "ensures (andThen (forEach (device_cmds spec) (run (w_Env w))) (\<lambda>_. ensureNamespaceNAT w spec)) (ran cmd)"
    by (intro last ensures_forEach[where x = "default_route_cmd spec"])
      (auto intro!: ran_run io_rel simp: device_cmds_def)
  have route: "ensures (andThen (run (w_Env w) (default_route_cmd spec)) (\<lambda>_. ensureNamespaceNAT w spec)) (ran cmd)"
    by (intro last ran_run io_rel)
  have wireguard: "ensures (ensureWireGuardLike w e spec k t) (ran cmd)" for k t
    unfolding ensureWireGuardLike_def
    by (rule devices | (rule ensures_then, (auto intro!: io_rel)[1]))+
  have proxy_routes: "ensures (ensureProxyRoutes w spec) (ran cmd)"
    unfolding ensureProxyRoutes_def
    by (rule route | (rule ensures_then, (auto intro!: io_rel)[1]))+
  have proxy: "ensures (ensureProxy w e spec) (ran cmd)"
    unfolding ensureProxy_def is_active_def
    by (rule proxy_routes | (rule ensures_then, (auto intro!: io_rel)[1]))+
  have openvpn_routes: "ensures (ensureOpenVPNRoutes w spec) (ran cmd)"
    unfolding ensureOpenVPNRoutes_def
    by (rule route | (rule ensures_then, (auto intro!: io_rel)[1]))+
  have openvpn: "ensures (ensureOpenVPN w e spec) (ran cmd)"
    unfolding ensureOpenVPN_def openvpn_answers_def Let_def
    by (rule openvpn_routes | (rule ensures_then, (auto intro!: io_rel)[1]))+
  show ?thesis
    unfolding ensureTunnel_def by (intro ensures_if wireguard proxy openvpn)
qed

text \<open>What a success of one tunnel leaves done.\<close>

definition closed_in :: "egress_spec \<Rightarrow> event set \<Rightarrow> bool" where
  "closed_in spec evs \<longleftrightarrow>
     (\<exists>out. Ran (default_route_cmd spec) (Inr out) \<in> evs) \<and>
     (\<exists>out. Ran (nft_in_cmd (es_Namespace spec) (nat_ruleset (es_Interface spec))) (Inr out) \<in> evs)"

lemma steered_mono: "steered e spec evs \<Longrightarrow> evs \<subseteq> evs' \<Longrightarrow> steered e spec evs'"
  by (auto simp: steered_def)

lemma closed_in_mono: "closed_in spec evs \<Longrightarrow> evs \<subseteq> evs' \<Longrightarrow> closed_in spec evs'"
  by (auto simp: closed_in_def)

lemma since_grows: "extends h h1 \<Longrightarrow> extends h1 h2 \<Longrightarrow> set (since h h1) \<subseteq> set (since h h2) \<and> set (since h1 h2) \<subseteq> set (since h h2)"
  using since_split[of h h1 h2] by auto

lemma apply_one_done:
  assumes "run_state (applyOne w e spec) h = (Inr (), h')"
  shows "extends h h' \<and> steered e spec (set (since h h')) \<and> closed_in spec (set (since h h'))"
proof -
  obtain u1 u2 u3 u4 u5 h1 h2 h3 h4 h5 where steps:
    "run_state (ensureNamespace w e spec) h = (Inr u1, h1)" "run_state (ensureLink w spec) h1 = (Inr u2, h2)"
    "run_state (ensurePolicyRouting w e spec) h2 = (Inr u3, h3)" "run_state (ensureTunnel w e spec) h3 = (Inr u4, h4)"
    "run_state (ensureSocks w spec) h4 = (Inr u5, h5)" "run_state (forwardSocks w spec) h5 = (Inr (), h')"
    using assms unfolding applyOne_def andThen_Inr_iff by blast
  have grow: "extends a b" if "run_state m a = (x, b)" "state_io_rel extends m" for m :: "unit try_op" and a b x
    using wpD[OF io_rel_wp[OF that(2)] that(1)] .
  note e = grow[OF steps(1) namespace_extends(3)] grow[OF steps(2) link_extends(2)] grow[OF steps(3) link_extends(3)]
    grow[OF steps(4) tunnel_extends(4)] grow[OF steps(5) socks_extends(1)] grow[OF steps(6) socks_extends(2)]
  have "steered e spec (set (since h2 h3))" using wpD[OF routing_early steps(3)] by simp
  moreover have "closed_in spec (set (since h3 h4))"
    using ensuresD(2)[OF tunnel_ensured steps(4)] by (fastforce simp: closed_in_def ran_def)
  moreover have "extends h h2" "extends h3 h'" "extends h h3" "extends h4 h'" "extends h h'"
    using e by (blast intro: extends_trans)+
  moreover have "set (since h2 h3) \<subseteq> set (since h h')" "set (since h3 h4) \<subseteq> set (since h h')"
    using calculation e since_grows[of h h2 h3] since_grows[of h h3 h'] since_grows[of h3 h4 h'] by blast+
  ultimately show ?thesis
    using steered_mono[of e spec "set (since h2 h3)"] closed_in_mono[of spec "set (since h3 h4)"] by blast
qed

lemma applyAll_done:
  "wp (applyAll w e specs) (\<lambda>errs h'. extends h h' \<and>
     (errs = [] \<longrightarrow> (\<forall>spec \<in> set specs. steered e spec (set (since h h')) \<and> closed_in spec (set (since h h'))))) h"
proof (induction specs arbitrary: h)
  case (Cons spec specs)
  have one: "wp (applyOne w e spec) (\<lambda>r h1. extends h h1 \<and>
      (r = Inr () \<longrightarrow> steered e spec (set (since h h1)) \<and> closed_in spec (set (since h h1)))) h"
    using apply_one_done wpD[OF io_rel_wp[OF apply_extends(1)]] by (auto simp: wp_def split: prod.split)
  show ?case
    unfolding applyAll.simps wp_bind wp_wrapping wp_returns
  proof (rule wp_mono[OF one], rule wp_mono[OF Cons.IH])
    fix r :: "(host_error, unit) result" and h1 and errs :: "host_error list" and h2
    assume 1: "extends h h1 \<and> (r = Inr () \<longrightarrow> steered e spec (set (since h h1)) \<and> closed_in spec (set (since h h1)))"
      and 2: "extends h1 h2 \<and> (errs = [] \<longrightarrow>
        (\<forall>spec \<in> set specs. steered e spec (set (since h1 h2)) \<and> closed_in spec (set (since h1 h2))))"
    have "extends h h2" "set (since h h1) \<subseteq> set (since h h2)" "set (since h1 h2) \<subseteq> set (since h h2)"
      using 1 2 extends_trans[of h h1 h2] since_grows[of h h1 h2] by auto
    then show "extends h h2 \<and> (errors_of (mapErr (Wrapped (''egress '' @ es_TunnelID spec)) r) @ errs = [] \<longrightarrow>
        (\<forall>spec \<in> set (spec # specs). steered e spec (set (since h h2)) \<and> closed_in spec (set (since h h2))))"
      using 1 2 steered_mono closed_in_mono
      by (cases r) (fastforce simp: errors_of_def)+
  qed
qed (simp add: wp_rules)

subsection \<open>Taking namespaces down\<close>

text \<open>Nothing since was written, and files only went away.\<close>

definition only_removes :: "host \<Rightarrow> host \<Rightarrow> bool" where
  "only_removes h h' \<longleftrightarrow> extends h h' \<and> (\<forall>p. h_Files h' p = h_Files h p \<or> h_Files h' p = None)"

lemma only_removes_trans: "only_removes h h1 \<Longrightarrow> only_removes h1 h2 \<Longrightarrow> only_removes h h2"
  using extends_trans[of h h1 h2] unfolding only_removes_def by metis

lemma only_removes_preorder [simp]: "reflp only_removes" "transp only_removes"
  by (auto simp: reflp_def only_removes_def[of x x for x] intro!: transpI elim: only_removes_trans)

lemma only_removes_steps [io_rel]:
  "state_io_rel only_removes (answered env cmd)" "state_io_rel only_removes (attempt env cmd)"
  "state_io_rel only_removes (run env cmd)" "state_io_rel only_removes (exec env cmd)"
  "state_io_rel only_removes (removeFile env path)"
  by (auto simp: io_rel_iff wp_rules only_removes_def extends_def)

lemma forget_rules_removes [io_rel]: "state_io_rel only_removes (forget_rules w d ls)"
  by (induction ls) (auto intro!: io_rel simp: forget_rule_def)

lemma remove_files_removes [io_rel]: "state_io_rel only_removes (remove_files w ps)"
  by (induction ps) (auto intro!: io_rel)

lemma retire_removes [io_rel]: "state_io_rel only_removes (retire w e n)"
  unfolding retire_def namespaceLifecycle_def forgetSecrets_def forgetRouting_def
  by (auto intro!: io_rel)

lemma retireAll_removes [io_rel]: "state_io_rel only_removes (retireAll w e ns)"
  by (induction ns) (auto intro!: io_rel)

text \<open>
  What taking a namespace down amounts to, whatever the commands answer: its deletion and the stop of
  everything that ran in it were asked for, and its secrets are gone unless a removal failed.
\<close>

definition asked :: "event set \<Rightarrow> string list \<Rightarrow> bool" where
  "asked evs cmd \<longleftrightarrow> (\<exists>a. Ran cmd a \<in> evs)"

definition taken_down :: "egress_adapter \<Rightarrow> host \<Rightarrow> host \<Rightarrow> string \<Rightarrow> bool" where
  "taken_down e h h' n \<longleftrightarrow>
     asked (set (since h h')) (lifecycle_cmd e ''del'' n) \<and>
     (\<forall>cmd \<in> set (retire_cmds (tunnel_of_namespace n)). asked (set (since h h')) cmd) \<and>
     (\<forall>name \<in> set (secret_names (tunnel_of_namespace n)).
        h_Files h' (joinPath (secretsDir e) name) = None \<or>
        RemoveBroke (joinPath (secretsDir e) name) \<in> set (since h h'))"

lemma taken_down_later:
  assumes "taken_down e h h1 n" "extends h h1" "only_removes h1 h2"
  shows "taken_down e h h2 n"
proof -
  have "set (since h h1) \<subseteq> set (since h h2)" using assms since_grows[of h h1 h2] by (simp add: only_removes_def)
  then show ?thesis using assms(1,3) unfolding taken_down_def only_removes_def asked_def by (metis subsetD)
qed

lemma taken_down_from:
  assumes "taken_down e h1 h2 n" "extends h h1" "extends h1 h2"
  shows "taken_down e h h2 n"
proof -
  have "set (since h1 h2) \<subseteq> set (since h h2)" using assms since_grows[of h h1 h2] by simp
  then show ?thesis using assms(1) unfolding taken_down_def asked_def by (metis subsetD)
qed

lemma attemptAll_asks:
  "wp (attemptAll env cs) (\<lambda>_ h'. only_removes h h' \<and> (\<forall>c \<in> set cs. asked (set (since h h')) c)) h"
proof (induction cs arbitrary: h)
  case (Cons c cs)
  show ?case
    unfolding attemptAll.simps wp_bind wp_attempt
  proof (rule wp_mono[OF Cons.IH])
    fix u h2 let ?h1 = "h\<lparr>h_Log := Ran c (e_Run env (h_Log h) c) # h_Log h\<rparr>"
    assume 2: "only_removes ?h1 h2 \<and> (\<forall>c \<in> set cs. asked (set (since ?h1 h2)) c)"
    have 1: "only_removes h ?h1" "asked (set (since h ?h1)) c"
      by (auto simp: only_removes_def extends_def asked_def)
    then show "only_removes h h2 \<and> (\<forall>c \<in> set (c # cs). asked (set (since h h2)) c)"
      using 2 only_removes_trans[of h ?h1 h2] since_grows[of h ?h1 h2]
      by (fastforce simp: asked_def only_removes_def)
  qed
qed (simp add: wp_rules only_removes_def)

lemma remove_files_gone:
  "wp (remove_files w ps) (\<lambda>_ h'. only_removes h h' \<and>
     (\<forall>p \<in> set ps. h_Files h' p = None \<or> RemoveBroke p \<in> set (since h h'))) h"
proof (induction ps arbitrary: h)
  case (Cons p ps)
  have first: "wp (removeFile (w_Env w) p) (\<lambda>_ h'. only_removes h h' \<and> (h_Files h' p = None \<or> RemoveBroke p \<in> set (since h h'))) h"
    by (auto simp: wp_rules only_removes_def extends_def since_def)
  show ?case
    unfolding remove_files.simps wp_bind wp_discard
  proof (rule wp_mono[OF first], rule wp_mono[OF Cons.IH])
    fix r h1 u h2
    assume "only_removes h h1 \<and> (h_Files h1 p = None \<or> RemoveBroke p \<in> set (since h h1))"
      "only_removes h1 h2 \<and> (\<forall>p \<in> set ps. h_Files h2 p = None \<or> RemoveBroke p \<in> set (since h1 h2))"
    then show "only_removes h h2 \<and> (\<forall>p \<in> set (p # ps). h_Files h2 p = None \<or> RemoveBroke p \<in> set (since h h2))"
      using only_removes_trans[of h h1 h2] since_grows[of h h1 h2]
      by (auto simp: only_removes_def) metis
  qed
qed (simp add: wp_rules only_removes_def)

text \<open>Taking one namespace down.\<close>

lemma retire_takes_down:
  "wp (retire w e n) (\<lambda>_ h'. only_removes h h' \<and> taken_down e h h' n) h"
proof -
  let ?i = "tunnel_of_namespace n"
  let ?stops = "\<lambda>h1. only_removes h h1 \<and> (\<forall>c \<in> set (retire_cmds ?i). asked (set (since h h1)) c)"
  let ?goes = "\<lambda>h2. ?stops h2 \<and> asked (set (since h h2)) (lifecycle_cmd e ''del'' n)"
  have asked_mono: "asked evs c \<Longrightarrow> evs \<subseteq> evs' \<Longrightarrow> asked evs' c" for evs evs' c by (auto simp: asked_def)
  have later: "?stops h2" if "?stops h1" "only_removes h1 h2" for h1 h2
  proof -
    have "only_removes h h2" using that only_removes_trans by blast
    moreover have "set (since h h1) \<subseteq> set (since h h2)" using that since_grows[of h h1 h2] by (simp add: only_removes_def)
    ultimately show ?thesis using that(1) asked_mono by blast
  qed
  show ?thesis
    unfolding retire_def
  proof (rule wp_then[OF attemptAll_asks])
    fix u h1 assume 1: "?stops h1"
    have "wp (wrapping ''remove namespace'' (namespaceLifecycle w e ''del'' n)) (\<lambda>_ h2. only_removes h1 h2 \<and>
        asked (set (since h1 h2)) (lifecycle_cmd e ''del'' n)) h1"
      by (auto simp: namespaceLifecycle_def wp_rules only_removes_def extends_def asked_def)
    then show "wp (wrapping ''remove namespace'' (namespaceLifecycle w e ''del'' n) \<bind> (\<lambda>gone.
        forgetSecrets w e ?i \<bind> (\<lambda>_. forgetRouting w n \<bind> (\<lambda>_. returns (errors_of gone)))))
        (\<lambda>_ h'. only_removes h h' \<and> taken_down e h h' n) h1"
    proof (rule wp_then)
      fix gone :: "(host_error, unit) result" and h2
      assume 2: "only_removes h1 h2 \<and> asked (set (since h1 h2)) (lifecycle_cmd e ''del'' n)"
      have goes: "?goes h2"
        using later[OF 1] 2 1 since_grows[of h h1 h2] asked_mono by (simp add: only_removes_def) blast
      show "wp (forgetSecrets w e ?i \<bind> (\<lambda>_. forgetRouting w n \<bind> (\<lambda>_. returns (errors_of gone))))
        (\<lambda>_ h'. only_removes h h' \<and> taken_down e h h' n) h2"
        unfolding forgetSecrets_def
      proof (rule wp_then[OF remove_files_gone])
        fix u h3 assume 3: "only_removes h2 h3 \<and> (\<forall>p \<in> set (map (joinPath (secretsDir e)) (secret_names ?i)).
          h_Files h3 p = None \<or> RemoveBroke p \<in> set (since h2 h3))"
        have e: "extends h h2" "extends h2 h3" using goes 3 by (auto simp: only_removes_def)
        have down: "only_removes h h3" "taken_down e h h3 n"
          using goes 3 later[of h2 h3] since_grows[OF e] asked_mono[of "set (since h h2)" _ "set (since h h3)"]
          by (auto simp: taken_down_def)
        have "state_io_rel only_removes (forgetRouting w n \<bind> (\<lambda>_. returns (errors_of gone)))"
          unfolding forgetRouting_def by (auto intro!: io_rel)
        from io_rel_wp[OF this, of h3] show "wp (forgetRouting w n \<bind> (\<lambda>_. returns (errors_of gone)))
          (\<lambda>_ h'. only_removes h h' \<and> taken_down e h h' n) h3"
          using down taken_down_later[OF down(2)] only_removes_trans[OF down(1)]
          by (elim wp_mono) (simp add: only_removes_def)
      qed
    qed
  qed
qed

lemma retireAll_takes_down:
  "wp (retireAll w e ns) (\<lambda>_ h'. only_removes h h' \<and> (\<forall>n \<in> set ns. taken_down e h h' n)) h"
proof (induction ns arbitrary: h)
  case (Cons n ns)
  show ?case
    unfolding retireAll.simps wp_bind wp_returns
  proof (rule wp_mono[OF retire_takes_down], rule wp_mono[OF Cons.IH])
    fix u h1 v h2
    assume 1: "only_removes h h1 \<and> taken_down e h h1 n"
      and 2: "only_removes h1 h2 \<and> (\<forall>n \<in> set ns. taken_down e h1 h2 n)"
    then have "extends h h1" "extends h1 h2" by (simp_all add: only_removes_def)
    then show "only_removes h h2 \<and> (\<forall>m \<in> set (n # ns). taken_down e h h2 m)"
      using 1 2 only_removes_trans[of h h1 h2] taken_down_later[of e h h1 n h2] taken_down_from[of e h1 h2 _ h] by auto
  qed
qed (simp add: wp_rules only_removes_def)

text \<open>A tunnel the revision dropped is taken down whatever becomes of the others: if the listing names its namespace,
  the pass asks for its deletion and for the stop of its clients, proxy and resolvers, and its keys and
  configurations are gone from the runtime directory unless removing a file failed.\<close>
theorem dropped_tunnels_are_taken_down:
  assumes "run_state (EgressApply w e specs) h = (r, h')"
    and "\<And>log. \<exists>out ns. e_Run (w_Env w) log list_namespaces = Inr out \<and> parseNamespaces w out = Inr ns \<and> n \<in> set ns"
    and "HasPrefix n ''vpn-hub-''" "n \<notin> set (map es_Namespace specs)"
  shows "taken_down e h h' n"
proof -
  have listed: "wp (EgressObserve w) (\<lambda>x h2. extends h1 h2 \<and> (\<exists>ns. x = Inr ns \<and> n \<in> set ns)) h1" for h1
    using assms(2)[of "h_Log h1"] by (auto simp: EgressObserve_def wp_rules extends_def)
  have "wp (EgressApply w e specs) (\<lambda>_ h'. taken_down e h h' n) h"
    unfolding EgressApply_def
  proof (rule wp_then[OF applyAll_done])
    fix failures :: "host_error list" and h1 assume 1: "extends h h1 \<and> (failures = [] \<longrightarrow>
      (\<forall>spec \<in> set specs. steered e spec (set (since h h1)) \<and> closed_in spec (set (since h h1))))"
    show "wp (collect_dropped w e specs failures)
      (\<lambda>_ h'. taken_down e h h' n) h1"
      unfolding collect_dropped_def
    proof (rule wp_then[OF listed])
      fix x :: "(host_error, string list) result" and h2 assume 2: "extends h1 h2 \<and> (\<exists>ns. x = Inr ns \<and> n \<in> set ns)"
      then obtain ns where ns: "x = Inr ns" "n \<in> set (dropped specs ns)" using assms(3,4) by (auto simp: dropped_def)
      have "extends h h2" using 1 2 extends_trans by blast
      then have "only_removes h2 h3 \<and> (\<forall>m \<in> set (dropped specs ns). taken_down e h2 h3 m) \<Longrightarrow> taken_down e h h3 n" for h3
        using ns(2) taken_down_from[of e h2 h3 n h] by (auto simp: only_removes_def)
      then show "wp (case x of
          Inl err \<Rightarrow> returns (joined (failures @ [err]))
        | Inr namespaces \<Rightarrow> retireAll w e (dropped specs namespaces) \<bind> (\<lambda>more. returns (joined (failures @ more))))
        (\<lambda>_ h'. taken_down e h h' n) h2"
        unfolding ns(1) sum.case wp_bind wp_returns by (intro wp_mono[OF retireAll_takes_down])
    qed
  qed
  from wpD[OF this assms(1)] show ?thesis .
qed

text \<open>A pass that reports success has converged every tunnel: the mark of each leads into its namespace, and in the
  namespace the default route is the tunnel's device and what leaves by it is translated.\<close>
theorem success_means_every_tunnel_converged:
  assumes "run_state (EgressApply w e specs) h = (Inr (), h')" "spec \<in> set specs"
  shows "steered e spec (set (since h h')) \<and> closed_in spec (set (since h h'))"
proof -
  let ?ok = "\<lambda>h1. steered e spec (set (since h h1)) \<and> closed_in spec (set (since h h1))"
  have grow: "?ok h2" if "?ok h1" "extends h h1" "extends h1 h2" for h1 h2
    using that since_grows[of h h1 h2] steered_mono closed_in_mono by blast
  have "wp (EgressApply w e specs) (\<lambda>r h'. r = Inr () \<longrightarrow> ?ok h') h"
    unfolding EgressApply_def
  proof (rule wp_then[OF applyAll_done])
    fix failures :: "host_error list" and h1 assume 1: "extends h h1 \<and> (failures = [] \<longrightarrow>
      (\<forall>spec \<in> set specs. steered e spec (set (since h h1)) \<and> closed_in spec (set (since h h1))))"
    show "wp (collect_dropped w e specs failures)
      (\<lambda>r h'. r = Inr () \<longrightarrow> ?ok h') h1"
    proof (cases "failures = []")
      case True
      have "state_io_rel extends (collect_dropped w e specs failures)"
        unfolding collect_dropped_def
        by (auto intro!: io_rel io_rel_weaken[OF retireAll_removes] simp: only_removes_def)
      then show ?thesis
        by (rule wp_mono[OF io_rel_wp]) (use 1 True assms(2) grow in blast)
    next
      case False
      then show ?thesis unfolding collect_dropped_def
        by (intro wp_then[where P = "\<lambda>_ _. True"]) (auto simp: joined_def wp_rules split: sum.split)
    qed
  qed
  from wpD[OF this assms(1)] show ?thesis by simp
qed

subsection \<open>A rule of another tunnel\<close>

lemma forget_rules_extends: "state_io_rel extends (forget_rules w d ls)"
  by (rule io_rel_weaken[OF forget_rules_removes]) (simp add: only_removes_def)

text \<open>The rule of a mark was deleted and its table flushed.\<close>

definition rule_dropped :: "string \<Rightarrow> string \<Rightarrow> host \<Rightarrow> host \<Rightarrow> bool" where
  "rule_dropped mark table h h' \<longleftrightarrow> extends h h' \<and>
     asked (set (since h h')) (rule_del_cmd mark table) \<and> asked (set (since h h')) (table_flush_cmd table)"

lemma rule_dropped_more:
  assumes "extends h h1" "extends h1 h2" "rule_dropped mark table h h1 \<or> rule_dropped mark table h1 h2"
  shows "rule_dropped mark table h h2"
  using assms since_grows[of h h1 h2] extends_trans[of h h1 h2] unfolding rule_dropped_def asked_def by blast

lemma forget_rule_drops:
  assumes "\<And>log. e_Run (w_Env w) log (routes_cmd table) = Inr routes" "Contains routes device"
  shows "wp (forget_rule w device (mark, table)) (\<lambda>_. rule_dropped mark table h) h"
  using assms by (auto simp: forget_rule_def rule_dropped_def wp_rules extends_def asked_def)

lemma forget_rules_drop:
  assumes "\<And>log. e_Run (w_Env w) log (routes_cmd table) = Inr routes" "Contains routes device"
    and "line \<in> set ls" "markAndTable line = Some (mark, table)"
  shows "wp (forget_rules w device ls) (\<lambda>_. rule_dropped mark table h) h"
  using assms(3)
proof (induction ls arbitrary: h)
  case (Cons l ls)
  show ?case
  proof (cases "line = l")
    case True
    show ?thesis
      unfolding forget_rules.simps wp_bind True[symmetric] assms(4) option.case
    proof (rule wp_mono[OF forget_rule_drops[OF assms(1,2)]])
      fix u h1 assume d: "rule_dropped mark table h h1"
      show "wp (forget_rules w device ls) (\<lambda>_. rule_dropped mark table h) h1"
        by (rule wp_mono[OF io_rel_wp[OF forget_rules_extends]])
          (rule rule_dropped_more[OF d[unfolded rule_dropped_def, THEN conjunct1] _ disjI1[OF d]])
    qed
  next
    case False
    have "state_io_rel extends (case markAndTable l of None \<Rightarrow> returns () | Some mt \<Rightarrow> forget_rule w device mt)"
      by (auto intro!: io_rel simp: forget_rule_def)
    then show ?thesis
      unfolding forget_rules.simps wp_bind
    proof (rule wp_mono[OF io_rel_wp])
      fix u h1 assume e: "extends h h1"
      have "line \<in> set ls" using Cons.prems False by simp
      then show "wp (forget_rules w device ls) (\<lambda>_. rule_dropped mark table h) h1"
        by (rule wp_mono[OF Cons.IH])
          (use rule_dropped_more[OF e] in \<open>auto simp: rule_dropped_def[of mark table h1]\<close>)
    qed
  qed
qed simp

text \<open>The rule of a removed tunnel is found by its device's name occurring in the routes of a table, so a live
  tunnel whose name begins with the removed one's loses its rule and its table too.\<close>
theorem removal_takes_a_neighbours_rule:
  assumes "e_Run (w_Env w) (h_Log h) rules_cmd = Inr rules" "line \<in> set (Split NL rules)"
    and "markAndTable line = Some (mark, table)"
    and "\<And>log. e_Run (w_Env w) log (routes_cmd table) = Inr routes" "Contains routes (EgressInterface (i @ rest))"
    and "run_state (forgetRouting w (''vpn-hub-'' @ i)) h = (u, h')"
  shows "rule_dropped mark table h h'"
proof -
  let ?h = "h\<lparr>h_Log := Ran rules_cmd (Inr rules) # h_Log h\<rparr>"
  have device: "Contains routes (''vh-'' @ i)"
    using assms(5) unfolding Contains_iff EgressInterface_def by (metis append.assoc)
  have "tunnel_of_namespace (''vpn-hub-'' @ i) = i" by (simp add: tunnel_of_namespace_def TrimPrefix_def HasPrefix_def)
  moreover have "wp (forget_rules w (''vh-'' @ i) (Split NL rules)) (\<lambda>_. rule_dropped mark table h) ?h"
  proof (rule wp_mono[OF forget_rules_drop[OF assms(4) device assms(2,3)]])
    fix u h1 assume d: "rule_dropped mark table ?h h1"
    have more: "extends h ?h" by (simp add: extends_def)
    show "rule_dropped mark table h h1"
      by (rule rule_dropped_more[OF more d[unfolded rule_dropped_def, THEN conjunct1] disjI2[OF d]])
  qed
  ultimately have "wp (forgetRouting w (''vpn-hub-'' @ i)) (\<lambda>_. rule_dropped mark table h) h"
    using assms(1) unfolding forgetRouting_def wp_bind wp_answered by (simp del: NL_def)
  from wpD[OF this assms(6)] show ?thesis .
qed

subsection \<open>A host that cooperates\<close>

text \<open>Commands and writes succeed, and what is parsed can be parsed.\<close>

definition cooperative :: "world \<Rightarrow> egress_spec \<Rightarrow> bool" where
  "cooperative w spec \<longleftrightarrow> obliging (w_Env w) \<and> (\<forall>out. isOk (parseNamespaces w out)) \<and>
     (\<forall>log name. isOk (w_Lookup w log name)) \<and>
     (\<forall>log out t. e_Run (w_Env w) log (dump_in_cmd spec t) = Inr out \<longrightarrow> isOk (ParseDump out)) \<and>
     (es_Type spec = TunnelXray \<longrightarrow> isOk (RenderSingBoxConfig (es_Proxy spec)))"

lemma obliging_await [successes]: "obliging (w_Env w) \<Longrightarrow> succeeds (await_device w failure n cmd)"
  by (cases n) (auto simp: succeeds_wp wp_rules obliging_def isOk_def mapErr_def split: sum.splits)

lemma obliging_keep [successes]: "obliging (w_Env w) \<Longrightarrow> succeeds (keep_or_restart w c answers u n p)"
  unfolding keep_or_restart_def restart_supervised_def by (intro successes)

lemma obliging_rule [successes]: "obliging (w_Env w) \<Longrightarrow> succeeds (add_rule_once w s a t)"
  unfolding add_rule_once_def by (intro successes) (auto split: sum.split intro!: successes)

lemma obliging_create [successes]:
  "obliging (w_Env w) \<Longrightarrow> succeeds (create_device w spec k)" "obliging (w_Env w) \<Longrightarrow> succeeds (create_link w spec)"
  "obliging (w_Env w) \<Longrightarrow> succeeds (prove_namespace w e n)"
  unfolding create_device_def create_link_def prove_namespace_def namespaceLifecycle_def
  by (intro successes, auto split: sum.split intro!: successes simp: isOk_def)+

lemma obliging_nat [successes]:
  "obliging (w_Env w) \<Longrightarrow> succeeds (ensureNamespaceNAT w spec)" "obliging (w_Env w) \<Longrightarrow> succeeds (applyRuleset w r)"
  unfolding ensureNamespaceNAT_def applyNamespaceRuleset_def applyRuleset_def by (intro successes; assumption)+

lemma obliging_keys [successes]:
  "obliging (w_Env w) \<Longrightarrow> succeeds (writeKey w e n s)" "obliging (w_Env w) \<Longrightarrow> succeeds (preshared_args w e spec)"
  unfolding writeKey_def preshared_args_def by (auto intro!: successes simp: isOk_def)

lemma cooperative_peers: "cooperative w spec \<Longrightarrow> succeeds (removeOtherPeers w spec t)"
proof -
  assume co: "cooperative w spec"
  have "wp (removeOtherPeers w spec t) (\<lambda>r _. isOk r) h" for h
  proof -
    obtain out where out: "e_Run (w_Env w) (h_Log h) (dump_in_cmd spec t) = Inr out"
      using co obliging_exec[of "w_Env w" "h_Log h" "dump_in_cmd spec t"] by (auto simp: cooperative_def)
    moreover have "e_Run (w_Env w) (h_Log h) (dump_in_cmd spec t) = Inr out \<Longrightarrow> isOk (ParseDump out)"
      using co unfolding cooperative_def by blast
    ultimately obtain o' where o': "ParseDump out = Inr o'" by (auto simp: isOk_iff)
    have "succeeds (forEach ps (\<lambda>p. run (w_Env w) (f p)))" for ps :: "peer_observation list" and f
      using co by (auto intro!: successes simp: cooperative_def)
    then show ?thesis by (simp add: removeOtherPeers_def wp_rules out o' succeeds_wp)
  qed
  then show ?thesis by (simp add: succeeds_wp)
qed

lemma cooperative_remotes: "cooperative w spec \<Longrightarrow> succeeds (ensureRemoteRoutes w spec)"
proof -
  assume co: "cooperative w spec"
  have "succeeds (resolved w name)" for name
    using co by (auto simp: succeeds_def resolved_def cooperative_def isOk_iff)
  then show ?thesis using co unfolding ensureRemoteRoutes_def by (auto intro!: successes simp: cooperative_def)
qed

lemma cooperative_tunnel: "cooperative w spec \<Longrightarrow> succeeds (ensureTunnel w e spec)"
proof -
  assume co: "cooperative w spec"
  then have env: "obliging (w_Env w)" by (simp add: cooperative_def)
  show ?thesis
    using co unfolding ensureTunnel_def ensureProxy_def ensureOpenVPN_def ensureWireGuardLike_def ensureProxyEscapeRoute_def
      ensureProxyRoutes_def ensureOpenVPNRoutes_def configure_device_def Let_def
    by (auto intro!: successes env cooperative_peers cooperative_remotes simp: cooperative_def)
qed

lemma cooperative_one: assumes "cooperative w spec" shows "succeeds (applyOne w e spec)"
proof -
  have env: "obliging (w_Env w)" using assms by (simp add: cooperative_def)
  have observe: "succeeds (EgressObserve w)"
    using assms unfolding EgressObserve_def by (auto intro!: successes env simp: cooperative_def)
  show "succeeds (applyOne w e spec)"
    unfolding applyOne_def ensureNamespace_def namespaceLifecycle_def enableForwarding_def ensureLink_def
      ensurePolicyRouting_def ensureSocks_def forwardSocks_def Let_def
    by (intro successes observe env cooperative_tunnel assms) (simp_all add: isOk_def)
qed

lemma cooperative_runs: "cooperative w spec \<Longrightarrow> \<exists>h'. run_state (applyOne w e spec) h = (Inr (), h')"
  using succeeds_run[OF cooperative_one] by (metis old.unit.exhaust)


subsection \<open>Instances\<close>

definition sample_egress :: egress_spec where
  "sample_egress = \<lparr>es_TunnelID = ''nl'', es_Namespace = ''vpn-hub-nl'', es_HostVeth = ''vh-nl'', es_PeerVeth = ''uplink0'',
     es_HostAddress = ''10.255.0.1/30'', es_PeerAddress = ''10.255.0.2/30'', es_Mark = 257, es_RouteTable = 100,
     es_ClientCIDR = ''10.80.0.0/24'', es_Interface = ''ovpn0'', es_SocksPort = 11080, es_Type = TunnelOpenVPN,
     es_Tunnel = zero_wireguard, es_Proxy = zero_proxy, es_OpenVPN = zero_openvpn\<lparr>ov_Config := ''client''\<rparr>\<rparr>"

definition sample_egress_adapter :: egress_adapter where
  "sample_egress_adapter = \<lparr>ea_SecretsDir = [], ea_RulePriority = 0, ea_DirectNamespaces = False\<rparr>"

definition world_with :: "env \<Rightarrow> string list \<Rightarrow> world" where
  "world_with env names = \<lparr>w_Env = env, w_Lookup = \<lambda>_ _. Inr [], w_Stat = \<lambda>_ _. True, w_Names = \<lambda>_. Some names\<rparr>"

definition answering :: "(string list \<times> string) list \<Rightarrow> env" where
  "answering answers = calm_env\<lparr>e_Run := \<lambda>_ cmd. case map_of answers cmd of None \<Rightarrow> Inr [] | Some out \<Rightarrow> Inr out\<rparr>"

definition only_lists :: env where
  "only_lists = calm_env\<lparr>e_Run := \<lambda>_ cmd. if cmd = list_namespaces then Inr ''[1]'' else Inl ''down''\<rparr>"

text \<open>A host that answers everything with the dump of an interface without peers.\<close>

definition bare_dump :: string where
  "bare_dump = ''key='' @ [TAB] @ ''pub='' @ [TAB] @ ''585'' @ [TAB] @ ''off''"

definition dumping :: world where
  "dumping = world_with (calm_env\<lparr>e_Run := \<lambda>_ _. Inr bare_dump\<rparr>) []"

lemma dumping_simps [simp]:
  "e_Run (w_Env dumping) l c = Inr bare_dump" "parseNamespaces dumping out = Inr []" "w_Lookup dumping l n = Inr []"
  by (simp_all add: dumping_def world_with_def parseNamespaces_def Let_def)

lemma dumping_cooperates: "es_Type spec \<noteq> TunnelXray \<Longrightarrow> cooperative dumping spec"
proof -
  have "isOk (ParseDump bare_dump)" by code_simp
  then show "es_Type spec \<noteq> TunnelXray \<Longrightarrow> cooperative dumping spec"
    by (simp add: cooperative_def obliging_def isOk_def dumping_def world_with_def parseNamespaces_def Let_def)
qed

lemma sample_cooperates: "cooperative dumping sample_egress"
  by (rule dumping_cooperates) (simp add: sample_egress_def)


theorem success_means_every_tunnel_converged_witness:
  "\<exists>h'. run_state (EgressApply dumping sample_egress_adapter [sample_egress]) bare_host = (Inr (), h') \<and>
     steered sample_egress_adapter sample_egress (set (since bare_host h')) \<and> closed_in sample_egress (set (since bare_host h'))"
proof -
  obtain h1 where "run_state (applyOne dumping sample_egress_adapter sample_egress) bare_host = (Inr (), h1)"
    using cooperative_runs[OF sample_cooperates] by blast
  then have "run_state (applyAll dumping sample_egress_adapter [sample_egress]) bare_host = ([], h1)"
    by (simp add: wrapping_def returns_def errors_of_def)
  moreover have "wp (collect_dropped dumping sample_egress_adapter [sample_egress] []) (\<lambda>r _. r = Inr ()) h1"
    unfolding collect_dropped_def EgressObserve_def wp_rules by (simp add: dropped_def joined_def wp_rules)
  moreover obtain r h' where collected: "run_state (collect_dropped dumping sample_egress_adapter [sample_egress] []) h1 = (r, h')"
    by (rule prod.exhaust)
  ultimately have h': "run_state (EgressApply dumping sample_egress_adapter [sample_egress]) bare_host = (Inr (), h')"
    using wpD[OF _ collected, of "\<lambda>r _. r = Inr ()"] by (simp add: EgressApply_def del: applyAll.simps)
  show ?thesis using success_means_every_tunnel_converged[OF h', of sample_egress] h' by simp
qed

theorem routing_stands_before_the_tunnel_witness:
  "\<exists>r h' newer a older. run_state (applyOne dumping sample_egress_adapter sample_egress) bare_host = (r, h') \<and>
     h_Log h' = newer @ Ran (default_route_cmd sample_egress) a # older @ h_Log bare_host \<and>
     steered sample_egress_adapter sample_egress (set older)"
proof -
  obtain h' where h': "run_state (applyOne dumping sample_egress_adapter sample_egress) bare_host = (Inr (), h')"
    using cooperative_runs[OF sample_cooperates] by blast
  have finished: "extends bare_host h'" "closed_in sample_egress (set (since bare_host h'))" using apply_one_done[OF h'] by simp_all
  then obtain out where "Ran (default_route_cmd sample_egress) (Inr out) \<in> set (since bare_host h')" by (auto simp: closed_in_def)
  then obtain newer older where split: "since bare_host h' = newer @ Ran (default_route_cmd sample_egress) (Inr out) # older"
    by (meson split_list)
  have log: "h_Log h' = newer @ Ran (default_route_cmd sample_egress) (Inr out) # older @ h_Log bare_host"
    using log_since[OF finished(1)] unfolding split by simp
  have "steered sample_egress_adapter sample_egress (set older)"
    by (rule routing_stands_before_the_tunnel[OF h' log]) (simp add: starts_tunnel_def)
  then show ?thesis using h' log by blast
qed

theorem dropped_tunnels_are_taken_down_witness:
  "\<exists>r h'. run_state (EgressApply (world_with only_lists [''vpn-hub-old'']) sample_egress_adapter [sample_egress]) bare_host = (r, h') \<and>
     taken_down sample_egress_adapter bare_host h' ''vpn-hub-old''"
proof -
  let ?w = "world_with only_lists [''vpn-hub-old'']"
  obtain r h' where h': "run_state (EgressApply ?w sample_egress_adapter [sample_egress]) bare_host = (r, h')" by fastforce
  have "TrimSpace ''[1]'' = ''[1]''" by code_simp
  then have "\<exists>out ns. e_Run (w_Env ?w) log list_namespaces = Inr out \<and> parseNamespaces ?w out = Inr ns \<and> ''vpn-hub-old'' \<in> set ns" for log
    by (simp add: world_with_def only_lists_def parseNamespaces_def)
  then have "taken_down sample_egress_adapter bare_host h' ''vpn-hub-old''"
    by (rule dropped_tunnels_are_taken_down[OF h']) (simp_all add: HasPrefix_def sample_egress_def)
  then show ?thesis using h' by blast
qed

definition a_rule :: string where
  "a_rule = ''1000: from all fwmark 0x101 lookup 101''"

theorem removal_takes_a_neighbours_rule_witness:
  "\<exists>u h'. run_state (forgetRouting (world_with (answering
       [(rules_cmd, a_rule), (routes_cmd ''101'', ''default via 10.255.0.6 dev vh-nl-2'')]) []) ''vpn-hub-nl'') bare_host = (u, h') \<and>
     rule_dropped ''0x101'' ''101'' bare_host h'"
proof -
  let ?w = "world_with (answering [(rules_cmd, a_rule), (routes_cmd ''101'', ''default via 10.255.0.6 dev vh-nl-2'')]) []"
  obtain u h' where h': "run_state (forgetRouting ?w (''vpn-hub-'' @ ''nl'')) bare_host = (u, h')" by (rule prod.exhaust)
  have "rule_dropped ''0x101'' ''101'' bare_host h'"
  proof (rule removal_takes_a_neighbours_rule[OF _ _ _ _ _ h'])
    show "e_Run (w_Env ?w) (h_Log bare_host) rules_cmd = Inr a_rule" by (simp add: world_with_def answering_def)
    show "a_rule \<in> set (Split NL a_rule)" by code_simp
    show "markAndTable a_rule = Some (''0x101'', ''101'')" by code_simp
    show "e_Run (w_Env ?w) log (routes_cmd ''101'') = Inr ''default via 10.255.0.6 dev vh-nl-2''" for log
      by (simp add: world_with_def answering_def rules_cmd_def routes_cmd_def)
    show "Contains ''default via 10.255.0.6 dev vh-nl-2'' (EgressInterface (''nl'' @ ''-2''))" by code_simp
  qed
  then show ?thesis using h' by auto
qed

end
