(* ===== verification/OpenVPNClaims.thy ===== *)
theory OpenVPNClaims
  imports EgressPass
begin

text \<open>
  The stage an OpenVPN client reports does not depend on how its reply is cut into reads.
\<close>

subsection \<open>Complete lines\<close>

lemma Split_pieces: "Split c (s @ c # t) = Split c s @ Split c t"
  by (induction s) (auto split: list.splits)

lemma Split_longer: "\<exists>us. Split c (s @ t) = butlast (Split c s) @ us \<and> us \<noteq> []"
proof (induction s)
  case (Cons a s)
  then show ?case using Split_nonempty[of c s] by (cases "Split c s") (auto split: list.splits if_splits)
qed simp

lemma map_filter_append: "List.map_filter f (xs @ ys) = List.map_filter f xs @ List.map_filter f ys"
  by (induction xs) (auto simp: List.map_filter_simps split: option.split)

text \<open>The lines a reading considers, up to an empty one at the end.\<close>

definition settled :: "string \<Rightarrow> string list" where
  "settled s = butlast (Split NL s)"

lemma stage_empty [simp]: "stage_of [] = None"
  by code_simp

lemma parse_settled:
  "parseOpenVPNState s = (case List.map_filter stage_of (settled s) of [] \<Rightarrow> None | x # _ \<Rightarrow> Some x)"
proof (cases "HasSuffix s [NL]")
  case True
  then obtain l where "s = l @ NL # []" by (auto simp: HasSuffix_iff)
  then have "Split NL s = settled s @ [[]]" by (simp only: settled_def Split_pieces) simp
  then show ?thesis using True
    by (simp add: parseOpenVPNState_def complete_lines_def map_filter_append List.map_filter_simps del: NL_def)
qed (simp add: parseOpenVPNState_def complete_lines_def settled_def)

lemma settled_line: "NL \<notin> set l \<Longrightarrow> settled (l @ NL # t) = l # settled t"
  by (simp add: settled_def Split_append del: NL_def)

lemma parse_longer:
  assumes "parseOpenVPNState s = Some x"
  shows "parseOpenVPNState (s @ t) = Some x"
proof -
  obtain us where "Split NL (s @ t) = settled s @ us" "us \<noteq> []" using Split_longer by (metis settled_def)
  then have "settled (s @ t) = settled s @ butlast us" by (simp add: settled_def butlast_append)
  then show ?thesis using assms by (auto simp: parse_settled map_filter_append split: list.splits)
qed

subsection \<open>A reply\<close>

definition banner_text :: "string list \<Rightarrow> string" where
  "banner_text ls = concat (map (\<lambda>l. l @ [NL]) ls)"

text \<open>Lines that say nothing, and the line that does.\<close>

definition idle_line :: "string \<Rightarrow> bool" where
  "idle_line l \<longleftrightarrow> NL \<notin> set l \<and> stage_of l = None \<and> \<not> HasPrefix l ''END''"

definition state_line :: "string \<Rightarrow> string \<Rightarrow> bool" where
  "state_line l stage \<longleftrightarrow> NL \<notin> set l \<and> stage_of l = Some stage \<and> \<not> HasPrefix l ''END''"

lemma parse_reply:
  "\<forall>l \<in> set ls. idle_line l \<Longrightarrow> state_line l stage \<Longrightarrow> parseOpenVPNState (banner_text ls @ l @ NL # t) = Some stage"
proof (induction ls)
  case Nil
  then show ?case by (simp add: parse_settled banner_text_def settled_line state_line_def List.map_filter_simps del: NL_def)
next
  case (Cons b ls)
  then have "settled (banner_text (b # ls) @ l @ NL # t) = b # settled (banner_text ls @ l @ NL # t)"
    by (simp add: banner_text_def settled_line idle_line_def del: NL_def)
  then show ?case using Cons by (simp add: parse_settled List.map_filter_simps idle_line_def del: NL_def)
qed

lemma Split_banner:
  "\<forall>l \<in> set ls. idle_line l \<Longrightarrow> state_line l stage \<Longrightarrow> Split NL (banner_text ls @ l) = ls @ [l]"
  by (induction ls) (simp_all add: banner_text_def Split_append Split_no_sep idle_line_def state_line_def del: NL_def)

lemma Split_END: "HasPrefix e ''END'' \<Longrightarrow> HasPrefix (hd (Split NL e)) ''END''"
proof -
  assume "HasPrefix e ''END''"
  then obtain t where "e = ''END'' @ t" by (auto simp: HasPrefix_iff)
  then show ?thesis by (cases "Split NL t") (simp_all add: HasPrefix_def)
qed

text \<open>A beginning of the reply that says nothing yet does not look finished.\<close>

lemma beginning_not_ended:
  assumes "\<forall>l \<in> set ls. idle_line l" "state_line l stage" "banner_text ls @ l = seen @ later"
  shows "\<not> reply_ended seen"
proof
  assume "reply_ended seen"
  then obtain a e where e: "HasPrefix e ''END''" "seen @ later = a @ NL # e \<or> seen @ later = e"
    unfolding reply_ended_def Contains_iff HasPrefix_iff by (metis append.assoc append_Cons)
  have "hd (Split NL e) \<in> set (Split NL e)" by (simp add: hd_in_set)
  also have "\<dots> \<subseteq> set (Split NL (seen @ later))" using e(2) Split_pieces[of NL a e] by auto
  finally have "hd (Split NL e) \<in> set (Split NL (seen @ later))" .
  moreover have "HasPrefix (hd (Split NL e)) ''END''" by (rule Split_END[OF e(1)])
  moreover have "set (Split NL (seen @ later)) = set (ls @ [l])" using Split_banner[OF assms(1,2)] assms(3) by simp
  ultimately have "\<exists>x \<in> set (ls @ [l]). HasPrefix x ''END''" by blast
  then show False using assms(1,2) by (auto simp: idle_line_def state_line_def)
qed

lemma unread_is_short:
  assumes "\<forall>l \<in> set ls. idle_line l" "state_line l stage" "banner_text ls @ l @ NL # t = seen @ later"
    and "parseOpenVPNState seen = None"
  shows "\<exists>rest'. banner_text ls @ l = seen @ rest'"
proof (rule ccontr)
  assume no: "\<nexists>rest'. banner_text ls @ l = seen @ rest'"
  have "(banner_text ls @ l) @ NL # t = seen @ later" using assms(3) by simp
  then obtain us where "banner_text ls @ l @ us = seen" "NL # t = us @ later"
    using no by (auto simp: append_eq_append_conv2 simp del: NL_def)
  then obtain us' where "us = NL # us'" using no by (cases us) auto
  then have "seen = banner_text ls @ l @ NL # us'" using \<open>banner_text ls @ l @ us = seen\<close> by simp
  then show False using parse_reply[OF assms(1,2)] assms(4) by simp
qed

lemma state_read:
  assumes "\<forall>l \<in> set ls. idle_line l" "state_line l stage" "\<forall>(chunk, broke) \<in> set reads. \<not> broke"
    and "seen @ concat (map fst reads) = banner_text ls @ l @ NL # t" "parseOpenVPNState seen = None"
  shows "OpenVPNState seen reads = Some stage"
  using assms(3-5)
proof (induction reads arbitrary: seen)
  case Nil
  then show ?case using parse_reply[OF assms(1,2)] by simp
next
  case (Cons r reads)
  obtain chunk where r: "r = (chunk, False)" using Cons.prems(1) by (cases r) auto
  let ?now = "seen @ chunk"
  have whole: "banner_text ls @ l @ NL # t = ?now @ concat (map fst reads)" using Cons.prems(2) r by simp
  show ?case
  proof (cases "parseOpenVPNState ?now")
    case None
    obtain later where "banner_text ls @ l = ?now @ later" using unread_is_short[OF assms(1,2) whole None] by blast
    then have "\<not> reply_ended ?now" by (rule beginning_not_ended[OF assms(1,2)])
    then show ?thesis using None r Cons.IH[of ?now] Cons.prems by (simp add: Let_def)
  next
    case (Some x)
    have "parseOpenVPNState (banner_text ls @ l @ NL # t) = Some x"
      unfolding whole by (rule parse_longer[OF Some])
    then have "x = stage" using parse_reply[OF assms(1,2), of t] by (simp del: NL_def)
    moreover have "chunk \<noteq> []" using Some Cons.prems(3) by auto
    ultimately show ?thesis using Some r by (simp add: Let_def)
  qed
qed

text \<open>C40: The stage of an OpenVPN client is read whole however its reply is cut into reads: a state line that arrives in
  pieces, or behind the greeting, is reported only once its end is there.\<close>
theorem the_stage_survives_fragmentation:
  assumes "\<forall>l \<in> set banner. idle_line l" "state_line line stage"
    and "concat (map fst reads) = banner_text banner @ line @ [NL] @ rest" "\<forall>(chunk, broke) \<in> set reads. \<not> broke"
  shows "OpenVPNState [] reads = Some stage"
  using assms(3) by (intro state_read[OF assms(1,2,4), where t = rest]) (simp_all add: parse_settled settled_def List.map_filter_simps)

theorem the_stage_survives_fragmentation_witness:
  "OpenVPNState [] [(''>INFO:OpenVPN Manag'', False), (''ement'' @ [NL] @ ''1700000000,CONN'', False), (''ECTED,SUCCESS'' @ [NL], False),
     (''END'' @ [NL], False)] = Some ''CONNECTED''"
proof (rule the_stage_survives_fragmentation)
  show "\<forall>l \<in> set [''>INFO:OpenVPN Management'']. idle_line l" by code_simp
  show "state_line ''1700000000,CONNECTED,SUCCESS'' ''CONNECTED''" by code_simp
qed (simp_all add: banner_text_def)

end
