(* ===== verification/UpstreamParsers.thy ===== *)
theory UpstreamParsers
  imports DomainRules GoURL
begin

text \<open>
  The readers of a provider's configuration: \<open>wgconfig.go\<close>, \<open>ovpn.go\<close> and \<open>vless.go\<close> of
  \<open>internal/adapters/linux\<close>.  Each is a function from the text of the file to the tunnel or the
  error with its line.
\<close>

subsection \<open>A WireGuard configuration (wgconfig.go)\<close>

datatype conf_error =
    MorePeers nat | NotKeyValue nat string | BadMTU nat string | BadKeepalive nat string
  | MissingFields "string list" | PeerKeyInvalid key_error | InterfaceKeyInvalid key_error

text \<open>\<open>strconv.Atoi\<close> on a 64-bit machine.\<close>

definition Atoi :: "string \<Rightarrow> int option" where
  "Atoi s = ParseInt64 s"

definition splitList :: "string \<Rightarrow> string list" where
  "splitList v = filter (\<lambda>p. p \<noteq> []) (map TrimSpace (Split CHR '','' v))"

record conf_state =
  cs_Section :: string
  cs_SeenPeer :: bool
  cs_Tunnel :: wireguard_tunnel

definition is_comment :: "string \<Rightarrow> bool" where
  "is_comment line \<longleftrightarrow> line = [] \<or> HasPrefix line ''#'' \<or> HasPrefix line '';''"

definition section_line :: "nat \<Rightarrow> string \<Rightarrow> conf_state \<Rightarrow> (conf_error, conf_state) result" where
  "section_line number line st =
     (let section = ToLower (TrimSet line ''[]'') in
      if section = ''peer'' \<and> cs_SeenPeer st then Inl (MorePeers (number + 1))
      else Inr (st\<lparr>cs_Section := section, cs_SeenPeer := (section = ''peer'' \<or> cs_SeenPeer st)\<rparr>))"

text \<open>The map of obfuscation parameters, newest entry first.\<close>

definition interface_key :: "nat \<Rightarrow> string \<Rightarrow> string \<Rightarrow> wireguard_tunnel \<Rightarrow> (conf_error, wireguard_tunnel) result" where
  "interface_key number key v t =
     (if key = ''privatekey'' then Inr (t\<lparr>wt_PrivateKey := v\<rparr>)
      else if key = ''address'' then Inr (t\<lparr>wt_Addresses := splitList v\<rparr>)
      else if key = ''dns'' then Inr (t\<lparr>wt_DNS := splitList v\<rparr>)
      else if key = ''mtu'' then
        (case Atoi v of None \<Rightarrow> Inl (BadMTU (number + 1) v) | Some mtu \<Rightarrow> Inr (t\<lparr>wt_MTU := mtu\<rparr>))
      else (case CanonicalAWGParameter key of
          None \<Rightarrow> Inr t
        | Some canonical \<Rightarrow> Inr (t\<lparr>wt_Parameters := (canonical, v) # wt_Parameters t\<rparr>)))"

definition peer_key :: "nat \<Rightarrow> string \<Rightarrow> string \<Rightarrow> wireguard_peer \<Rightarrow> (conf_error, wireguard_peer) result" where
  "peer_key number key v p =
     (if key = ''publickey'' then Inr (p\<lparr>wp_PublicKey := v\<rparr>)
      else if key = ''presharedkey'' then Inr (p\<lparr>wp_PresharedKey := v\<rparr>)
      else if key = ''endpoint'' then Inr (p\<lparr>wp_Endpoint := v\<rparr>)
      else if key = ''allowedips'' then Inr (p\<lparr>wp_AllowedIPs := splitList v\<rparr>)
      else if key = ''persistentkeepalive'' then
        (case Atoi v of None \<Rightarrow> Inl (BadKeepalive (number + 1) v) | Some k \<Rightarrow> Inr (p\<lparr>wp_Keepalive := k\<rparr>))
      else Inr p)"

definition conf_line :: "conf_state \<Rightarrow> nat \<times> string \<Rightarrow> (conf_error, conf_state) result" where
  "conf_line st = (\<lambda>(number, raw).
     let line = TrimSpace raw; t = cs_Tunnel st in
     if is_comment line then Inr st
     else if HasPrefix line ''['' \<and> HasSuffix line '']'' then section_line number line st
     else case CutByte CHR ''='' line of
       None \<Rightarrow> Inl (NotKeyValue (number + 1) line)
     | Some (k, v) \<Rightarrow>
         let key = ToLower (TrimSpace k); v = TrimSpace v in
         if cs_Section st = ''interface''
         then bindE (interface_key number key v t) (\<lambda>t'. Inr (st\<lparr>cs_Tunnel := t'\<rparr>))
         else if cs_Section st = ''peer''
         then bindE (peer_key number key v (wt_Peer t)) (\<lambda>p. Inr (st\<lparr>cs_Tunnel := t\<lparr>wt_Peer := p\<rparr>\<rparr>))
         else Inr st)"

definition missing_fields :: "wireguard_tunnel \<Rightarrow> string list" where
  "missing_fields t =
     (if wt_PrivateKey t = [] then [''Interface.PrivateKey''] else []) @
     (if wt_Addresses t = [] then [''Interface.Address''] else []) @
     (if wp_PublicKey (wt_Peer t) = [] then [''Peer.PublicKey''] else []) @
     (if wp_Endpoint (wt_Peer t) = [] then [''Peer.Endpoint''] else [])"

definition validateTunnelConfig :: "wireguard_tunnel \<Rightarrow> (conf_error, unit) result" where
  "validateTunnelConfig t =
     (if missing_fields t \<noteq> [] then Inl (MissingFields (missing_fields t))
      else bindE (mapErr PeerKeyInvalid (ValidatePublicKey (wp_PublicKey (wt_Peer t)))) (\<lambda>_.
           bindE (mapErr InterfaceKeyInvalid (PublicKeyFromPrivate (wt_PrivateKey t))) (\<lambda>_. Inr ())))"

definition empty_conf :: conf_state where
  "empty_conf = \<lparr>cs_Section = [], cs_SeenPeer = False, cs_Tunnel = zero_wireguard\<rparr>"

definition ParseWireGuardConfig :: "string \<Rightarrow> (conf_error, wireguard_tunnel) result" where
  "ParseWireGuardConfig content =
     bindE (foldE conf_line empty_conf (enumerate 0 (Split NL content))) (\<lambda>st.
     bindE (validateTunnelConfig (cs_Tunnel st)) (\<lambda>_. Inr (cs_Tunnel st)))"

subsection \<open>An OpenVPN configuration (ovpn.go)\<close>

datatype ovpn_error =
    MalformedTag nat string | StrayClose nat string | MismatchedClose nat string string
  | UnsupportedBlock nat string | NestedBlock nat string string | CredentialBlock nat
  | Unterminated nat string | ExternalFile nat string | ExternalCommand nat string
  | RemoteWithoutHost nat | BadRemotePort nat string | WouldPrompt nat | NoRemote

definition inlineBlocks :: "string list" where
  "inlineBlocks =
     [''ca'', ''cert'', ''key'', ''tls-auth'', ''tls-crypt'', ''auth-user-pass'', ''http-proxy-user-pass'', ''pkcs12'',
      ''tls-crypt-v2'']"

definition externalFileDirectives :: "string list" where
  "externalFileDirectives = [''auth-user-pass'', ''http-proxy-user-pass'', ''askpass'', ''pkcs12'', ''crl-verify'']"

definition isOpenVPNInlineBlock :: "string \<Rightarrow> bool" where
  "isOpenVPNInlineBlock name \<longleftrightarrow> name \<in> set inlineBlocks \<or> name = ''connection''"

definition parseOpenVPNInlineTag :: "string \<Rightarrow> (string \<times> bool) option" where
  "parseOpenVPNInlineTag line =
     (if length line < 3 \<or> \<not> HasSuffix line ''>'' then None
      else let inner = butlast (drop 1 line); closing = HasPrefix inner ''/'';
               name = (if closing then drop 1 inner else inner) in
        if name = [] \<or> ContainsAny name ('' <>/'' @ [TAB, CR, NL]) then None else Some (name, closing))"

text \<open>The block the scan is in, if any, with its first line and the credentials counted.\<close>

record inline_state =
  in_Lines :: "nat list"
  in_Complete :: bool
  in_Block :: string
  in_BlockLine :: nat
  in_Count :: nat

definition close_block :: "inline_state \<Rightarrow> (ovpn_error, inline_state) result" where
  "close_block st =
     (if in_Block st = ''auth-user-pass'' \<and> in_Count st \<noteq> 2 then Inl (CredentialBlock (in_BlockLine st))
      else Inr (st\<lparr>in_Complete := (in_Block st = ''auth-user-pass'' \<or> in_Complete st), in_Block := []\<rparr>))"

definition tag_line :: "nat \<Rightarrow> string \<Rightarrow> inline_state \<Rightarrow> (ovpn_error, inline_state) result" where
  "tag_line number line st =
     (case parseOpenVPNInlineTag line of
        None \<Rightarrow> Inl (MalformedTag (number + 1) line)
      | Some (name, closing) \<Rightarrow>
          let st = st\<lparr>in_Lines := number # in_Lines st\<rparr> in
          if closing then
            (if in_Block st = [] then Inl (StrayClose (number + 1) name)
             else if in_Block st \<noteq> name then Inl (MismatchedClose (number + 1) name (in_Block st))
             else close_block st)
          else if \<not> isOpenVPNInlineBlock name then Inl (UnsupportedBlock (number + 1) name)
          else if in_Block st \<noteq> [] then Inl (NestedBlock (number + 1) name (in_Block st))
          else Inr (st\<lparr>in_Block := name, in_Count := 0, in_BlockLine := number + 1\<rparr>))"

definition inline_line :: "inline_state \<Rightarrow> nat \<times> string \<Rightarrow> (ovpn_error, inline_state) result" where
  "inline_line st = (\<lambda>(number, raw).
     let line = TrimSpace raw in
     if in_Block st \<in> set inlineBlocks then
       (let st = st\<lparr>in_Lines := number # in_Lines st\<rparr> in
        if line = ''</'' @ in_Block st @ ''>'' then close_block st
        else if in_Block st = ''auth-user-pass'' \<and> line \<noteq> [] then Inr (st\<lparr>in_Count := in_Count st + 1\<rparr>)
        else Inr st)
     else if HasPrefix line ''<'' then tag_line number line st
     else Inr st)"

definition no_block :: inline_state where
  "no_block = \<lparr>in_Lines = [], in_Complete = False, in_Block = [], in_BlockLine = 0, in_Count = 0\<rparr>"

definition validateOpenVPNInlineBlocks :: "string \<Rightarrow> (ovpn_error, nat list \<times> bool) result" where
  "validateOpenVPNInlineBlocks content =
     bindE (foldE inline_line no_block (enumerate 0 (Split NL content))) (\<lambda>st.
       if in_Block st \<noteq> [] then Inl (Unterminated (in_BlockLine st) (in_Block st))
       else Inr (in_Lines st, in_Complete st))"

definition parse_remote :: "nat \<Rightarrow> string list \<Rightarrow> (ovpn_error, openvpn_remote) result" where
  "parse_remote number parts =
     (if length parts < 2 then Inl (RemoteWithoutHost (number + 1))
      else bindE (if length parts < 3 then Inr 1194
                  else of_option (BadRemotePort (number + 1) (parts ! 2)) (ParseUint 16 (parts ! 2))) (\<lambda>port.
        Inr \<lparr>or_Host = parts ! 1, or_Port = of_nat port,
             or_Protocol = (if 4 \<le> length parts then parts ! 3 else ''udp'')\<rparr>))"

definition ovpn_directive :: "bool \<Rightarrow> nat \<Rightarrow> string list \<Rightarrow> string \<Rightarrow> openvpn_tunnel \<Rightarrow> (ovpn_error, openvpn_tunnel) result" where
  "ovpn_directive credentials number parts directive t =
     (if directive = ''remote'' then
        bindE (parse_remote number parts) (\<lambda>r. Inr (t\<lparr>ov_Remotes := ov_Remotes t @ [r]\<rparr>))
      else if directive = ''proto'' then
        Inr (if 2 \<le> length parts then t\<lparr>ov_Protocol := parts ! 1\<rparr> else t)
      else if directive = ''dev'' then
        Inr (if 2 \<le> length parts then t\<lparr>ov_Device := parts ! 1\<rparr> else t)
      else if directive = ''redirect-gateway'' then Inr (t\<lparr>ov_RedirectsGateway := True\<rparr>)
      else if directive = ''auth-user-pass'' \<and> length parts = 1 \<and> \<not> credentials then Inl (WouldPrompt (number + 1))
      else Inr t)"

definition ovpn_line :: "nat list \<Rightarrow> bool \<Rightarrow> openvpn_tunnel \<Rightarrow> nat \<times> string \<Rightarrow> (ovpn_error, openvpn_tunnel) result" where
  "ovpn_line inline credentials t = (\<lambda>(number, raw).
     let line = TrimSpace raw; parts = Fields line; directive = TrimPrefix (hd parts) ''--'' in
     if number \<in> set inline \<or> is_comment line then Inr t
     else if length parts > 1 \<and> directive \<in> set externalFileDirectives then Inl (ExternalFile (number + 1) (hd parts))
     else if length parts > 1 \<and> directive = ''tls-crypt-v2-verify'' then Inl (ExternalCommand (number + 1) (hd parts))
     else ovpn_directive credentials number parts directive t)"

definition ParseOpenVPNConfig :: "string \<Rightarrow> (ovpn_error, openvpn_tunnel) result" where
  "ParseOpenVPNConfig content =
     bindE (validateOpenVPNInlineBlocks content) (\<lambda>(inline, credentials).
     bindE (foldE (ovpn_line inline credentials) (zero_openvpn\<lparr>ov_Config := content\<rparr>) (enumerate 0 (Split NL content))) (\<lambda>t.
       if ov_Remotes t = [] then Inl NoRemote else Inr t))"

subsection \<open>A share link (vless.go)\<close>

datatype link_error =
    NotAURL | WrongScheme string | NoUUID | BadHost string addr_error | BadPort string
  | RealityWithoutKey | RealityWithoutName | UnsupportedSecurity string | UnsupportedTransport string

definition link_tls :: "(string \<times> string) list \<Rightarrow> string \<Rightarrow> (link_error, proxy_tls) result" where
  "link_tls query host =
     (let security = QueryGet query ''security''; sni = QueryGet query ''sni''; fp = QueryGet query ''fp'' in
      if security = ''reality'' then
        (if QueryGet query ''pbk'' = [] then Inl RealityWithoutKey
         else if sni = [] then Inl RealityWithoutName
         else Inr \<lparr>pt_Enabled = True, pt_ServerName = sni, pt_Fingerprint = fp,
                   pt_Reality = \<lparr>pr_Enabled = True, pr_PublicKey = QueryGet query ''pbk'', pr_ShortID = QueryGet query ''sid''\<rparr>\<rparr>)
      else if security = ''tls'' then
        Inr (zero_proxy_tls\<lparr>pt_Enabled := True, pt_ServerName := (if sni = [] then host else sni), pt_Fingerprint := fp\<rparr>)
      else if security = [] \<or> security = ''none'' then Inr zero_proxy_tls
      else Inl (UnsupportedSecurity security))"

definition link_transport :: "(string \<times> string) list \<Rightarrow> (link_error, proxy_transport) result" where
  "link_transport query =
     (let transport = QueryGet query ''type'' in
      if transport = [] \<or> transport = ''tcp'' then Inr zero_proxy_transport
      else if transport = ''ws'' \<or> transport = ''httpupgrade'' then
        (let path = QueryGet query ''path'' in
         Inr (zero_proxy_transport\<lparr>px_Type := transport, px_Path := (if path = [] then ''/'' else path),
               px_Host := QueryGet query ''host''\<rparr>))
      else if transport = ''grpc'' then
        Inr (zero_proxy_transport\<lparr>px_Type := ''grpc'', px_ServiceName := QueryGet query ''serviceName''\<rparr>)
      else Inl (UnsupportedTransport transport))"

definition ParseVLESS :: "string \<Rightarrow> (link_error, proxy_tunnel) result" where
  "ParseVLESS link =
     (case URLParse (TrimSpace link) of
        None \<Rightarrow> Inl NotAURL
      | Some u \<Rightarrow>
          if url_Scheme u \<noteq> ''vless'' then Inl (WrongScheme (url_Scheme u))
          else (case url_User u of None \<Rightarrow> Inl NoUUID | Some uuid \<Rightarrow>
            if uuid = [] then Inl NoUUID
            else bindE (mapErr (BadHost (url_Host u)) (SplitHostPort (url_Host u))) (\<lambda>(host, rawPort).
              case ParseUint 16 rawPort of
                None \<Rightarrow> Inl (BadPort rawPort)
              | Some port \<Rightarrow>
                  if port = 0 then Inl (BadPort rawPort)
                  else let query = ParseQuery (url_RawQuery u) in
                    bindE (link_tls query host) (\<lambda>tls.
                    bindE (link_transport query) (\<lambda>transport.
                      Inr \<lparr>py_Protocol = ''vless'', py_Server = host, py_OriginServer = [], py_Port = of_nat port,
                           py_UUID = uuid, py_Flow = QueryGet query ''flow'', py_TLS = tls, py_Transport = transport\<rparr>)))))"

end
