(* ===== verification/PublicEndpoint.thy ===== *)
theory PublicEndpoint
  imports Domain GoNet
begin

text \<open>
  \<open>internal/adapters/health/public_endpoint.go\<close>: a provider's hostname is resolved once, every answer
  has to be a public address, and the tunnel dials one of them.  Also the dial guard and the redirect
  guard of \<open>health/subscription.go\<close>.  The resolver is a parameter.
\<close>

subsection \<open>Predicates of netip\<close>

fun Is4In6 :: "ip_addr \<Rightarrow> bool" where
  "Is4In6 (IPv6 w z) = (drop_bit 32 w = 0xffff)"
| "Is4In6 _ = False"

fun Unmap :: "ip_addr \<Rightarrow> ip_addr" where
  "Unmap (IPv6 w z) = (if drop_bit 32 w = 0xffff then IPv4 (ucast w) else IPv6 w z)"
| "Unmap ip = ip"

definition IsUnspecified :: "ip_addr \<Rightarrow> bool" where
  "IsUnspecified ip \<longleftrightarrow> ip = IPv4 0 \<or> ip = IPv6 0 []"

definition IsLoopback :: "ip_addr \<Rightarrow> bool" where
  "IsLoopback ip = (case Unmap ip of
     IPv4 w \<Rightarrow> drop_bit 24 w = 127 | IPv6 w z \<Rightarrow> w = 1 | NoAddr \<Rightarrow> False)"

definition IsMulticast :: "ip_addr \<Rightarrow> bool" where
  "IsMulticast ip = (case Unmap ip of
     IPv4 w \<Rightarrow> drop_bit 28 w = 0xe | IPv6 w z \<Rightarrow> drop_bit 120 w = 0xff | NoAddr \<Rightarrow> False)"

definition IsLinkLocalUnicast :: "ip_addr \<Rightarrow> bool" where
  "IsLinkLocalUnicast ip = (case Unmap ip of
     IPv4 w \<Rightarrow> drop_bit 16 w = 0xa9fe | IPv6 w z \<Rightarrow> drop_bit 118 w = 0x3fa | NoAddr \<Rightarrow> False)"

definition IsLinkLocalMulticast :: "ip_addr \<Rightarrow> bool" where
  "IsLinkLocalMulticast ip = (case Unmap ip of
     IPv4 w \<Rightarrow> drop_bit 8 w = 0xe00000
   | IPv6 w z \<Rightarrow> drop_bit 120 w = 0xff \<and> take_bit 4 (drop_bit 112 w) = 2 | NoAddr \<Rightarrow> False)"

definition IsPrivate :: "ip_addr \<Rightarrow> bool" where
  "IsPrivate ip = (case Unmap ip of
     IPv4 w \<Rightarrow> drop_bit 24 w = 10 \<or> drop_bit 20 w = 0xac1 \<or> drop_bit 16 w = 0xc0a8
   | IPv6 w z \<Rightarrow> drop_bit 121 w = 0x7e | NoAddr \<Rightarrow> False)"

definition IsGlobalUnicast :: "ip_addr \<Rightarrow> bool" where
  "IsGlobalUnicast ip \<longleftrightarrow>
     ip \<noteq> NoAddr \<and> Unmap ip \<noteq> IPv4 0 \<and> Unmap ip \<noteq> IPv4 0xffffffff \<and> Unmap ip \<noteq> IPv6 0 [] \<and>
     \<not> IsLoopback ip \<and> \<not> IsMulticast ip \<and> \<not> IsLinkLocalUnicast ip"

text \<open>\<open>Compare\<close>: by length, then value, then zone.\<close>

fun addr_value :: "ip_addr \<Rightarrow> nat" where
  "addr_value NoAddr = 0"
| "addr_value (IPv4 w) = unat w"
| "addr_value (IPv6 w z) = unat w"

fun addr_zone :: "ip_addr \<Rightarrow> string" where
  "addr_zone (IPv6 w z) = z"
| "addr_zone _ = []"

definition addr_before :: "ip_addr \<Rightarrow> ip_addr \<Rightarrow> bool" where
  "addr_before a b \<longleftrightarrow>
     BitLen a < BitLen b \<or>
     BitLen a = BitLen b \<and> (addr_value a < addr_value b \<or> addr_value a = addr_value b \<and> addr_zone a < addr_zone b)"

text \<open>The first of the sorted answers.\<close>

fun first_addr :: "ip_addr \<Rightarrow> ip_addr list \<Rightarrow> ip_addr" where
  "first_addr best [] = best"
| "first_addr best (a # as) = first_addr (if addr_before a best then a else best) as"

subsection \<open>Which addresses are public\<close>

definition ipv4Prefix :: "nat list \<Rightarrow> nat \<Rightarrow> ip_prefix" where
  "ipv4Prefix octets bits = \<lparr>pfx_addr = IPv4 (v4_of_octets octets), pfx_bits = bits\<rparr>"

definition special_v4 :: "ip_prefix list" where
  "special_v4 =
     [ipv4Prefix [0, 0, 0, 0] 8, ipv4Prefix [10, 0, 0, 0] 8, ipv4Prefix [100, 64, 0, 0] 10, ipv4Prefix [127, 0, 0, 0] 8,
      ipv4Prefix [169, 254, 0, 0] 16, ipv4Prefix [172, 16, 0, 0] 12, ipv4Prefix [192, 0, 0, 0] 24, ipv4Prefix [192, 0, 2, 0] 24,
      ipv4Prefix [192, 31, 196, 0] 24, ipv4Prefix [192, 52, 193, 0] 24, ipv4Prefix [192, 88, 99, 0] 24,
      ipv4Prefix [192, 168, 0, 0] 16, ipv4Prefix [192, 175, 48, 0] 24, ipv4Prefix [198, 18, 0, 0] 15,
      ipv4Prefix [198, 51, 100, 0] 24, ipv4Prefix [203, 0, 113, 0] 24, ipv4Prefix [224, 0, 0, 0] 4, ipv4Prefix [240, 0, 0, 0] 4]"

definition special_v6 :: "ip_prefix list" where
  "special_v6 = List.map_filter ParsePrefix
     [''::/128'', ''::1/128'', ''::ffff:0:0/96'', ''64:ff9b::/96'', ''64:ff9b:1::/48'', ''100::/64'', ''100:0:0:1::/64'',
      ''2001::/23'', ''2001::/32'', ''2001:1::1/128'', ''2001:1::2/128'', ''2001:1::3/128'', ''2001:2::/48'', ''2001:3::/32'',
      ''2001:4:112::/48'', ''2001:10::/28'', ''2001:20::/28'', ''2001:30::/28'', ''2001:db8::/32'', ''2002::/16'',
      ''2620:4f:8000::/48'', ''3fff::/20'', ''5f00::/16'', ''fc00::/7'', ''fe80::/10'', ''ff00::/8'']"

definition specialPurposePrefixes :: "ip_prefix list" where
  "specialPurposePrefixes = special_v4 @ special_v6"

definition globalIPv6Unicast :: "ip_prefix option" where
  "globalIPv6Unicast = ParsePrefix ''2000::/3''"

datatype endpoint_error =
    NotPublic ip_addr | ResolverMissing | LookupFailed string | NoAnswers string
  | CandidateRefused nat endpoint_error

definition validatePublicEndpoint :: "ip_addr \<Rightarrow> (endpoint_error, unit) result" where
  "validatePublicEndpoint ip =
     (if \<not> IsGlobalUnicast ip then Inl (NotPublic ip)
      else if Is6 ip \<and> (case globalIPv6Unicast of None \<Rightarrow> True | Some p \<Rightarrow> \<not> PrefixContains p ip) then Inl (NotPublic ip)
      else if list_ex (\<lambda>p. PrefixContains p ip) specialPurposePrefixes then Inl (NotPublic ip)
      else Inr ())"

subsection \<open>Pinning\<close>

type_synonym resolver = "string \<Rightarrow> (string, ip_addr list) result"

definition public_answer :: "ip_addr \<Rightarrow> (endpoint_error, ip_addr) result" where
  "public_answer answer = bindE (validatePublicEndpoint (Unmap answer)) (\<lambda>_. Inr (Unmap answer))"

definition pin_to :: "proxy_tunnel \<Rightarrow> ip_addr \<Rightarrow> proxy_tunnel" where
  "pin_to candidate address =
     (let origin = py_Server candidate; tls = py_TLS candidate; tr = py_Transport candidate in
      candidate\<lparr>py_Server := AddrString address, py_OriginServer := origin,
        py_TLS := (if pt_ServerName tls = [] then tls\<lparr>pt_ServerName := origin\<rparr> else tls),
        py_Transport :=
          (if px_Type tr \<in> {''ws'', ''httpupgrade''} \<and> px_Host tr = [] then tr\<lparr>px_Host := origin\<rparr> else tr)\<rparr>)"

definition PinPublicEndpoint :: "resolver option \<Rightarrow> proxy_tunnel \<Rightarrow> (endpoint_error, proxy_tunnel) result" where
  "PinPublicEndpoint resolver candidate =
     (case ParseAddr (py_Server candidate) of
        Some literal \<Rightarrow>
          bindE (validatePublicEndpoint (Unmap literal)) (\<lambda>_.
            Inr (candidate\<lparr>py_Server := AddrString (Unmap literal)\<rparr>))
      | None \<Rightarrow>
          (case resolver of
             None \<Rightarrow> Inl ResolverMissing
           | Some lookup \<Rightarrow>
               bindE (mapErr LookupFailed (lookup (py_Server candidate))) (\<lambda>answers.
               if answers = [] then Inl (NoAnswers (py_Server candidate))
               else bindE (mapE public_answer answers) (\<lambda>addresses.
                 Inr (pin_to candidate (first_addr (hd addresses) (tl addresses)))))))"

definition PinPublicEndpoints :: "resolver option \<Rightarrow> proxy_tunnel list \<Rightarrow> (endpoint_error, proxy_tunnel list) result" where
  "PinPublicEndpoints resolver candidates =
     mapE (\<lambda>(index, c). mapErr (CandidateRefused (index + 1)) (PinPublicEndpoint resolver c)) (enumerate 0 candidates)"

subsection \<open>The guards of the fetch (health/subscription.go)\<close>

datatype dial_error = DialAddress string addr_error | DialUnparseable string | DialPrivate ip_addr | RedirectRefused string

definition refusePrivateDial :: "string \<Rightarrow> (dial_error, unit) result" where
  "refusePrivateDial address =
     bindE (mapErr (DialAddress address) (SplitHostPort address)) (\<lambda>(host, _).
       case ParseAddr host of
         None \<Rightarrow> Inl (DialUnparseable host)
       | Some ip \<Rightarrow>
           if IsLoopback ip \<or> IsPrivate ip \<or> IsLinkLocalUnicast ip \<or> IsLinkLocalMulticast ip \<or> IsUnspecified ip
           then Inl (DialPrivate ip) else Inr ())"

definition httpsOnlyRedirect :: "string \<Rightarrow> (dial_error, unit) result" where
  "httpsOnlyRedirect scheme = (if scheme \<noteq> ''https'' then Inl (RedirectRefused scheme) else Inr ())"

end
