(* ===== verification/Subscriptions.thy ===== *)
theory Subscriptions
  imports UpstreamParsers PublicEndpoint Runner
begin

text \<open>
  Where an upstream comes from: \<open>upstreamstore.go\<close> and \<open>subscription.go\<close> of \<open>internal/adapters/linux\<close>,
  and \<open>tunnelconfig.go\<close>, which reads the file a tunnel names.  Decryption by \<open>sops\<close> is a parameter.
\<close>

subsection \<open>Share links\<close>

definition RenderVLESS :: "proxy_tunnel \<Rightarrow> (host_error, string) result" where
  "RenderVLESS t =
     (if py_Server t = [] \<or> py_Port t = 0 \<or> py_UUID t = []
      then Inl (Refused ''the tunnel is missing a server, port or UUID'')
      else
        let tls = py_TLS t; tr = py_Transport t; opt = \<lambda>k v. if v = [] then [] else [(k, v)];
            query = [(''encryption'', ''none'')] @ opt ''flow'' (py_Flow t) @
              (if pr_Enabled (pt_Reality tls)
               then [(''security'', ''reality''), (''pbk'', pr_PublicKey (pt_Reality tls))] @ opt ''sid'' (pr_ShortID (pt_Reality tls))
               else if pt_Enabled tls then [(''security'', ''tls'')] else []) @
              opt ''sni'' (pt_ServerName tls) @ opt ''fp'' (pt_Fingerprint tls) @
              (if px_Type tr = [] then [(''type'', ''tcp'')]
               else if px_Type tr = ''grpc'' then [(''type'', ''grpc''), (''serviceName'', px_ServiceName tr)]
               else [(''type'', px_Type tr), (''path'', px_Path tr)] @ opt ''host'' (px_Host tr))
        in Inr (URLString \<lparr>url_Scheme = ''vless'', url_User = Some (py_UUID t),
             url_Host = JoinHostPort (py_Server t) (Itoa (unat (py_Port t))), url_RawQuery = EncodeValues query\<rparr>))"

subsection \<open>A subscription's payload\<close>

definition MaxSubscriptionCandidates :: nat where "MaxSubscriptionCandidates = 32"
definition MaxSubscriptionLineBytes :: nat where "MaxSubscriptionLineBytes = 8192"

datatype subscription_error = EmptySubscription | LineTooLong | TooManyCandidates | NoUsableLinks nat

fun decode_quanta :: "(char \<Rightarrow> nat option) \<Rightarrow> bool \<Rightarrow> string \<Rightarrow> string option" where
  "decode_quanta val padded [] = Some []"
| "decode_quanta val padded (a # b # c # d # rest) =
     (if padded \<and> d = CHR ''='' then
        (if rest \<noteq> [] then None
         else if c = CHR ''='' then quantum val [a, b] else quantum val [a, b, c])
      else case quantum val [a, b, c, d] of
          None \<Rightarrow> None
        | Some bs \<Rightarrow> map_option (\<lambda>r. bs @ r) (decode_quanta val padded rest))"
| "decode_quanta val padded q = (if padded then None else quantum val q)"

definition encodings :: "((char \<Rightarrow> nat option) \<times> bool) list" where
  "encodings = [(std_val, True), (std_val, False), (url_val, True), (url_val, False)]"

text \<open>The first encoding that decodes the text to something with a link in it.\<close>

definition decodeBase64 :: "string \<Rightarrow> string option" where
  "decodeBase64 t =
     (let compact = filter (\<lambda>c. c \<noteq> NL \<and> c \<noteq> CR \<and> c \<noteq> CHR '' '') t in
      case List.map_filter (\<lambda>(val, padded).
          case decode_quanta val padded compact of
            None \<Rightarrow> None
          | Some decoded \<Rightarrow> if Contains decoded ''://'' then Some decoded else None) encodings of
        [] \<Rightarrow> None | decoded # _ \<Rightarrow> Some decoded)"

text \<open>\<open>bufio.ScanLines\<close>; a line the scanner's buffer cannot hold is longer than the limit below.\<close>

definition scan_lines :: "string \<Rightarrow> string list" where
  "scan_lines t =
     (let ls = Split NL t in map (\<lambda>l. TrimSuffix l [CR]) (if last ls = [] then butlast ls else ls))"

definition subscription_line ::
    "proxy_tunnel list \<times> nat \<Rightarrow> string \<Rightarrow> (subscription_error, proxy_tunnel list \<times> nat) result" where
  "subscription_line = (\<lambda>(tunnels, skipped) rawLine.
     let line = TrimSpace rawLine in
     if length rawLine > MaxSubscriptionLineBytes then Inl LineTooLong
     else if line = [] \<or> HasPrefix line ''#'' then Inr (tunnels, skipped)
     else if \<not> HasPrefix line ''vless://'' then Inr (tunnels, skipped + 1)
     else case ParseVLESS line of
       Inl _ \<Rightarrow> Inr (tunnels, skipped + 1)
     | Inr t \<Rightarrow>
         if length tunnels = MaxSubscriptionCandidates then Inl TooManyCandidates
         else Inr (tunnels @ [t], skipped))"

definition ParseSubscription :: "string \<Rightarrow> (subscription_error, proxy_tunnel list) result" where
  "ParseSubscription payload =
     (let trimmed = TrimSpace payload in
      if trimmed = [] then Inl EmptySubscription
      else let listing = (case decodeBase64 trimmed of None \<Rightarrow> payload | Some decoded \<Rightarrow> decoded) in
        bindE (foldE subscription_line ([], 0) (scan_lines listing)) (\<lambda>(tunnels, skipped).
          if tunnels = [] then Inl (NoUsableLinks skipped) else Inr tunnels))"

subsection \<open>The link file (upstreamstore.go)\<close>

definition config_dir :: "string \<Rightarrow> string" where
  "config_dir dir = (if dir \<noteq> [] then dir else ''/etc/vpn-hub'')"

definition link_dir :: "string \<Rightarrow> string" where
  "link_dir dir = joinPath (config_dir dir) ''subscriptions''"

definition link_path :: "string \<Rightarrow> string \<Rightarrow> string" where
  "link_path dir tunnelID = joinPath (link_dir dir) (tunnelID @ ''.link'')"

definition previous_path :: "string \<Rightarrow> string" where
  "previous_path path = path @ ''.last-known-good''"

text \<open>
  \<open>AtomicWrite\<close>: a replacement that fails leaves the file as it was, unless only the flush of the
  directory failed, after the new file had taken the name.
\<close>

definition replaceFile :: "env \<Rightarrow> string \<Rightarrow> string \<Rightarrow> unit try_op" where
  "replaceFile env path content = State (\<lambda>h.
     case e_Write env (h_Log h) path content of
       None \<Rightarrow> (Inr (), h\<lparr>h_Log := Wrote path content # h_Log h, h_Files := (h_Files h)(path := Some content)\<rparr>)
     | Some left \<Rightarrow>
         let kept = (if left = Some content then left else h_Files h path) in
         (Inl (WriteFailed path), h\<lparr>h_Log := WriteBroke path kept # h_Log h, h_Files := (h_Files h)(path := kept)\<rparr>))"

text \<open>A write ends in one of two ways: the file has the whole of the new content or what it had.\<close>

lemma wp_replaceFile [wp_rules]:
  "wp (replaceFile env path content) Q = (\<lambda>h.
     (case e_Write env (h_Log h) path content of
        None \<Rightarrow> Q (Inr ()) (h\<lparr>h_Log := Wrote path content # h_Log h, h_Files := (h_Files h)(path := Some content)\<rparr>)
      | Some left \<Rightarrow>
          let kept = (if left = Some content then left else h_Files h path) in
          Q (Inl (WriteFailed path)) (h\<lparr>h_Log := WriteBroke path kept # h_Log h, h_Files := (h_Files h)(path := kept)\<rparr>)))"
  by (simp add: wp_def replaceFile_def fun_eq_iff Let_def split: option.split)

text \<open>\<open>os.MkdirAll\<close> of the directory.\<close>

definition makeDir :: "env \<Rightarrow> string \<Rightarrow> unit try_op" where
  "makeDir env path = State (\<lambda>h.
     (case e_Write env (h_Log h) path [] of
        None \<Rightarrow> (Inr (), h)
      | Some _ \<Rightarrow> (Inl (WriteFailed path), h)))"

definition alive :: "env \<Rightarrow> unit try_op" where
  "alive env = do { stop \<leftarrow> cancelled env; (if stop then fails Cancelled else ok) }"

definition keep_previous :: "env \<Rightarrow> string \<Rightarrow> unit try_op" where
  "keep_previous env path = do {
     previous \<leftarrow> readFile env path;
     (case previous of
        Data p \<Rightarrow>
          andThen (alive env) (\<lambda>_.
          andThen (wrapping ''keep the previous link'' (replaceFile env (previous_path path) p)) (\<lambda>_. alive env))
      | _ \<Rightarrow> ok) }"

definition UpstreamWrite :: "env \<Rightarrow> string \<Rightarrow> string \<Rightarrow> proxy_tunnel \<Rightarrow> unit try_op" where
  "UpstreamWrite env dir tunnelID chosen =
     andThen (alive env) (\<lambda>_.
     andThen (wrapping ''create subscription directory'' (makeDir env (link_dir dir))) (\<lambda>_.
     andThen (alive env) (\<lambda>_.
     andThen (keep_previous env (link_path dir tunnelID)) (\<lambda>_.
     andThen (returns (RenderVLESS chosen)) (\<lambda>link.
     andThen (alive env) (\<lambda>_.
       replaceFile env (link_path dir tunnelID) (link @ [NL])))))))"

definition link_of :: "string \<Rightarrow> (host_error, proxy_tunnel) result" where
  "link_of content = mapErr (\<lambda>_. Refused ''the link is unreadable'') (ParseVLESS (TrimSpace content))"

definition UpstreamCurrent :: "env \<Rightarrow> string \<Rightarrow> string \<Rightarrow> (proxy_tunnel option \<times> bool) io_op" where
  "UpstreamCurrent env dir tunnelID = do {
     content \<leftarrow> readFile env (link_path dir tunnelID);
     State (\<lambda>h. ((
       (case content of Data c \<Rightarrow> (case link_of c of Inl _ \<Rightarrow> None | Inr t \<Rightarrow> Some t) | _ \<Rightarrow> None),
       h_Files h (previous_path (link_path dir tunnelID)) \<noteq> None), h)) }"

definition read_existing :: "env \<Rightarrow> string \<Rightarrow> string try_op" where
  "read_existing env path = do {
     content \<leftarrow> readFile env path;
     (case content of Data c \<Rightarrow> returns (Inr c) | _ \<Rightarrow> fails (ReadFailed path)) }"

definition UpstreamRestore :: "env \<Rightarrow> string \<Rightarrow> string \<Rightarrow> proxy_tunnel try_op" where
  "UpstreamRestore env dir tunnelID =
     (let path = link_path dir tunnelID in
      andThen (read_existing env (previous_path path)) (\<lambda>previous.
      andThen (returns (link_of previous)) (\<lambda>restored.
      andThen (read_existing env path) (\<lambda>current.
      andThen (replaceFile env (previous_path path) current) (\<lambda>_.
      andThen (replaceFile env path previous) (\<lambda>_. returns (Inr restored)))))))"

subsection \<open>Loading a tunnel's upstream (tunnelconfig.go)\<close>

datatype load_error =
    NotReadable string | NoConfiguration string | ReadBroke string | NoDecryptor string | DecryptFailed string
  | NotProven load_error string | WireGuardRejected string conf_error | LinkRejected string link_error
  | EndpointRejected string endpoint_error | OpenVPNRejected string ovpn_error | PrivateRedirect string | NoLoader string

definition IsEncrypted :: "string \<Rightarrow> bool" where
  "IsEncrypted content \<longleftrightarrow>
     Contains content ''sops'' \<and>
     (Contains content ''ENC['' \<or> Contains content ([CHR 0x22] @ ''mac'' @ [CHR 0x22]) \<or> Contains content ''mac='')"

definition firstLine :: "string \<Rightarrow> string" where
  "firstLine content =
     (case filter (\<lambda>l. l \<noteq> [] \<and> \<not> HasPrefix l ''#'') (map TrimSpace (Split NL content)) of [] \<Rightarrow> [] | l # _ \<Rightarrow> l)"

record loader =
  ld_Dir :: string
  ld_Decrypt :: "(string \<Rightarrow> (string, string) result) option"
  ld_Resolver :: "resolver option"

definition source_path :: "loader \<Rightarrow> string \<Rightarrow> string" where
  "source_path l source = (if HasPrefix source ''/'' then source else joinPath (config_dir (ld_Dir l)) source)"

definition load_read :: "loader \<Rightarrow> (string \<Rightarrow> read_answer) \<Rightarrow> string \<Rightarrow> (load_error, string) result" where
  "load_read l files source =
     (let path = source_path l source in
      case files path of
        NotExist \<Rightarrow> Inl (NoConfiguration path)
      | NoRead \<Rightarrow> Inl (ReadBroke path)
      | Data content \<Rightarrow>
          if \<not> IsEncrypted content then Inr content
          else (case ld_Decrypt l of
              None \<Rightarrow> Inl (NoDecryptor path)
            | Some decrypt \<Rightarrow> mapErr DecryptFailed (decrypt path)))"

definition load_source :: "tunnel \<Rightarrow> (load_error, string) result" where
  "load_source t =
     (if ts_Kind (t_Source t) = SourceConfig then Inr (ts_Value (t_Source t))
      else if ts_Kind (t_Source t) = SourceSubscription then Inr (joinPath ''subscriptions'' (t_ID t @ ''.link''))
      else Inl (NotReadable (ts_Kind (t_Source t))))"

definition upstream_of :: "tunnel \<Rightarrow> upstream" where
  "upstream_of t = \<lparr>up_Type = t_Type t, up_WireGuard = zero_wireguard, up_Proxy = zero_proxy, up_OpenVPN = zero_openvpn\<rparr>"

definition load_parse :: "loader \<Rightarrow> tunnel \<Rightarrow> string \<Rightarrow> string \<Rightarrow> (load_error, upstream) result" where
  "load_parse l t source content =
     (if t_Type t = TunnelWireGuard \<or> t_Type t = TunnelAmneziaWG then
        bindE (mapErr (WireGuardRejected source) (ParseWireGuardConfig content)) (\<lambda>p.
          Inr (upstream_of t\<lparr>up_WireGuard := p\<rparr>))
      else if t_Type t = TunnelXray then
        bindE (mapErr (LinkRejected source) (ParseVLESS (firstLine content))) (\<lambda>p.
        bindE (mapErr (EndpointRejected source) (PinPublicEndpoint (ld_Resolver l) p)) (\<lambda>p.
          Inr (upstream_of t\<lparr>up_Proxy := p\<rparr>)))
      else if t_Type t = TunnelOpenVPN then
        bindE (mapErr (OpenVPNRejected source) (ParseOpenVPNConfig content)) (\<lambda>p.
          if t_Role t = RolePrivateNetwork \<and> ov_RedirectsGateway p then Inl (PrivateRedirect source)
          else Inr (upstream_of t\<lparr>up_OpenVPN := p\<rparr>))
      else Inl (NoLoader (t_Type t)))"

definition LoadUpstream :: "loader \<Rightarrow> (string \<Rightarrow> read_answer) \<Rightarrow> tunnel \<Rightarrow> (load_error, upstream) result" where
  "LoadUpstream l files t =
     bindE (load_source t) (\<lambda>source.
     bindE (mapErr (\<lambda>e. if ts_Kind (t_Source t) = SourceSubscription then NotProven e (t_ID t) else e)
              (load_read l files source)) (\<lambda>content.
       load_parse l t source content))"

end
