(* ===== verification/ClientProfiles.thy ===== *)
theory ClientProfiles
  imports Subscriptions Json
begin

text \<open>
  What a device imports: \<open>profile_renderer.go\<close> and \<open>reality_profile.go\<close> of \<open>internal/adapters/runtime\<close>,
  and the stores of issued keys and of the last processed update, \<open>profile_key_store.go\<close> and
  \<open>offset_store.go\<close>.
\<close>

subsection \<open>Profiles (profile_renderer.go)\<close>

datatype profile_error =
    NoPrivateKey | NoAddress | UnsupportedParameter string | RealityDisabled | UDPDisabled | NoCredential
  | BadEndpoint string addr_error

definition defaultI1 :: string where
  "defaultI1 = ''<r 2><b 0x8580000100010000000004796162730679616e6465780272750000010001c00c000100010000026d000457fa27d1>''"

definition setting :: "string \<Rightarrow> string \<Rightarrow> string" where
  "setting name v = name @ '' = '' @ v"

definition parameter_line :: "string \<times> string \<Rightarrow> (profile_error, string) result" where
  "parameter_line = (\<lambda>(key, v).
     bindE (of_option (UnsupportedParameter key) (CanonicalAWGParameter key)) (\<lambda>name. Inr (setting name v)))"

definition interface_lines :: "hub \<Rightarrow> string \<Rightarrow> string \<Rightarrow> string list" where
  "interface_lines hub address privateKey =
     [''[Interface]'', setting ''PrivateKey'' privateKey, setting ''Address'' address, setting ''DNS'' (hub_DNSAddress hub),
      setting ''MTU'' ''1240'']"

definition peer_lines :: "hub \<Rightarrow> string list" where
  "peer_lines hub =
     [[], ''[Peer]'', setting ''PublicKey'' (hub_ServerPublicKey hub), setting ''AllowedIPs'' ''0.0.0.0/0'',
      setting ''Endpoint'' (hub_Endpoint hub), setting ''PersistentKeepalive'' ''25'']"

definition unlines :: "string list \<Rightarrow> string" where
  "unlines ls = concat (map (\<lambda>l. l @ [NL]) ls)"

definition RenderProfile :: "hub \<Rightarrow> string \<Rightarrow> string \<Rightarrow> (profile_error, string) result" where
  "RenderProfile hub address privateKey =
     (if privateKey = [] then Inl NoPrivateKey
      else if address = [] then Inl NoAddress
      else bindE (mapE parameter_line (sort_key fst (hub_AWGInterface hub))) (\<lambda>parameters.
        Inr (unlines (interface_lines hub address privateKey @ parameters @ [setting ''I1'' defaultI1] @ peer_lines hub))))"

subsection \<open>The fallbacks (reality_profile.go)\<close>

definition FallbackLink :: "hub \<Rightarrow> string \<Rightarrow> string \<Rightarrow> string \<Rightarrow> (profile_error, string) result" where
  "FallbackLink hub deviceID uuid publicKey =
     (if \<not> rf_Enabled (fb_Reality (hub_Fallback hub)) then Inl RealityDisabled
      else if uuid = [] \<or> publicKey = [] then Inl NoCredential
      else bindE (mapErr (BadEndpoint (hub_Endpoint hub)) (SplitHostPort (hub_Endpoint hub))) (\<lambda>(host, _).
        let query = [(''security'', ''reality''), (''encryption'', ''none''), (''type'', ''tcp''), (''flow'', ''xtls-rprx-vision''),
              (''sni'', rf_ServerName (fb_Reality (hub_Fallback hub))), (''fp'', ''chrome''), (''pbk'', publicKey),
              (''sid'', RealityShortID publicKey)]
        in Inr (URLString \<lparr>url_Scheme = ''vless'', url_User = Some uuid, url_Host = JoinHostPort host (Itoa (unat RealityPort)),
                  url_RawQuery = EncodeValues query\<rparr> @ ''#'' @ escape EncFragment (''vpn-hub-'' @ deviceID))))"

definition AltPortProfile :: "hub \<Rightarrow> string \<Rightarrow> string \<Rightarrow> (profile_error, string) result" where
  "AltPortProfile hub address privateKey =
     (if \<not> fb_UDP443 (hub_Fallback hub) then Inl UDPDisabled
      else bindE (mapErr (BadEndpoint (hub_Endpoint hub)) (SplitHostPort (hub_Endpoint hub))) (\<lambda>(host, _).
        RenderProfile (hub\<lparr>hub_Endpoint := JoinHostPort host (Itoa (unat RealityPort))\<rparr>) address privateKey))"

definition RealityProfileName :: "string \<Rightarrow> string" where
  "RealityProfileName deviceID = map (\<lambda>c. if c = CHR '' '' then CHR ''-'' else c) deviceID @ ''-443.conf''"

subsection \<open>Issued keys (profile_key_store.go)\<close>

text \<open>\<open>filepath.Base\<close> returns its argument when it is not empty and holds no separator, or is nothing but one, which
  \<open>filepath.Join\<close> then drops.\<close>

definition profile_key_path :: "string \<Rightarrow> string \<Rightarrow> (host_error, string) result" where
  "profile_key_path dir deviceID =
     (if dir = [] then Inl (Refused ''state directory is required'')
      else if deviceID = [] \<or> has_char CHR ''/'' deviceID \<and> deviceID \<noteq> ''/'' \<or> has_char (CHR 0x5C) deviceID
        then Inl (Refused ''invalid device id'')
      else Inr (joinPath (joinPath dir ''device-profiles'') (if deviceID = ''/'' then ''.key'' else deviceID @ ''.key'')))"

definition checked_key :: "string \<Rightarrow> (host_error, unit) result" where
  "checked_key k = (case PublicKeyFromPrivate k of Inl _ \<Rightarrow> Inl (Refused ''validate profile private key'') | Inr _ \<Rightarrow> Inr ())"

definition ProfileKeySave :: "env \<Rightarrow> string \<Rightarrow> string \<Rightarrow> string \<Rightarrow> unit try_op" where
  "ProfileKeySave env dir deviceID privateKey =
     andThen (returns (profile_key_path dir deviceID)) (\<lambda>path.
     andThen (returns (checked_key privateKey)) (\<lambda>_.
     andThen (wrapping ''create state directory'' (makeDir env dir)) (\<lambda>_.
     andThen (wrapping ''create profile directory'' (makeDir env (joinPath dir ''device-profiles''))) (\<lambda>_.
     andThen (wrapping ''protect profile directory'' (makeDir env (joinPath dir ''device-profiles''))) (\<lambda>_.
       replaceFile env path (privateKey @ [NL]))))))"

definition ProfileKeyLoad :: "env \<Rightarrow> string \<Rightarrow> string \<Rightarrow> string try_op" where
  "ProfileKeyLoad env dir deviceID =
     andThen (returns (profile_key_path dir deviceID)) (\<lambda>path. do {
       content \<leftarrow> readFile env path;
       (case content of
          NotExist \<Rightarrow> fails (Refused ''device profile key not found'')
        | NoRead \<Rightarrow> fails (ReadFailed path)
        | Data c \<Rightarrow> andThen (returns (checked_key (TrimSpace c))) (\<lambda>_. returns (Inr (TrimSpace c)))) })"

subsection \<open>The last update (offset_store.go)\<close>

definition offset_path :: "string \<Rightarrow> string" where
  "offset_path dir = joinPath dir ''telegram-offset''"

definition OffsetLoad :: "env \<Rightarrow> string \<Rightarrow> int try_op" where
  "OffsetLoad env dir =
     (if dir = [] then fails (Refused ''state directory is required'')
      else do {
        content \<leftarrow> readFile env (offset_path dir);
        (case content of
           NotExist \<Rightarrow> returns (Inr 0)
         | NoRead \<Rightarrow> fails (ReadFailed (offset_path dir))
         | Data c \<Rightarrow> returns (of_option (Refused ''decode telegram offset'') (ParseInt64 c))) })"

definition OffsetSave :: "env \<Rightarrow> string \<Rightarrow> int \<Rightarrow> unit try_op" where
  "OffsetSave env dir offset =
     (if dir = [] then fails (Refused ''state directory is required'')
      else andThen (wrapping ''create state directory'' (makeDir env dir)) (\<lambda>_.
        replaceFile env (offset_path dir) (itoa_int offset)))"

end
