(* ===== verification/LinkFacts.thy ===== *)
theory LinkFacts
  imports Subscriptions
begin

text \<open>
  Links that are printed are parsed back: the query, the authority and the whole URL.
\<close>

subsection \<open>Visible text\<close>

definition visible :: "char \<Rightarrow> bool" where
  "visible c \<longleftrightarrow> 33 \<le> code c \<and> code c < 127"

lemma space_heads: "list_all (\<lambda>u. u \<noteq> [] \<and> \<not> visible (hd u)) space_runes"
  "list_all (\<lambda>u. u \<noteq> [] \<and> \<not> visible (hd u)) (map rev space_runes)"
  by code_simp+

lemma eat_visible: "list_all (\<lambda>u. u \<noteq> [] \<and> \<not> visible (hd u)) us \<Longrightarrow> s = [] \<or> visible (hd s) \<Longrightarrow> eat us s = None"
  by (induction us) (auto simp: HasPrefix_iff hd_append)

lemma TrimSpace_solid:
  assumes "s = [] \<or> visible (hd s) \<and> visible (last s)"
  shows "TrimSpace s = s"
proof -
  have "trim_runes space_runes s = s"
    using eat_visible[OF space_heads(1), of s] assms by (auto simp: trim_runes.simps)
  moreover have "trim_runes (map rev space_runes) (rev s) = rev s"
    using eat_visible[OF space_heads(2), of "rev s"] assms by (auto simp: trim_runes.simps hd_rev)
  ultimately show ?thesis by (simp add: TrimSpace_def)
qed

lemma TrimSpace_visible: "\<forall>c \<in> set s. visible c \<Longrightarrow> TrimSpace s = s"
  by (rule TrimSpace_solid) (cases s, auto)

lemma eat_blank: "eat space_runes (CHR '' '' # s) = Some s" "eat (map rev space_runes) (CHR '' '' # s) = Some s"
  by (simp_all add: space_runes_def HasPrefix_def)

lemma TrimSpace_blanks:
  assumes "s = [] \<or> visible (hd s) \<and> visible (last s)"
  shows "TrimSpace (CHR '' '' # s) = s" "TrimSpace (s @ '' '') = s"
proof -
  have left: "trim_runes space_runes s = s"
    using eat_visible[OF space_heads(1), of s] assms by (auto simp: trim_runes.simps)
  have right: "trim_runes (map rev space_runes) (rev s) = rev s"
    using eat_visible[OF space_heads(2), of "rev s"] assms by (auto simp: trim_runes.simps hd_rev)
  show "TrimSpace (CHR '' '' # s) = s"
    using left right by (simp add: TrimSpace_def trim_runes.simps[of _ "CHR '' '' # s"] eat_blank)
  show "TrimSpace (s @ '' '') = s"
  proof (cases s)
    case Nil
    moreover have "TrimSpace '' '' = []" by code_simp
    ultimately show ?thesis by simp
  next
    case (Cons c t)
    then have "eat space_runes (s @ '' '') = None"
      using eat_visible[OF space_heads(1), of "s @ '' ''"] assms by simp
    then show ?thesis using right by (simp add: TrimSpace_def trim_runes.simps[of _ "s @ '' ''"] trim_runes.simps[of _ "CHR '' '' # rev s"] eat_blank)
  qed
qed

lemma eat_newline: "eat (map rev space_runes) (NL # s) = Some s"
  by (simp add: space_runes_def HasPrefix_def)

lemma TrimSpace_newline:
  assumes "\<forall>c \<in> set s. visible c" "s \<noteq> []"
  shows "TrimSpace (s @ [NL]) = s"
proof -
  have "visible (hd s)" "visible (last s)" using assms by auto
  then have "eat space_runes (s @ [NL]) = None" "eat (map rev space_runes) (rev s) = None"
    using eat_visible[OF space_heads(1), of "s @ [NL]"] eat_visible[OF space_heads(2), of "rev s"] assms(2) by (auto simp: hd_rev)
  then show ?thesis
    by (simp add: TrimSpace_def trim_runes.simps[of _ "s @ [NL]"] trim_runes.simps[of _ "NL # rev s"] trim_runes.simps[of _ "rev s"] eat_newline
      del: NL_def)
qed

subsection \<open>Queries\<close>

definition query_symbol :: "char \<Rightarrow> bool" where
  "query_symbol c \<longleftrightarrow> is_letter c \<or> is_digit c \<or> c \<in> set ''-_.~+%''"

lemma hex_upper_symbol: "n < 16 \<Longrightarrow> is_letter (hex_upper n) \<or> is_digit (hex_upper n)"
proof -
  have "\<forall>n < 16. is_letter (hex_upper n) \<or> is_digit (hex_upper n)" by code_simp
  then show "n < 16 \<Longrightarrow> ?thesis" by blast
qed

lemma hex_digits_of: "code c div 16 < 16" "code c mod 16 < 16"
  using code_less[of c] by auto

lemma plain_query: "\<not> shouldEscape c EncQueryComponent \<Longrightarrow> is_letter c \<or> is_digit c \<or> c \<in> set ''-_.~''"
  unfolding shouldEscape_def by (auto split: if_splits)

lemma escape_char_symbols: "c \<in> set (escape_char EncQueryComponent d) \<Longrightarrow> query_symbol c"
proof (cases "shouldEscape d EncQueryComponent")
  case True
  assume "c \<in> set (escape_char EncQueryComponent d)"
  then have "c = CHR ''+'' \<or> c = CHR ''%'' \<or> c = hex_upper (code d div 16) \<or> c = hex_upper (code d mod 16)"
    using True by (simp add: escape_char_def split: if_splits)
  then show ?thesis
    using hex_upper_symbol[OF hex_digits_of(1)[of d]] hex_upper_symbol[OF hex_digits_of(2)[of d]]
    by (auto simp: query_symbol_def)
next
  case False
  assume "c \<in> set (escape_char EncQueryComponent d)"
  then have "c = CHR ''+'' \<or> c = d" using False by (simp add: escape_char_def split: if_splits)
  then show ?thesis using plain_query[OF False] by (auto simp: query_symbol_def)
qed

lemma escape_query_symbols: "c \<in> set (escape EncQueryComponent s) \<Longrightarrow> query_symbol c"
  using escape_char_symbols by (auto simp: escape_def)

lemma query_symbols [simp]:
  "\<not> query_symbol CHR ''&''" "\<not> query_symbol CHR ''=''" "\<not> query_symbol CHR '';''" "\<not> query_symbol CHR ''#''"
  "\<not> query_symbol CHR ''?''" "\<not> query_symbol CHR ''/''"
  by code_simp+

lemma query_symbol_visible: "query_symbol c \<Longrightarrow> visible c"
  by (auto simp: query_symbol_def visible_def is_letter_def is_lower_def is_upper_def is_digit_def code_def)

lemma unescape_escape: "unescape EncQueryComponent (escape EncQueryComponent s) = Some s"
  using unescape_escape_query[of s "[]"] by simp

lemma escape_not_in: "\<not> query_symbol d \<Longrightarrow> d \<notin> set (escape EncQueryComponent s)"
  using escape_query_symbols by blast

definition pair_text :: "string \<times> string \<Rightarrow> string" where
  "pair_text = (\<lambda>(k, v). escape EncQueryComponent k @ ''='' @ escape EncQueryComponent v)"

lemma query_pair_text: "query_pair (pair_text (k, v)) = Some (k, v)"
  by (simp add: query_pair_def pair_text_def has_char_def escape_not_in cut_or_all_def CutByte_append unescape_escape)

lemma ParseQuery_EncodeValues: "ParseQuery (EncodeValues q) = sort_key fst q"
proof (cases "q = []")
  case True
  then show ?thesis by (simp add: ParseQuery_def EncodeValues_def query_pair_def List.map_filter_simps)
next
  case False
  have "Split CHR ''&'' (Join ''&'' (map pair_text (sort_key fst q))) = map pair_text (sort_key fst q)"
  proof (rule Split_Join)
    have "CHR ''&'' \<notin> set (pair_text p)" for p by (cases p) (simp add: pair_text_def escape_not_in)
    then show "\<forall>w \<in> set (map pair_text (sort_key fst q)). CHR ''&'' \<notin> set w" by simp
    have "length (map pair_text (sort_key fst q)) = length q" by simp
    then show "map pair_text (sort_key fst q) \<noteq> []" using False by (metis length_0_conv)
  qed
  then have "ParseQuery (EncodeValues q) = List.map_filter query_pair (map pair_text (sort_key fst q))"
    by (simp add: ParseQuery_def EncodeValues_def pair_text_def case_prod_beta')
  also have "List.map_filter query_pair (map pair_text xs) = xs" for xs
    by (induction xs) (auto simp: List.map_filter_simps query_pair_text)
  finally show ?thesis .
qed

lemma QueryGet_EncodeValues:
  assumes "distinct (map fst q)"
  shows "QueryGet (ParseQuery (EncodeValues q)) k = QueryGet q k"
proof -
  have "map_of (sort_key fst q) = map_of q"
    using assms by (subst map_of_inject_set) (auto simp: distinct_map inj_on_def)
  then show ?thesis by (simp add: ParseQuery_EncodeValues QueryGet_def)
qed

subsection \<open>Authorities\<close>

definition user_symbol :: "char \<Rightarrow> bool" where
  "user_symbol c \<longleftrightarrow> is_letter c \<or> is_digit c \<or> c \<in> set ''-_.~$&+,;=%''"

lemma plain_user: "\<not> shouldEscape c EncUserPassword \<Longrightarrow> is_letter c \<or> is_digit c \<or> c \<in> set ''-_.~$&+,;=''"
  unfolding shouldEscape_def by (auto split: if_splits)

lemma escape_user_symbols: "c \<in> set (escape EncUserPassword s) \<Longrightarrow> user_symbol c"
proof -
  have "c \<in> set (escape_char EncUserPassword d) \<Longrightarrow> user_symbol c" for d
  proof (cases "shouldEscape d EncUserPassword")
    case True
    assume "c \<in> set (escape_char EncUserPassword d)"
    then have "c = CHR ''%'' \<or> c = hex_upper (code d div 16) \<or> c = hex_upper (code d mod 16)"
      using True by (simp add: escape_char_def)
    then show ?thesis
      using hex_upper_symbol[OF hex_digits_of(1)[of d]] hex_upper_symbol[OF hex_digits_of(2)[of d]]
      by (auto simp: user_symbol_def)
  next
    case False
    assume "c \<in> set (escape_char EncUserPassword d)"
    then have "c = d" using False by (simp add: escape_char_def)
    then show ?thesis using plain_user[OF False] by (auto simp: user_symbol_def)
  qed
  then show "c \<in> set (escape EncUserPassword s) \<Longrightarrow> user_symbol c" by (auto simp: escape_def)
qed

lemma user_symbols [simp]:
  "\<not> user_symbol CHR ''@''" "\<not> user_symbol CHR '':''" "\<not> user_symbol CHR ''#''" "\<not> user_symbol CHR ''?''" "\<not> user_symbol CHR ''/''"
  by code_simp+

lemma user_not_in: "\<not> user_symbol d \<Longrightarrow> d \<notin> set (escape EncUserPassword s)"
  using escape_user_symbols by blast

lemma user_symbol_visible: "user_symbol c \<Longrightarrow> visible c"
  by (auto simp: user_symbol_def visible_def is_letter_def is_lower_def is_upper_def is_digit_def code_def)

lemma user_symbol_valid: "user_symbol c \<Longrightarrow> is_letter c \<or> is_digit c \<or> c \<in> set ''-._:~!$&()*+,;=%@'' \<or> c = CHR 0x27"
  by (auto simp: user_symbol_def)

text \<open>A host name or an IPv4 address.\<close>

definition host_symbol :: "char \<Rightarrow> bool" where
  "host_symbol c \<longleftrightarrow> is_letter c \<or> is_digit c \<or> c \<in> set ''-._''"

definition plain_host :: "string \<Rightarrow> bool" where
  "plain_host h \<longleftrightarrow> h \<noteq> [] \<and> (\<forall>c \<in> set h. host_symbol c)"

lemma host_symbol_not [simp]:
  "\<not> host_symbol CHR '':''" "\<not> host_symbol CHR ''%''" "\<not> host_symbol CHR ''[''" "\<not> host_symbol CHR '']''" "\<not> host_symbol CHR ''@''"
  "\<not> host_symbol CHR ''/''" "\<not> host_symbol CHR ''?''" "\<not> host_symbol CHR ''#''"
  by code_simp+

lemma host_symbol_visible: "host_symbol c \<Longrightarrow> visible c"
  by (auto simp: host_symbol_def visible_def is_letter_def is_lower_def is_upper_def is_digit_def code_def)

lemma digit_symbol: "is_digit c \<Longrightarrow> host_symbol c"
  by (simp add: host_symbol_def)

lemma Itoa_symbols: "c \<in> set (Itoa n) \<Longrightarrow> host_symbol c"
  using Itoa_digits[of n] by (auto simp: list_all_iff intro: digit_symbol)

text \<open>What \<open>url.Parse\<close> reads as the host and port of an authority and leaves as it is.\<close>

definition authority_symbol :: "char \<Rightarrow> bool" where
  "authority_symbol c \<longleftrightarrow> host_symbol c \<or> c \<in> set '':[]''"

definition authority_ok :: "string \<Rightarrow> bool" where
  "authority_ok a \<longleftrightarrow> (\<forall>c \<in> set a. authority_symbol c) \<and> parseHost a = Some a"

lemma host_symbol_plain: "host_symbol c \<Longrightarrow> \<not> shouldEscape c EncHost"
  by (auto simp: host_symbol_def shouldEscape_def)

lemma authority_symbol_plain: "authority_symbol c \<Longrightarrow> \<not> shouldEscape c EncHost \<and> c \<noteq> CHR ''%''"
proof -
  have "\<not> authority_symbol CHR ''%''" "\<not> shouldEscape CHR '':'' EncHost" "\<not> shouldEscape CHR ''['' EncHost"
    "\<not> shouldEscape CHR '']'' EncHost" by code_simp+
  then show "authority_symbol c \<Longrightarrow> ?thesis" using host_symbol_plain by (auto simp: authority_symbol_def)
qed

lemma authority_symbol_visible: "authority_symbol c \<Longrightarrow> visible c"
  using host_symbol_visible by (auto simp: authority_symbol_def visible_def code_def)

lemma authority_symbols [simp]:
  "\<not> authority_symbol CHR ''@''" "\<not> authority_symbol CHR ''/''" "\<not> authority_symbol CHR ''?''" "\<not> authority_symbol CHR ''#''"
  by code_simp+

lemma escape_host_id: "\<forall>c \<in> set h. authority_symbol c \<Longrightarrow> escape EncHost h = h"
  using authority_symbol_plain by (induction h) (auto simp: escape_def escape_char_def)

lemma unescape_host_id: "\<forall>c \<in> set h. authority_symbol c \<Longrightarrow> unescape EncHost h = Some h"
proof (induction h)
  case (Cons c h)
  then have "c \<noteq> CHR ''%''" "\<not> shouldEscape c EncHost" using authority_symbol_plain[of c] by auto
  then show ?case using Cons by simp
qed simp

lemma optional_port: "validOptionalPort (CHR '':'' # Itoa n)"
  using Itoa_digits[of n] by (simp add: validOptionalPort_def)

lemma plain_authority_ok:
  assumes "plain_host h"
  shows "authority_ok (h @ CHR '':'' # Itoa n)"
proof -
  have all: "\<forall>c \<in> set (h @ CHR '':'' # Itoa n). host_symbol c \<or> c = CHR '':''"
    using assms Itoa_symbols by (auto simp: plain_host_def)
  then have ok: "\<forall>c \<in> set (h @ CHR '':'' # Itoa n). authority_symbol c" by (auto simp: authority_symbol_def)
  have "CHR ''['' \<notin> set (h @ CHR '':'' # Itoa n)"
  proof
    assume "CHR ''['' \<in> set (h @ CHR '':'' # Itoa n)"
    with all have "host_symbol CHR ''['' \<or> CHR ''['' = CHR '':''" by blast
    then show False by simp
  qed
  moreover from this have "\<not> HasPrefix (h @ CHR '':'' # Itoa n) ''[''"
    unfolding HasPrefix_iff by (metis append_Cons list.set_intros(1))
  moreover have "\<not> has_char CHR ''['' (drop 1 (h @ CHR '':'' # Itoa n))"
    using calculation(1) set_drop_subset[of 1 "h @ CHR '':'' # Itoa n"] unfolding has_char_def by blast
  moreover have "CutByte CHR '':'' (h @ CHR '':'' # Itoa n) = Some (h, Itoa n)"
    using assms by (intro CutByte_append) (auto simp: plain_host_def)
  ultimately have "parseHost (h @ CHR '':'' # Itoa n) = Some (h @ CHR '':'' # Itoa n)"
    using unescape_host_id[OF ok] optional_port[of n] by (simp add: parseHost_def)
  then show ?thesis using ok by (simp add: authority_ok_def)
qed

text \<open>An IPv6 address without a zone.\<close>

definition literal_host :: "string \<Rightarrow> bool" where
  "literal_host h \<longleftrightarrow> (\<forall>c \<in> set h. host_symbol c \<or> c = CHR '':'') \<and> CHR '':'' \<in> set h \<and>
     (case ParseAddr h of None \<Rightarrow> False | Some ip \<Rightarrow> \<not> Is4 ip)"

lemma cut_at_None: "CHR ''%'' \<notin> set s \<Longrightarrow> cut_at ''%25'' acc s = None"
  by (induction s arbitrary: acc) (auto simp: HasPrefix_def)

lemma literal_authority_ok:
  assumes "literal_host h"
  shows "authority_ok (CHR ''['' # h @ CHR '']'' # CHR '':'' # Itoa n)"
proof -
  let ?a = "CHR ''['' # h @ CHR '']'' # CHR '':'' # Itoa n"
  have sym: "host_symbol c \<or> c = CHR '':''" if "c \<in> set h" for c using assms that by (auto simp: literal_host_def)
  have ok: "\<forall>c \<in> set ?a. authority_symbol c" using sym Itoa_symbols by (auto simp: authority_symbol_def)
  have inner: "CHR '']'' \<notin> set h" "CHR ''['' \<notin> set h" "CHR ''%'' \<notin> set h" using sym by force+
  have digits: "CHR '']'' \<notin> set (Itoa n)" "CHR ''['' \<notin> set (Itoa n)" using Itoa_symbols by force+
  have port: "unescape EncHost (CHR '':'' # Itoa n) = Some (CHR '':'' # Itoa n)" "unescape EncHost h = Some h"
    using ok by (intro unescape_host_id; simp)+
  have "bracketed_host h = Some h"
    using assms cut_at_None[OF inner(3)] port(2) by (auto simp: bracketed_host_def literal_host_def split: option.splits)
  moreover have "CutLastByte CHR '']'' ?a = Some (CHR ''['' # h, CHR '':'' # Itoa n)"
    using digits CutLastByte_append[of "CHR '']''" "CHR '':'' # Itoa n" "CHR ''['' # h"] by simp
  moreover have "\<not> has_char CHR ''['' (drop 1 ?a)" using inner digits by (simp add: has_char_def)
  ultimately have "parseHost ?a = Some ?a"
    using port(1) optional_port[of n] by (simp add: parseHost_def HasPrefix_def)
  then show ?thesis using ok by (simp add: authority_ok_def)
qed

text \<open>Host names and addresses a link can carry.\<close>

definition dialable :: "string \<Rightarrow> bool" where
  "dialable h \<longleftrightarrow> plain_host h \<or> literal_host h"

lemma literal_join: "literal_host h \<Longrightarrow> JoinHostPort h (Itoa n) = CHR ''['' # h @ CHR '']'' # CHR '':'' # Itoa n"
  by (simp add: JoinHostPort_def has_char_def literal_host_def)

lemma plain_join: "plain_host h \<Longrightarrow> JoinHostPort h (Itoa n) = h @ CHR '':'' # Itoa n"
  by (auto simp: JoinHostPort_def has_char_def plain_host_def)

lemma dialable_authority: "dialable h \<Longrightarrow> authority_ok (JoinHostPort h (Itoa n))"
  using plain_authority_ok literal_authority_ok plain_join literal_join by (auto simp: dialable_def)

lemma dialable_split:
  assumes "dialable h"
  shows "SplitHostPort (JoinHostPort h (Itoa n)) = Inr (h, Itoa n)"
proof (cases "plain_host h")
  case True
  then have "CHR '':'' \<notin> set h" "CHR ''['' \<notin> set h" "CHR '']'' \<notin> set h" by (auto simp: plain_host_def)
  moreover have "CHR '':'' \<notin> set (Itoa n)" "CHR ''['' \<notin> set (Itoa n)" "CHR '']'' \<notin> set (Itoa n)"
    by (rule Itoa_no_char, simp add: is_digit_def code_def)+
  ultimately show ?thesis using plain_join[OF True] SplitHostPort_plain by simp
next
  case False
  then have lit: "literal_host h" using assms by (simp add: dialable_def)
  let ?a = "CHR ''['' # h @ CHR '']'' # CHR '':'' # Itoa n"
  have sym: "host_symbol c \<or> c = CHR '':''" if "c \<in> set h" for c using lit that by (auto simp: literal_host_def)
  have inner: "CHR '']'' \<notin> set h" "CHR ''['' \<notin> set h" using sym by force+
  have digits: "CHR '']'' \<notin> set (Itoa n)" "CHR ''['' \<notin> set (Itoa n)" "CHR '':'' \<notin> set (Itoa n)" using Itoa_symbols by force+
  have "CutLastByte CHR '':'' ?a = Some (CHR ''['' # h @ [CHR '']''], Itoa n)"
    using CutLastByte_append[OF digits(3), of "CHR ''['' # h @ [CHR '']'']"] by simp
  moreover have "CutByte CHR '']'' ?a = Some (CHR ''['' # h, CHR '':'' # Itoa n)"
    using CutByte_append[of "CHR '']''" "CHR ''['' # h" "CHR '':'' # Itoa n"] inner by simp
  ultimately show ?thesis
    using literal_join[OF lit] inner digits by (simp add: SplitHostPort_def HasPrefix_def has_char_def)
qed

lemma parse_authority:
  assumes "authority_ok a"
  shows "parseAuthority (escape EncUserPassword u @ CHR ''@'' # a) = Some (Some u, a)"
proof -
  have "CHR ''@'' \<notin> set a" using assms authority_symbols(1) unfolding authority_ok_def by blast
  then have "CutLastByte CHR ''@'' (escape EncUserPassword u @ CHR ''@'' # a) = Some (escape EncUserPassword u, a)"
    by (rule CutLastByte_append)
  moreover have "validUserinfo (escape EncUserPassword u)"
    using escape_user_symbols user_symbol_valid by (simp add: validUserinfo_def list_all_iff)
  moreover have "CutByte CHR '':'' (escape EncUserPassword u) = None"
    by (simp add: CutByte_None_iff user_not_in)
  ultimately show ?thesis using assms by (simp add: parseAuthority_def unescape_escape_user authority_ok_def)
qed

subsection \<open>Whole links\<close>

definition link_text :: "string \<Rightarrow> string \<Rightarrow> (string \<times> string) list \<Rightarrow> string" where
  "link_text u a q = ''vless://'' @ escape EncUserPassword u @ CHR ''@'' # a @ CHR ''?'' # EncodeValues q"

lemma encode_symbols:
  assumes "c \<in> set (EncodeValues q)"
  shows "query_symbol c \<or> c = CHR ''='' \<or> c = CHR ''&''"
proof -
  have "set (Join ''&'' ws) \<subseteq> (\<Union> (set ` set ws)) \<union> {CHR ''&''}" for ws
    by (induction ws rule: induct_list012) auto
  then show ?thesis using assms escape_query_symbols unfolding EncodeValues_def by fastforce
qed

lemma encode_not_in: "\<not> query_symbol d \<Longrightarrow> d \<noteq> CHR ''='' \<Longrightarrow> d \<noteq> CHR ''&'' \<Longrightarrow> d \<notin> set (EncodeValues q)"
  using encode_symbols by blast

lemma link_parts:
  "c \<in> set (p @ u @ d # a @ e # q) \<Longrightarrow> c \<in> set p \<or> c \<in> set u \<or> c = d \<or> c \<in> set a \<or> c = e \<or> c \<in> set q"
  by auto

lemma marks_visible:
  "c \<in> set ''vless://'' \<Longrightarrow> visible c" "visible CHR ''@''" "visible CHR ''?''" "visible CHR ''=''" "visible CHR ''&''"
  by (auto simp: visible_def code_def)

lemma encode_visible: "c \<in> set (EncodeValues q) \<Longrightarrow> visible c"
  using encode_symbols[of c q] query_symbol_visible marks_visible by blast

lemma link_visible:
  assumes "authority_ok a" "c \<in> set (link_text u a q)"
  shows "visible c"
  using link_parts[OF assms(2)[unfolded link_text_def]]
proof (elim disjE)
  assume "c \<in> set (escape EncUserPassword u)"
  then show ?thesis using escape_user_symbols user_symbol_visible by blast
next
  assume "c \<in> set a"
  then show ?thesis using assms(1) authority_symbol_visible unfolding authority_ok_def by blast
qed (simp_all only: marks_visible encode_visible)

lemma visible_no_ctl: "\<forall>c \<in> set s. visible c \<Longrightarrow> \<not> has_ctl s"
  by (auto simp: has_ctl_def list_ex_iff visible_def)

lemma vless_scheme: "getScheme (''vless:'' @ r) = Some (''vless'', r)"
  by (simp add: getScheme_def is_letter_def is_lower_def is_upper_def is_digit_def code_def)

lemma parse_url_authority:
  assumes "\<not> has_ctl raw" "raw \<noteq> ''*''" "getScheme raw = Some (sch, ''//'' @ auth @ CHR ''?'' # q)" "ToLower sch \<noteq> []"
    and "CHR ''?'' \<notin> set auth" "CHR ''/'' \<notin> set auth" "parseAuthority auth = Some (user, host)"
  shows "parse_url raw = Some \<lparr>url_Scheme = ToLower sch, url_User = user, url_Host = host, url_RawQuery = q\<rparr>"
proof -
  have "cut_or_all CHR ''?'' (''//'' @ auth @ CHR ''?'' # q) = (''//'' @ auth, q)"
    using CutByte_append[of "CHR ''?''" "''//'' @ auth" q] assms(5) by (simp add: cut_or_all_def)
  moreover have "cut_or_all CHR ''/'' auth = (auth, [])"
    using assms(6) by (simp add: cut_or_all_def CutByte_None_iff[symmetric] del: CutByte.simps)
  ultimately show ?thesis using assms by (simp add: parse_url_def HasPrefix_def Let_def)
qed

lemma parse_link:
  assumes "authority_ok a"
  shows "parse_url (link_text u a q) =
    Some \<lparr>url_Scheme = ''vless'', url_User = Some u, url_Host = a, url_RawQuery = EncodeValues q\<rparr>"
proof -
  have lower: "ToLower ''vless'' = ''vless''" by code_simp
  have "link_text u a q = ''vless:'' @ (''//'' @ (escape EncUserPassword u @ CHR ''@'' # a) @ CHR ''?'' # EncodeValues q)"
    by (simp add: link_text_def)
  then have scheme: "getScheme (link_text u a q) =
      Some (''vless'', ''//'' @ (escape EncUserPassword u @ CHR ''@'' # a) @ CHR ''?'' # EncodeValues q)"
    using vless_scheme by presburger
  have no_ctl: "\<not> has_ctl (link_text u a q)" using link_visible[OF assms] visible_no_ctl by blast
  have named: "link_text u a q \<noteq> ''*''" by (simp add: link_text_def)
  have "ToLower ''vless'' \<noteq> []" using lower by simp
  moreover have "CHR ''?'' \<notin> set (escape EncUserPassword u @ CHR ''@'' # a)"
      "CHR ''/'' \<notin> set (escape EncUserPassword u @ CHR ''@'' # a)"
    using assms authority_symbols user_not_in unfolding authority_ok_def by auto
  ultimately show ?thesis
    using parse_url_authority[OF no_ctl named scheme _ _ _ parse_authority[OF assms]] lower by presburger
qed

lemma URLParse_link:
  assumes "authority_ok a"
  shows "URLParse (link_text u a q) =
    Some \<lparr>url_Scheme = ''vless'', url_User = Some u, url_Host = a, url_RawQuery = EncodeValues q\<rparr>"
    "unescape EncFragment f \<noteq> None \<Longrightarrow> URLParse (link_text u a q @ CHR ''#'' # f) =
    Some \<lparr>url_Scheme = ''vless'', url_User = Some u, url_Host = a, url_RawQuery = EncodeValues q\<rparr>"
proof -
  have "CHR ''#'' \<notin> set (link_text u a q)"
    using assms authority_symbols(4) user_not_in[of "CHR ''#''" u] encode_not_in[of "CHR ''#''" q]
    unfolding authority_ok_def by (auto simp: link_text_def)
  then have "cut_or_all CHR ''#'' (link_text u a q) = (link_text u a q, [])"
    "cut_or_all CHR ''#'' (link_text u a q @ CHR ''#'' # f) = (link_text u a q, f)"
    by (simp_all add: cut_or_all_def CutByte_None_iff[symmetric] CutByte_append del: CutByte.simps)
  then show "URLParse (link_text u a q) =
    Some \<lparr>url_Scheme = ''vless'', url_User = Some u, url_Host = a, url_RawQuery = EncodeValues q\<rparr>"
    "unescape EncFragment f \<noteq> None \<Longrightarrow> URLParse (link_text u a q @ CHR ''#'' # f) =
    Some \<lparr>url_Scheme = ''vless'', url_User = Some u, url_Host = a, url_RawQuery = EncodeValues q\<rparr>"
    using parse_link[OF assms, of u q] by (simp_all add: URLParse_def)
qed

end
