(* ===== verification/LinkClaims.thy ===== *)
theory LinkClaims
  imports LinkFacts RunnerFacts
begin

text \<open>
  A share link that was read is printed as a link that reads the same, and the upstream store keeps
  either the link it had or the whole of the new one.
\<close>

subsection \<open>What a reader of links returns\<close>

definition tls_shape :: "proxy_tls \<Rightarrow> bool" where
  "tls_shape x \<longleftrightarrow>
     (if pr_Enabled (pt_Reality x) then pt_Enabled x \<and> pr_PublicKey (pt_Reality x) \<noteq> [] \<and> pt_ServerName x \<noteq> []
      else pt_Reality x = pt_Reality zero_proxy_tls \<and> (pt_Enabled x \<longrightarrow> pt_ServerName x \<noteq> []))"

definition transport_shape :: "proxy_transport \<Rightarrow> bool" where
  "transport_shape x \<longleftrightarrow>
     x = zero_proxy_transport \<or>
     px_Type x = ''grpc'' \<and> px_Path x = [] \<and> px_Host x = [] \<or>
     px_Type x \<in> {''ws'', ''httpupgrade''} \<and> px_Path x \<noteq> [] \<and> px_ServiceName x = []"

definition link_shape :: "proxy_tunnel \<Rightarrow> bool" where
  "link_shape t \<longleftrightarrow> py_Protocol t = ''vless'' \<and> py_Port t \<noteq> 0 \<and> py_UUID t \<noteq> [] \<and>
     tls_shape (py_TLS t) \<and> transport_shape (py_Transport t)"

text \<open>A link carries neither the name an address was resolved from nor the settings of a TLS that is off.\<close>

definition as_link :: "proxy_tunnel \<Rightarrow> proxy_tunnel" where
  "as_link t = t\<lparr>py_OriginServer := [], py_TLS := (if pt_Enabled (py_TLS t) then py_TLS t else zero_proxy_tls)\<rparr>"

lemma link_tls_shape:
  assumes "link_tls q host = Inr x" "host \<noteq> []"
  shows "tls_shape x \<and> (pt_Enabled x \<or> x = zero_proxy_tls)"
  using assms by (auto simp: link_tls_def tls_shape_def zero_proxy_tls_def Let_def split: if_splits)

lemma link_transport_shape: "link_transport q = Inr x \<Longrightarrow> transport_shape x"
  by (auto simp: link_transport_def transport_shape_def zero_proxy_transport_def Let_def split: if_splits)

text \<open>Every link that is read went through every step.\<close>

lemma ParseVLESS_E:
  assumes "ParseVLESS l = Inr t"
  obtains u uuid host raw port tls tr where
    "URLParse (TrimSpace l) = Some u" "url_Scheme u = ''vless''" "url_User u = Some uuid" "uuid \<noteq> []"
    "SplitHostPort (url_Host u) = Inr (host, raw)" "ParseUint 16 raw = Some port" "port \<noteq> 0"
    "link_tls (ParseQuery (url_RawQuery u)) host = Inr tls" "link_transport (ParseQuery (url_RawQuery u)) = Inr tr"
    "t = \<lparr>py_Protocol = ''vless'', py_Server = host, py_OriginServer = [], py_Port = of_nat port,
      py_UUID = uuid, py_Flow = QueryGet (ParseQuery (url_RawQuery u)) ''flow'', py_TLS = tls, py_Transport = tr\<rparr>"
proof -
  from assms obtain u uuid where u: "URLParse (TrimSpace l) = Some u" "url_Scheme u = ''vless''" "url_User u = Some uuid" "uuid \<noteq> []"
    by (auto simp: ParseVLESS_def split: option.splits if_splits)
  with assms obtain host raw where h: "SplitHostPort (url_Host u) = Inr (host, raw)"
    by (cases "SplitHostPort (url_Host u)") (auto simp: ParseVLESS_def)
  with u assms obtain port where p: "ParseUint 16 raw = Some port" "port \<noteq> 0"
    by (cases "ParseUint 16 raw") (auto simp: ParseVLESS_def split: if_splits)
  show thesis
    using assms u h p that by (auto simp: ParseVLESS_def Let_def bindE_Inr_iff)
qed

lemma ParseVLESS_shape:
  assumes "ParseVLESS l = Inr t" "py_Server t \<noteq> []"
  shows "link_shape t \<and> as_link t = t"
proof -
  from assms(1) obtain u uuid host raw port tls tr where
    steps: "URLParse (TrimSpace l) = Some u" "url_Scheme u = ''vless''" "url_User u = Some uuid" "uuid \<noteq> []"
      "SplitHostPort (url_Host u) = Inr (host, raw)" "ParseUint 16 raw = Some port" "port \<noteq> 0"
    and tls: "link_tls (ParseQuery (url_RawQuery u)) host = Inr tls"
    and tr: "link_transport (ParseQuery (url_RawQuery u)) = Inr tr"
    and t: "t = \<lparr>py_Protocol = ''vless'', py_Server = host, py_OriginServer = [], py_Port = of_nat port,
      py_UUID = uuid, py_Flow = QueryGet (ParseQuery (url_RawQuery u)) ''flow'', py_TLS = tls, py_Transport = tr\<rparr>"
    by (rule ParseVLESS_E)
  note steps(4,6,7)
  moreover have "(of_nat port :: 16 word) \<noteq> 0"
  proof -
    have "port < 2 ^ 16" using steps(6) by (rule ParseUint_bound)
    then have "unat (of_nat port :: 16 word) = port" by (simp add: unsigned_of_nat take_bit_nat_eq_self)
    then show ?thesis using steps(7) by auto
  qed
  moreover have tls_ok: "tls_shape tls \<and> (pt_Enabled tls \<or> tls = zero_proxy_tls)"
    using assms(2) t by (intro link_tls_shape[OF tls]) simp
  ultimately have "link_shape t"
    using link_transport_shape[OF tr] unfolding t link_shape_def by simp
  moreover have "as_link t = t"
    by (cases "pt_Enabled tls") (use tls_ok in \<open>simp_all add: t as_link_def\<close>)
  ultimately show ?thesis by blast
qed

subsection \<open>What a printed link holds\<close>

definition link_query :: "proxy_tunnel \<Rightarrow> (string \<times> string) list" where
  "link_query t =
     (let tls = py_TLS t; tr = py_Transport t; opt = \<lambda>k v. if v = [] then [] else [(k, v)] in
      [(''encryption'', ''none'')] @ opt ''flow'' (py_Flow t) @
      (if pr_Enabled (pt_Reality tls)
       then [(''security'', ''reality''), (''pbk'', pr_PublicKey (pt_Reality tls))] @ opt ''sid'' (pr_ShortID (pt_Reality tls))
       else if pt_Enabled tls then [(''security'', ''tls'')] else []) @
      opt ''sni'' (pt_ServerName tls) @ opt ''fp'' (pt_Fingerprint tls) @
      (if px_Type tr = [] then [(''type'', ''tcp'')]
       else if px_Type tr = ''grpc'' then [(''type'', ''grpc''), (''serviceName'', px_ServiceName tr)]
       else [(''type'', px_Type tr), (''path'', px_Path tr)] @ opt ''host'' (px_Host tr)))"

lemma link_query_distinct: "distinct (map fst (link_query t))"
  by (simp add: link_query_def Let_def)

lemma link_query_get:
  shows "QueryGet (link_query t) ''flow'' = py_Flow t"
    and "QueryGet (link_query t) ''sni'' = pt_ServerName (py_TLS t)"
    and "QueryGet (link_query t) ''fp'' = pt_Fingerprint (py_TLS t)"
    and "QueryGet (link_query t) ''security'' =
      (if pr_Enabled (pt_Reality (py_TLS t)) then ''reality'' else if pt_Enabled (py_TLS t) then ''tls'' else [])"
    and "pr_Enabled (pt_Reality (py_TLS t)) \<Longrightarrow> QueryGet (link_query t) ''pbk'' = pr_PublicKey (pt_Reality (py_TLS t))"
    and "pr_Enabled (pt_Reality (py_TLS t)) \<Longrightarrow> QueryGet (link_query t) ''sid'' = pr_ShortID (pt_Reality (py_TLS t))"
    and "QueryGet (link_query t) ''type'' = (if px_Type (py_Transport t) = [] then ''tcp'' else px_Type (py_Transport t))"
    and "px_Type (py_Transport t) = ''grpc'' \<Longrightarrow> QueryGet (link_query t) ''serviceName'' = px_ServiceName (py_Transport t)"
    and "px_Type (py_Transport t) \<notin> {[], ''grpc''} \<Longrightarrow> QueryGet (link_query t) ''path'' = px_Path (py_Transport t)"
    and "px_Type (py_Transport t) \<notin> {[], ''grpc''} \<Longrightarrow> QueryGet (link_query t) ''host'' = px_Host (py_Transport t)"
  by (simp_all add: link_query_def Let_def QueryGet_def)

subsection \<open>Printing and reading\<close>

lemma RenderVLESS_text:
  assumes "py_Server t \<noteq> []" "link_shape t" "dialable (py_Server t)"
  shows "RenderVLESS t = Inr (link_text (py_UUID t) (JoinHostPort (py_Server t) (Itoa (unat (py_Port t)))) (link_query t))"
proof -
  have "EncodeValues (link_query t) \<noteq> []"
  proof
    assume "EncodeValues (link_query t) = []"
    then have "sort_key fst (link_query t) = ParseQuery []" using ParseQuery_EncodeValues[of "link_query t"] by simp
    also have "\<dots> = []" by (simp add: ParseQuery_def query_pair_def List.map_filter_simps)
    finally have "link_query t = []" by (metis length_0_conv length_sort)
    then show False by (simp add: link_query_def Let_def)
  qed
  moreover have "escape EncHost (JoinHostPort (py_Server t) (Itoa (unat (py_Port t)))) = JoinHostPort (py_Server t) (Itoa (unat (py_Port t)))"
    using dialable_authority[OF assms(3)] by (intro escape_host_id) (simp add: authority_ok_def)
  moreover have "RenderVLESS t = Inr (URLString \<lparr>url_Scheme = ''vless'', url_User = Some (py_UUID t),
             url_Host = JoinHostPort (py_Server t) (Itoa (unat (py_Port t))), url_RawQuery = EncodeValues (link_query t)\<rparr>)"
    using assms(1,2) unfolding RenderVLESS_def link_query_def Let_def link_shape_def by (simp only: if_False simp_thms)
  ultimately show ?thesis by (simp add: URLString_def link_text_def)
qed

lemma link_tls_query:
  assumes "tls_shape (py_TLS t)" "\<And>k. QueryGet q k = QueryGet (link_query t) k"
  shows "link_tls q host = Inr (if pt_Enabled (py_TLS t) then py_TLS t else zero_proxy_tls)"
proof (cases "pr_Enabled (pt_Reality (py_TLS t))")
  case True
  then show ?thesis
    using assms(1) link_query_get[of t] by (simp add: link_tls_def assms(2) tls_shape_def)
next
  case False
  then show ?thesis
    using assms(1) link_query_get[of t] by (simp add: link_tls_def assms(2) tls_shape_def zero_proxy_tls_def)
qed

lemma link_transport_query:
  assumes "transport_shape (py_Transport t)" "\<And>k. QueryGet q k = QueryGet (link_query t) k"
  shows "link_transport q = Inr (py_Transport t)"
  using assms(1) link_query_get(7-10)[of t]
  by (auto simp: link_transport_def assms(2) transport_shape_def zero_proxy_transport_def Let_def)

lemma link_text_parsed:
  assumes "link_shape t" "dialable (py_Server t)" "as_link t = r" "TrimSpace l = link_text (py_UUID t)
      (JoinHostPort (py_Server t) (Itoa (unat (py_Port t)))) (link_query t)"
  shows "ParseVLESS l = Inr r"
proof -
  let ?q = "ParseQuery (EncodeValues (link_query t))"
  have q: "QueryGet ?q k = QueryGet (link_query t) k" for k
    using QueryGet_EncodeValues[OF link_query_distinct] .
  have "unat (py_Port t) < 2 ^ 16" using unsigned_less[of "py_Port t", where 'a = nat] by simp
  then have "ParseUint 16 (Itoa (unat (py_Port t))) = Some (unat (py_Port t))" by (rule ParseUint_Itoa)
  moreover have "unat (py_Port t) \<noteq> 0" using assms(1) by (simp add: link_shape_def unat_eq_0)
  moreover have "link_tls ?q (py_Server t) = Inr (if pt_Enabled (py_TLS t) then py_TLS t else zero_proxy_tls)"
    using assms(1) q by (intro link_tls_query) (simp_all add: link_shape_def)
  moreover have "link_transport ?q = Inr (py_Transport t)"
    using assms(1) q by (intro link_transport_query) (simp_all add: link_shape_def)
  ultimately have "ParseVLESS l = Inr \<lparr>py_Protocol = ''vless'', py_Server = py_Server t, py_OriginServer = [],
      py_Port = py_Port t, py_UUID = py_UUID t, py_Flow = py_Flow t,
      py_TLS = (if pt_Enabled (py_TLS t) then py_TLS t else zero_proxy_tls), py_Transport = py_Transport t\<rparr>"
    using assms(1,4) URLParse_link(1)[OF dialable_authority[OF assms(2)]] dialable_split[OF assms(2)] q[of "''flow''"] link_query_get(1)[of t]
    by (simp add: ParseVLESS_def link_shape_def)
  moreover have "r = t\<lparr>py_OriginServer := [], py_TLS := (if pt_Enabled (py_TLS t) then py_TLS t else zero_proxy_tls)\<rparr>"
    "py_Protocol t = ''vless''"
    using assms(1,3) by (simp_all add: as_link_def link_shape_def)
  ultimately show ?thesis by (cases t) simp
qed

lemma dialable_nonempty: "dialable h \<Longrightarrow> h \<noteq> []"
  by (auto simp: dialable_def plain_host_def literal_host_def)

lemma printed_link_reads:
  assumes "link_shape t" "dialable (py_Server t)"
  obtains link where "RenderVLESS t = Inr link" "\<forall>c \<in> set link. visible c"
    "\<And>l. TrimSpace l = link \<Longrightarrow> ParseVLESS l = Inr (as_link t)" "link \<noteq> []"
proof
  let ?link = "link_text (py_UUID t) (JoinHostPort (py_Server t) (Itoa (unat (py_Port t)))) (link_query t)"
  show "RenderVLESS t = Inr ?link" using RenderVLESS_text[OF dialable_nonempty[OF assms(2)] assms] .
  show "\<forall>c \<in> set ?link. visible c" using link_visible[OF dialable_authority[OF assms(2)]] by blast
  show "ParseVLESS l = Inr (as_link t)" if "TrimSpace l = ?link" for l using link_text_parsed[OF assms refl that] .
  show "?link \<noteq> []" by (simp add: link_text_def)
qed

text \<open>C24: A link that was read is printed as a link that reads the same, whatever its transport and security, for every
  host name, IPv4 address and IPv6 address: what a refresh stores is what was proven.\<close>
theorem links_round_trip:
  assumes "ParseVLESS l = Inr t" "dialable (py_Server t)"
  shows "\<exists>link. RenderVLESS t = Inr link \<and> ParseVLESS link = Inr t \<and> ParseVLESS (link @ [NL]) = Inr t"
proof -
  have shape: "link_shape t" "as_link t = t"
    using ParseVLESS_shape[OF assms(1) dialable_nonempty[OF assms(2)]] by auto
  obtain link where link: "RenderVLESS t = Inr link" "\<forall>c \<in> set link. visible c" "link \<noteq> []"
    "\<And>l. TrimSpace l = link \<Longrightarrow> ParseVLESS l = Inr (as_link t)"
    by (rule printed_link_reads[OF shape(1) assms(2)]) blast
  have "TrimSpace link = link" "TrimSpace (link @ [NL]) = link"
    using TrimSpace_visible[OF link(2)] TrimSpace_newline[OF link(2,3)] by auto
  then show ?thesis using link(1,4) shape(2) by metis
qed

definition a_link :: string where
  "a_link = ''vless://11111111-2222-3333-4444-555555555555@cdn.example.com:8443?type=ws&path=%2Fws%20x&security=tls&sni=cdn.example.com&flow=a%26b#my%20node''"

theorem links_round_trip_witness:
  "\<exists>t link. ParseVLESS a_link = Inr t \<and> RenderVLESS t = Inr link \<and> ParseVLESS link = Inr t \<and> ParseVLESS (link @ [NL]) = Inr t"
proof -
  have "isOk (ParseVLESS a_link)" by code_simp
  then obtain t where t: "ParseVLESS a_link = Inr t" by (auto simp: isOk_iff)
  have "(case ParseVLESS a_link of Inl _ \<Rightarrow> False | Inr t \<Rightarrow> py_Server t = ''cdn.example.com'')" by code_simp
  then have "py_Server t = ''cdn.example.com''" using t by simp
  moreover have "dialable ''cdn.example.com''" by code_simp
  ultimately show ?thesis using links_round_trip[OF t] t by metis
qed

subsection \<open>The store of promoted links\<close>

lemma wp_makeDir [wp_rules]:
  "wp (makeDir env path) Q = (\<lambda>h. case e_Write env (h_Log h) path [] of None \<Rightarrow> Q (Inr ()) h | Some _ \<Rightarrow> Q (Inl (WriteFailed path)) h)"
  by (simp add: wp_def makeDir_def fun_eq_iff split: option.split)

lemma wp_alive [wp_rules]:
  "wp (alive env) Q = (\<lambda>h. if e_Cancelled env (h_Log h) then Q (Inl Cancelled) h else Q (Inr ()) h)"
  by (simp add: alive_def wp_rules fun_eq_iff)

lemma previous_differs [simp]: "previous_path p \<noteq> p" "p \<noteq> previous_path p"
  by (simp_all add: previous_path_def)

text \<open>The files a write may leave: the link as it was or as it was printed, its predecessor as it was or a copy.\<close>

definition write_kept :: "string \<Rightarrow> string option \<Rightarrow> host \<Rightarrow> host \<Rightarrow> bool" where
  "write_kept path new h h' \<longleftrightarrow>
     (h_Files h' path = h_Files h path \<or> new \<noteq> None \<and> h_Files h' path = new) \<and>
     h_Files h' (previous_path path) \<in> {h_Files h (previous_path path), h_Files h path} \<and>
     (\<forall>p. p \<noteq> path \<and> p \<noteq> previous_path path \<longrightarrow> h_Files h' p = h_Files h p)"

lemma write_kept_refl [simp]: "write_kept path new h h"
  by (simp add: write_kept_def)

lemma keep_previous_kept:
  "wp (keep_previous env path) (\<lambda>r h'. write_kept path None h h' \<and>
     (r = Inr () \<longrightarrow> h_Files h' path = h_Files h path \<and>
        (\<forall>c. h_Files h path = Some c \<and> e_Read env (h_Log h) path \<longrightarrow> h_Files h' (previous_path path) = Some c))) h"
  by (auto simp: keep_previous_def wp_rules write_kept_def Let_def split: option.splits)

definition printed :: "proxy_tunnel \<Rightarrow> string option" where
  "printed t = (case RenderVLESS t of Inl _ \<Rightarrow> None | Inr link \<Rightarrow> Some (link @ [NL]))"

lemma UpstreamWrite_kept:
  "wp (UpstreamWrite env dir i t) (\<lambda>r h'. write_kept (link_path dir i) (printed t) h h' \<and>
     (r = Inr () \<longrightarrow> printed t \<noteq> None \<and> h_Files h' (link_path dir i) = printed t \<and>
        (\<forall>c. h_Files h (link_path dir i) = Some c \<and> e_Read env (h_Log h) (link_path dir i) \<longrightarrow>
           h_Files h' (previous_path (link_path dir i)) = Some c))) h"
    (is "wp _ ?Q h")
proof -
  let ?p = "link_path dir i"
  let ?mid = "\<lambda>r h'. write_kept ?p None h h' \<and> (r = Inr () \<longrightarrow> h_Files h' ?p = h_Files h ?p \<and>
        (\<forall>c. h_Files h ?p = Some c \<and> e_Read env (h_Log h) ?p \<longrightarrow> h_Files h' (previous_path ?p) = Some c))"
  have tail: "wp (andThen (returns (RenderVLESS t)) (\<lambda>link. andThen (alive env) (\<lambda>_. replaceFile env ?p (link @ [NL])))) ?Q h1"
    if "?mid (Inr ()) h1" for h1
    using that by (auto simp: wp_rules write_kept_def printed_def Let_def split: option.splits sum.splits)
  have keep: "wp (andThen (keep_previous env ?p) (\<lambda>_. andThen (returns (RenderVLESS t)) (\<lambda>link. andThen (alive env)
      (\<lambda>_. replaceFile env ?p (link @ [NL]))))) ?Q h"
    by (rule wp_seq[OF keep_previous_kept[of env ?p h]]) (use tail in \<open>auto simp: write_kept_def\<close>)
  have still: "wp (alive env) (\<lambda>r h'. h' = h) h" "wp (wrapping c (makeDir env d)) (\<lambda>r h'. h' = h) h" for c d
    by (auto simp: wp_alive wp_wrapping wp_makeDir split: option.split)
  show ?thesis
    unfolding UpstreamWrite_def
    by (rule wp_seq[OF still(1)], simp, hypsubst, rule wp_seq[OF still(2)], simp, hypsubst, rule wp_seq[OF still(1)], simp,
        hypsubst, rule keep)
qed


text \<open>A promotion that fails leaves the active link or puts the whole of the new one in its place, and one that
  succeeds is read back as what was proven, with the link it replaced beside it.\<close>
theorem promotions_are_whole:
  assumes "run_state (UpstreamWrite env dir i t) h = (r, h')"
  shows "(h_Files h' (link_path dir i) = h_Files h (link_path dir i) \<or>
          (\<exists>link. RenderVLESS t = Inr link \<and> h_Files h' (link_path dir i) = Some (link @ [NL]))) \<and>
         (r = Inr () \<and> link_shape t \<and> dialable (py_Server t) \<longrightarrow>
          (\<exists>c. h_Files h' (link_path dir i) = Some c \<and> link_of c = Inr (as_link t)) \<and>
          (\<forall>c. h_Files h (link_path dir i) = Some c \<and> e_Read env (h_Log h) (link_path dir i) \<longrightarrow>
             h_Files h' (previous_path (link_path dir i)) = Some c))"
proof -
  note outcome = wpD[OF UpstreamWrite_kept assms]
  have read_back: "\<exists>c. h_Files h' (link_path dir i) = Some c \<and> link_of c = Inr (as_link t)"
    if "r = Inr ()" and shape: "link_shape t" "dialable (py_Server t)"
  proof -
    obtain link where link: "RenderVLESS t = Inr link" "\<forall>c \<in> set link. visible c" "link \<noteq> []"
      "\<And>l. TrimSpace l = link \<Longrightarrow> ParseVLESS l = Inr (as_link t)"
      by (rule printed_link_reads[OF shape]) blast
    have "link_of (link @ [NL]) = Inr (as_link t)"
      using link(4)[of link] TrimSpace_visible[OF link(2)] TrimSpace_newline[OF link(2,3)] by (simp add: link_of_def)
    then show ?thesis using outcome that(1) link(1) by (simp add: printed_def)
  qed
  have "h_Files h' (link_path dir i) = h_Files h (link_path dir i) \<or>
         (\<exists>link. RenderVLESS t = Inr link \<and> h_Files h' (link_path dir i) = Some (link @ [NL]))"
    using outcome by (auto simp: write_kept_def printed_def split: sum.splits)
  with outcome read_back show ?thesis by blast
qed

definition a_tunnel :: proxy_tunnel where
  "a_tunnel = zero_proxy\<lparr>py_Protocol := ''vless'', py_Server := ''198.41.0.4'', py_OriginServer := ''node.example.com'',
     py_Port := 443, py_UUID := ''11111111-2222-3333-4444-555555555555'',
     py_TLS := zero_proxy_tls\<lparr>pt_Enabled := True, pt_ServerName := ''node.example.com''\<rparr>\<rparr>"

theorem promotions_are_whole_witness:
  "\<exists>h' c. run_state (UpstreamWrite calm_env [] ''nl'' a_tunnel) bare_host = (Inr (), h') \<and>
     h_Files h' ''/etc/vpn-hub/subscriptions/nl.link'' = Some c \<and> link_of c = Inr (a_tunnel\<lparr>py_OriginServer := []\<rparr>)"
proof -
  have shape: "link_shape a_tunnel" "dialable (py_Server a_tunnel)" by code_simp+
  obtain link where link: "RenderVLESS a_tunnel = Inr link" by (rule printed_link_reads[OF shape]) blast
  obtain r h' where written: "run_state (UpstreamWrite calm_env [] ''nl'' a_tunnel) bare_host = (r, h')" by (rule prod.exhaust)
  have "wp (UpstreamWrite calm_env [] ''nl'' a_tunnel) (\<lambda>r _. r = Inr ()) bare_host"
    by (simp add: UpstreamWrite_def keep_previous_def wp_rules bare_host_def link)
  from wpD[OF this written] have ok: "r = Inr ()" .
  have name: "link_path [] ''nl'' = ''/etc/vpn-hub/subscriptions/nl.link''" by code_simp
  have kept: "as_link a_tunnel = a_tunnel\<lparr>py_OriginServer := []\<rparr>" by (simp add: as_link_def a_tunnel_def)
  from promotions_are_whole[OF written] ok shape
  obtain c where "h_Files h' (link_path [] ''nl'') = Some c" "link_of c = Inr (as_link a_tunnel)" by blast
  then show ?thesis using written ok unfolding name kept by blast
qed

lemma link_of_error: "link_of c \<noteq> Inl (WriteFailed p)"
  by (cases "ParseVLESS (TrimSpace c)") (simp_all add: link_of_def)

lemma UpstreamRestore_files:
  assumes "h_Files h (link_path dir i) = Some c" "h_Files h (previous_path (link_path dir i)) = Some p"
  shows "wp (UpstreamRestore env dir i) (\<lambda>r h'.
       (isOk r \<longrightarrow> h_Files h' (link_path dir i) = Some p \<and> h_Files h' (previous_path (link_path dir i)) = Some c \<and> r = link_of p) \<and>
       (r = Inl (WriteFailed (link_path dir i)) \<longrightarrow>
          h_Files h' (link_path dir i) \<in> {Some c, Some p} \<and> h_Files h' (previous_path (link_path dir i)) = Some c)) h"
  using assms link_of_error
  by (auto simp: UpstreamRestore_def read_existing_def wp_rules Let_def split: option.splits sum.splits if_splits)

text \<open>Going back exchanges the active link and the last known good one.  When the second of its two writes fails
  before the new file takes the name, both files hold the link that was active, and the one the operator asked for is
  nowhere on disk.\<close>
theorem an_interrupted_return_loses_the_good_link:
  assumes "h_Files h (link_path dir i) = Some c" "h_Files h (previous_path (link_path dir i)) = Some p"
    and "run_state (UpstreamRestore env dir i) h = (r, h')"
  shows "(isOk r \<longrightarrow> h_Files h' (link_path dir i) = Some p \<and> h_Files h' (previous_path (link_path dir i)) = Some c \<and> r = link_of p) \<and>
    (r = Inl (WriteFailed (link_path dir i)) \<and> h_Files h' (link_path dir i) \<noteq> Some p \<longrightarrow>
       h_Files h' (link_path dir i) = Some c \<and> h_Files h' (previous_path (link_path dir i)) = Some c)"
  using wpD[OF UpstreamRestore_files[OF assms(1,2)] assms(3)] by auto

definition full_disk :: env where
  "full_disk = calm_env\<lparr>e_Write := \<lambda>log path content. if log = [] then None else Some None\<rparr>"

definition two_links :: host where
  "two_links = bare_host\<lparr>h_Files := (h_Files bare_host)(''/etc/vpn-hub/subscriptions/nl.link'' := Some ''vless://b@b:443'',
     ''/etc/vpn-hub/subscriptions/nl.link.last-known-good'' := Some ''vless://a@a:443'')\<rparr>"

theorem an_interrupted_return_loses_the_good_link_witness:
  "\<exists>h'. run_state (UpstreamRestore full_disk [] ''nl'') two_links = (Inl (WriteFailed ''/etc/vpn-hub/subscriptions/nl.link''), h') \<and>
     h_Files h' ''/etc/vpn-hub/subscriptions/nl.link'' = Some ''vless://b@b:443'' \<and>
     h_Files h' ''/etc/vpn-hub/subscriptions/nl.link.last-known-good'' = Some ''vless://b@b:443''"
proof -
  have names: "link_path [] ''nl'' = ''/etc/vpn-hub/subscriptions/nl.link''"
    "previous_path (''/etc/vpn-hub/subscriptions/nl.link'') = ''/etc/vpn-hub/subscriptions/nl.link.last-known-good''" by code_simp+
  have kept: "h_Files two_links (link_path [] ''nl'') = Some ''vless://b@b:443''"
    "h_Files two_links (previous_path (link_path [] ''nl'')) = Some ''vless://a@a:443''"
    unfolding names by (simp_all add: two_links_def)
  obtain r h' where went: "run_state (UpstreamRestore full_disk [] ''nl'') two_links = (r, h')" by (rule prod.exhaust)
  have "isOk (link_of ''vless://a@a:443'')" by code_simp
  then obtain t where "link_of ''vless://a@a:443'' = Inr t" by (auto simp: isOk_iff)
  then have "wp (UpstreamRestore full_disk [] ''nl'') (\<lambda>r h'. r = Inl (WriteFailed (link_path [] ''nl'')) \<and>
      h_Files h' (link_path [] ''nl'') \<noteq> Some ''vless://a@a:443'') two_links"
    using kept by (simp add: UpstreamRestore_def read_existing_def wp_rules Let_def full_disk_def two_links_def bare_host_def)
  from wpD[OF this went] have "r = Inl (WriteFailed (link_path [] ''nl''))" "h_Files h' (link_path [] ''nl'') \<noteq> Some ''vless://a@a:443''"
    by auto
  with an_interrupted_return_loses_the_good_link[OF kept went] went show ?thesis unfolding names by blast
qed

end
