(* ===== verification/ClientProfileClaims.thy ===== *)
theory ClientProfileClaims
  imports ClientProfiles LinkClaims Sample
begin

text \<open>
  The hub's own readers read what it hands to devices: the profile names this hub, its resolver and its
  parameters, and the fallback link the listener that serves the device.
\<close>

subsection \<open>Lines of a profile\<close>

definition solid :: "string \<Rightarrow> bool" where
  "solid v \<longleftrightarrow> v \<noteq> [] \<and> (\<forall>c \<in> set v. visible c)"

text \<open>The name of a setting: no assignment in it, and nothing a comment or a section starts with.\<close>

definition setting_name :: "string \<Rightarrow> bool" where
  "setting_name n \<longleftrightarrow> solid n \<and> CHR ''='' \<notin> set n \<and> hd n \<notin> set ''#;[''"

lemma visible_ends: "solid v \<Longrightarrow> visible (hd v) \<and> visible (last v)"
  by (auto simp: solid_def)

lemma solid_value: "solid v \<Longrightarrow> v \<noteq> []" "solid v \<Longrightarrow> visible (hd v)" "solid v \<Longrightarrow> visible (last v)"
  by (auto simp: solid_def)

lemma solid_trim: "solid v \<Longrightarrow> TrimSpace v = v"
  using TrimSpace_visible by (simp add: solid_def)

lemma not_prefix: "s \<noteq> [] \<Longrightarrow> hd s \<noteq> c \<Longrightarrow> \<not> HasPrefix s [c]"
  by (cases s) (simp_all add: HasPrefix_def)

lemma conf_any_setting:
  assumes "setting_name name" "v \<noteq> []" "visible (hd v)" "visible (last v)"
  shows "conf_line st (n, setting name v) =
    (if cs_Section st = ''interface''
     then bindE (interface_key n (ToLower name) v (cs_Tunnel st)) (\<lambda>t'. Inr (st\<lparr>cs_Tunnel := t'\<rparr>))
     else if cs_Section st = ''peer''
     then bindE (peer_key n (ToLower name) v (wt_Peer (cs_Tunnel st))) (\<lambda>p. Inr (st\<lparr>cs_Tunnel := (cs_Tunnel st)\<lparr>wt_Peer := p\<rparr>\<rparr>))
     else Inr st)"
proof -
  let ?l = "setting name v"
  have ends: "?l \<noteq> []" "hd ?l = hd name" "last ?l = last v"
    using assms by (auto simp: setting_def setting_name_def solid_def hd_append)
  have trim: "TrimSpace ?l = ?l"
    using ends visible_ends[of name] assms by (intro TrimSpace_solid) (simp add: setting_name_def)
  have heads: "\<not> HasPrefix ?l ''#''" "\<not> HasPrefix ?l '';''" "\<not> HasPrefix ?l ''[''"
    using ends(1,2) assms(1) not_prefix[of ?l] by (auto simp: setting_name_def)
  have "?l = (name @ '' '') @ CHR ''='' # (CHR '' '' # v)" by (simp add: setting_def)
  moreover have "CHR ''='' \<notin> set (name @ '' '')" using assms(1) by (simp add: setting_name_def)
  ultimately have "CutByte CHR ''='' ?l = Some (name @ '' '', CHR '' '' # v)" using CutByte_append by metis
  moreover have "TrimSpace (name @ '' '') = name" "TrimSpace (CHR '' '' # v) = v"
    using TrimSpace_blanks visible_ends assms by (auto simp: setting_name_def)
  ultimately show ?thesis
    using heads ends(1) by (simp add: conf_line_def trim is_comment_def Let_def)
qed

lemmas conf_setting = conf_any_setting[OF _ solid_value(1) solid_value(2) solid_value(3)]

lemma conf_section:
  "conf_line st (n, ''[Interface]'') = Inr (st\<lparr>cs_Section := ''interface''\<rparr>)"
  "\<not> cs_SeenPeer st \<Longrightarrow> conf_line st (n, ''[Peer]'') = Inr (st\<lparr>cs_Section := ''peer'', cs_SeenPeer := True\<rparr>)"
  "conf_line st (n, []) = Inr st"
proof -
  have "TrimSpace ''[Interface]'' = ''[Interface]''" "TrimSpace ''[Peer]'' = ''[Peer]''" "TrimSpace [] = []"
    "ToLower (TrimSet ''[Interface]'' ''[]'') = ''interface''" "ToLower (TrimSet ''[Peer]'' ''[]'') = ''peer''"
    by code_simp+
  then show "conf_line st (n, ''[Interface]'') = Inr (st\<lparr>cs_Section := ''interface''\<rparr>)"
    "\<not> cs_SeenPeer st \<Longrightarrow> conf_line st (n, ''[Peer]'') = Inr (st\<lparr>cs_Section := ''peer'', cs_SeenPeer := True\<rparr>)"
    "conf_line st (n, []) = Inr st"
    by (simp_all add: conf_line_def section_line_def is_comment_def HasPrefix_def HasSuffix_def Let_def)
qed

lemma lower_names:
  "ToLower ''PrivateKey'' = ''privatekey''" "ToLower ''Address'' = ''address''" "ToLower ''DNS'' = ''dns''" "ToLower ''MTU'' = ''mtu''"
  "ToLower ''I1'' = ''i1''" "ToLower ''PublicKey'' = ''publickey''" "ToLower ''AllowedIPs'' = ''allowedips''"
  "ToLower ''Endpoint'' = ''endpoint''" "ToLower ''PersistentKeepalive'' = ''persistentkeepalive''"
  by code_simp+

lemma plain_names:
  "list_all setting_name [''PrivateKey'', ''Address'', ''DNS'', ''MTU'', ''I1'', ''PublicKey'', ''AllowedIPs'', ''Endpoint'', ''PersistentKeepalive'']"
  by code_simp

lemma fixed_values: "solid ''1240''" "solid ''25''" "solid ''0.0.0.0/0''" "Atoi ''1240'' = Some 1240" "Atoi ''25'' = Some 25"
  "CanonicalAWGParameter ''i1'' = None"
  by code_simp+

lemma splitList_single: "solid v \<Longrightarrow> CHR '','' \<notin> set v \<Longrightarrow> splitList v = [v]"
  using solid_trim[of v] by (simp add: splitList_def Split_no_sep) (simp add: solid_def)

lemma foldE_append: "foldE f s (xs @ ys) = bindE (foldE f s xs) (\<lambda>s'. foldE f s' ys)"
  by (induction xs arbitrary: s) (auto simp: bindE_def split: sum.splits)

lemma Split_unlines: "\<forall>l \<in> set ls. NL \<notin> set l \<Longrightarrow> Split NL (unlines ls) = ls @ [[]]"
  by (induction ls) (simp_all add: unlines_def Split_no_sep Split_append del: NL_def)

subsection \<open>The whole profile\<close>

text \<open>The values a profile is written with: no blanks or breaks, and no list where one address is meant.\<close>

definition profile_values :: "hub \<Rightarrow> string \<Rightarrow> string \<Rightarrow> bool" where
  "profile_values hub address k \<longleftrightarrow> solid k \<and> solid address \<and> CHR '','' \<notin> set address \<and>
     solid (hub_DNSAddress hub) \<and> CHR '','' \<notin> set (hub_DNSAddress hub) \<and>
     solid (hub_ServerPublicKey hub) \<and> solid (hub_Endpoint hub) \<and> (\<forall>(key, v) \<in> set (hub_AWGInterface hub). solid v)"

definition profile_parameters :: "hub \<Rightarrow> (string \<times> string) list" where
  "profile_parameters hub = map (\<lambda>(key, v). (the (CanonicalAWGParameter key), v)) (sort_key fst (hub_AWGInterface hub))"

definition profile_tunnel :: "hub \<Rightarrow> string \<Rightarrow> string \<Rightarrow> wireguard_tunnel" where
  "profile_tunnel hub address k =
     \<lparr>wt_PrivateKey = k, wt_Addresses = [address], wt_DNS = [hub_DNSAddress hub], wt_MTU = 1240,
      wt_Parameters = rev (profile_parameters hub),
      wt_Peer = \<lparr>wp_PublicKey = hub_ServerPublicKey hub, wp_PresharedKey = [], wp_Endpoint = hub_Endpoint hub,
        wp_AllowedIPs = [''0.0.0.0/0''], wp_Keepalive = 25\<rparr>\<rparr>"

lemma interface_part:
  assumes "profile_values hub address k"
  shows "foldE conf_line empty_conf (enumerate 0 (interface_lines hub address k)) =
    Inr \<lparr>cs_Section = ''interface'', cs_SeenPeer = False, cs_Tunnel = zero_wireguard\<lparr>wt_PrivateKey := k,
      wt_Addresses := [address], wt_DNS := [hub_DNSAddress hub], wt_MTU := 1240\<rparr>\<rparr>"
  using assms plain_names fixed_values
  by (simp add: interface_lines_def conf_section conf_setting lower_names interface_key_def profile_values_def splitList_single empty_conf_def)

text \<open>A parameter's canonical name leads back to it.\<close>

lemma canonical_names: "list_all (\<lambda>(l, c). setting_name c \<and> ToLower c = l \<and> l \<notin> set [''privatekey'', ''address'', ''dns'', ''mtu'']) awgParameters"
  by code_simp

lemma canonical_name:
  assumes "CanonicalAWGParameter key = Some name"
  shows "setting_name name \<and> CanonicalAWGParameter (ToLower name) = Some name \<and>
    ToLower name \<notin> set [''privatekey'', ''address'', ''dns'', ''mtu'']"
proof -
  from assms have "(ToLower key, name) \<in> set awgParameters" unfolding CanonicalAWGParameter_def by (rule map_of_SomeD)
  then have "setting_name name \<and> ToLower name = ToLower key \<and> ToLower name \<notin> set [''privatekey'', ''address'', ''dns'', ''mtu'']"
    using canonical_names by (auto simp: list_all_iff)
  moreover from this have "CanonicalAWGParameter (ToLower name) = CanonicalAWGParameter key"
    by (simp only: CanonicalAWGParameter_case)
  ultimately show ?thesis using assms by metis
qed

lemma parameter_part:
  assumes "mapE parameter_line ps = Inr ls" "\<forall>(key, v) \<in> set ps. solid v" "cs_Section st = ''interface''"
  shows "foldE conf_line st (enumerate n ls) = Inr (st\<lparr>cs_Tunnel := (cs_Tunnel st)\<lparr>wt_Parameters :=
    rev (map (\<lambda>(key, v). (the (CanonicalAWGParameter key), v)) ps) @ wt_Parameters (cs_Tunnel st)\<rparr>\<rparr>)"
  using assms
proof (induction ps arbitrary: ls st n)
  case (Cons p ps)
  obtain key v where p: "p = (key, v)" by (cases p)
  with Cons.prems(1) obtain name ls' where name: "CanonicalAWGParameter key = Some name" and ls: "ls = setting name v # ls'"
    and rest: "mapE parameter_line ps = Inr ls'"
    by (auto simp: parameter_line_def bindE_Inr_iff of_option_Inr_iff)
  let ?t = "cs_Tunnel st"
  have "conf_line st (n, setting name v) = Inr (st\<lparr>cs_Tunnel := ?t\<lparr>wt_Parameters := (name, v) # wt_Parameters ?t\<rparr>\<rparr>)"
    using canonical_name[OF name] Cons.prems(2,3) p conf_setting[of name v st n] by (simp add: interface_key_def)
  then show ?case using Cons.IH[OF rest, of "st\<lparr>cs_Tunnel := ?t\<lparr>wt_Parameters := (name, v) # wt_Parameters ?t\<rparr>\<rparr>"] Cons.prems(2,3) name p ls
    by simp
qed simp

lemma last_part:
  assumes "profile_values hub address k" "cs_Section st = ''interface''" "\<not> cs_SeenPeer st"
    "wt_Peer (cs_Tunnel st) = wt_Peer zero_wireguard"
  shows "\<exists>st'. foldE conf_line st (enumerate n ([setting ''I1'' defaultI1] @ peer_lines hub @ [[]])) = Inr st' \<and>
    cs_Tunnel st' = (cs_Tunnel st)\<lparr>wt_Peer := \<lparr>wp_PublicKey = hub_ServerPublicKey hub, wp_PresharedKey = [],
      wp_Endpoint = hub_Endpoint hub, wp_AllowedIPs = [''0.0.0.0/0''], wp_Keepalive = 25\<rparr>\<rparr>"
proof -
  have "defaultI1 \<noteq> []" "visible (hd defaultI1)" "visible (last defaultI1)" by code_simp+
  then have i1: "conf_line st (n, setting ''I1'' defaultI1) = Inr st"
    using assms(2) plain_names fixed_values conf_any_setting[of "''I1''" defaultI1 st n]
    by (simp add: lower_names interface_key_def)
  show ?thesis
  using assms plain_names fixed_values i1
  by (simp add: peer_lines_def conf_section conf_setting lower_names peer_key_def profile_values_def splitList_single zero_wireguard_def)
qed

lemma setting_no_break: "NL \<notin> set name \<Longrightarrow> NL \<notin> set v \<Longrightarrow> NL \<notin> set (setting name v)"
  by (simp add: setting_def)

lemma solid_no_break: "solid v \<Longrightarrow> NL \<notin> set v"
  by (auto simp: solid_def visible_def code_def)

lemma parameter_lines_clean:
  assumes "mapE parameter_line ps = Inr ls" "\<forall>(key, v) \<in> set ps. solid v" "l \<in> set ls"
  shows "NL \<notin> set l"
  using assms
proof (induction ps arbitrary: ls)
  case (Cons p ps)
  then obtain key v name ls' where p: "p = (key, v)" "CanonicalAWGParameter key = Some name" "ls = setting name v # ls'"
    "mapE parameter_line ps = Inr ls'"
    by (cases p) (auto simp: parameter_line_def bindE_Inr_iff of_option_Inr_iff)
  have "NL \<notin> set name" using canonical_name[OF p(2)] solid_no_break by (simp add: setting_name_def)
  moreover have "NL \<notin> set v" using Cons.prems(2) p(1) solid_no_break by simp
  ultimately show ?case using Cons.IH[OF p(4)] Cons.prems p(1,3) setting_no_break by (auto simp del: NL_def)
qed simp

lemma fixed_lines_clean:
  assumes "profile_values hub address k" "l \<in> set (interface_lines hub address k @ [setting ''I1'' defaultI1] @ peer_lines hub)"
  shows "NL \<notin> set l"
proof -
  have fixed: "\<forall>w \<in> set [''[Interface]'', ''PrivateKey'', ''Address'', ''DNS'', ''MTU'', ''1240'', ''I1'', defaultI1, ''[Peer]'', ''PublicKey'',
      ''AllowedIPs'', ''0.0.0.0/0'', ''Endpoint'', ''PersistentKeepalive'', ''25'']. NL \<notin> set w" by code_simp
  show ?thesis
    using assms fixed setting_no_break solid_no_break
    unfolding interface_lines_def peer_lines_def profile_values_def by (auto simp del: NL_def)
qed

text \<open>A profile that the hub renders for a device reads, by the parser the hub applies to providers' files, as one
  interface with the device's key and address, the hub's resolver and obfuscation parameters, and the hub as its only
  peer.\<close>
theorem profiles_name_this_hub:
  assumes "RenderProfile hub address k = Inr profile" "profile_values hub address k"
    and "isOk (PublicKeyFromPrivate k)" "ValidatePublicKey (hub_ServerPublicKey hub) = Inr ()"
  shows "ParseWireGuardConfig profile = Inr (profile_tunnel hub address k)"
proof -
  from assms(1) obtain ls where ls: "mapE parameter_line (sort_key fst (hub_AWGInterface hub)) = Inr ls"
    and profile: "profile = unlines (interface_lines hub address k @ ls @ [setting ''I1'' defaultI1] @ peer_lines hub)"
    by (auto simp: RenderProfile_def bindE_Inr_iff split: if_splits)
  have ps: "\<forall>(key, v) \<in> set (sort_key fst (hub_AWGInterface hub)). solid v" using assms(2) by (simp add: profile_values_def)
  have "\<forall>l \<in> set (interface_lines hub address k @ ls @ [setting ''I1'' defaultI1] @ peer_lines hub). NL \<notin> set l"
    using fixed_lines_clean[OF assms(2)] parameter_lines_clean[OF ls ps] by auto
  then have lines: "Split NL profile = interface_lines hub address k @ ls @ ([setting ''I1'' defaultI1] @ peer_lines hub @ [[]])"
    unfolding profile by (simp add: Split_unlines del: NL_def)
  let ?st = "\<lparr>cs_Section = ''interface'', cs_SeenPeer = False, cs_Tunnel = zero_wireguard\<lparr>wt_PrivateKey := k,
      wt_Addresses := [address], wt_DNS := [hub_DNSAddress hub], wt_MTU := 1240\<rparr>\<rparr>"
  let ?mid = "?st\<lparr>cs_Tunnel := (cs_Tunnel ?st)\<lparr>wt_Parameters := rev (profile_parameters hub)\<rparr>\<rparr>"
  have middle: "foldE conf_line ?st (enumerate n ls) = Inr ?mid" for n
    using parameter_part[OF ls ps, of ?st n] by (simp add: profile_parameters_def zero_wireguard_def)
  obtain st' where st': "foldE conf_line empty_conf (enumerate 0 (Split NL profile)) = Inr st'" "cs_Tunnel st' = profile_tunnel hub address k"
    using last_part[OF assms(2), of ?mid]
    unfolding lines enumerate_append_eq foldE_append interface_part[OF assms(2)] middle bindE_simps
    by (auto simp: profile_tunnel_def zero_wireguard_def)
  have "validateTunnelConfig (profile_tunnel hub address k) = Inr ()"
    using assms(2-4) by (auto simp: validateTunnelConfig_def missing_fields_def profile_tunnel_def profile_values_def solid_def isOk_iff)
  then show ?thesis using st' by (simp add: ParseWireGuardConfig_def)
qed

lemma base64_visible: "n < 64 \<Longrightarrow> visible (b64_char ''+/'' n)"
  by (auto simp: b64_char_def visible_def code_def)

lemma encode_quanta_visible: "\<forall>c \<in> set (encode_quanta ''+/'' True s). visible c"
proof (induction s rule: encode_quanta.induct[of "\<lambda>_ _ s. \<forall>c \<in> set (encode_quanta ''+/'' True s). visible c" "''+/''" True])
  case (2 al pad a)
  have "visible CHR ''=''" by code_simp
  then show ?case using code_less[of a] by (auto simp: Let_def intro!: base64_visible)
next
  case (3 al pad a b)
  have "visible CHR ''=''" by code_simp
  then show ?case using code_less[of a] code_less[of b] by (auto simp: Let_def intro!: base64_visible)
next
  case (4 al pad a b c rest)
  then show ?case using code_less[of a] code_less[of b] code_less[of c] by (auto simp: Let_def intro!: base64_visible)
qed simp

lemma encode_quanta_nonempty: "s \<noteq> [] \<Longrightarrow> encode_quanta al p s \<noteq> []"
  by (induction al p s rule: encode_quanta.induct) (simp_all add: Let_def)

lemma StdEncode_solid: "s \<noteq> [] \<Longrightarrow> solid (StdEncode s)"
  unfolding solid_def StdEncode_def using encode_quanta_visible encode_quanta_nonempty by blast

definition profile_hub :: hub where
  "profile_hub = sample_hub\<lparr>hub_ServerPublicKey := sample_key 7,
     hub_Fallback := \<lparr>fb_UDP443 = True, fb_Reality = \<lparr>rf_Enabled = True, rf_ServerName = ''www.example.org''\<rparr>\<rparr>\<rparr>"

theorem profiles_name_this_hub_witness:
  "\<exists>profile. RenderProfile profile_hub ''10.80.0.2/32'' sample_private = Inr profile \<and>
     ParseWireGuardConfig profile = Inr (profile_tunnel profile_hub ''10.80.0.2/32'' sample_private)"
proof -
  have solid_keys: "solid sample_private" "solid (hub_ServerPublicKey profile_hub)"
    by (simp_all add: sample_private_def profile_hub_def sample_key_def StdEncode_solid)
  have rest: "solid ''10.80.0.2/32''" "solid ''10.80.0.1''" "solid ''vpn.example.com:51820''" "solid ''4''" by code_simp+
  have clean: "profile_values profile_hub ''10.80.0.2/32'' sample_private"
    using solid_keys rest by (simp add: profile_values_def profile_hub_def sample_hub_def)
  have "CanonicalAWGParameter ''jc'' = Some ''Jc''" by code_simp
  then obtain profile where profile: "RenderProfile profile_hub ''10.80.0.2/32'' sample_private = Inr profile"
    using solid_keys(1) by (auto simp: RenderProfile_def profile_hub_def sample_hub_def parameter_line_def solid_def)
  have "isOk (PublicKeyFromPrivate sample_private)" by (simp add: sample_public_derived)
  moreover have "ValidatePublicKey (hub_ServerPublicKey profile_hub) = Inr ()" by (simp add: profile_hub_def)
  ultimately show ?thesis using profiles_name_this_hub[OF profile clean] profile by blast
qed

subsection \<open>The fallback link\<close>

lemma fragment_plain: "\<not> shouldEscape c EncFragment \<Longrightarrow> visible c \<and> c \<noteq> CHR ''%''"
proof -
  assume plain: "\<not> shouldEscape c EncFragment"
  have marks: "\<forall>c \<in> set ''-_.~$&+,/:;=?@!()*''. visible c \<and> c \<noteq> CHR ''%''" by code_simp
  have "is_letter c \<or> is_digit c \<Longrightarrow> visible c \<and> c \<noteq> CHR ''%''"
    by (auto simp: visible_def is_letter_def is_lower_def is_upper_def is_digit_def code_def)
  moreover have "is_letter c \<or> is_digit c \<or> c \<in> set ''-_.~$&+,/:;=?@!()*''"
    using plain unfolding shouldEscape_def by (auto split: if_splits)
  ultimately show ?thesis using marks by blast
qed

lemma hex_upper_visible: "n < 16 \<Longrightarrow> visible (hex_upper n)"
  using hex_upper_symbol[of n] by (auto simp: visible_def is_letter_def is_lower_def is_upper_def is_digit_def)

lemma escape_fragment_visible: "c \<in> set (escape EncFragment s) \<Longrightarrow> visible c"
  using fragment_plain hex_upper_visible[OF hex_digits_of(1)] hex_upper_visible[OF hex_digits_of(2)]
  by (auto simp: escape_def escape_char_def visible_def code_def split: if_splits)

lemma unescape_escape_fragment: "unescape EncFragment (escape EncFragment s) = Some s"
proof (induction s)
  case (Cons c s)
  have "escape EncFragment (c # s) = escape_char EncFragment c @ escape EncFragment s" by (simp add: escape_def)
  then show ?case using Cons.IH fragment_plain[of c] hex_pair_upper[of c] by (auto simp: escape_char_def)
qed (simp add: escape_def)

definition fallback_tunnel :: "hub \<Rightarrow> string \<Rightarrow> string \<Rightarrow> string \<Rightarrow> proxy_tunnel" where
  "fallback_tunnel hub host uuid publicKey =
     \<lparr>py_Protocol = ''vless'', py_Server = host, py_OriginServer = [], py_Port = 443, py_UUID = uuid, py_Flow = ''xtls-rprx-vision'',
      py_TLS = \<lparr>pt_Enabled = True, pt_ServerName = rf_ServerName (fb_Reality (hub_Fallback hub)), pt_Fingerprint = ''chrome'',
        pt_Reality = \<lparr>pr_Enabled = True, pr_PublicKey = publicKey, pr_ShortID = RealityShortID publicKey\<rparr>\<rparr>,
      py_Transport = zero_proxy_transport\<rparr>"

text \<open>C39: The link a device imports for the fallback reads as the hub's host on port 443 with the device's credential and
  the hub's handshake material, whatever the device is called.\<close>
theorem fallback_links_reach_the_listener:
  assumes "FallbackLink hub deviceID uuid publicKey = Inr link" "SplitHostPort (hub_Endpoint hub) = Inr (host, port)"
    and "dialable host" "rf_ServerName (fb_Reality (hub_Fallback hub)) \<noteq> []"
  shows "ParseVLESS link = Inr (fallback_tunnel hub host uuid publicKey)"
proof -
  let ?a = "JoinHostPort host (Itoa 443)" and ?sni = "rf_ServerName (fb_Reality (hub_Fallback hub))"
  let ?f = "escape EncFragment (''vpn-hub-'' @ deviceID)"
  let ?q = "[(''security'', ''reality''), (''encryption'', ''none''), (''type'', ''tcp''), (''flow'', ''xtls-rprx-vision''),
      (''sni'', ?sni), (''fp'', ''chrome''), (''pbk'', publicKey), (''sid'', RealityShortID publicKey)]"
  have given: "uuid \<noteq> []" "publicKey \<noteq> []" and out: "link = URLString \<lparr>url_Scheme = ''vless'', url_User = Some uuid,
      url_Host = ?a, url_RawQuery = EncodeValues ?q\<rparr> @ ''#'' @ ?f"
    using assms(1,2) by (auto simp: FallbackLink_def bindE_Inr_iff RealityPort_def split: if_splits)
  have ok: "authority_ok ?a" by (rule dialable_authority[OF assms(3)])
  have "EncodeValues ?q \<noteq> []"
  proof
    assume "EncodeValues ?q = []"
    then have "sort_key fst ?q = ParseQuery []" using ParseQuery_EncodeValues[of ?q] by simp
    then have "length (sort_key fst ?q) = 0" by (simp add: ParseQuery_def query_pair_def List.map_filter_simps)
    then show False by (simp only: length_sort) simp
  qed
  moreover have "escape EncHost ?a = ?a" using ok by (intro escape_host_id) (simp add: authority_ok_def)
  ultimately have link: "link = link_text uuid ?a ?q @ CHR ''#'' # ?f"
    unfolding out URLString_def link_text_def by simp
  have seen: "visible c" if "c \<in> set link" for c
    using that link_visible[OF ok] escape_fragment_visible marks_visible unfolding link by (auto simp: visible_def code_def)
  have parsed: "URLParse (TrimSpace link) = Some \<lparr>url_Scheme = ''vless'', url_User = Some uuid, url_Host = ?a, url_RawQuery = EncodeValues ?q\<rparr>"
    using TrimSpace_visible[of link] seen URLParse_link(2)[OF ok, of ?f uuid ?q] unescape_escape_fragment link by auto
  have q: "QueryGet (ParseQuery (EncodeValues ?q)) k = QueryGet ?q k" for k by (rule QueryGet_EncodeValues) simp
  have port: "ParseUint 16 (Itoa 443) = Some 443" by (rule ParseUint_Itoa) simp
  have tls: "link_tls (ParseQuery (EncodeValues ?q)) host = Inr (py_TLS (fallback_tunnel hub host uuid publicKey))"
    using given(2) assms(4) unfolding link_tls_def q by (simp add: QueryGet_def fallback_tunnel_def)
  have tr: "link_transport (ParseQuery (EncodeValues ?q)) = Inr zero_proxy_transport"
    unfolding link_transport_def q by (simp add: QueryGet_def)
  have flow: "QueryGet (ParseQuery (EncodeValues ?q)) ''flow'' = ''xtls-rprx-vision''" unfolding q by (simp add: QueryGet_def)
  show ?thesis
    unfolding ParseVLESS_def parsed using given(1) dialable_split[OF assms(3), of 443] port tls tr flow
    by (simp add: fallback_tunnel_def)
qed

theorem fallback_links_reach_the_listener_witness:
  "\<exists>link. FallbackLink profile_hub ''Anna's phone'' ''11111111-2222-3333-4444-555555555555'' ''KEY'' = Inr link \<and>
     ParseVLESS link = Inr (fallback_tunnel profile_hub ''vpn.example.com'' ''11111111-2222-3333-4444-555555555555'' ''KEY'')"
proof -
  have split: "SplitHostPort (hub_Endpoint profile_hub) = Inr (''vpn.example.com'', ''51820'')"
    using sample_endpoint(1) by (simp add: profile_hub_def sample_hub_def)
  have "dialable ''vpn.example.com''" by code_simp
  moreover have "rf_ServerName (fb_Reality (hub_Fallback profile_hub)) \<noteq> []" by (simp add: profile_hub_def)
  moreover obtain link where "FallbackLink profile_hub ''Anna's phone'' ''11111111-2222-3333-4444-555555555555'' ''KEY'' = Inr link"
    using split by (simp add: FallbackLink_def profile_hub_def)
  ultimately show ?thesis using fallback_links_reach_the_listener[OF _ split] by blast
qed

subsection \<open>The stores\<close>

lemma itoa_int_read:
  assumes "- (2 ^ 63) \<le> i" "i < 2 ^ 63"
  shows "ParseInt64 (itoa_int i) = Some i"
proof (cases "i < 0")
  case True
  then have "nat (- i) \<le> 2 ^ 63" using assms(1) by simp
  then show ?thesis using True by (simp add: itoa_int_def ParseInt64_def Itoa_digits)
next
  case False
  then have small: "nat i < 2 ^ 63" using assms(2) by simp
  obtain c cs where c: "Itoa (nat i) = c # cs" by (cases "Itoa (nat i)") simp_all
  then have "is_digit c" using Itoa_digits[of "nat i"] by simp
  then have sign: "c \<noteq> CHR ''-''" "c \<noteq> CHR ''+''" by (auto simp: is_digit_def code_def)
  have digits: "list_all is_digit (c # cs)" "digits_val 0 (c # cs) = nat i"
    using Itoa_digits[of "nat i"] digits_val_Itoa[of "nat i"] c by simp_all
  show ?thesis unfolding itoa_int_def using False small c sign digits by (simp add: ParseInt64_def)
qed

text \<open>Every 64-bit offset that was saved is the offset that is loaded, and when saving fails the next load returns the
  saved offset or what it would have returned before; nothing else is ever read.\<close>
theorem offsets_round_trip:
  assumes "- (2 ^ 63) \<le> i" "i < 2 ^ 63" "dir \<noteq> []" "run_state (OffsetSave env dir i) h = (r, h')"
    and "\<And>log. e_Read env log (offset_path dir)"
  shows "(r = Inr () \<longrightarrow> fst (run_state (OffsetLoad env dir) h') = Inr i) \<and>
    fst (run_state (OffsetLoad env dir) h') \<in> {Inr i, fst (run_state (OffsetLoad env dir) h)}"
proof -
  have load: "fst (run_state (OffsetLoad env dir) g) = (case h_Files g (offset_path dir) of None \<Rightarrow> Inr 0
      | Some c \<Rightarrow> of_option (Refused ''decode telegram offset'') (ParseInt64 c))" for g
    using assms(3,5) by (simp add: OffsetLoad_def readFile_def returns_def split: option.split)
  have "wp (OffsetSave env dir i) (\<lambda>r h'. (r = Inr () \<longrightarrow> h_Files h' (offset_path dir) = Some (itoa_int i)) \<and>
      h_Files h' (offset_path dir) \<in> {Some (itoa_int i), h_Files h (offset_path dir)}) h"
    using assms(3) by (auto simp: OffsetSave_def wp_rules Let_def split: option.splits)
  from wpD[OF this assms(4)] show ?thesis unfolding load by (auto simp: itoa_int_read[OF assms(1,2)])
qed

theorem offsets_round_trip_witness:
  "\<exists>h'. run_state (OffsetSave calm_env ''/var/lib/vpn-hub'' (- 42)) bare_host = (Inr (), h') \<and>
     fst (run_state (OffsetLoad calm_env ''/var/lib/vpn-hub'') h') = Inr (- 42)"
proof -
  obtain r h' where saved: "run_state (OffsetSave calm_env ''/var/lib/vpn-hub'' (- 42)) bare_host = (r, h')" by (rule prod.exhaust)
  have "wp (OffsetSave calm_env ''/var/lib/vpn-hub'' (- 42)) (\<lambda>r _. r = Inr ()) bare_host"
    by (simp add: OffsetSave_def wp_rules)
  from wpD[OF this saved] have ok: "r = Inr ()" .
  have "fst (run_state (OffsetLoad calm_env ''/var/lib/vpn-hub'') h') = Inr (- 42)"
    using offsets_round_trip[OF _ _ _ saved] ok by simp
  then show ?thesis using saved ok by blast
qed

end
