(* ===== verification/Editor.thy ===== *)
theory Editor
  imports Subscriptions Domain
begin

text \<open>
  \<open>internal/adapters/config/edit.go\<close>: one field of one configuration file is changed in place, on the
  tree of YAML nodes, so that what is not edited stays as it was written.  Reading a text as a tree and
  printing a tree are the parameters \<open>ed_Decode\<close> and \<open>ed_Encode\<close>; the layout of the directory
  (\<open>directory.go\<close>) is here too.  A node is a value, and an edit returns the changed tree.
\<close>

subsection \<open>Nodes\<close>

datatype ykind = NoKind | DocumentNode | SequenceNode | MappingNode | ScalarNode | AliasNode

text \<open>\<open>y_Rest\<close> holds the anchor and the comments, which no edit looks at.\<close>

datatype ynode = YNode
  (y_Kind: ykind) (y_Tag: string) (y_Value: string) (y_Style: nat) (y_Rest: "string list") (y_Content: "ynode list")

definition fresh :: "ykind \<Rightarrow> string \<Rightarrow> string \<Rightarrow> ynode list \<Rightarrow> ynode" where
  "fresh kind tag v content = YNode kind tag v 0 [] content"

definition str_node :: "string \<Rightarrow> ynode" where "str_node v = fresh ScalarNode ''!!str'' v []"
definition empty_map :: ynode where "empty_map = fresh MappingNode ''!!map'' [] []"
definition empty_seq :: ynode where "empty_seq = fresh SequenceNode ''!!seq'' [] []"

definition with_content :: "ynode \<Rightarrow> ynode list \<Rightarrow> ynode" where
  "with_content n content = YNode (y_Kind n) (y_Tag n) (y_Value n) (y_Style n) (y_Rest n) content"

definition block_style :: "ynode \<Rightarrow> ynode" where
  "block_style n =
     (if y_Content n = [] then YNode (y_Kind n) (y_Tag n) (y_Value n) 0 (y_Rest n) (y_Content n) else n)"

definition scalarTag :: "string \<Rightarrow> string" where
  "scalarTag v = (if v = ''true'' \<or> v = ''false'' then ''!!bool'' else ''!!str'')"

definition as_scalar :: "string \<Rightarrow> ynode \<Rightarrow> ynode" where
  "as_scalar v n = YNode ScalarNode (scalarTag v) v 0 (y_Rest n) (y_Content n)"

subsection \<open>Mappings\<close>

text \<open>The value of the first pair with the key, and a change of it.\<close>

fun pair_value :: "ynode list \<Rightarrow> string \<Rightarrow> ynode option" where
  "pair_value (k # v # rest) key = (if y_Value k = key then Some v else pair_value rest key)"
| "pair_value _ key = None"

fun change_pair :: "(ynode \<Rightarrow> ynode) \<Rightarrow> string \<Rightarrow> ynode list \<Rightarrow> ynode list" where
  "change_pair f key (k # v # rest) = (if y_Value k = key then k # f v # rest else k # v # change_pair f key rest)"
| "change_pair f key ns = ns"

fun drop_pair :: "string \<Rightarrow> ynode list \<Rightarrow> ynode list" where
  "drop_pair key (k # v # rest) = (if y_Value k = key then rest else k # v # drop_pair key rest)"
| "drop_pair key ns = ns"

definition findValue :: "ynode \<Rightarrow> string \<Rightarrow> ynode option" where
  "findValue mapping key = (if y_Kind mapping \<noteq> MappingNode then None else pair_value (y_Content mapping) key)"

definition changeValue :: "(ynode \<Rightarrow> ynode) \<Rightarrow> string \<Rightarrow> ynode \<Rightarrow> ynode" where
  "changeValue f key mapping = with_content mapping (change_pair f key (y_Content mapping))"

definition addPair :: "string \<Rightarrow> ynode \<Rightarrow> ynode \<Rightarrow> ynode" where
  "addPair key v mapping = with_content mapping (y_Content mapping @ [str_node key, v])"

definition scalarValue :: "ynode \<Rightarrow> string \<Rightarrow> string" where
  "scalarValue mapping key = (case findValue mapping key of None \<Rightarrow> [] | Some v \<Rightarrow> y_Value v)"

definition setScalar :: "string \<Rightarrow> string \<Rightarrow> ynode \<Rightarrow> ynode" where
  "setScalar key v mapping =
     (if findValue mapping key \<noteq> None then changeValue (as_scalar v) key mapping
      else addPair key (fresh ScalarNode (scalarTag v) v []) mapping)"

text \<open>\<open>findOrCreateMap\<close>, with what is then done to the mapping it returns.\<close>

definition findOrCreateMap :: "string \<Rightarrow> (ynode \<Rightarrow> ynode) \<Rightarrow> ynode \<Rightarrow> ynode" where
  "findOrCreateMap key f parent =
     (if findValue parent key \<noteq> None
      then changeValue (\<lambda>e. f (block_style (if y_Kind e \<noteq> MappingNode then empty_map else e))) key parent
      else addPair key (f empty_map) parent)"

definition removeMapKey :: "string \<Rightarrow> ynode \<Rightarrow> ynode option" where
  "removeMapKey key mapping =
     (if findValue mapping key = None then None else Some (with_content mapping (drop_pair key (y_Content mapping))))"

subsection \<open>Documents\<close>

definition root_of :: "ynode \<Rightarrow> ynode option" where
  "root_of document = (case y_Content document of [] \<Rightarrow> None | r # _ \<Rightarrow> Some r)"

definition in_root :: "(ynode \<Rightarrow> ynode) \<Rightarrow> ynode \<Rightarrow> ynode" where
  "in_root f document = with_content document (case y_Content document of [] \<Rightarrow> [] | r # rest \<Rightarrow> f r # rest)"

definition section_of :: "ynode \<Rightarrow> string \<Rightarrow> ynode option" where
  "section_of document section = Option.bind (root_of document) (\<lambda>r. findValue r section)"

definition documentMap :: "ynode \<Rightarrow> string \<Rightarrow> ynode option" where
  "documentMap document section =
     (case section_of document section of None \<Rightarrow> None | Some v \<Rightarrow> if y_Kind v = MappingNode then Some v else None)"

definition documentList :: "ynode \<Rightarrow> string \<Rightarrow> ynode option" where
  "documentList document section =
     (case section_of document section of None \<Rightarrow> None | Some v \<Rightarrow> if y_Kind v = SequenceNode then Some v else None)"

definition has_id :: "string \<Rightarrow> ynode \<Rightarrow> bool" where
  "has_id i entry \<longleftrightarrow> (case findValue entry ''id'' of None \<Rightarrow> False | Some v \<Rightarrow> y_Value v = i)"

definition findEntry :: "ynode \<Rightarrow> string \<Rightarrow> string \<Rightarrow> ynode option" where
  "findEntry document section i = Option.bind (section_of document section) (\<lambda>list. find (has_id i) (y_Content list))"

fun change_first :: "('a \<Rightarrow> bool) \<Rightarrow> ('a \<Rightarrow> 'a) \<Rightarrow> 'a list \<Rightarrow> 'a list" where
  "change_first P f [] = []"
| "change_first P f (x # xs) = (if P x then f x # xs else x # change_first P f xs)"

fun drop_first :: "('a \<Rightarrow> bool) \<Rightarrow> 'a list \<Rightarrow> 'a list" where
  "drop_first P [] = []"
| "drop_first P (x # xs) = (if P x then xs else x # drop_first P xs)"

text \<open>A change of the entry \<open>findEntry\<close> points to, in its document.\<close>

definition changeEntry :: "string \<Rightarrow> string \<Rightarrow> (ynode \<Rightarrow> ynode) \<Rightarrow> ynode \<Rightarrow> ynode" where
  "changeEntry section i f =
     in_root (changeValue (\<lambda>list. with_content list (change_first (has_id i) f (y_Content list))) section)"

subsection \<open>The files of a configuration (directory.go)\<close>

text \<open>\<open>ed_Lock\<close> is the error of taking the lock of the directory, which makes every operation one step.\<close>

datatype dir_answer = NoDir | DirBroke | Entries "(string \<times> bool) list"

record editor =
  ed_Root :: string
  ed_IsDirectory :: bool
  ed_ReadDir :: dir_answer
  ed_Lock :: "host_error option"
  ed_Decode :: "string \<Rightarrow> ynode option"
  ed_Encode :: "ynode \<Rightarrow> string option"

definition hubFile :: "editor \<Rightarrow> string" where "hubFile e = joinPath (ed_Root e) ''hub.yaml''"
definition devicesFile :: "editor \<Rightarrow> string" where "devicesFile e = joinPath (ed_Root e) ''devices.yaml''"

definition fileExt :: "string \<Rightarrow> string" where
  "fileExt name = (case CutLastByte CHR ''.'' name of None \<Rightarrow> [] | Some (_, x) \<Rightarrow> CHR ''.'' # x)"

definition TunnelFiles :: "editor \<Rightarrow> (host_error, string list) result" where
  "TunnelFiles e =
     (case ed_ReadDir e of
        NoDir \<Rightarrow> Inr []
      | DirBroke \<Rightarrow> Inl (ReadFailed ''tunnels'')
      | Entries es \<Rightarrow> Inr (sort (map (\<lambda>(name, _). joinPath (joinPath (ed_Root e) ''tunnels'') name)
          (filter (\<lambda>(name, isDir). \<not> isDir \<and> fileExt name \<in> {''.yaml'', ''.yml''}) es))))"

definition tunnelFiles :: "editor \<Rightarrow> (host_error, string list) result" where
  "tunnelFiles e =
     (if \<not> ed_IsDirectory e then Inr [ed_Root e] else bindE (TunnelFiles e) (\<lambda>paths. Inr (paths @ [hubFile e])))"

definition deviceFiles :: "editor \<Rightarrow> string list" where
  "deviceFiles e = (if \<not> ed_IsDirectory e then [ed_Root e] else [devicesFile e, hubFile e])"

definition hubFiles :: "editor \<Rightarrow> string list" where
  "hubFiles e = (if \<not> ed_IsDirectory e then [ed_Root e] else [hubFile e])"

definition clientACLFiles :: "editor \<Rightarrow> string list" where
  "clientACLFiles e = (if \<not> ed_IsDirectory e then [ed_Root e] else [hubFile e])"

subsection \<open>Reading and writing documents\<close>

datatype doc_answer = DocMissing | DocBroke host_error | Doc ynode

definition locked :: "editor \<Rightarrow> unit try_op \<Rightarrow> unit try_op" where
  "locked e body = (case ed_Lock e of Some err \<Rightarrow> fails err | None \<Rightarrow> body)"

definition readDocument :: "env \<Rightarrow> editor \<Rightarrow> string \<Rightarrow> doc_answer io_op" where
  "readDocument env e path = do {
     content \<leftarrow> readFile env path;
     returns (case content of
         NotExist \<Rightarrow> DocMissing
       | NoRead \<Rightarrow> DocBroke (ReadFailed path)
       | Data c \<Rightarrow> (case ed_Decode e c of None \<Rightarrow> DocBroke (Refused (''parse '' @ path)) | Some d \<Rightarrow> Doc d)) }"

definition writeDocument :: "env \<Rightarrow> editor \<Rightarrow> string \<Rightarrow> ynode \<Rightarrow> unit try_op" where
  "writeDocument env e path document =
     (case ed_Encode e document of
        None \<Rightarrow> fails (Refused (''encode '' @ path))
      | Some c \<Rightarrow> replaceFile env path c)"

text \<open>
  The loop every operation runs: files that are missing, and documents the edit does not apply to
  (\<open>None\<close>), are passed over; the first it applies to is written, unless the edit refuses it.
\<close>

type_synonym edit = "ynode \<Rightarrow> (host_error, ynode) result option"

fun edit_first :: "env \<Rightarrow> editor \<Rightarrow> edit \<Rightarrow> string \<Rightarrow> string list \<Rightarrow> unit try_op" where
  "edit_first env e edit notFound [] = fails (Refused notFound)"
| "edit_first env e edit notFound (path # paths) = do {
     answer \<leftarrow> readDocument env e path;
     (case answer of
        DocMissing \<Rightarrow> edit_first env e edit notFound paths
      | DocBroke err \<Rightarrow> fails err
      | Doc document \<Rightarrow>
          (case edit document of
             None \<Rightarrow> edit_first env e edit notFound paths
           | Some (Inl err) \<Rightarrow> fails err
           | Some (Inr changed) \<Rightarrow> writeDocument env e path changed)) }"

subsection \<open>Edits of an entry and of the hub\<close>

definition edit_entry :: "string \<Rightarrow> string \<Rightarrow> (ynode \<Rightarrow> (host_error, ynode) result) \<Rightarrow> edit" where
  "edit_entry section i f document =
     (case findEntry document section i of
        None \<Rightarrow> None
      | Some entry \<Rightarrow> Some (bindE (f entry) (\<lambda>changed. Inr (changeEntry section i (\<lambda>_. changed) document))))"

definition edit_hub :: "(ynode \<Rightarrow> (host_error, ynode) result) \<Rightarrow> edit" where
  "edit_hub f document =
     (case documentMap document ''hub'' of
        None \<Rightarrow> None
      | Some hub \<Rightarrow> Some (bindE (f hub) (\<lambda>changed. Inr (in_root (changeValue (\<lambda>_. changed) ''hub'') document))))"

definition remove_nested :: "string \<Rightarrow> string \<Rightarrow> ynode \<Rightarrow> (host_error, ynode) result" where
  "remove_nested mapName key parent =
     (case findValue parent mapName of
        None \<Rightarrow> Inl (Refused ''no such key'')
      | Some nested \<Rightarrow>
          (case removeMapKey key nested of
             None \<Rightarrow> Inl (Refused ''no such key'')
           | Some changed \<Rightarrow> Inr (changeValue (\<lambda>_. changed) mapName parent)))"

definition append_item :: "string \<Rightarrow> string \<Rightarrow> ynode \<Rightarrow> (host_error, ynode) result" where
  "append_item field v entry =
     (let list = (case findValue entry field of None \<Rightarrow> empty_seq | Some l \<Rightarrow> l);
          extended = with_content list (y_Content list @ [str_node v]) in
      if list_ex (\<lambda>item. y_Value item = v) (y_Content list) then Inl (Refused ''already contains'')
      else Inr (if findValue entry field = None then addPair field extended entry
                else changeValue (\<lambda>_. extended) field entry))"

definition remove_item :: "string \<Rightarrow> string \<Rightarrow> ynode \<Rightarrow> (host_error, ynode) result" where
  "remove_item field v entry =
     (case findValue entry field of
        None \<Rightarrow> Inl (Refused ''has no such list'')
      | Some list \<Rightarrow>
          if \<not> list_ex (\<lambda>item. y_Value item = v) (y_Content list) then Inl (Refused ''has no such entry'')
          else Inr (changeValue (\<lambda>_. with_content list (filter (\<lambda>item. y_Value item \<noteq> v) (y_Content list))) field entry))"

subsection \<open>Operations on fields\<close>

definition in_tunnels :: "env \<Rightarrow> editor \<Rightarrow> string \<Rightarrow> (ynode \<Rightarrow> (host_error, ynode) result) \<Rightarrow> unit try_op" where
  "in_tunnels env e i f =
     andThen (returns (tunnelFiles e)) (\<lambda>paths. locked e (edit_first env e (edit_entry ''tunnels'' i f) ''no tunnel'' paths))"

definition SetTunnelField :: "env \<Rightarrow> editor \<Rightarrow> string \<Rightarrow> string \<Rightarrow> string \<Rightarrow> unit try_op" where
  "SetTunnelField env e tunnelID field v = in_tunnels env e tunnelID (\<lambda>entry. Inr (setScalar field v entry))"

definition SetDeviceField :: "env \<Rightarrow> editor \<Rightarrow> string \<Rightarrow> string \<Rightarrow> string \<Rightarrow> unit try_op" where
  "SetDeviceField env e deviceID field v =
     locked e (edit_first env e (edit_entry ''devices'' deviceID (\<lambda>entry. Inr (setScalar field v entry))) ''no device'' (deviceFiles e))"

definition SetHubField :: "env \<Rightarrow> editor \<Rightarrow> string \<Rightarrow> string \<Rightarrow> unit try_op" where
  "SetHubField env e field v =
     locked e (edit_first env e (edit_hub (\<lambda>hub. Inr (setScalar field v hub))) ''no hub section'' (hubFiles e))"

definition SetHubMapField :: "env \<Rightarrow> editor \<Rightarrow> string \<Rightarrow> string \<Rightarrow> string \<Rightarrow> unit try_op" where
  "SetHubMapField env e mapName key v =
     locked e (edit_first env e (edit_hub (\<lambda>hub. Inr (findOrCreateMap mapName (setScalar key v) hub))) ''no hub section'' (hubFiles e))"

definition RemoveHubMapField :: "env \<Rightarrow> editor \<Rightarrow> string \<Rightarrow> string \<Rightarrow> unit try_op" where
  "RemoveHubMapField env e mapName key =
     locked e (edit_first env e (edit_hub (remove_nested mapName key)) ''no hub section'' (hubFiles e))"

definition SetTunnelMapField :: "env \<Rightarrow> editor \<Rightarrow> string \<Rightarrow> string \<Rightarrow> string \<Rightarrow> string \<Rightarrow> unit try_op" where
  "SetTunnelMapField env e tunnelID mapName key v =
     in_tunnels env e tunnelID (\<lambda>entry. Inr (findOrCreateMap mapName (setScalar key v) entry))"

definition RemoveTunnelMapField :: "env \<Rightarrow> editor \<Rightarrow> string \<Rightarrow> string \<Rightarrow> string \<Rightarrow> unit try_op" where
  "RemoveTunnelMapField env e tunnelID mapName key = in_tunnels env e tunnelID (remove_nested mapName key)"

definition AppendListItem :: "env \<Rightarrow> editor \<Rightarrow> string \<Rightarrow> string \<Rightarrow> string \<Rightarrow> unit try_op" where
  "AppendListItem env e tunnelID field v = in_tunnels env e tunnelID (append_item field v)"

definition RemoveListItem :: "env \<Rightarrow> editor \<Rightarrow> string \<Rightarrow> string \<Rightarrow> string \<Rightarrow> unit try_op" where
  "RemoveListItem env e tunnelID field v = in_tunnels env e tunnelID (remove_item field v)"

subsection \<open>Operations on client ACLs\<close>

definition clientACLNode :: "string \<Rightarrow> string \<Rightarrow> string \<Rightarrow> 16 word \<Rightarrow> ynode" where
  "clientACLNode source target protocol port =
     fresh MappingNode ''!!map'' []
       [str_node ''source'', str_node source, str_node ''target'', str_node target, str_node ''protocol'', str_node protocol,
        str_node ''port'', fresh ScalarNode ''!!int'' (Itoa (unat port)) []]"

definition clientACLMatches :: "string \<Rightarrow> string \<Rightarrow> string \<Rightarrow> 16 word \<Rightarrow> ynode \<Rightarrow> bool" where
  "clientACLMatches source target protocol port entry \<longleftrightarrow>
     scalarValue entry ''source'' = source \<and> scalarValue entry ''target'' = target \<and>
     scalarValue entry ''protocol'' = protocol \<and> scalarValue entry ''port'' = Itoa (unat port)"

definition duplicateClientACL :: "ynode \<Rightarrow> (ynode \<Rightarrow> bool) \<Rightarrow> bool" where
  "duplicateClientACL document matches \<longleftrightarrow>
     (case documentList document ''client_acls'' of None \<Rightarrow> False | Some list \<Rightarrow> list_ex matches (y_Content list))"

text \<open>A list to append to: what is not a sequence becomes an empty one.\<close>

definition append_entry :: "ynode \<Rightarrow> ynode \<Rightarrow> ynode" where
  "append_entry entry list =
     (let l = block_style (if y_Kind list \<noteq> SequenceNode then empty_seq else list) in with_content l (y_Content l @ [entry]))"

text \<open>\<open>document.Content[0]\<close> of a document with no content is an index out of range.\<close>

definition add_acl :: "string \<Rightarrow> string \<Rightarrow> string \<Rightarrow> 16 word \<Rightarrow> edit" where
  "add_acl source target protocol port document =
     Some (if duplicateClientACL document (clientACLMatches source target protocol port)
           then Inl (Refused ''client ACL already exists'')
           else (let entry = clientACLNode source target protocol port in
             case root_of document of
               None \<Rightarrow> Inl Panic
             | Some root \<Rightarrow>
                 Inr (in_root (if findValue root ''client_acls'' = None
                       then addPair ''client_acls'' (append_entry entry empty_seq)
                       else changeValue (append_entry entry) ''client_acls'') document)))"

definition AddClientACL :: "env \<Rightarrow> editor \<Rightarrow> string \<Rightarrow> string \<Rightarrow> string \<Rightarrow> 16 word \<Rightarrow> unit try_op" where
  "AddClientACL env e source target protocol port =
     locked e (edit_first env e (add_acl source target protocol port) ''no config file'' (clientACLFiles e))"

definition remove_from_list :: "string \<Rightarrow> (ynode \<Rightarrow> bool) \<Rightarrow> edit" where
  "remove_from_list section matches document =
     (case documentList document section of
        None \<Rightarrow> None
      | Some list \<Rightarrow>
          if \<not> list_ex matches (y_Content list) then None
          else Some (Inr (in_root (changeValue (\<lambda>l. with_content l (drop_first matches (y_Content l))) section) document)))"

definition RemoveClientACL :: "env \<Rightarrow> editor \<Rightarrow> string \<Rightarrow> string \<Rightarrow> string \<Rightarrow> 16 word \<Rightarrow> unit try_op" where
  "RemoveClientACL env e source target protocol port =
     locked e (edit_first env e (remove_from_list ''client_acls'' (clientACLMatches source target protocol port)) ''no client ACL'' (clientACLFiles e))"

subsection \<open>Operations on devices\<close>

definition device_node :: "string \<Rightarrow> string \<Rightarrow> string \<Rightarrow> string \<Rightarrow> ynode" where
  "device_node i address publicKey egress =
     fresh MappingNode ''!!map'' []
       [str_node ''id'', str_node i, str_node ''address'', str_node address, str_node ''public_key'', str_node publicKey,
        str_node ''egress'', str_node egress]"

text \<open>No file holds the device yet.\<close>

fun no_duplicate :: "env \<Rightarrow> editor \<Rightarrow> string \<Rightarrow> string list \<Rightarrow> unit try_op" where
  "no_duplicate env e i [] = ok"
| "no_duplicate env e i (path # paths) = do {
     answer \<leftarrow> readDocument env e path;
     (case answer of
        DocMissing \<Rightarrow> no_duplicate env e i paths
      | DocBroke err \<Rightarrow> fails err
      | Doc document \<Rightarrow>
          if findEntry document ''devices'' i \<noteq> None then fails (Refused ''device already exists'')
          else no_duplicate env e i paths) }"

text \<open>The first file with a list of devices; \<open>None\<close> when there is none.\<close>

fun add_to_list :: "env \<Rightarrow> editor \<Rightarrow> ynode \<Rightarrow> string list \<Rightarrow> (host_error, unit) result option io_op" where
  "add_to_list env e entry [] = returns None"
| "add_to_list env e entry (path # paths) = do {
     answer \<leftarrow> readDocument env e path;
     (case answer of
        Doc document \<Rightarrow>
          if section_of document ''devices'' = None then add_to_list env e entry paths
          else do {
            r \<leftarrow> writeDocument env e path (in_root (changeValue (append_entry entry) ''devices'') document);
            returns (Some r) }
      | _ \<Rightarrow> add_to_list env e entry paths) }"

definition empty_document :: ynode where
  "empty_document = fresh DocumentNode [] [] [empty_map]"

definition start_list :: "env \<Rightarrow> editor \<Rightarrow> ynode \<Rightarrow> string \<Rightarrow> unit try_op" where
  "start_list env e entry path = do {
     answer \<leftarrow> readDocument env e path;
     (case answer of
        DocBroke err \<Rightarrow> fails err
      | _ \<Rightarrow>
          let document = (case answer of Doc d \<Rightarrow> (if y_Content d = [] then empty_document else d) | _ \<Rightarrow> empty_document) in
          writeDocument env e path (in_root (addPair ''devices'' (with_content empty_seq [entry])) document)) }"

definition AddDevice :: "env \<Rightarrow> editor \<Rightarrow> string \<Rightarrow> string \<Rightarrow> string \<Rightarrow> string \<Rightarrow> unit try_op" where
  "AddDevice env e i address publicKey egress =
     (let entry = device_node i address publicKey egress; paths = deviceFiles e in
      locked e (andThen (no_duplicate env e i paths) (\<lambda>_. do {
        r \<leftarrow> add_to_list env e entry paths;
        (case r of
           Some answer \<Rightarrow> returns answer
         | None \<Rightarrow> start_list env e entry (hd paths)) })))"

definition RemoveDevice :: "env \<Rightarrow> editor \<Rightarrow> string \<Rightarrow> unit try_op" where
  "RemoveDevice env e i = locked e (edit_first env e (remove_from_list ''devices'' (has_id i)) ''no device'' (deviceFiles e))"

subsection \<open>Assembling a configuration (directory.go)\<close>

text \<open>\<open>load\<close> is \<open>ViperRepository.Load\<close> of one file, and \<open>present\<close> whether a file is there.\<close>

fun load_tunnel_files :: "(string \<Rightarrow> (host_error, config) result) \<Rightarrow> string list \<Rightarrow> config \<Rightarrow> (host_error, config) result" where
  "load_tunnel_files load [] cfg = Inr cfg"
| "load_tunnel_files load (path # paths) cfg =
     bindE (load path) (\<lambda>t.
       if cfg_Tunnels t = [] then Inl (Refused (path @ '' defines no tunnels''))
       else load_tunnel_files load paths (cfg\<lparr>cfg_Tunnels := cfg_Tunnels cfg @ cfg_Tunnels t\<rparr>))"

definition LoadDirectory :: "editor \<Rightarrow> (string \<Rightarrow> (host_error, config) result) \<Rightarrow> (string \<Rightarrow> bool) \<Rightarrow> (host_error, config) result" where
  "LoadDirectory e load present =
     (if ed_Root e = [] then Inl (Refused ''configuration path is required'')
      else bindE (load (hubFile e)) (\<lambda>cfg.
        bindE (if present (devicesFile e)
               then bindE (load (devicesFile e)) (\<lambda>d. Inr (cfg\<lparr>cfg_Devices := cfg_Devices cfg @ cfg_Devices d\<rparr>))
               else Inr cfg) (\<lambda>cfg.
        bindE (TunnelFiles e) (\<lambda>paths. load_tunnel_files load paths cfg))))"

end
