(* ===== verification/EditorFacts.thy ===== *)
theory EditorFacts
  imports Editor RunnerFacts
begin

text \<open>
  What an edit does to a tree of nodes: the value a key has afterwards, the entries and sections it
  leaves alone, and the well-formedness every edit keeps.  A field is read and written through the
  interface \<open>fields\<close>, which a mapping, an entry of a list and a nested mapping provide.
\<close>

subsection \<open>Pairs\<close>

lemma pair_value_change:
  "pair_value (change_pair f key c) k = (if k = key then map_option f (pair_value c key) else pair_value c k)"
  by (induction f key c rule: change_pair.induct) auto

lemma pair_value_append:
  "even (length c) \<Longrightarrow> pair_value (c @ [str_node key, v]) k =
     (case pair_value c k of Some x \<Rightarrow> Some x | None \<Rightarrow> if k = key then Some v else None)"
  by (induction c k rule: pair_value.induct) (auto simp: str_node_def fresh_def)

lemma length_change_pair [simp]: "length (change_pair f key c) = length c"
  by (induction f key c rule: change_pair.induct) auto

lemma even_drop_pair: "even (length c) \<Longrightarrow> even (length (drop_pair key c))"
  by (induction key c rule: drop_pair.induct) auto

lemma pair_value_set: "pair_value c k = Some v \<Longrightarrow> v \<in> set c"
  by (induction c k rule: pair_value.induct) (auto split: if_splits)

lemma change_pair_set: "x \<in> set (change_pair f key c) \<Longrightarrow> x \<in> set c \<or> (\<exists>v. pair_value c key = Some v \<and> x = f v)"
  by (induction f key c rule: change_pair.induct) (auto split: if_splits)

lemma drop_pair_set: "x \<in> set (drop_pair key c) \<Longrightarrow> x \<in> set c"
  by (induction key c rule: drop_pair.induct) (auto split: if_splits)

lemma change_pair_cong: "pair_value c key = Some v \<Longrightarrow> f v = g v \<Longrightarrow> change_pair f key c = change_pair g key c"
  by (induction f key c rule: change_pair.induct) (auto split: if_splits)

lemma change_pair_same: "pair_value c key = Some v \<Longrightarrow> f v = v \<Longrightarrow> change_pair f key c = c"
  by (induction f key c rule: change_pair.induct) (auto split: if_splits)

lemma change_pair_twice: "change_pair f key (change_pair g key c) = change_pair (f \<circ> g) key c"
  by (induction g key c rule: change_pair.induct) auto

subsection \<open>Nodes\<close>

lemma with_content_simps [simp]:
  "y_Kind (with_content n c) = y_Kind n" "y_Content (with_content n c) = c" "y_Value (with_content n c) = y_Value n"
  "with_content (with_content n c) c' = with_content n c'" "with_content n (y_Content n) = n"
  by (simp_all add: with_content_def)

lemma fresh_simps [simp]:
  "y_Kind (fresh k t v c) = k" "y_Content (fresh k t v c) = c" "y_Value (fresh k t v c) = v"
  by (simp_all add: fresh_def)

lemma node_kinds [simp]:
  "y_Kind empty_map = MappingNode" "y_Kind empty_seq = SequenceNode" "y_Kind (str_node v) = ScalarNode"
  "y_Content empty_map = []" "y_Content empty_seq = []" "y_Content (str_node v) = []" "y_Value (str_node v) = v"
  "y_Value empty_map = []" "y_Value empty_seq = []"
  by (simp_all add: empty_map_def empty_seq_def str_node_def)

lemma block_style_simps [simp]:
  "y_Kind (block_style n) = y_Kind n" "y_Content (block_style n) = y_Content n" "y_Value (block_style n) = y_Value n"
  by (simp_all add: block_style_def)

lemma as_scalar_simps [simp]: "y_Kind (as_scalar v n) = ScalarNode" "y_Value (as_scalar v n) = v" "y_Content (as_scalar v n) = y_Content n"
  by (simp_all add: as_scalar_def)

lemma kinds_of_edits [simp]:
  "y_Kind (changeValue f key m) = y_Kind m" "y_Kind (addPair key v m) = y_Kind m"
  "y_Kind (setScalar key s m) = y_Kind m" "y_Kind (findOrCreateMap key f m) = y_Kind m"
  by (simp_all add: changeValue_def addPair_def setScalar_def findOrCreateMap_def)

lemma findValue_kind: "findValue m k = Some v \<Longrightarrow> y_Kind m = MappingNode"
  by (simp add: findValue_def split: if_splits)

lemma findValue_change:
  "findValue (changeValue f key m) k = (if k = key then map_option f (findValue m key) else findValue m k)"
  by (simp add: findValue_def changeValue_def pair_value_change)

lemma findValue_add:
  "y_Kind m = MappingNode \<Longrightarrow> even (length (y_Content m)) \<Longrightarrow> findValue (addPair key v m) k =
     (case findValue m k of Some x \<Rightarrow> Some x | None \<Rightarrow> if k = key then Some v else None)"
  by (simp add: findValue_def addPair_def pair_value_append)

subsection \<open>Well-formed trees\<close>

text \<open>The shape a parsed tree has: the contents of a mapping are pairs, and only scalars and aliases carry a value.\<close>

fun well_formed :: "ynode \<Rightarrow> bool" where
  "well_formed (YNode k t v s r c) \<longleftrightarrow>
     (k = MappingNode \<longrightarrow> even (length c)) \<and> (k \<in> {DocumentNode, SequenceNode, MappingNode} \<longrightarrow> v = []) \<and>
     (\<forall>x \<in> set c. well_formed x)"

lemma well_formed_iff:
  "well_formed n \<longleftrightarrow> (y_Kind n = MappingNode \<longrightarrow> even (length (y_Content n))) \<and>
     (y_Kind n \<in> {DocumentNode, SequenceNode, MappingNode} \<longrightarrow> y_Value n = []) \<and> (\<forall>x \<in> set (y_Content n). well_formed x)"
  by (cases n) simp

lemma well_formed_with:
  "well_formed n \<Longrightarrow> (\<And>x. x \<in> set c \<Longrightarrow> well_formed x) \<Longrightarrow> (y_Kind n = MappingNode \<Longrightarrow> even (length c)) \<Longrightarrow>
     well_formed (with_content n c)"
  by (simp add: well_formed_iff[of n] well_formed_iff[of "with_content n c"])

lemma well_formed_fresh [simp]: "well_formed (fresh ScalarNode t v [])" "well_formed (str_node v)"
    "well_formed empty_map" "well_formed empty_seq"
  by (simp_all add: fresh_def str_node_def empty_map_def empty_seq_def)

lemma well_formed_scalar [simp]: "well_formed (as_scalar v n) \<longleftrightarrow> (\<forall>x \<in> set (y_Content n). well_formed x)"
  by (simp add: as_scalar_def)

lemma well_formed_block [simp]: "well_formed (block_style n) \<longleftrightarrow> well_formed n"
  unfolding well_formed_iff[of "block_style n"] well_formed_iff[of n] block_style_simps ..

lemma well_formed_content: "well_formed n \<Longrightarrow> x \<in> set (y_Content n) \<Longrightarrow> well_formed x"
  by (simp add: well_formed_iff[of n])

lemma well_formed_even: "well_formed n \<Longrightarrow> y_Kind n = MappingNode \<Longrightarrow> even (length (y_Content n))"
  by (simp add: well_formed_iff[of n])

lemma well_formed_value: "well_formed m \<Longrightarrow> findValue m k = Some v \<Longrightarrow> well_formed v"
  by (auto simp: findValue_def split: if_splits dest: pair_value_set well_formed_content)

lemma well_formed_change:
  assumes "well_formed m" "\<And>v. findValue m key = Some v \<Longrightarrow> well_formed v \<Longrightarrow> well_formed (f v)" "findValue m key \<noteq> None"
  shows "well_formed (changeValue f key m)"
  unfolding changeValue_def
proof (rule well_formed_with[OF assms(1)])
  fix x assume "x \<in> set (change_pair f key (y_Content m))"
  moreover have "findValue m key = pair_value (y_Content m) key" using assms(3) by (auto simp: findValue_def split: if_splits)
  ultimately show "well_formed x"
    using change_pair_set[of x f key "y_Content m"] well_formed_content[OF assms(1)] assms(2) pair_value_set by metis
qed (simp add: well_formed_even[OF assms(1)])

lemma well_formed_add: "well_formed m \<Longrightarrow> well_formed v \<Longrightarrow> well_formed (addPair key v m)"
  unfolding addPair_def by (rule well_formed_with) (auto dest: well_formed_content well_formed_even)

lemma well_formed_set: "well_formed m \<Longrightarrow> well_formed (setScalar key v m)"
  unfolding setScalar_def using well_formed_content by (simp add: well_formed_change well_formed_add)

lemma well_formed_nested:
  "well_formed m \<Longrightarrow> (\<And>n. well_formed n \<Longrightarrow> y_Kind n = MappingNode \<Longrightarrow> well_formed (f n)) \<Longrightarrow> well_formed (findOrCreateMap key f m)"
  unfolding findOrCreateMap_def by (simp add: well_formed_change well_formed_add)

lemma well_formed_remove: "well_formed m \<Longrightarrow> removeMapKey key m = Some m' \<Longrightarrow> well_formed m'"
  unfolding removeMapKey_def
  by (auto split: if_splits intro!: well_formed_with dest: drop_pair_set well_formed_content well_formed_even even_drop_pair)

subsection \<open>What is on disk after a tree was printed\<close>

text \<open>The tree without what an edit does not look at; a scalar has no contents on disk.\<close>

fun bare :: "ynode \<Rightarrow> ynode" where
  "bare (YNode k t v s r c) = YNode k [] v 0 [] (if k = ScalarNode then [] else map bare c)"

lemma bare_simps [simp]:
  "y_Kind (bare n) = y_Kind n" "y_Value (bare n) = y_Value n"
  "y_Content (bare n) = (if y_Kind n = ScalarNode then [] else map bare (y_Content n))"
  by (cases n; simp)+

lemma bare_eq: "bare n = bare m \<longleftrightarrow> y_Kind n = y_Kind m \<and> y_Value n = y_Value m \<and>
    (y_Kind n \<noteq> ScalarNode \<longrightarrow> map bare (y_Content n) = map bare (y_Content m))"
  by (cases n; cases m) auto

lemma bare_with: "bare n = bare m \<Longrightarrow> map bare c = map bare c' \<Longrightarrow> bare (with_content n c) = bare (with_content m c')"
  by (simp add: bare_eq)

lemma pair_value_bare: "pair_value (map bare c) k = map_option bare (pair_value c k)"
  by (induction c k rule: pair_value.induct) auto

lemma findValue_bare: "findValue (bare m) k = map_option bare (findValue m k)"
  by (simp add: findValue_def pair_value_bare)

lemma findValue_alike: "bare m = bare n \<Longrightarrow> map_option bare (findValue m k) = map_option bare (findValue n k)"
  by (metis findValue_bare)

subsection \<open>Fields\<close>

text \<open>
  A place that holds named fields: reading after writing, and the fields a write leaves alone.  An
  operator's edits commute unless they write the same field.
\<close>

locale fields =
  fixes get :: "'m \<Rightarrow> string \<Rightarrow> 'v option"
    and put :: "string \<Rightarrow> string \<Rightarrow> 'm \<Rightarrow> 'm"
    and good :: "'m \<Rightarrow> bool"
    and shown :: "'v \<Rightarrow> string"
  assumes good_put: "good m \<Longrightarrow> good (put k v m)"
    and get_put: "good m \<Longrightarrow> map_option shown (get (put k v m) k) = Some v"
    and get_other: "good m \<Longrightarrow> k' \<noteq> k \<Longrightarrow> get (put k v m) k' = get m k'"
begin

definition put_all :: "(string \<times> string) list \<Rightarrow> 'm \<Rightarrow> 'm" where
  "put_all edits m = fold (\<lambda>(k, v). put k v) edits m"

lemma good_put_all: "good m \<Longrightarrow> good (put_all edits m)"
  unfolding put_all_def by (induction edits arbitrary: m) (auto simp: good_put split: prod.split)

lemma get_put_all:
  assumes "good m"
  shows "map_option shown (get (put_all edits m) k) =
    (case map_of (rev edits) k of Some v \<Rightarrow> Some v | None \<Rightarrow> map_option shown (get m k))"
proof (induction edits rule: rev_induct)
  case Nil
  then show ?case by (simp add: put_all_def)
next
  case (snoc x xs)
  obtain k' v where x: "x = (k', v)" by (cases x)
  have step: "put_all (xs @ [x]) m = put k' v (put_all xs m)" by (simp add: put_all_def x)
  show ?case
    unfolding step using snoc.IH get_put[OF good_put_all[OF assms]] get_other[OF good_put_all[OF assms]]
    by (cases "k = k'") (simp_all add: x)
qed

lemma edits_commute:
  "good m \<Longrightarrow> k \<noteq> k' \<Longrightarrow> map_option shown (get (put k v (put k' v' m)) i) = map_option shown (get (put k' v' (put k v m)) i)"
  by (metis get_put get_other good_put)

end

definition mapping :: "ynode \<Rightarrow> bool" where
  "mapping m \<longleftrightarrow> y_Kind m = MappingNode \<and> well_formed m"

lemma findValue_set:
  "mapping m \<Longrightarrow> findValue (setScalar key v m) k =
     (if k = key then Some (case findValue m key of Some old \<Rightarrow> as_scalar v old | None \<Rightarrow> fresh ScalarNode (scalarTag v) v []) else findValue m k)"
  by (auto simp: setScalar_def mapping_def findValue_change findValue_add well_formed_even split: option.splits)

interpretation scalars: fields findValue setScalar mapping y_Value
  by unfold_locales (auto simp: findValue_set mapping_def well_formed_set split: option.split)

text \<open>A nested mapping, which is created when it is not there.\<close>

definition nested_value :: "string \<Rightarrow> ynode \<Rightarrow> string \<Rightarrow> ynode option" where
  "nested_value mapName m k = Option.bind (findValue m mapName) (\<lambda>n. findValue n k)"

definition nested_put :: "string \<Rightarrow> string \<Rightarrow> string \<Rightarrow> ynode \<Rightarrow> ynode" where
  "nested_put mapName k v = findOrCreateMap mapName (setScalar k v)"

lemma mapping_block: "mapping (block_style m) \<longleftrightarrow> mapping m"
  by (simp add: mapping_def)

lemma findValue_block [simp]: "findValue (block_style m) k = findValue m k"
  by (simp add: findValue_def)

lemma findValue_empty [simp]: "findValue empty_map k = None"
  by (simp add: findValue_def)

lemma mapping_empty [simp]: "mapping empty_map"
  by (simp add: mapping_def)

lemma findValue_nested:
  assumes "mapping m"
  shows "findValue (nested_put mapName k v m) mapName = Some (setScalar k v
     (case findValue m mapName of None \<Rightarrow> empty_map | Some n \<Rightarrow> block_style (if y_Kind n \<noteq> MappingNode then empty_map else n)))"
    "k' \<noteq> mapName \<Longrightarrow> findValue (nested_put mapName k v m) k' = findValue m k'"
  using assms
  by (auto simp: nested_put_def findOrCreateMap_def mapping_def findValue_change findValue_add well_formed_even split: option.split)

lemma nested_mapping:
  "mapping m \<Longrightarrow> mapping (case findValue m mapName of None \<Rightarrow> empty_map | Some n \<Rightarrow> block_style (if y_Kind n \<noteq> MappingNode then empty_map else n))"
  by (auto simp: mapping_def well_formed_value split: option.split)

interpretation nested: fields "nested_value mapName" "nested_put mapName" mapping y_Value for mapName
proof unfold_locales
  fix m k v assume m: "mapping m"
  show "mapping (nested_put mapName k v m)"
    using m by (auto simp: nested_put_def mapping_def intro!: well_formed_nested well_formed_set)
  show "map_option y_Value (nested_value mapName (nested_put mapName k v m) k) = Some v"
    unfolding nested_value_def findValue_nested(1)[OF m] using scalars.get_put[OF nested_mapping[OF m]] by simp
next
  fix m k k' v assume m: "mapping m" "k' \<noteq> (k :: string)"
  show "nested_value mapName (nested_put mapName k v m) k' = nested_value mapName m k'"
    unfolding nested_value_def findValue_nested(1)[OF m(1)]
    using scalars.get_other[OF nested_mapping[OF m(1)] m(2)] by (auto simp: findValue_def split: option.split)
qed

end
