(* ===== verification/EditorClaims.thy ===== *)
theory EditorClaims
  imports EditorFacts
begin

text \<open>
  The editor of the configuration: what an edit writes, and that it keeps every document well-formed
  and changes one file at most.
\<close>

subsection \<open>The file an edit writes\<close>

text \<open>A file an edit passes over.\<close>

definition passed :: "editor \<Rightarrow> edit \<Rightarrow> host \<Rightarrow> string \<Rightarrow> bool" where
  "passed e ed h q \<longleftrightarrow> (\<forall>c. h_Files h q = Some c \<longrightarrow> (\<exists>d. ed_Decode e c = Some d \<and> ed d = None))"

definition rewritten :: "editor \<Rightarrow> edit \<Rightarrow> string list \<Rightarrow> host \<Rightarrow> host \<Rightarrow> bool" where
  "rewritten e ed paths h h' \<longleftrightarrow> (\<exists>pre p post c d d' t. paths = pre @ p # post \<and> (\<forall>q \<in> set pre. passed e ed h q) \<and>
     h_Files h p = Some c \<and> ed_Decode e c = Some d \<and> ed d = Some (Inr d') \<and> ed_Encode e d' = Some t \<and>
     h_Files h' = (h_Files h)(p := Some t))"

lemma rewritten_here:
  "h_Files h p = Some c \<Longrightarrow> ed_Decode e c = Some d \<Longrightarrow> ed d = Some (Inr d') \<Longrightarrow> ed_Encode e d' = Some t \<Longrightarrow>
    h_Files h' = (h_Files h)(p := Some t) \<Longrightarrow> rewritten e ed (p # ps) h h'"
  unfolding rewritten_def by (metis append_Nil empty_iff list.set(1))

lemma rewritten_later: "passed e ed h p \<Longrightarrow> rewritten e ed ps h h' \<Longrightarrow> rewritten e ed (p # ps) h h'"
  unfolding rewritten_def by (metis append_Cons set_ConsD)

lemma wp_readDocument [wp_rules]:
  "wp (readDocument env e path) Q = (\<lambda>h. Q (case h_Files h path of
       None \<Rightarrow> DocMissing
     | Some c \<Rightarrow> if \<not> e_Read env (h_Log h) path then DocBroke (ReadFailed path)
                else (case ed_Decode e c of None \<Rightarrow> DocBroke (Refused (''parse '' @ path)) | Some d \<Rightarrow> Doc d)) h)"
  by (auto simp: readDocument_def wp_rules fun_eq_iff split: option.split)

definition stored :: "editor \<Rightarrow> string \<Rightarrow> ynode \<Rightarrow> host \<Rightarrow> host \<Rightarrow> bool" where
  "stored e p d h h' \<longleftrightarrow> (\<exists>t. ed_Encode e d = Some t \<and> h_Files h' = (h_Files h)(p := Some t))"

lemma writeDocument_outcome:
  "wp (writeDocument env e p d) (\<lambda>r h'. (isOk r \<longrightarrow> stored e p d h h') \<and> (stored e p d h h' \<or> h_Files h' = h_Files h)) h"
  by (auto simp: writeDocument_def wp_rules stored_def isOk_def Let_def split: option.split)

lemma edit_first_outcome:
  "wp (edit_first env e ed nf paths) (\<lambda>r h'. (isOk r \<longrightarrow> rewritten e ed paths h h') \<and>
     (rewritten e ed paths h h' \<or> h_Files h' = h_Files h)) h"
proof (induction paths)
  case Nil
  then show ?case by (simp add: wp_rules isOk_def)
next
  case (Cons p ps)
  let ?Q = "\<lambda>r h'. (isOk r \<longrightarrow> rewritten e ed (p # ps) h h') \<and> (rewritten e ed (p # ps) h h' \<or> h_Files h' = h_Files h)"
  have skip: "wp (edit_first env e ed nf ps) ?Q h" if "passed e ed h p"
    by (rule wp_mono[OF Cons.IH]) (use rewritten_later[OF that] in blast)
  show ?case
  proof (cases "h_Files h p")
    case None
    then show ?thesis using skip by (simp add: wp_rules passed_def)
  next
    case (Some c)
    show ?thesis
    proof (cases "e_Read env (h_Log h) p \<and> ed_Decode e c \<noteq> None")
      case True
      then obtain d where d: "ed_Decode e c = Some d" "e_Read env (h_Log h) p" by auto
      show ?thesis
      proof (cases "ed d")
        case None
        then show ?thesis using Some d skip by (simp add: wp_rules passed_def)
      next
        case (Some r)
        show ?thesis
        proof (cases r)
          case (Inl err)
          then show ?thesis using Some \<open>h_Files h p = Some c\<close> d by (simp add: wp_rules isOk_def)
        next
          case (Inr d')
          have "stored e p d' h h' \<Longrightarrow> rewritten e ed (p # ps) h h'" for h'
            using rewritten_here[OF \<open>h_Files h p = Some c\<close> d(1)] Some Inr by (auto simp: stored_def)
          then show ?thesis
            using Some Inr \<open>h_Files h p = Some c\<close> d by (auto simp: wp_rules intro: wp_mono[OF writeDocument_outcome])
        qed
      qed
    qed (auto simp: wp_rules Some isOk_def split: option.split)
  qed
qed

lemma wp_locked: "(wp body Q h \<and> (\<forall>err. Q (Inl err) h)) \<Longrightarrow> wp (locked e body) Q h"
  by (auto simp: locked_def wp_rules split: option.split)

text \<open>A successful operation rewrote a file it may look at, and a failed one left the files or wrote that one whole.\<close>

definition edits :: "editor \<Rightarrow> edit \<Rightarrow> string list \<Rightarrow> unit try_op \<Rightarrow> bool" where
  "edits e ed paths m \<longleftrightarrow> (\<forall>h. wp m (\<lambda>r h'. (isOk r \<longrightarrow> rewritten e ed paths h h') \<and>
     (rewritten e ed paths h h' \<or> h_Files h' = h_Files h)) h)"

lemma edits_first: "edits e ed paths (locked e (edit_first env e ed nf paths))"
  unfolding edits_def by (intro allI wp_locked conjI edit_first_outcome) (simp_all add: isOk_def)

lemma editsD:
  assumes "edits e ed paths m" "run_state m h = (r, h')"
  shows "isOk r \<Longrightarrow> rewritten e ed paths h h'" "rewritten e ed paths h h' \<or> h_Files h' = h_Files h"
  using wpD[OF assms(1)[unfolded edits_def, rule_format] assms(2)] by auto

definition tunnel_paths :: "editor \<Rightarrow> string list" where
  "tunnel_paths e = (case tunnelFiles e of Inl _ \<Rightarrow> [] | Inr paths \<Rightarrow> paths)"

lemma edits_in_tunnels: "edits e (edit_entry ''tunnels'' i f) (tunnel_paths e) (in_tunnels env e i f)"
proof (cases "tunnelFiles e")
  case (Inl err)
  then show ?thesis by (simp add: edits_def in_tunnels_def wp_rules isOk_def)
next
  case (Inr paths)
  then show ?thesis using edits_first[of e _ paths] by (simp add: in_tunnels_def tunnel_paths_def edits_def wp_rules)
qed


subsection \<open>Entries of a document\<close>

lemma root_in_root [simp]: "root_of (in_root f d) = map_option f (root_of d)"
  by (simp add: root_of_def in_root_def split: list.split)

lemma section_changed:
  "section_of (in_root (changeValue f key) d) s = (if s = key then map_option f (section_of d key) else section_of d s)"
  by (cases "root_of d") (simp_all add: section_of_def findValue_change)

lemma find_changed:
  assumes "has_id i x'" "find (has_id i) xs = Some x"
  shows "find (has_id j) (change_first (has_id i) (\<lambda>_. x') xs) = (if j = i then Some x' else find (has_id j) xs)"
  using assms by (induction xs) (auto simp: has_id_def split: option.splits if_splits)

lemma entry_changed:
  assumes "findEntry d section i = Some entry" "has_id i entry'"
  shows "findEntry (changeEntry section i (\<lambda>_. entry') d) section j = (if j = i then Some entry' else findEntry d section j)"
    "s \<noteq> section \<Longrightarrow> section_of (changeEntry section i (\<lambda>_. entry') d) s = section_of d s"
  using assms find_changed[OF assms(2)]
  by (auto simp: findEntry_def changeEntry_def section_changed bind_eq_Some_conv)

lemma found_entry:
  assumes "findEntry d section i = Some entry" "well_formed d"
  shows "has_id i entry" "mapping entry"
proof -
  obtain l where l: "section_of d section = Some l" "find (has_id i) (y_Content l) = Some entry"
    using assms(1) by (auto simp: findEntry_def bind_eq_Some_conv)
  then have e: "has_id i entry" "entry \<in> set (y_Content l)" by (auto simp: find_Some_iff)
  obtain root where "y_Content d = root # tl (y_Content d)" "findValue root section = Some l"
    using l(1) by (auto simp: section_of_def root_of_def bind_eq_Some_conv split: list.splits)
  then have "well_formed l" using well_formed_value well_formed_content[OF assms(2)] by (metis list.set_intros(1))
  with e show "has_id i entry" "mapping entry"
    by (auto simp: mapping_def has_id_def well_formed_content split: option.splits dest: findValue_kind)
qed

text \<open>An entry without the edited field's name is still the entry that was looked for.\<close>

lemma kept_id: "has_id i entry \<Longrightarrow> mapping entry \<Longrightarrow> field \<noteq> ''id'' \<Longrightarrow> has_id i (setScalar field v entry)"
  by (simp add: has_id_def scalars.get_other)


text \<open>A directory whose hub file has one tunnel, that lists no devices yet, and the texts of its trees.\<close>

definition a_pair :: "string \<Rightarrow> ynode \<Rightarrow> ynode list" where "a_pair k v = [str_node k, v]"
definition a_scalar :: "string \<Rightarrow> string \<Rightarrow> ynode list" where "a_scalar k v = a_pair k (str_node v)"

definition hub_document :: "ynode list \<Rightarrow> ynode" where
  "hub_document more_fields = fresh DocumentNode [] [] [fresh MappingNode ''!!map'' []
     (a_pair ''tunnels'' (fresh SequenceNode ''!!seq'' []
        [fresh MappingNode ''!!map'' [] (a_scalar ''id'' ''nl'' @ a_scalar ''role'' ''internet'' @ more_fields)]))]"

definition an_editor :: "(string \<times> ynode) list \<Rightarrow> editor" where
  "an_editor texts = \<lparr>ed_Root = ''/etc/vpn-hub'', ed_IsDirectory = True, ed_ReadDir = NoDir, ed_Lock = None,
     ed_Decode = map_of texts, ed_Encode = \<lambda>d. map_of (map (\<lambda>(t, d). (d, t)) texts) d\<rparr>"

definition hub_host :: "string \<Rightarrow> host" where
  "hub_host c = bare_host\<lparr>h_Files := [''/etc/vpn-hub/hub.yaml'' \<mapsto> c]\<rparr>"

lemma node_of_simps: "findValue (fresh MappingNode g [] c) k = pair_value c k"
  by (simp add: findValue_def)

definition disabled_hub :: ynode where
  "disabled_hub = hub_document (a_pair ''enabled'' (fresh ScalarNode ''!!bool'' ''false'' []))"



subsection \<open>Documents stay well-formed\<close>

definition keeps :: "edit \<Rightarrow> bool" where
  "keeps ed \<longleftrightarrow> (\<forall>d d'. well_formed d \<and> ed d = Some (Inr d') \<longrightarrow> well_formed d')"

lemma well_formed_root:
  assumes "well_formed d" "\<And>r. root_of d = Some r \<Longrightarrow> well_formed r \<Longrightarrow> well_formed (f r)"
  shows "well_formed (in_root f d)"
  unfolding in_root_def
  using assms well_formed_content[OF assms(1)] well_formed_even[OF assms(1)]
  by (cases "y_Content d") (auto intro!: well_formed_with simp: root_of_def)

lemma well_formed_section:
  assumes "well_formed d" "section_of d s \<noteq> None" "\<And>l. section_of d s = Some l \<Longrightarrow> well_formed l \<Longrightarrow> well_formed (f l)"
  shows "well_formed (in_root (changeValue f s) d)"
  using assms by (auto intro!: well_formed_root well_formed_change simp: section_of_def bind_eq_Some_conv)

lemma well_formed_first: "\<forall>x \<in> set xs. well_formed x \<Longrightarrow> well_formed y \<Longrightarrow> x \<in> set (change_first P (\<lambda>_. y) xs) \<Longrightarrow> well_formed x"
  by (induction xs) (auto split: if_splits)

lemma length_change_first [simp]: "length (change_first P f xs) = length xs"
  by (induction xs) auto

lemma drop_first_set: "x \<in> set (drop_first P xs) \<Longrightarrow> x \<in> set xs"
  by (induction xs) (auto split: if_splits)

lemma well_formed_entry:
  assumes "well_formed d" "findEntry d s i \<noteq> None" "well_formed entry'"
  shows "well_formed (changeEntry s i (\<lambda>_. entry') d)"
  unfolding changeEntry_def
proof (rule well_formed_section[OF assms(1)])
  show "section_of d s \<noteq> None" using assms(2) by (cases "section_of d s") (auto simp: findEntry_def)
next
  fix l assume "well_formed l"
  then show "well_formed (with_content l (change_first (has_id i) (\<lambda>_. entry') (y_Content l)))"
    using well_formed_first[of "y_Content l" entry' _ "has_id i"] assms(3)
    by (intro well_formed_with) (auto dest: well_formed_content well_formed_even)
qed

lemma keeps_entry:
  assumes "\<And>n n'. mapping n \<Longrightarrow> f n = Inr n' \<Longrightarrow> well_formed n'"
  shows "keeps (edit_entry s i f)"
  using assms found_entry(2) well_formed_entry
  by (fastforce simp: keeps_def edit_entry_def bindE_Inr_iff split: option.splits)

lemma found_map:
  assumes "documentMap d s = Some m" "well_formed d"
  shows "mapping m" "section_of d s = Some m"
proof -
  from assms(1) show m: "section_of d s = Some m" by (auto simp: documentMap_def split: option.splits if_splits)
  then obtain r rest where "y_Content d = r # rest" "findValue r s = Some m"
    by (auto simp: section_of_def root_of_def split: list.splits)
  then show "mapping m"
    using assms well_formed_value well_formed_content[OF assms(2)] m
    by (auto simp: mapping_def documentMap_def split: option.splits if_splits)
qed

lemma keeps_hub:
  assumes "\<And>n n'. mapping n \<Longrightarrow> f n = Inr n' \<Longrightarrow> well_formed n'"
  shows "keeps (edit_hub f)"
  unfolding keeps_def
proof (intro allI impI)
  fix d d' assume d: "well_formed d \<and> edit_hub f d = Some (Inr d')"
  then obtain m m' where m: "documentMap d ''hub'' = Some m" "f m = Inr m'" "d' = in_root (changeValue (\<lambda>_. m') ''hub'') d"
    by (auto simp: edit_hub_def bindE_Inr_iff split: option.splits)
  with found_map[OF m(1)] d assms show "well_formed d'" by (auto intro!: well_formed_section)
qed

lemma well_formed_append: "well_formed l \<Longrightarrow> well_formed x \<Longrightarrow> y_Kind l \<noteq> MappingNode \<Longrightarrow> well_formed (with_content l (y_Content l @ [x]))"
  by (rule well_formed_with) (auto dest: well_formed_content)

lemma well_formed_append_entry: "well_formed l \<Longrightarrow> well_formed x \<Longrightarrow> well_formed (append_entry x l)"
  by (auto simp: append_entry_def Let_def intro!: well_formed_with dest: well_formed_content)

lemma well_formed_removed: "well_formed m \<Longrightarrow> remove_nested mapName key m = Inr m' \<Longrightarrow> well_formed m'"
  by (auto simp: remove_nested_def split: option.splits intro!: well_formed_change dest: well_formed_remove)

lemma keeps_acl: "keeps (add_acl source target protocol port)"
  unfolding keeps_def
proof (intro allI impI)
  fix d d' assume d: "well_formed d \<and> add_acl source target protocol port d = Some (Inr d')"
  let ?entry = "clientACLNode source target protocol port"
  have entry: "well_formed ?entry" by (auto simp: clientACLNode_def fresh_def str_node_def)
  from d obtain r where r: "root_of d = Some r" by (auto simp: add_acl_def Let_def split: if_splits option.splits)
  show "well_formed d'"
    using d r entry well_formed_append_entry
    by (auto simp: add_acl_def Let_def split: if_splits intro!: well_formed_root well_formed_add well_formed_change)
qed

lemma keeps_remove: "keeps (remove_from_list s P)"
  unfolding keeps_def
proof (intro allI impI)
  fix d d' assume d: "well_formed d \<and> remove_from_list s P d = Some (Inr d')"
  then obtain l where "section_of d s = Some l" "y_Kind l = SequenceNode"
    "d' = in_root (changeValue (\<lambda>l. with_content l (drop_first P (y_Content l))) s) d"
    by (auto simp: remove_from_list_def documentList_def split: option.splits if_splits)
  with d show "well_formed d'" by (auto intro!: well_formed_section well_formed_with dest: drop_first_set well_formed_content)
qed


text \<open>The operations of the editor as requests.\<close>

datatype edit_request =
    EditTunnel string string string | EditDevice string string string | EditHub string string
  | EditHubMap string string string | DropHubMap string string
  | EditTunnelMap string string string string | DropTunnelMap string string string
  | AppendItem string string string | DropItem string string string
  | AddACL string string string "16 word" | DropACL string string string "16 word"
  | NewDevice string string string string | DropDevice string

fun perform :: "env \<Rightarrow> editor \<Rightarrow> edit_request \<Rightarrow> unit try_op" where
  "perform env e (EditTunnel i field v) = SetTunnelField env e i field v"
| "perform env e (EditDevice i field v) = SetDeviceField env e i field v"
| "perform env e (EditHub field v) = SetHubField env e field v"
| "perform env e (EditHubMap m k v) = SetHubMapField env e m k v"
| "perform env e (DropHubMap m k) = RemoveHubMapField env e m k"
| "perform env e (EditTunnelMap i m k v) = SetTunnelMapField env e i m k v"
| "perform env e (DropTunnelMap i m k) = RemoveTunnelMapField env e i m k"
| "perform env e (AppendItem i field v) = AppendListItem env e i field v"
| "perform env e (DropItem i field v) = RemoveListItem env e i field v"
| "perform env e (AddACL s t p port) = AddClientACL env e s t p port"
| "perform env e (DropACL s t p port) = RemoveClientACL env e s t p port"
| "perform env e (NewDevice i a k g) = AddDevice env e i a k g"
| "perform env e (DropDevice i) = RemoveDevice env e i"

definition config_files :: "editor \<Rightarrow> string set" where
  "config_files e = {ed_Root e, hubFile e, devicesFile e} \<union> set (tunnel_paths e)"

lemma file_lists: "set (deviceFiles e) \<subseteq> config_files e" "set (hubFiles e) \<subseteq> config_files e"
    "set (clientACLFiles e) \<subseteq> config_files e" "set (tunnel_paths e) \<subseteq> config_files e"
  by (auto simp: deviceFiles_def hubFiles_def clientACLFiles_def config_files_def)

definition whole :: "editor \<Rightarrow> host \<Rightarrow> host \<Rightarrow> bool" where
  "whole e h h' \<longleftrightarrow> (\<exists>p d. p \<in> config_files e \<and> well_formed d \<and> stored e p d h h')"

lemma rewritten_whole:
  assumes "rewritten e ed paths h h'" "\<forall>c d. ed_Decode e c = Some d \<longrightarrow> well_formed d" "set paths \<subseteq> config_files e"
    "\<And>c d d'. ed_Decode e c = Some d \<Longrightarrow> ed d = Some (Inr d') \<Longrightarrow> well_formed d'"
  shows "whole e h h'"
  using assms unfolding rewritten_def whole_def stored_def by (metis in_set_conv_decomp subsetD)

lemma edits_whole:
  assumes "edits e ed paths m" "keeps ed" "set paths \<subseteq> config_files e"
    "\<forall>c d. ed_Decode e c = Some d \<longrightarrow> well_formed d" "run_state m h = (r, h')"
  shows "(isOk r \<longrightarrow> whole e h h') \<and> (whole e h h' \<or> h_Files h' = h_Files h)"
proof -
  have "rewritten e ed paths h h' \<Longrightarrow> whole e h h'"
    using rewritten_whole[OF _ assms(4,3)] assms(2,4) by (metis keeps_def)
  then show ?thesis using editsD[OF assms(1,5)] by blast
qed


text \<open>A field whose items are changed holds no mapping.\<close>

definition edits_lists :: "editor \<Rightarrow> edit_request \<Rightarrow> bool" where
  "edits_lists e req \<longleftrightarrow> (\<forall>i field v. req = AppendItem i field v \<or> req = DropItem i field v \<longrightarrow>
     (\<forall>c d entry l. ed_Decode e c = Some d \<and> findEntry d ''tunnels'' i = Some entry \<and> findValue entry field = Some l \<longrightarrow>
        y_Kind l \<noteq> MappingNode))"

lemma well_formed_items:
  assumes "mapping n" "\<forall>l. findValue n field = Some l \<longrightarrow> y_Kind l \<noteq> MappingNode"
  shows "append_item field v n = Inr n' \<Longrightarrow> well_formed n'" "remove_item field v n = Inr n' \<Longrightarrow> well_formed n'"
proof -
  have one: "well_formed (with_content empty_seq [str_node v])" by (rule well_formed_with) simp_all
  show "append_item field v n = Inr n' \<Longrightarrow> well_formed n'"
    using assms one
    by (auto simp: append_item_def Let_def mapping_def split: option.splits if_splits
        intro!: well_formed_add well_formed_change well_formed_append)
  show "remove_item field v n = Inr n' \<Longrightarrow> well_formed n'"
    using assms
    by (auto simp: remove_item_def mapping_def split: option.splits if_splits
        intro!: well_formed_change well_formed_with dest: well_formed_content)
qed

text \<open>The entries a decoded document has, for the edits whose result depends on what a field holds.\<close>

lemma items_whole:
  assumes "\<forall>c d. ed_Decode e c = Some d \<longrightarrow> well_formed d" "run_state (in_tunnels env e i f) h = (r, h')"
    and "\<And>c d n n'. ed_Decode e c = Some d \<Longrightarrow> findEntry d ''tunnels'' i = Some n \<Longrightarrow> mapping n \<Longrightarrow> f n = Inr n' \<Longrightarrow> well_formed n'"
  shows "(isOk r \<longrightarrow> whole e h h') \<and> (whole e h h' \<or> h_Files h' = h_Files h)"
proof -
  have "well_formed d'" if "ed_Decode e c = Some d" "edit_entry ''tunnels'' i f d = Some (Inr d')" for c d d'
  proof -
    from that(2) obtain n n' where n: "findEntry d ''tunnels'' i = Some n" "f n = Inr n'" "d' = changeEntry ''tunnels'' i (\<lambda>_. n') d"
      by (auto simp: edit_entry_def bindE_Inr_iff split: option.splits)
    have d: "well_formed d" using assms(1) that(1) by blast
    show ?thesis
      using well_formed_entry[OF d, of "''tunnels''" i n'] n assms(3)[OF that(1) n(1) found_entry(2)[OF n(1) d] n(2)] by simp
  qed
  then have "rewritten e (edit_entry ''tunnels'' i f) (tunnel_paths e) h h' \<Longrightarrow> whole e h h'"
    using rewritten_whole[OF _ assms(1) file_lists(4)] by blast
  then show ?thesis using editsD[OF edits_in_tunnels assms(2)] by blast
qed

subsection \<open>Adding a device\<close>

lemma no_duplicate_reads:
  "wp (no_duplicate env e i paths) (\<lambda>r h'. h' = h \<and> (isOk r \<longrightarrow> (\<forall>p \<in> set paths. \<forall>c. h_Files h p = Some c \<longrightarrow>
     e_Read env (h_Log h) p \<and> (\<exists>d. ed_Decode e c = Some d \<and> findEntry d ''devices'' i = None)))) h"
proof (induction paths)
  case (Cons p ps)
  then show ?case
    by (cases "h_Files h p") (auto simp: wp_rules isOk_def split: option.split elim!: wp_mono)
qed (simp add: wp_rules)

text \<open>A device is put into a list of devices, in the first file that has one.\<close>

definition put_device :: "ynode \<Rightarrow> edit" where
  "put_device entry d =
     (if section_of d ''devices'' = None then None else Some (Inr (in_root (changeValue (append_entry entry) ''devices'') d)))"

lemma keeps_put: "well_formed entry \<Longrightarrow> keeps (put_device entry)"
  unfolding keeps_def put_device_def by (auto intro!: well_formed_section well_formed_append_entry)

text \<open>A file that has no list: it is missing, has no devices, or could not be read.\<close>

definition unlisted :: "env \<Rightarrow> editor \<Rightarrow> host \<Rightarrow> string \<Rightarrow> bool" where
  "unlisted env e h p \<longleftrightarrow> (\<forall>c d. h_Files h p = Some c \<and> e_Read env (h_Log h) p \<and> ed_Decode e c = Some d \<longrightarrow> section_of d ''devices'' = None)"

definition joined_list :: "env \<Rightarrow> editor \<Rightarrow> ynode \<Rightarrow> string list \<Rightarrow> host \<Rightarrow> host \<Rightarrow> bool" where
  "joined_list env e entry paths h h' \<longleftrightarrow> (\<exists>pre p post c d. paths = pre @ p # post \<and> (\<forall>q \<in> set pre. unlisted env e h q) \<and>
     h_Files h p = Some c \<and> ed_Decode e c = Some d \<and> section_of d ''devices'' \<noteq> None \<and>
     stored e p (in_root (changeValue (append_entry entry) ''devices'') d) h h')"

lemma add_to_list_outcome:
  "wp (add_to_list env e entry paths) (\<lambda>r h'. case r of
      None \<Rightarrow> h' = h \<and> (\<forall>p \<in> set paths. unlisted env e h p)
    | Some r \<Rightarrow> (isOk r \<longrightarrow> joined_list env e entry paths h h') \<and> (joined_list env e entry paths h h' \<or> h_Files h' = h_Files h)) h"
proof (induction paths)
  case Nil
  then show ?case by (simp add: wp_rules)
next
  case (Cons p ps)
  let ?Q = "\<lambda>paths r h'. case r of
      None \<Rightarrow> h' = h \<and> (\<forall>p \<in> set paths. unlisted env e h p)
    | Some r \<Rightarrow> (isOk r \<longrightarrow> joined_list env e entry paths h h') \<and> (joined_list env e entry paths h h' \<or> h_Files h' = h_Files h)"
  have later: "joined_list env e entry (p # ps) h h'" if "unlisted env e h p" "joined_list env e entry ps h h'" for h'
    using that unfolding joined_list_def by (metis append_Cons set_ConsD)
  have skip: "wp (add_to_list env e entry ps) (?Q (p # ps)) h" if "unlisted env e h p"
    by (rule wp_mono[OF Cons.IH]) (use that later in \<open>auto split: option.splits\<close>)
  show ?case
  proof (cases "\<exists>c d. h_Files h p = Some c \<and> e_Read env (h_Log h) p \<and> ed_Decode e c = Some d \<and> section_of d ''devices'' \<noteq> None")
    case True
    then obtain c d where d: "h_Files h p = Some c" "e_Read env (h_Log h) p" "ed_Decode e c = Some d" "section_of d ''devices'' \<noteq> None" by blast
    have "joined_list env e entry (p # ps) h h'" if "stored e p (in_root (changeValue (append_entry entry) ''devices'') d) h h'" for h'
      unfolding joined_list_def using d that by (metis append_Nil empty_iff list.set(1))
    then show ?thesis using d by (auto simp: wp_rules intro: wp_mono[OF writeDocument_outcome])
  next
    case False
    then have "unlisted env e h p" by (auto simp: unlisted_def)
    then show ?thesis using skip False by (auto simp: wp_rules split: option.split)
  qed
qed


definition list_base :: "editor \<Rightarrow> string \<Rightarrow> host \<Rightarrow> ynode \<Rightarrow> bool" where
  "list_base e p h d \<longleftrightarrow> h_Files h p = None \<and> d = empty_document \<or>
     (\<exists>c d0. h_Files h p = Some c \<and> ed_Decode e c = Some d0 \<and> d = (if y_Content d0 = [] then empty_document else d0))"

definition started_list :: "editor \<Rightarrow> ynode \<Rightarrow> string \<Rightarrow> host \<Rightarrow> host \<Rightarrow> bool" where
  "started_list e entry p h h' \<longleftrightarrow>
     (\<exists>d. list_base e p h d \<and> stored e p (in_root (addPair ''devices'' (with_content empty_seq [entry])) d) h h')"

lemma start_list_outcome:
  "wp (start_list env e entry p) (\<lambda>r h'. (isOk r \<longrightarrow> started_list e entry p h h') \<and>
     (started_list e entry p h h' \<or> h_Files h' = h_Files h)) h"
proof -
  have writes: "wp (writeDocument env e p (in_root (addPair ''devices'' (with_content empty_seq [entry])) d))
     (\<lambda>r h'. (isOk r \<longrightarrow> started_list e entry p h h') \<and> (started_list e entry p h h' \<or> h_Files h' = h_Files h)) h"
    if "list_base e p h d" for d
    by (rule wp_mono[OF writeDocument_outcome]) (use that in \<open>auto simp: started_list_def\<close>)
  show ?thesis
    using writes[of empty_document] writes by (auto simp: start_list_def wp_rules Let_def list_base_def isOk_def split: option.split)
qed

text \<open>What a successful addition did: no file had the device, and it is now in the first list there was, or in a new one.\<close>

definition device_added :: "env \<Rightarrow> editor \<Rightarrow> string \<Rightarrow> ynode \<Rightarrow> host \<Rightarrow> host \<Rightarrow> bool" where
  "device_added env e i entry h h' \<longleftrightarrow>
     (\<forall>p \<in> set (deviceFiles e). \<forall>c. h_Files h p = Some c \<longrightarrow> e_Read env (h_Log h) p \<and> (\<exists>d. ed_Decode e c = Some d \<and> findEntry d ''devices'' i = None)) \<and>
     (joined_list env e entry (deviceFiles e) h h' \<or>
      (\<forall>p \<in> set (deviceFiles e). unlisted env e h p) \<and> started_list e entry (hd (deviceFiles e)) h h')"

lemma AddDevice_outcome:
  "wp (AddDevice env e i a k g) (\<lambda>r h'. (isOk r \<longrightarrow> device_added env e i (device_node i a k g) h h') \<and>
     (device_added env e i (device_node i a k g) h h' \<or> h_Files h' = h_Files h)) h"
proof -
  let ?entry = "device_node i a k g" and ?paths = "deviceFiles e"
  let ?Q = "\<lambda>r h'. (isOk r \<longrightarrow> device_added env e i ?entry h h') \<and> (device_added env e i ?entry h h' \<or> h_Files h' = h_Files h)"
  let ?N = "\<forall>p \<in> set ?paths. \<forall>c. h_Files h p = Some c \<longrightarrow> e_Read env (h_Log h) p \<and> (\<exists>d. ed_Decode e c = Some d \<and> findEntry d ''devices'' i = None)"
  have add: "wp (add_to_list env e ?entry ?paths) (\<lambda>r. wp (case r of Some answer \<Rightarrow> returns answer
      | None \<Rightarrow> start_list env e ?entry (hd ?paths)) ?Q) h" if ?N
  proof (rule wp_mono[OF add_to_list_outcome])
    fix r :: "(host_error, unit) result option" and h1
    assume r: "case r of None \<Rightarrow> h1 = h \<and> (\<forall>p \<in> set ?paths. unlisted env e h p)
      | Some r \<Rightarrow> (isOk r \<longrightarrow> joined_list env e ?entry ?paths h h1) \<and> (joined_list env e ?entry ?paths h h1 \<or> h_Files h1 = h_Files h)"
    show "wp (case r of Some answer \<Rightarrow> returns answer | None \<Rightarrow> start_list env e ?entry (hd ?paths)) ?Q h1"
    proof (cases r)
      case None
      then have "h1 = h" "\<forall>p \<in> set ?paths. unlisted env e h p" using r by auto
      with that have "started_list e ?entry (hd ?paths) h h' \<Longrightarrow> device_added env e i ?entry h h'" for h'
        by (simp add: device_added_def)
      with None \<open>h1 = h\<close> show ?thesis by (auto intro: wp_mono[OF start_list_outcome])
    qed (use r that in \<open>auto simp: wp_rules device_added_def\<close>)
  qed
  show ?thesis
    unfolding AddDevice_def Let_def
  proof (rule wp_locked, rule conjI)
    show "wp (andThen (no_duplicate env e i ?paths) (\<lambda>_. do { r \<leftarrow> add_to_list env e ?entry ?paths;
        (case r of Some answer \<Rightarrow> returns answer | None \<Rightarrow> start_list env e ?entry (hd ?paths)) })) ?Q h"
    proof (rule wp_seq[OF no_duplicate_reads[of env e i ?paths h]])
      show "?Q (Inl err) h'" if "h' = h \<and> (isOk (Inl err :: (host_error, unit) result) \<longrightarrow> ?N)" for err h'
        using that by (simp add: isOk_def)
      show "wp (add_to_list env e ?entry ?paths \<bind> case_option (start_list env e ?entry (hd ?paths)) returns) ?Q h'"
        if "h' = h \<and> (isOk (Inr x :: (host_error, unit) result) \<longrightarrow> ?N)" for x h'
        using that add by (simp add: wp_bind isOk_def)
    qed
  qed (simp add: isOk_def)
qed

lemma device_files_not_empty [simp]: "deviceFiles e \<noteq> []"
  by (simp add: deviceFiles_def)

lemma device_added_whole:
  assumes "device_added env e i (device_node i a k g) h h'" "\<forall>c d. ed_Decode e c = Some d \<longrightarrow> well_formed d"
  shows "whole e h h'"
proof -
  have entry: "well_formed (device_node i a k g)" by (auto simp: device_node_def fresh_def str_node_def)
  from assms(1) consider "joined_list env e (device_node i a k g) (deviceFiles e) h h'"
    | "started_list e (device_node i a k g) (hd (deviceFiles e)) h h'"
    by (auto simp: device_added_def)
  then show ?thesis
  proof cases
    case 1
    then obtain pre p post c d where d: "deviceFiles e = pre @ p # post" "ed_Decode e c = Some d" "section_of d ''devices'' \<noteq> None"
        "stored e p (in_root (changeValue (append_entry (device_node i a k g)) ''devices'') d) h h'"
      unfolding joined_list_def by blast
    have "well_formed (in_root (changeValue (append_entry (device_node i a k g)) ''devices'') d)"
      using assms(2) d(2,3) entry by (intro well_formed_section well_formed_append_entry) auto
    moreover have "p \<in> config_files e" using file_lists(1)[of e] d(1) by auto
    ultimately show ?thesis using d(4) unfolding whole_def by blast
  next
    case 2
    then obtain d where d: "list_base e (hd (deviceFiles e)) h d"
        "stored e (hd (deviceFiles e)) (in_root (addPair ''devices'' (with_content empty_seq [device_node i a k g])) d) h h'"
      unfolding started_list_def by blast
    have "well_formed empty_document" by (auto simp: empty_document_def fresh_def empty_map_def)
    then have "well_formed d" using d(1) assms(2) by (auto simp: list_base_def split: if_splits)
    then have "well_formed (in_root (addPair ''devices'' (with_content empty_seq [device_node i a k g])) d)"
      using entry by (intro well_formed_root well_formed_add well_formed_with) auto
    moreover have "hd (deviceFiles e) \<in> config_files e" using file_lists(1)[of e] hd_in_set[of "deviceFiles e"] by auto
    ultimately show ?thesis using d(2) unfolding whole_def by blast
  qed
qed



end
