(* ===== verification/DeviceEditClaims.thy ===== *)
theory DeviceEditClaims
  imports EditorClaims
begin

text \<open>
  The editor's reverts and its lists: removing a device undoes its addition, and an item that is
  appended to a field that is no list is lost.
\<close>

subsection \<open>Removing a device\<close>

lemma bare_with_content: "bare (with_content n c) = with_content (bare n) (if y_Kind n = ScalarNode then [] else map bare c)"
  by (cases n) (simp add: with_content_def)

lemma bare_pairs: "(\<And>x. bare (f x) = F (bare x)) \<Longrightarrow> map bare (change_pair f key c) = change_pair F key (map bare c)"
  by (induction f key c rule: change_pair.induct) auto

lemma bare_change: "(\<And>x. bare (f x) = F (bare x)) \<Longrightarrow> bare (changeValue f key m) = changeValue F key (bare m)"
  by (simp add: changeValue_def bare_with_content bare_pairs)

lemma bare_in_root: "(\<And>x. bare (f x) = F (bare x)) \<Longrightarrow> bare (in_root f d) = in_root F (bare d)"
  by (simp add: in_root_def bare_with_content split: list.split)

lemma bare_pairs_same: "pair_value c key = Some l \<Longrightarrow> bare (f l) = bare l \<Longrightarrow> map bare (change_pair f key c) = map bare c"
  by (induction f key c rule: change_pair.induct) (auto split: if_splits)

lemma has_id_bare: "has_id i (bare n) = has_id i n"
  by (simp add: has_id_def findValue_bare split: option.split)

definition without :: "string \<Rightarrow> ynode \<Rightarrow> ynode" where
  "without i l = with_content l (drop_first (has_id i) (y_Content l))"

definition take_out :: "string \<Rightarrow> ynode \<Rightarrow> ynode" where
  "take_out i = in_root (changeValue (without i) ''devices'')"

lemma map_drop_first: "map bare (drop_first (has_id i) xs) = drop_first (has_id i) (map bare xs)"
  by (induction xs) (simp_all add: has_id_bare)

lemma bare_without: "bare (without i l) = without i (bare l)"
  by (simp add: without_def bare_with_content map_drop_first)

lemma bare_take_out: "bare (take_out i d) = take_out i (bare d)"
  unfolding take_out_def by (intro bare_in_root bare_change bare_without)

lemma drop_last: "\<not> list_ex P xs \<Longrightarrow> P x \<Longrightarrow> drop_first P (xs @ [x]) = xs"
  by (induction xs) auto

lemma section_bare: "y_Kind d \<noteq> ScalarNode \<Longrightarrow> section_of (bare d) s = map_option bare (section_of d s)"
  by (auto simp: section_of_def root_of_def findValue_bare split: list.split)

lemma no_entry: "findEntry d s i = None \<Longrightarrow> section_of d s = Some l \<Longrightarrow> \<not> list_ex (has_id i) (y_Content l)"
  by (auto simp: findEntry_def find_None_iff list_ex_iff)

lemma entry_has_id: "has_id i (device_node i a k g)"
  by (simp add: has_id_def device_node_def findValue_def fresh_def str_node_def)

lemma section_exists: "section_of d s = Some l \<Longrightarrow> \<exists>r rest. y_Content d = r # rest \<and> findValue r s = Some l"
  by (auto simp: section_of_def root_of_def split: list.splits)

text \<open>A change that leaves a section's tree as it was leaves the document's.\<close>

lemma bare_section_same:
  assumes "section_of d s = Some l" "bare (f l) = bare l"
  shows "bare (in_root (changeValue f s) d) = bare d"
proof -
  from section_exists[OF assms(1)] obtain r rest where r: "y_Content d = r # rest" "findValue r s = Some l" by blast
  then have "pair_value (y_Content r) s = Some l" by (simp add: findValue_def split: if_splits)
  from bare_pairs_same[where f = f, OF this assms(2)] show ?thesis
    by (simp add: in_root_def r(1) changeValue_def bare_eq)
qed

lemma changed_twice: "in_root (changeValue f s) (in_root (changeValue g s) d) = in_root (changeValue (f \<circ> g) s) d"
  by (cases "y_Content d") (simp_all add: in_root_def changeValue_def change_pair_twice)

lemma taken_out_again:
  assumes "section_of d ''devices'' = Some l" "y_Kind l = SequenceNode" "\<not> list_ex (has_id i) (y_Content l)" "has_id i entry"
  shows "bare (take_out i (in_root (changeValue (append_entry entry) ''devices'') d)) = bare d"
  unfolding take_out_def changed_twice
  by (rule bare_section_same[OF assms(1)]) (use assms(2-4) in \<open>simp add: without_def append_entry_def Let_def drop_last bare_eq\<close>)

lemma removal_of:
  assumes "remove_from_list ''devices'' (has_id i) d = Some (Inr d')"
  shows "\<exists>l. documentList d ''devices'' = Some l \<and> list_ex (has_id i) (y_Content l) \<and> d' = take_out i d"
  using assms by (auto simp: remove_from_list_def take_out_def without_def[abs_def] split: option.splits if_splits)

lemma documentList_section: "documentList d s = Some l \<longleftrightarrow> section_of d s = Some l \<and> y_Kind l = SequenceNode"
  by (auto simp: documentList_def split: option.splits)

text \<open>The removal finds the device where the addition put it.\<close>

lemma removal_finds:
  assumes "device_added env e i entry h h1" "stored e p d1 h h1"
    and "rewritten e (remove_from_list ''devices'' (has_id i)) (deviceFiles e) h1 h2"
    and "\<forall>t. ed_Encode e d1 = Some t \<longrightarrow> (\<exists>d'. ed_Decode e t = Some d' \<and> bare d' = bare d1)"
  shows "\<exists>d' l t. bare d' = bare d1 \<and> documentList d' ''devices'' = Some l \<and> list_ex (has_id i) (y_Content l) \<and>
     ed_Encode e (take_out i d') = Some t \<and> h_Files h2 = (h_Files h)(p := Some t)"
proof -
  obtain t1 where t1: "ed_Encode e d1 = Some t1" "h_Files h1 = (h_Files h)(p := Some t1)" using assms(2) by (auto simp: stored_def)
  obtain pre q post c d d' t where q: "deviceFiles e = pre @ q # post" "h_Files h1 q = Some c" "ed_Decode e c = Some d"
      "remove_from_list ''devices'' (has_id i) d = Some (Inr d')" "ed_Encode e d' = Some t" "h_Files h2 = (h_Files h1)(q := Some t)"
    using assms(3) unfolding rewritten_def by blast
  from removal_of[OF q(4)] obtain l where l: "documentList d ''devices'' = Some l" "list_ex (has_id i) (y_Content l)" "d' = take_out i d" by blast
  have "q = p"
  proof (rule ccontr)
    assume "q \<noteq> p"
    then have "h_Files h q = Some c" "q \<in> set (deviceFiles e)" using q(1,2) t1(2) by auto
    then have "findEntry d ''devices'' i = None" using assms(1) q(3) by (auto simp: device_added_def)
    with no_entry l(1,2) show False by (metis documentList_section)
  qed
  then have "bare d = bare d1" using assms(4) t1(1) q(2,3) t1(2) by auto
  then show ?thesis using l q(5,6) t1(2) \<open>q = p\<close> by (metis fun_upd_upd)
qed

lemma started_entry:
  assumes "well_formed d" "section_of d ''devices'' = None" "section_of (in_root (addPair ''devices'' v) d) ''devices'' = Some l"
  shows "l = v"
proof -
  obtain r where r: "root_of d = Some r" "findValue (addPair ''devices'' v r) ''devices'' = Some l"
    using assms(3) by (auto simp: section_of_def bind_eq_Some_conv)
  then have m: "y_Kind r = MappingNode" using findValue_kind[OF r(2)] by simp
  have "r \<in> set (y_Content d)" using r(1) by (auto simp: root_of_def split: list.splits)
  then have "well_formed r" using well_formed_content[OF assms(1)] by blast
  moreover have "findValue r ''devices'' = None" using assms(2) r(1) by (simp add: section_of_def)
  ultimately show ?thesis using r(2) findValue_add[OF m well_formed_even[OF _ m]] by simp
qed

lemma single_left:
  assumes "map bare xs = [bare x]" "has_id i x"
  shows "drop_first (has_id i) xs = []"
proof -
  obtain y where y: "xs = [y]" "bare y = bare x" using assms(1) by auto
  then have "has_id i y" using has_id_bare assms(2) by metis
  with y(1) show ?thesis by simp
qed

text \<open>Removing a device right after it was added leaves the tree as it was found when its file had a list of devices:
  the revert of an addition that fails validation.  When no file had one, the list that was started stays, empty.\<close>
theorem removing_undoes_adding:
  assumes "\<forall>c d. ed_Decode e c = Some d \<longrightarrow> well_formed d \<and> y_Kind d \<noteq> ScalarNode"
    and "\<forall>d t. well_formed d \<and> ed_Encode e d = Some t \<longrightarrow> (\<exists>d'. ed_Decode e t = Some d' \<and> bare d' = bare d)"
    and "run_state (AddDevice env e i a k g) h = (Inr (), h1)" "run_state (RemoveDevice env' e i) h1 = (Inr (), h2)"
  shows "\<exists>p d2 t2. h_Files h2 = (h_Files h)(p := Some t2) \<and> ed_Encode e d2 = Some t2 \<and>
     (\<forall>c d l. h_Files h p = Some c \<and> ed_Decode e c = Some d \<and> documentList d ''devices'' = Some l \<longrightarrow> bare d2 = bare d) \<and>
     (h_Files h p = None \<longrightarrow> (\<exists>l. documentList d2 ''devices'' = Some l \<and> y_Content l = []))"
proof -
  let ?entry = "device_node i a k g"
  have added: "device_added env e i ?entry h h1" using wpD[OF AddDevice_outcome assms(3)] by (simp add: isOk_def)
  have removed: "rewritten e (remove_from_list ''devices'' (has_id i)) (deviceFiles e) h1 h2"
    using editsD(1)[OF edits_first assms(4)[unfolded RemoveDevice_def]] by (simp add: isOk_def)
  have entry: "well_formed ?entry" by (auto simp: device_node_def fresh_def str_node_def)
  have wf: "well_formed d" if "ed_Decode e c = Some d" for c d using assms(1) that by blast
  from added consider "joined_list env e ?entry (deviceFiles e) h h1"
    | "\<forall>p \<in> set (deviceFiles e). unlisted env e h p" "started_list e ?entry (hd (deviceFiles e)) h h1"
    unfolding device_added_def by blast
  then show ?thesis
  proof cases
    case 1
    then obtain pre p post c d where d: "deviceFiles e = pre @ p # post" "h_Files h p = Some c" "ed_Decode e c = Some d"
        "section_of d ''devices'' \<noteq> None" "stored e p (in_root (changeValue (append_entry ?entry) ''devices'') d) h h1"
      unfolding joined_list_def by blast
    have "well_formed (in_root (changeValue (append_entry ?entry) ''devices'') d)"
      using wf[OF d(3)] d(4) entry by (intro well_formed_section well_formed_append_entry) auto
    with assms(2) have again: "\<forall>t. ed_Encode e (in_root (changeValue (append_entry ?entry) ''devices'') d) = Some t \<longrightarrow>
        (\<exists>d'. ed_Decode e t = Some d' \<and> bare d' = bare (in_root (changeValue (append_entry ?entry) ''devices'') d))" by blast
    from removal_finds[OF added d(5) removed again] obtain d' l t where d': "bare d' = bare (in_root (changeValue (append_entry ?entry) ''devices'') d)"
        "ed_Encode e (take_out i d') = Some t" "h_Files h2 = (h_Files h)(p := Some t)"
      by (elim exE conjE) (rule that; assumption)
    have "findEntry d ''devices'' i = None" using added d(1-3) by (auto simp: device_added_def)
    then have "bare (take_out i d') = bare d" if "documentList d ''devices'' = Some l" for l
      using taken_out_again[of d l i ?entry] that no_entry[of d "''devices''" i l] entry_has_id bare_take_out d'(1)
      by (simp add: documentList_section)
    then show ?thesis
      using d(2,3) d'(2,3) by (intro exI[of _ p] exI[of _ "take_out i d'"] exI[of _ t]) auto
  next
    case 2
    let ?p = "hd (deviceFiles e)" and ?new = "addPair ''devices'' (with_content empty_seq [?entry])"
    obtain d where d: "list_base e ?p h d" "stored e ?p (in_root ?new d) h h1" using 2(2) unfolding started_list_def by blast
    have empty: "well_formed empty_document" "section_of empty_document ''devices'' = None" "y_Kind empty_document \<noteq> ScalarNode"
      by (auto simp: empty_document_def fresh_def empty_map_def section_of_def root_of_def findValue_def)
    then have shape: "well_formed d" "y_Kind d \<noteq> ScalarNode" using d(1) assms(1) by (auto simp: list_base_def split: if_splits)
    then have "well_formed (in_root ?new d)"
      using entry by (intro well_formed_root well_formed_add well_formed_with) auto
    with assms(2) have again: "\<forall>t. ed_Encode e (in_root ?new d) = Some t \<longrightarrow> (\<exists>d'. ed_Decode e t = Some d' \<and> bare d' = bare (in_root ?new d))"
      by blast
    from removal_finds[OF added d(2) removed again] obtain d' l t where d': "bare d' = bare (in_root ?new d)"
        "documentList d' ''devices'' = Some l" "list_ex (has_id i) (y_Content l)" "ed_Encode e (take_out i d') = Some t"
        "h_Files h2 = (h_Files h)(?p := Some t)"
      by (elim exE conjE) (rule that; assumption)
    have none: "section_of d0 ''devices'' = None" if "h_Files h ?p = Some c" "ed_Decode e c = Some d0" for c d0
    proof -
      have "?p \<in> set (deviceFiles e)" using hd_in_set by simp
      with that added 2(1) show ?thesis unfolding device_added_def unlisted_def by blast
    qed
    then have none_d: "section_of d ''devices'' = None" using d(1) empty(2) by (auto simp: list_base_def)
    have l: "section_of d' ''devices'' = Some l" "y_Kind l = SequenceNode" using d'(2) by (simp_all add: documentList_section)
    have kinds: "y_Kind (in_root ?new d) \<noteq> ScalarNode" "y_Kind d' \<noteq> ScalarNode"
      using shape(2) d'(1) bare_eq[of d' "in_root ?new d"] by (simp_all add: in_root_def)
    obtain v where v: "section_of (in_root ?new d) ''devices'' = Some v" "bare l = bare v"
      using section_bare[OF kinds(1), of "''devices''"] section_bare[OF kinds(2), of "''devices''"] l(1) d'(1) by auto
    then have "map bare (y_Content l) = [bare ?entry]"
      using started_entry[OF shape(1) none_d v(1)] l(2) by (simp add: bare_eq)
    then have "drop_first (has_id i) (y_Content l) = []" by (rule single_left) (rule entry_has_id)
    then have "documentList (take_out i d') ''devices'' = Some (without i l) \<and> y_Content (without i l) = []"
      using l by (simp add: documentList_section take_out_def section_changed without_def)
    then show ?thesis
      using none d'(4,5) by (intro exI[of _ ?p] exI[of _ "take_out i d'"] exI[of _ t]) (auto simp: documentList_section)
  qed
qed

definition device_document :: "ynode list \<Rightarrow> ynode" where
  "device_document devices =
     fresh DocumentNode [] [] [fresh MappingNode ''!!map'' [] (a_pair ''devices'' (fresh SequenceNode ''!!seq'' [] devices))]"

definition a_phone :: ynode where "a_phone = device_node ''phone'' ''10.44.0.2/32'' ''k'' ''direct''"
definition a_tablet :: ynode where "a_tablet = device_node ''tablet'' ''10.44.0.3/32'' ''j'' ''direct''"

definition device_editor :: editor where
  "device_editor = an_editor [(''one'', device_document [a_phone]), (''two'', device_document [a_phone, a_tablet])]"

lemma device_documents:
  "findEntry (device_document [a_phone]) ''devices'' ''tablet'' = None" "section_of (device_document [a_phone]) ''devices'' \<noteq> None"
  "in_root (changeValue (append_entry a_tablet) ''devices'') (device_document [a_phone]) = device_document [a_phone, a_tablet]"
  "remove_from_list ''devices'' (has_id ''tablet'') (device_document [a_phone, a_tablet]) = Some (Inr (device_document [a_phone]))"
  "device_document [a_phone] \<noteq> device_document [a_phone, a_tablet]" "y_Kind (device_document ds) \<noteq> ScalarNode"
  "well_formed (device_document [a_phone])" "well_formed (device_document [a_phone, a_tablet])"
  by (code_simp | simp add: device_document_def)+

lemma device_codec:
  "ed_Decode device_editor c = Some d \<longleftrightarrow> c = ''one'' \<and> d = device_document [a_phone] \<or> c = ''two'' \<and> d = device_document [a_phone, a_tablet]"
  "ed_Encode device_editor d = Some c \<longleftrightarrow> c = ''one'' \<and> d = device_document [a_phone] \<or> c = ''two'' \<and> d = device_document [a_phone, a_tablet]"
  using device_documents(5) by (auto simp: device_editor_def an_editor_def)

theorem removing_undoes_adding_witness:
  "\<exists>h1 h2. run_state (AddDevice calm_env device_editor ''tablet'' ''10.44.0.3/32'' ''j'' ''direct'') (hub_host ''one'') = (Inr (), h1) \<and>
     run_state (RemoveDevice calm_env device_editor ''tablet'') h1 = (Inr (), h2) \<and>
     (\<exists>d2. ed_Decode device_editor (the (h_Files h2 ''/etc/vpn-hub/hub.yaml'')) = Some d2 \<and> bare d2 = bare (device_document [a_phone]))"
proof -
  let ?add = "AddDevice calm_env device_editor ''tablet'' ''10.44.0.3/32'' ''j'' ''direct''"
  let ?drop = "RemoveDevice calm_env device_editor ''tablet''"
  obtain r h1 where went: "run_state ?add (hub_host ''one'') = (r, h1)" by (rule prod.exhaust)
  have layout: "deviceFiles device_editor = [''/etc/vpn-hub/devices.yaml'', ''/etc/vpn-hub/hub.yaml'']" "ed_Lock device_editor = None"
    by (simp_all add: deviceFiles_def device_editor_def an_editor_def devicesFile_def hubFile_def joinPath_def)
  have codec: "ed_Decode device_editor ''one'' = Some (device_document [a_phone])"
    "ed_Decode device_editor ''two'' = Some (device_document [a_phone, a_tablet])"
    "ed_Encode device_editor (device_document [a_phone]) = Some ''one''"
    "ed_Encode device_editor (device_document [a_phone, a_tablet]) = Some ''two''"
    by (simp_all add: device_codec)
  have "wp ?add (\<lambda>r h'. r = Inr () \<and> h_Files h' = h_Files (hub_host ''two'')) (hub_host ''one'')"
    using device_documents(1-3) codec
    by (auto simp: AddDevice_def Let_def locked_def layout wp_rules a_tablet_def[symmetric] writeDocument_def hub_host_def bare_host_def)
  from wpD[OF this went] have one: "r = Inr ()" "h_Files h1 = h_Files (hub_host ''two'')" by simp_all
  obtain r2 h2 where undone: "run_state ?drop h1 = (r2, h2)" by (rule prod.exhaust)
  have "wp ?drop (\<lambda>r h'. r = Inr () \<and> h_Files h' = h_Files (hub_host ''one'')) h1"
    using device_documents(4) codec one(2)
    by (simp add: RemoveDevice_def locked_def layout wp_rules writeDocument_def hub_host_def bare_host_def)
  from wpD[OF this undone] have two: "r2 = Inr ()" "h_Files h2 = h_Files (hub_host ''one'')" by simp_all
  have trees: "\<forall>c d. ed_Decode device_editor c = Some d \<longrightarrow> well_formed d \<and> y_Kind d \<noteq> ScalarNode"
    using device_documents(6-8) by (auto simp: device_codec)
  have texts: "\<forall>d t. well_formed d \<and> ed_Encode device_editor d = Some t \<longrightarrow> (\<exists>d'. ed_Decode device_editor t = Some d' \<and> bare d' = bare d)"
    by (auto simp: device_codec)
  have hub: "h_Files (hub_host ''one'') = [''/etc/vpn-hub/hub.yaml'' \<mapsto> ''one'']" by (simp add: hub_host_def)
  from removing_undoes_adding[OF trees texts went[unfolded one(1)] undone[unfolded two(1)]]
  have "h_Files h2 ''/etc/vpn-hub/hub.yaml'' \<noteq> None" unfolding hub by auto
  with two(2) hub codec(1) went undone one(1) two(1) show ?thesis by auto
qed

subsection \<open>Appending to a field that holds no list\<close>

lemma bare_change_first:
  "find P xs = Some x \<Longrightarrow> bare y = bare x \<Longrightarrow> map bare (change_first P (\<lambda>_. y) xs) = map bare xs"
  by (induction xs) (auto split: if_splits)

lemma bare_entry_same:
  assumes "findEntry d s i = Some entry" "bare entry' = bare entry"
  shows "bare (changeEntry s i (\<lambda>_. entry') d) = bare d"
proof -
  obtain l where l: "section_of d s = Some l" "find (has_id i) (y_Content l) = Some entry"
    using assms(1) by (auto simp: findEntry_def bind_eq_Some_conv)
  show ?thesis
    unfolding changeEntry_def
    by (rule bare_section_same[OF l(1)]) (simp add: bare_eq bare_change_first[OF l(2) assms(2)])
qed

lemma appended_item:
  assumes "append_item field v entry = Inr entry'" "findValue entry field = Some l"
  shows "entry' = changeValue (\<lambda>_. with_content l (y_Content l @ [str_node v])) field entry"
  using assms by (simp add: append_item_def Let_def split: if_splits)

text \<open>An item that is appended to a list is its last item; appended to a field that holds a scalar, as a key with no
  value does, it is reported as added and the file's tree is what it was.\<close>
theorem items_are_lost_on_empty_fields:
  assumes "run_state (AppendListItem env e i field v) h = (Inr (), h')" "\<forall>c d. ed_Decode e c = Some d \<longrightarrow> well_formed d"
  shows "\<exists>p c d d' t entry. h_Files h p = Some c \<and> ed_Decode e c = Some d \<and> ed_Encode e d' = Some t \<and>
     h_Files h' = (h_Files h)(p := Some t) \<and> findEntry d ''tunnels'' i = Some entry \<and>
     (\<forall>l. findValue entry field = Some l \<and> y_Kind l = ScalarNode \<longrightarrow> bare d' = bare d) \<and>
     (\<forall>l. findValue entry field = Some l \<and> y_Kind l = SequenceNode \<and> field \<noteq> ''id'' \<longrightarrow>
        (\<exists>entry' l'. findEntry d' ''tunnels'' i = Some entry' \<and> findValue entry' field = Some l' \<and>
           y_Kind l' = SequenceNode \<and> y_Content l' = y_Content l @ [str_node v]))"
proof -
  have "rewritten e (edit_entry ''tunnels'' i (append_item field v)) (tunnel_paths e) h h'"
    using editsD(1)[OF edits_in_tunnels assms(1)[unfolded AppendListItem_def]] by (simp add: isOk_def)
  then obtain p c d d' t where w: "h_Files h p = Some c" "ed_Decode e c = Some d" "ed_Encode e d' = Some t"
      "h_Files h' = (h_Files h)(p := Some t)" "edit_entry ''tunnels'' i (append_item field v) d = Some (Inr d')"
    unfolding rewritten_def by blast
  then obtain entry entry' where entry: "findEntry d ''tunnels'' i = Some entry" "append_item field v entry = Inr entry'"
      "d' = changeEntry ''tunnels'' i (\<lambda>_. entry') d"
    by (auto simp: edit_entry_def bindE_Inr_iff split: option.splits)
  note m = found_entry[OF entry(1) assms(2)[rule_format, OF w(2)]]
  have lost: "bare d' = bare d" if "findValue entry field = Some l" "y_Kind l = ScalarNode" for l
  proof -
    have "pair_value (y_Content entry) field = Some l" using that(1) by (simp add: findValue_def split: if_splits)
    from bare_pairs_same[where f = "\<lambda>_. with_content l (y_Content l @ [str_node v])", OF this]
    have "bare entry' = bare entry"
      unfolding appended_item[OF entry(2) that(1)] using that(2) by (simp add: bare_eq changeValue_def)
    then show ?thesis unfolding entry(3) by (rule bare_entry_same[OF entry(1)])
  qed
  have last: "\<exists>entry' l'. findEntry d' ''tunnels'' i = Some entry' \<and> findValue entry' field = Some l' \<and>
      y_Kind l' = SequenceNode \<and> y_Content l' = y_Content l @ [str_node v]"
    if "findValue entry field = Some l" "y_Kind l = SequenceNode" "field \<noteq> ''id''" for l
  proof -
    note e = appended_item[OF entry(2) that(1)]
    have "has_id i entry'" using m(1) that(3) by (simp add: e has_id_def findValue_change)
    from entry_changed(1)[OF entry(1) this] entry(3) have "findEntry d' ''tunnels'' i = Some entry'" by simp
    moreover have "findValue entry' field = Some (with_content l (y_Content l @ [str_node v]))"
      by (simp add: e findValue_change that(1))
    ultimately show ?thesis using that(2) by auto
  qed
  show ?thesis
    by (intro exI conjI) (rule w(1) w(2) w(3) w(4) entry(1) | use lost last in blast)+
qed

definition empty_field :: "ynode \<Rightarrow> ynode list" where "empty_field l = a_pair ''allowed_devices'' l"
definition null_node :: "ynode list \<Rightarrow> ynode" where "null_node c = fresh ScalarNode ''!!null'' [] c"

definition null_editor :: editor where
  "null_editor = an_editor [(''old'', hub_document (empty_field (null_node []))),
     (''new'', hub_document (empty_field (null_node [str_node ''phone''])))]"

theorem items_are_lost_on_empty_fields_witness:
  "\<exists>h' d'. run_state (AppendListItem calm_env null_editor ''nl'' ''allowed_devices'' ''phone'') (hub_host ''old'') = (Inr (), h') \<and>
     h_Files h' ''/etc/vpn-hub/hub.yaml'' = ed_Encode null_editor d' \<and> bare d' = bare (hub_document (empty_field (null_node [])))"
proof -
  let ?old = "hub_document (empty_field (null_node []))" and ?new = "hub_document (empty_field (null_node [str_node ''phone'']))"
  let ?add = "AppendListItem calm_env null_editor ''nl'' ''allowed_devices'' ''phone''"
  obtain r h' where went: "run_state ?add (hub_host ''old'') = (r, h')" by (rule prod.exhaust)
  have differ: "?old \<noteq> ?new" by code_simp
  have edited: "edit_entry ''tunnels'' ''nl'' (append_item ''allowed_devices'' ''phone'') ?old = Some (Inr ?new)" by code_simp
  have codec: "ed_Decode null_editor c = Some d \<longleftrightarrow> c = ''old'' \<and> d = ?old \<or> c = ''new'' \<and> d = ?new"
    "ed_Encode null_editor d = Some c \<longleftrightarrow> c = ''old'' \<and> d = ?old \<or> c = ''new'' \<and> d = ?new" for c d
    using differ by (auto simp: null_editor_def an_editor_def)
  have texts: "ed_Decode null_editor ''old'' = Some ?old" "ed_Encode null_editor ?new = Some ''new''" by (simp_all add: codec)
  have layout: "tunnelFiles null_editor = Inr [''/etc/vpn-hub/hub.yaml'']" "ed_Lock null_editor = None"
    by (simp_all add: tunnelFiles_def TunnelFiles_def null_editor_def an_editor_def hubFile_def joinPath_def)
  have "wp ?add (\<lambda>r _. r = Inr ()) (hub_host ''old'')"
    using edited texts
    by (simp add: AppendListItem_def in_tunnels_def locked_def layout wp_rules writeDocument_def hub_host_def bare_host_def)
  from wpD[OF this went] have ok: "r = Inr ()" .
  have shape: "\<forall>c d. ed_Decode null_editor c = Some d \<longrightarrow> well_formed d"
    unfolding codec by (auto simp: hub_document_def empty_field_def null_node_def a_pair_def a_scalar_def fresh_def str_node_def)
  from items_are_lost_on_empty_fields[OF went[unfolded ok] shape] obtain p c d d' t entry
    where w: "h_Files (hub_host ''old'') p = Some c" "ed_Decode null_editor c = Some d" "ed_Encode null_editor d' = Some t"
      "h_Files h' = (h_Files (hub_host ''old''))(p := Some t)" "findEntry d ''tunnels'' ''nl'' = Some entry"
      "\<forall>l. findValue entry ''allowed_devices'' = Some l \<and> y_Kind l = ScalarNode \<longrightarrow> bare d' = bare d"
    by (elim exE conjE) (rule that; assumption)
  have p: "p = ''/etc/vpn-hub/hub.yaml''" "c = ''old''" using w(1) by (auto simp: hub_host_def split: if_splits)
  then have d: "d = ?old" using w(2) texts(1) by simp
  have "case findEntry ?old ''tunnels'' ''nl'' of None \<Rightarrow> False
      | Some entry \<Rightarrow> (case findValue entry ''allowed_devices'' of None \<Rightarrow> False | Some l \<Rightarrow> y_Kind l = ScalarNode)"
    by code_simp
  then have "bare d' = bare ?old" using w(5,6) d by (auto split: option.splits)
  moreover have "h_Files h' ''/etc/vpn-hub/hub.yaml'' = ed_Encode null_editor d'" using w(3,4) p(1) by simp
  ultimately show ?thesis using went ok by blast
qed

text \<open>A client ACL that is added to a file without content runs into an index out of range.\<close>

lemma acl_added_to_an_empty_file_panics:
  assumes "clientACLFiles e = [p]" "h_Files h p = Some c" "e_Read env (h_Log h) p" "ed_Decode e c = Some d" "y_Content d = []"
    and "ed_Lock e = None"
  shows "fst (run_state (AddClientACL env e source target protocol port) h) = Inl Panic"
proof -
  have "wp (AddClientACL env e source target protocol port) (\<lambda>r _. r = Inl Panic) h"
    using assms by (simp add: AddClientACL_def locked_def wp_rules add_acl_def duplicateClientACL_def documentList_def
        section_of_def root_of_def Let_def)
  then show ?thesis by (simp add: wp_def split_beta)
qed

end
