(* ===== verification/Health.thy ===== *)
theory Health
  imports EgressPass
begin

text \<open>
  \<open>internal/adapters/linux/health.go\<close>: whether a tunnel works, judged from inside its own namespace.
  The clock and what the management socket of an OpenVPN tunnel answers are functions of what was
  done so far; the reads of the socket are those of \<open>OpenVPNState\<close>.  A reason is chosen as a value and
  printed by \<open>reason_text\<close>; how Go prints a rounded duration and an error is a parameter.
\<close>

datatype probe_failure =
    BadProbe probe_error | TCPUnreachable string | HTTPSMalformed string | HTTPSFailed string | NotResolved string

datatype health_reason =
    NoInterface | NoPeer | NeverConnected | HandshakeAgo int | IdleSince int
  | ProbeFailures "probe_failure list" | ProbesSucceeded nat
  | ProxyStopped | ProxyUnmeasured | ProxySucceeded nat
  | SocketSilent string | AtStage string | OpenVPNUnmeasured | OpenVPNSucceeded nat

text \<open>Times are nanoseconds since the zero time, durations are nanoseconds.\<close>

record checker =
  hk_Env :: env
  hk_Now :: "event list \<Rightarrow> int"
  hk_Timeout :: int
  hk_RuntimeDir :: string
  hk_Socket :: "event list \<Rightarrow> string \<Rightarrow> (string \<times> bool) list option"
  hk_Duration :: "int \<Rightarrow> string"
  hk_ProbeError :: "probe_error \<Rightarrow> string"
  hk_SocketError :: "event list \<Rightarrow> string"

fun failure_text :: "checker \<Rightarrow> probe_failure \<Rightarrow> string" where
  "failure_text k (BadProbe e) = ''probe configuration: '' @ hk_ProbeError k e"
| "failure_text k (TCPUnreachable a) = ''tcp probe: '' @ a @ '' is unreachable through the tunnel''"
| "failure_text k (HTTPSMalformed u) = ''https probe: '' @ hk_ProbeError k (URLInvalid u)"
| "failure_text k (HTTPSFailed u) = ''https probe: '' @ u @ '' failed through the tunnel''"
| "failure_text k (NotResolved n) = ''dns probe: '' @ n @ '' did not resolve through the tunnel''"

fun reason_text :: "checker \<Rightarrow> health_reason \<Rightarrow> string" where
  "reason_text k NoInterface = ''the tunnel namespace or its interface does not exist''"
| "reason_text k NoPeer = ''the tunnel has no configured peer''"
| "reason_text k NeverConnected = ''the tunnel has never completed a handshake''"
| "reason_text k (HandshakeAgo d) = ''handshake '' @ hk_Duration k d @ '' ago''"
| "reason_text k (IdleSince d) = ''last handshake was '' @ hk_Duration k d @ '' ago, which is only expected while idle''"
| "reason_text k (ProbeFailures fs) = Join ''; '' (map (failure_text k) fs)"
| "reason_text k (ProbesSucceeded n) = Itoa n @ '' probe(s) succeeded inside the tunnel''"
| "reason_text k ProxyStopped = ''the proxy process is not running''"
| "reason_text k ProxyUnmeasured =
     ''the proxy is running, but nothing was measured: configure a health probe to know whether traffic passes''"
| "reason_text k (ProxySucceeded n) = Itoa n @ '' probe(s) succeeded through the proxy''"
| "reason_text k (SocketSilent e) = e"
| "reason_text k (AtStage s) = ''the connection is at stage '' @ s"
| "reason_text k OpenVPNUnmeasured =
     ''the provider reports CONNECTED, but nothing was measured: configure a health probe to know whether traffic passes''"
| "reason_text k (OpenVPNSucceeded n) = ''CONNECTED, and '' @ Itoa n @ '' probe(s) succeeded through the tunnel''"

definition HandshakeGrace :: int where
  "HandshakeGrace = 3 * 60 * 1000000000"

definition check_dir :: "checker \<Rightarrow> string" where
  "check_dir k = (if hk_RuntimeDir k \<noteq> [] then hk_RuntimeDir k else DefaultRuntimeDir)"

definition check_timeout :: "checker \<Rightarrow> int" where
  "check_timeout k = (if hk_Timeout k \<noteq> 0 then hk_Timeout k else 5 * 1000000000)"

text \<open>\<open>int(h.timeout().Seconds())\<close>, which rounds towards zero.\<close>

definition check_seconds :: "checker \<Rightarrow> string" where
  "check_seconds k = itoa_int (sgn (check_timeout k) * (\<bar>check_timeout k\<bar> div 1000000000))"

subsection \<open>Probes\<close>

definition curl_cmd :: "checker \<Rightarrow> string \<Rightarrow> string \<Rightarrow> string list" where
  "curl_cmd k namespace url =
     in_ns namespace [''curl'', ''-sS'', ''--max-time'', check_seconds k, ''-o'', ''/dev/null'', url]"

definition getent_cmd :: "checker \<Rightarrow> string \<Rightarrow> string \<Rightarrow> string list" where
  "getent_cmd k namespace name = in_ns namespace [''timeout'', check_seconds k, ''getent'', ''hosts'', name]"

definition tcp_url :: "string \<Rightarrow> string" where
  "tcp_url address =
     (let (host, port) = (case SplitHostPort address of Inl _ \<Rightarrow> ([], []) | Inr hp \<Rightarrow> hp) in
      ''telnet://'' @ JoinHostPort host port)"

definition probe_with :: "checker \<Rightarrow> string list \<Rightarrow> probe_failure \<Rightarrow> probe_failure list io_op" where
  "probe_with k cmd failure = do {
     r \<leftarrow> exec (hk_Env k) cmd;
     returns (if isOk r then [] else [failure]) }"

definition tcp_probe :: "checker \<Rightarrow> string \<Rightarrow> string \<Rightarrow> probe_failure list io_op" where
  "tcp_probe k namespace address =
     (if address = [] then returns [] else probe_with k (curl_cmd k namespace (tcp_url address)) (TCPUnreachable address))"

definition https_probe :: "checker \<Rightarrow> string \<Rightarrow> string \<Rightarrow> probe_failure list io_op" where
  "https_probe k namespace url =
     (if url = [] then returns []
      else if URLParse url = None then returns [HTTPSMalformed url]
      else probe_with k (curl_cmd k namespace url) (HTTPSFailed url))"

definition dns_probe :: "checker \<Rightarrow> string \<Rightarrow> string \<Rightarrow> probe_failure list io_op" where
  "dns_probe k namespace name =
     (if name = [] then returns [] else probe_with k (getent_cmd k namespace name) (NotResolved name))"

definition probe_count :: "health_check \<Rightarrow> nat" where
  "probe_count checks = length (filter (\<lambda>s. s \<noteq> []) [hc_TCPAddress checks, hc_HTTPSURL checks, hc_DNSName checks])"

definition probe :: "checker \<Rightarrow> string \<Rightarrow> health_check \<Rightarrow> (probe_failure list \<times> nat) io_op" where
  "probe k namespace checks =
     (case HealthCheckValidate checks of
        Inl e \<Rightarrow> returns ([BadProbe e], 1)
      | Inr _ \<Rightarrow> do {
          tcp \<leftarrow> tcp_probe k namespace (hc_TCPAddress checks);
          https \<leftarrow> https_probe k namespace (hc_HTTPSURL checks);
          dns \<leftarrow> dns_probe k namespace (hc_DNSName checks);
          returns (tcp @ https @ dns, probe_count checks) })"

subsection \<open>The verdict\<close>

definition judged :: "checker \<Rightarrow> health_status \<Rightarrow> health_reason \<Rightarrow> tunnel_health \<Rightarrow> tunnel_health" where
  "judged k status reason health = health\<lparr>th_Status := status, th_Reason := reason_text k reason\<rparr>"

text \<open>What the probes say, when any ran; otherwise the verdict stays what it was.\<close>

definition probed :: "checker \<Rightarrow> (nat \<Rightarrow> health_reason) \<Rightarrow> probe_failure list \<times> nat \<Rightarrow> tunnel_health \<Rightarrow> tunnel_health" where
  "probed k succeeded = (\<lambda>(failures, ran) health.
     if ran = 0 then health
     else if failures \<noteq> [] then judged k HealthUnhealthy (ProbeFailures failures) health
     else judged k HealthHealthy (succeeded ran) health)"

definition proxy_active_cmd :: "tunnel \<Rightarrow> string list" where
  "proxy_active_cmd t = active_cmd (proxy_unit (t_ID t))"

definition checkProxy :: "checker \<Rightarrow> tunnel \<Rightarrow> string \<Rightarrow> tunnel_health \<Rightarrow> tunnel_health io_op" where
  "checkProxy k t namespace health = do {
     running \<leftarrow> exec (hk_Env k) (proxy_active_cmd t);
     (case running of
        Inl _ \<Rightarrow> returns (judged k HealthUnhealthy ProxyStopped health)
      | Inr _ \<Rightarrow> do {
          answer \<leftarrow> probe k namespace (t_Health t);
          returns (probed k ProxySucceeded answer (health\<lparr>th_Reason := reason_text k ProxyUnmeasured\<rparr>)) }) }"

definition checkOpenVPN :: "checker \<Rightarrow> tunnel \<Rightarrow> string \<Rightarrow> tunnel_health \<Rightarrow> tunnel_health io_op" where
  "checkOpenVPN k t namespace health = do {
     reads \<leftarrow> State (\<lambda>h. (hk_Socket k (h_Log h) (OpenVPNManagementSocket (check_dir k) (t_ID t)), h));
     (case Option.bind reads (OpenVPNState []) of
        None \<Rightarrow> State (\<lambda>h. (judged k HealthUnhealthy (SocketSilent (hk_SocketError k (h_Log h))) health, h))
      | Some stage \<Rightarrow>
          if stage \<noteq> ''CONNECTED'' then returns (judged k HealthUnhealthy (AtStage stage) health)
          else do {
            answer \<leftarrow> probe k namespace (t_Health t);
            returns (probed k OpenVPNSucceeded answer (health\<lparr>th_Reason := reason_text k OpenVPNUnmeasured\<rparr>)) }) }"

definition handshake_verdict :: "checker \<Rightarrow> int \<Rightarrow> peer_observation \<Rightarrow> tunnel_health \<Rightarrow> tunnel_health" where
  "handshake_verdict k now peer health =
     (let age = now - po_LatestHandshake peer in
      if po_LatestHandshake peer = 0 then judged k HealthUnhealthy NeverConnected health
      else if age \<le> HandshakeGrace then judged k HealthHealthy (HandshakeAgo age) health
      else health\<lparr>th_Reason := reason_text k (IdleSince age)\<rparr>)"

definition wg_tool :: "tunnel \<Rightarrow> string" where
  "wg_tool t = (if t_Type t = TunnelAmneziaWG then ''awg'' else ''wg'')"

definition wg_dump_cmd :: "tunnel \<Rightarrow> string \<Rightarrow> string list" where
  "wg_dump_cmd t namespace = in_ns namespace [wg_tool t, ''show'', ''wg0'', ''dump'']"

definition checkWireGuard :: "checker \<Rightarrow> tunnel \<Rightarrow> string \<Rightarrow> tunnel_health \<Rightarrow> tunnel_health try_op" where
  "checkWireGuard k t namespace health = do {
     dump \<leftarrow> exec (hk_Env k) (wg_dump_cmd t namespace);
     (case dump of
        Inl _ \<Rightarrow> returns (Inr (judged k HealthUnhealthy NoInterface health))
      | Inr out \<Rightarrow> (case ParseDump out of
          Inl _ \<Rightarrow> fails (Refused ''read tunnel state'')
        | Inr seen \<Rightarrow> (case io_Peers seen of
            [] \<Rightarrow> returns (Inr (judged k HealthUnhealthy NoPeer health))
          | peer # _ \<Rightarrow> do {
              now \<leftarrow> State (\<lambda>h. (hk_Now k (h_Log h), h));
              answer \<leftarrow> probe k namespace (t_Health t);
              returns (Inr (probed k ProbesSucceeded answer (handshake_verdict k now peer health))) }))) }"

definition tunnel_namespace :: "tunnel \<Rightarrow> string" where
  "tunnel_namespace t = ''vpn-hub-'' @ t_ID t"

definition HealthCheckTunnel :: "checker \<Rightarrow> tunnel \<Rightarrow> tunnel_health try_op" where
  "HealthCheckTunnel k t = do {
     started \<leftarrow> State (\<lambda>h. (hk_Now k (h_Log h), h));
     let health = \<lparr>th_TunnelID = t_ID t, th_Status = HealthUnknown, th_CheckedAt = started, th_Reason = []\<rparr>;
     let namespace = tunnel_namespace t;
     (if t_Type t = TunnelXray then do { r \<leftarrow> checkProxy k t namespace health; returns (Inr r) }
      else if t_Type t = TunnelOpenVPN then do { r \<leftarrow> checkOpenVPN k t namespace health; returns (Inr r) }
      else checkWireGuard k t namespace health) }"

text \<open>\<open>Service.TestTunnel\<close>.\<close>

definition TestTunnel :: "checker option \<Rightarrow> config \<Rightarrow> string \<Rightarrow> tunnel_health try_op" where
  "TestTunnel checker cfg i =
     (case checker of
        None \<Rightarrow> fails (Refused ''health checker is not configured'')
      | Some k \<Rightarrow> (case find (\<lambda>t. t_ID t = i) (cfg_Tunnels cfg) of
          None \<Rightarrow> fails (Refused ''tunnel was not found'')
        | Some t \<Rightarrow> HealthCheckTunnel k t))"

end
