(* ===== verification/HealthClaims.thy ===== *)
theory HealthClaims
  imports Health RunnerFacts
begin

text \<open>
  The verdict on a tunnel: it is healthy only on evidence, and the probes run no command whose target
  was not checked.
\<close>

subsection \<open>Probes\<close>

definition probe_cmds :: "checker \<Rightarrow> string \<Rightarrow> health_check \<Rightarrow> string list list" where
  "probe_cmds k ns c =
     (if hc_TCPAddress c \<noteq> [] then [curl_cmd k ns (tcp_url (hc_TCPAddress c))] else []) @
     (if hc_HTTPSURL c \<noteq> [] then [curl_cmd k ns (hc_HTTPSURL c)] else []) @
     (if hc_DNSName c \<noteq> [] then [getent_cmd k ns (hc_DNSName c)] else [])"

definition succeeded :: "host \<Rightarrow> host \<Rightarrow> string list \<Rightarrow> bool" where
  "succeeded h h' cmd \<longleftrightarrow> (\<exists>out. Ran cmd (Inr out) \<in> set (since h h'))"

text \<open>What a step of a check may do: run the given commands.\<close>

definition only_ran :: "string list set \<Rightarrow> host \<Rightarrow> host \<Rightarrow> bool" where
  "only_ran cmds h h' \<longleftrightarrow> extends h h' \<and> (\<forall>e \<in> set (since h h'). \<exists>cmd a. e = Ran cmd a \<and> cmd \<in> cmds)"

lemma only_ran_same [simp]: "only_ran cmds h h"
  by (simp add: only_ran_def)

lemma only_ran_trans: "only_ran cmds h h1 \<Longrightarrow> only_ran cmds h1 h2 \<Longrightarrow> only_ran cmds h h2"
  using since_split[of h h1 h2] extends_trans[of h h1 h2] by (auto simp: only_ran_def)

lemma only_ran_mono: "only_ran cmds h h' \<Longrightarrow> cmds \<subseteq> cmds' \<Longrightarrow> only_ran cmds' h h'"
  by (auto simp: only_ran_def) blast

lemma succeeded_later: "succeeded h h1 cmd \<Longrightarrow> extends h h1 \<Longrightarrow> extends h1 h2 \<Longrightarrow> succeeded h h2 cmd"
  using since_split[of h h1 h2] by (auto simp: succeeded_def)

lemma succeeded_earlier: "succeeded h1 h2 cmd \<Longrightarrow> extends h h1 \<Longrightarrow> extends h1 h2 \<Longrightarrow> succeeded h h2 cmd"
  using since_split[of h h1 h2] by (auto simp: succeeded_def)

definition probes :: "string list list \<Rightarrow> host \<Rightarrow> probe_failure list \<Rightarrow> host \<Rightarrow> bool" where
  "probes cmds h failures h' \<longleftrightarrow> only_ran (set cmds) h h' \<and> (failures = [] \<longrightarrow> (\<forall>cmd \<in> set cmds. succeeded h h' cmd)) \<and>
     (failures \<noteq> [] \<longrightarrow> cmds \<noteq> [])"

lemma probe_with_probes: "wp (probe_with k cmd f) (probes [cmd] h) h"
  by (auto simp: probe_with_def wp_rules probes_def only_ran_def succeeded_def extends_def isOk_def split: sum.splits)

lemma probes_none: "probes [] h failures h' \<longleftrightarrow> only_ran {} h h' \<and> failures = []"
  by (simp add: probes_def)

lemma probes_then:
  assumes "probes a h fa h1" "probes b h1 fb h2"
  shows "probes (a @ b) h (fa @ fb) h2"
proof -
  have later: "extends h h1" "extends h1 h2" using assms by (simp_all add: probes_def only_ran_def)
  have "only_ran (set (a @ b)) h h1" "only_ran (set (a @ b)) h1 h2"
    using assms by (auto simp: probes_def intro: only_ran_mono)
  then have "only_ran (set (a @ b)) h h2" by (rule only_ran_trans)
  moreover have "\<forall>cmd \<in> set (a @ b). succeeded h h2 cmd" if "fa @ fb = []"
    using assms that succeeded_later[OF _ later] succeeded_earlier[OF _ later] by (auto simp: probes_def)
  ultimately show ?thesis using assms by (auto simp: probes_def)
qed

text \<open>Targets that validation refuses run nothing; otherwise every configured probe runs, inside the namespace.\<close>

definition probe_ok :: "checker \<Rightarrow> string \<Rightarrow> health_check \<Rightarrow> host \<Rightarrow> probe_failure list \<times> nat \<Rightarrow> host \<Rightarrow> bool" where
  "probe_ok k ns c h answer h' \<longleftrightarrow> only_ran (set (probe_cmds k ns c)) h h' \<and>
     (HealthCheckValidate c \<noteq> Inr () \<longrightarrow> h' = h \<and> fst answer \<noteq> []) \<and>
     (fst answer = [] \<longrightarrow> (\<forall>cmd \<in> set (probe_cmds k ns c). succeeded h h' cmd) \<and> snd answer = length (probe_cmds k ns c)) \<and>
     (fst answer \<noteq> [] \<longrightarrow> snd answer \<noteq> 0)"

lemma probe_outcome: "wp (probe k ns c) (probe_ok k ns c h) h"
proof (cases "HealthCheckValidate c")
  case (Inl e)
  then show ?thesis by (simp add: probe_def wp_rules probe_ok_def)
next
  case (Inr u)
  let ?tcp = "if hc_TCPAddress c \<noteq> [] then [curl_cmd k ns (tcp_url (hc_TCPAddress c))] else []"
  let ?https = "if hc_HTTPSURL c \<noteq> [] then [curl_cmd k ns (hc_HTTPSURL c)] else []"
  let ?dns = "if hc_DNSName c \<noteq> [] then [getent_cmd k ns (hc_DNSName c)] else []"
  have url: "hc_HTTPSURL c \<noteq> [] \<longrightarrow> URLParse (hc_HTTPSURL c) \<noteq> None"
    using Inr by (auto simp: HealthCheckValidate_def HealthHTTPS_def bindE_Inr_iff split: if_splits option.splits)
  have tcp: "wp (tcp_probe k ns (hc_TCPAddress c)) (probes ?tcp h) h" for h
    by (simp add: tcp_probe_def probe_with_probes wp_rules probes_none)
  have https: "wp (https_probe k ns (hc_HTTPSURL c)) (probes ?https h) h" for h
    using url by (auto simp: https_probe_def probe_with_probes wp_rules probes_none)
  have dns: "wp (dns_probe k ns (hc_DNSName c)) (probes ?dns h) h" for h
    by (simp add: dns_probe_def probe_with_probes wp_rules probes_none)
  have count: "probe_count c = length (probe_cmds k ns c)" by (simp add: probe_count_def probe_cmds_def)
  have cmds: "probe_cmds k ns c = ?tcp @ ?https @ ?dns" by (simp add: probe_cmds_def)
  have "wp (do { tcp \<leftarrow> tcp_probe k ns (hc_TCPAddress c); https \<leftarrow> https_probe k ns (hc_HTTPSURL c);
      dns \<leftarrow> dns_probe k ns (hc_DNSName c); returns (tcp @ https @ dns, probe_count c) })
    (\<lambda>answer h'. probes (probe_cmds k ns c) h (fst answer) h' \<and> snd answer = probe_count c) h"
    unfolding wp_bind wp_returns cmds
    by (rule wp_mono[OF tcp], rule wp_mono[OF https], rule wp_mono[OF dns]) (simp add: probes_then)
  then show ?thesis
    using Inr count by (auto simp: probe_def probes_def probe_ok_def elim!: wp_mono)
qed


subsection \<open>Evidence\<close>

text \<open>The dump of a WireGuard tunnel has a handshake of its first peer that is not older than the grace.\<close>

definition fresh_handshake :: "checker \<Rightarrow> tunnel \<Rightarrow> host \<Rightarrow> host \<Rightarrow> bool" where
  "fresh_handshake k t h h' \<longleftrightarrow> (\<exists>out seen peer rest log.
     Ran (wg_dump_cmd t (tunnel_namespace t)) (Inr out) \<in> set (since h h') \<and> ParseDump out = Inr seen \<and>
     io_Peers seen = peer # rest \<and> po_LatestHandshake peer \<noteq> 0 \<and> hk_Now k log - po_LatestHandshake peer \<le> HandshakeGrace)"

definition evidence :: "checker \<Rightarrow> tunnel \<Rightarrow> host \<Rightarrow> host \<Rightarrow> bool" where
  "evidence k t h h' \<longleftrightarrow>
     (let cmds = probe_cmds k (tunnel_namespace t) (t_Health t) in
      cmds \<noteq> [] \<and> HealthCheckValidate (t_Health t) = Inr () \<and> (\<forall>cmd \<in> set cmds. succeeded h h' cmd) \<or>
      cmds = [] \<and> t_Type t \<noteq> TunnelXray \<and> t_Type t \<noteq> TunnelOpenVPN \<and> fresh_handshake k t h h')"

lemma probed_verdict:
  "th_Status (probed k g (failures, n) health) =
     (if n = 0 then th_Status health else if failures \<noteq> [] then HealthUnhealthy else HealthHealthy)"
  by (simp add: probed_def judged_def)

definition checked_cmds :: "checker \<Rightarrow> tunnel \<Rightarrow> string list set" where
  "checked_cmds k t = (if HealthCheckValidate (t_Health t) = Inr () then set (probe_cmds k (tunnel_namespace t) (t_Health t)) else {})"

text \<open>The outcome of probing on top of a verdict that was reached after running \<open>first\<close>.\<close>

lemma probed_outcome:
  assumes "only_ran first h h1"
  shows "wp (probe k (tunnel_namespace t) (t_Health t)) (\<lambda>answer h'. only_ran (first \<union> checked_cmds k t) h h' \<and> extends h1 h' \<and>
     (th_Status (probed k g answer health) = HealthHealthy \<longrightarrow>
        evidence k t h h' \<or> probe_cmds k (tunnel_namespace t) (t_Health t) = [] \<and> th_Status health = HealthHealthy)) h1"
proof (rule wp_mono[OF probe_outcome])
  fix answer h'
  let ?cmds = "probe_cmds k (tunnel_namespace t) (t_Health t)"
  assume out: "probe_ok k (tunnel_namespace t) (t_Health t) h1 answer h'"
  have "only_ran (checked_cmds k t) h1 h'" using out by (auto simp: checked_cmds_def probe_ok_def)
  then have ran: "only_ran (first \<union> checked_cmds k t) h h'"
    using only_ran_trans[OF only_ran_mono[OF assms] only_ran_mono] by blast
  have later: "extends h h1" "extends h1 h'" using assms out by (simp_all add: only_ran_def probe_ok_def)
  have verdict: "th_Status (probed k g answer health) =
      (if snd answer = 0 then th_Status health else if fst answer \<noteq> [] then HealthUnhealthy else HealthHealthy)"
    using probed_verdict[of k g "fst answer" "snd answer"] by simp
  have "evidence k t h h' \<or> ?cmds = [] \<and> th_Status health = HealthHealthy"
    if healthy: "th_Status (probed k g answer health) = HealthHealthy"
  proof (cases "fst answer = []")
    case True
    then have "HealthCheckValidate (t_Health t) = Inr ()" "\<forall>cmd \<in> set ?cmds. succeeded h1 h' cmd" "snd answer = length ?cmds"
      using out by (auto simp: probe_ok_def)
    then show ?thesis
      using healthy verdict succeeded_earlier[OF _ later] by (auto simp: evidence_def Let_def split: if_splits)
  next
    case False
    then show ?thesis using healthy verdict out by (auto simp: probe_ok_def split: if_splits)
  qed
  with ran later(2) show "only_ran (first \<union> checked_cmds k t) h h' \<and> extends h1 h' \<and>
      (th_Status (probed k g answer health) = HealthHealthy \<longrightarrow>
        evidence k t h h' \<or> ?cmds = [] \<and> th_Status health = HealthHealthy)" by blast
qed

lemma evidence_without_probes:
  "probe_cmds k (tunnel_namespace t) (t_Health t) = [] \<Longrightarrow> t_Type t \<noteq> TunnelXray \<Longrightarrow> t_Type t \<noteq> TunnelOpenVPN \<Longrightarrow>
    fresh_handshake k t h h' \<Longrightarrow> evidence k t h h'"
  by (simp add: evidence_def)

definition own_cmds :: "tunnel \<Rightarrow> string list set" where
  "own_cmds t = {proxy_active_cmd t, wg_dump_cmd t (tunnel_namespace t)}"

lemma ran_one: "only_ran {cmd} h (h\<lparr>h_Log := Ran cmd a # h_Log h\<rparr>)"
  by (auto simp: only_ran_def extends_def)

lemma fresh_later: "fresh_handshake k t h h1 \<Longrightarrow> extends h h1 \<Longrightarrow> extends h1 h2 \<Longrightarrow> fresh_handshake k t h h2"
  using since_split[of h h1 h2] unfolding fresh_handshake_def by (metis Un_iff set_append)

definition verdict_ok :: "checker \<Rightarrow> tunnel \<Rightarrow> host \<Rightarrow> (host_error, tunnel_health) result \<Rightarrow> host \<Rightarrow> bool" where
  "verdict_ok k t h r h' \<longleftrightarrow> only_ran (own_cmds t \<union> checked_cmds k t) h h' \<and>
     (\<forall>health. r = Inr health \<and> th_Status health = HealthHealthy \<longrightarrow> evidence k t h h')"

lemma verdict_okI:
  "only_ran (own_cmds t \<union> checked_cmds k t) h h' \<Longrightarrow> th_Status health \<noteq> HealthHealthy \<or> evidence k t h h' \<Longrightarrow>
    verdict_ok k t h (Inr health) h'"
  by (auto simp: verdict_ok_def)

lemma own_allowed: "only_ran cmds h h' \<Longrightarrow> cmds \<subseteq> own_cmds t \<Longrightarrow> only_ran (own_cmds t \<union> checked_cmds k t) h h'"
  by (erule only_ran_mono) blast

lemma checkProxy_ok:
  assumes "th_Status health = HealthUnknown"
  shows "wp (checkProxy k t (tunnel_namespace t) health) (\<lambda>r. verdict_ok k t h (Inr r)) h"
proof -
  let ?h1 = "h\<lparr>h_Log := Ran (proxy_active_cmd t) (e_Run (hk_Env k) (h_Log h) (proxy_active_cmd t)) # h_Log h\<rparr>"
  let ?base = "health\<lparr>th_Reason := reason_text k ProxyUnmeasured\<rparr>"
  have one: "only_ran {proxy_active_cmd t} h ?h1" by (rule ran_one)
  have probing: "wp (probe k (tunnel_namespace t) (t_Health t)) (\<lambda>answer. verdict_ok k t h (Inr (probed k ProxySucceeded answer ?base))) ?h1"
    by (rule wp_mono[OF probed_outcome[OF one, of k t ProxySucceeded ?base]])
      (use assms in \<open>auto simp: verdict_ok_def own_cmds_def elim: only_ran_mono\<close>)
  show ?thesis
    using probing own_allowed[OF one, of t k] assms
    by (auto simp: checkProxy_def wp_rules own_cmds_def judged_def split: sum.split intro!: verdict_okI)
qed

lemma wp_look [wp_rules]: "wp (State (\<lambda>h. (f h, h))) Q = (\<lambda>h. Q (f h) h)"
  by (simp add: wp_def fun_eq_iff)

lemma checkOpenVPN_ok:
  assumes "th_Status health = HealthUnknown"
  shows "wp (checkOpenVPN k t (tunnel_namespace t) health) (\<lambda>r. verdict_ok k t h (Inr r)) h"
proof -
  let ?base = "health\<lparr>th_Reason := reason_text k OpenVPNUnmeasured\<rparr>"
  have probing: "wp (probe k (tunnel_namespace t) (t_Health t)) (\<lambda>answer. verdict_ok k t h (Inr (probed k OpenVPNSucceeded answer ?base))) h"
    by (rule wp_mono[OF probed_outcome[OF only_ran_same[of "{}" h], of k t OpenVPNSucceeded ?base]])
      (use assms in \<open>auto simp: verdict_ok_def elim: only_ran_mono\<close>)
  show ?thesis
    using probing by (auto simp: checkOpenVPN_def wp_rules judged_def split: option.split intro!: verdict_okI)
qed

lemma checkWireGuard_ok:
  assumes "th_Status health = HealthUnknown" "t_Type t \<noteq> TunnelXray" "t_Type t \<noteq> TunnelOpenVPN"
  shows "wp (checkWireGuard k t (tunnel_namespace t) health) (\<lambda>r. verdict_ok k t h r) h"
proof -
  let ?cmd = "wg_dump_cmd t (tunnel_namespace t)" and ?a = "e_Run (hk_Env k) (h_Log h) (wg_dump_cmd t (tunnel_namespace t))"
  let ?h1 = "h\<lparr>h_Log := Ran ?cmd ?a # h_Log h\<rparr>"
  have one: "only_ran {?cmd} h ?h1" by (rule ran_one)
  have quiet: "only_ran (own_cmds t \<union> checked_cmds k t) h ?h1" by (rule own_allowed[OF one]) (simp add: own_cmds_def)
  have probing: "wp (probe k (tunnel_namespace t) (t_Health t)) (\<lambda>answer. verdict_ok k t h
       (Inr (probed k ProbesSucceeded answer (handshake_verdict k now peer health)))) ?h1"
    if seen: "?a = Inr out" "ParseDump out = Inr seen" "io_Peers seen = peer # rest" "now = hk_Now k (h_Log ?h1)" for out seen peer rest now
  proof (rule wp_mono[OF probed_outcome[OF one, of k t ProbesSucceeded "handshake_verdict k now peer health"]])
    fix answer h'
    assume out: "only_ran ({?cmd} \<union> checked_cmds k t) h h' \<and> extends ?h1 h' \<and>
      (th_Status (probed k ProbesSucceeded answer (handshake_verdict k now peer health)) = HealthHealthy \<longrightarrow>
        evidence k t h h' \<or> probe_cmds k (tunnel_namespace t) (t_Health t) = [] \<and> th_Status (handshake_verdict k now peer health) = HealthHealthy)"
    have "fresh_handshake k t h h'" if "th_Status (handshake_verdict k now peer health) = HealthHealthy"
    proof -
      have "po_LatestHandshake peer \<noteq> 0" "now - po_LatestHandshake peer \<le> HandshakeGrace"
        using that assms(1) by (auto simp: handshake_verdict_def judged_def Let_def split: if_splits)
      moreover have "Ran ?cmd (Inr out) \<in> set (since h h')"
        using since_split[of h ?h1 h'] one out seen(1) by (simp add: only_ran_def since_def)
      ultimately show ?thesis using seen unfolding fresh_handshake_def by blast
    qed
    with out show "verdict_ok k t h (Inr (probed k ProbesSucceeded answer (handshake_verdict k now peer health))) h'"
      using evidence_without_probes[OF _ assms(2,3)] by (auto simp: verdict_ok_def own_cmds_def elim: only_ran_mono)
  qed
  show ?thesis
    using probing quiet
    by (auto simp: checkWireGuard_def wp_rules judged_def split: sum.split list.split intro!: verdict_okI simp: verdict_ok_def[of k t h "Inl e" for e])
qed


lemma check_ok: "wp (HealthCheckTunnel k t) (\<lambda>r. verdict_ok k t h r) h"
  using checkProxy_ok checkOpenVPN_ok checkWireGuard_ok by (simp add: HealthCheckTunnel_def Let_def wp_rules)

text \<open>C22: A tunnel is called healthy only on evidence: every configured probe succeeded inside the tunnel's own namespace,
  or no probe is configured and a WireGuard peer has a recent handshake.  A running proxy and a connected OpenVPN
  client are no evidence.\<close>
theorem healthy_means_measured:
  assumes "run_state (HealthCheckTunnel k t) h = (Inr health, h')" "th_Status health = HealthHealthy"
  shows "evidence k t h h'"
  using wpD[OF check_ok assms(1)] assms(2) by (simp add: verdict_ok_def)

subsection \<open>Arguments of the probes\<close>

text \<open>A word that a command reads as one operand.\<close>

definition operand :: "string \<Rightarrow> bool" where
  "operand s \<longleftrightarrow> s \<noteq> [] \<and> \<not> HasPrefix s ''-'' \<and> (\<forall>c \<in> set s. c \<notin> {CHR 0x20, CHR 0x09, CHR 0x0A, CHR 0x0D})"

lemma probe_char_plain: "probe_char c \<Longrightarrow> c \<notin> {CHR 0x20, CHR 0x09, CHR 0x0A, CHR 0x0D}"
  by (auto simp: probe_char_def)

lemma digits_plain: "is_digit c \<Longrightarrow> c \<notin> {CHR 0x20, CHR 0x09, CHR 0x0A, CHR 0x0D}"
  by (auto simp: is_digit_def code_def)

lemma operand_name: "validateProbeHost n = Inr () \<Longrightarrow> operand n"
  using validateProbeHost_ok[of n] probe_char_plain by (auto simp: operand_def list_all_iff)

lemma operand_tcp:
  assumes "HealthTCP a = Inr ()" "a \<noteq> []"
  shows "operand (tcp_url a)"
proof -
  obtain host port n where h: "SplitHostPort a = Inr (host, port)" "validateProbeHost host = Inr ()" "ParsePort port = Some n"
    using assms by (auto simp: HealthTCP_def bindE_Inr_iff split: sum.splits if_splits)
  then have host: "list_all probe_char host" using validateProbeHost_ok by blast
  have port: "list_all is_digit port" using h(3) by (auto simp: ParsePort_def ParseUint_def split: if_splits option.splits)
  have "c \<notin> {CHR 0x20, CHR 0x09, CHR 0x0A, CHR 0x0D}" if "c \<in> set (tcp_url a)" for c
    using that host port probe_char_plain digits_plain
    by (auto simp: tcp_url_def h(1) JoinHostPort_def list_all_iff split: if_splits)
  then show ?thesis by (simp add: operand_def tcp_url_def HasPrefix_def h(1))
qed

lemma no_scheme: "parse_url (CHR ''-'' # s) = Some u \<Longrightarrow> url_Scheme u = []"
  by (auto simp: parse_url_def getScheme_def is_letter_def is_lower_def is_upper_def code_def ToLower_def Let_def
      split: if_splits option.splits prod.splits)

lemma dash_has_no_scheme: "URLParse (CHR ''-'' # s) = Some u \<Longrightarrow> url_Scheme u = []"
  using no_scheme by (auto simp: URLParse_def cut_or_all_def split: option.splits if_splits prod.splits)

lemma operand_url:
  assumes "HealthHTTPS u = Inr ()" "u \<noteq> []"
  shows "operand u"
proof -
  obtain parsed where u: "\<not> ContainsAny u [CHR 0x20, TAB, CR, NL]" "URLParse u = Some parsed" "url_Scheme parsed = ''https''"
    using assms by (auto simp: HealthHTTPS_def split: if_splits option.splits)
  have "\<not> HasPrefix u ''-''"
  proof
    assume "HasPrefix u ''-''"
    then obtain s where "u = CHR ''-'' # s" by (auto simp: HasPrefix_iff)
    then show False using dash_has_no_scheme[of s parsed] u(2,3) by simp
  qed
  with u(1) assms(2) show ?thesis by (auto simp: operand_def ContainsAny_def list_ex_iff)
qed

text \<open>Whatever a check runs is the tunnel's own state query, or, when every configured target passed validation, a probe
  whose last word is one operand: not empty, no flag, and without white space.\<close>
theorem probes_run_only_checked_targets:
  assumes "run_state (HealthCheckTunnel k t) h = (r, h')"
  shows "\<forall>e \<in> set (since h h'). \<exists>cmd a. e = Ran cmd a \<and>
     (cmd \<in> own_cmds t \<or> HealthCheckValidate (t_Health t) = Inr () \<and> cmd \<in> set (probe_cmds k (tunnel_namespace t) (t_Health t)) \<and>
        operand (last cmd))"
proof
  fix e assume e: "e \<in> set (since h h')"
  have "verdict_ok k t h r h'" using wpD[OF check_ok assms] .
  then obtain cmd a where cmd: "e = Ran cmd a" "cmd \<in> own_cmds t \<union> checked_cmds k t"
    using e by (auto simp: verdict_ok_def only_ran_def)
  have "operand (last cmd)" if v: "HealthCheckValidate (t_Health t) = Inr ()"
    and c: "cmd \<in> set (probe_cmds k (tunnel_namespace t) (t_Health t))"
  proof -
    have "HealthTCP (hc_TCPAddress (t_Health t)) = Inr ()" "HealthHTTPS (hc_HTTPSURL (t_Health t)) = Inr ()"
      "hc_DNSName (t_Health t) \<noteq> [] \<longrightarrow> validateProbeHost (hc_DNSName (t_Health t)) = Inr ()"
      using v by (auto simp: HealthCheckValidate_def bindE_Inr_iff mapErr_def split: if_splits sum.splits)
    then show ?thesis
      using c operand_tcp operand_url operand_name
      by (auto simp: probe_cmds_def curl_cmd_def getent_cmd_def in_ns_def split: if_splits)
  qed
  then show "\<exists>cmd a. e = Ran cmd a \<and> (cmd \<in> own_cmds t \<or> HealthCheckValidate (t_Health t) = Inr () \<and>
      cmd \<in> set (probe_cmds k (tunnel_namespace t) (t_Health t)) \<and> operand (last cmd))"
    using cmd by (auto simp: checked_cmds_def split: if_splits)
qed

subsection \<open>Samples\<close>

definition a_checker :: checker where
  "a_checker = \<lparr>hk_Env = calm_env, hk_Now = \<lambda>_. unix_time 1000, hk_Timeout = 0, hk_RuntimeDir = [],
     hk_Socket = \<lambda>_ _. None, hk_Duration = \<lambda>_. ''1s'', hk_ProbeError = \<lambda>_. [], hk_SocketError = \<lambda>_. []\<rparr>"

definition probed_proxy :: tunnel where
  "probed_proxy = \<lparr>t_ID = ''nl'', t_Type = TunnelXray, t_Role = ''internet'', t_Enabled = None,
     t_Source = \<lparr>ts_Kind = SourceConfig, ts_Value = ''nl.link''\<rparr>, t_Routes = [], t_DNSServers = [], t_DNSZones = [],
     t_AllowedDevices = [], t_Health = \<lparr>hc_TCPAddress = ''1.1.1.1:443'', hc_HTTPSURL = [], hc_DNSName = []\<rparr>\<rparr>"

lemma probed_proxy_healthy:
  "\<exists>health h'. run_state (HealthCheckTunnel a_checker probed_proxy) bare_host = (Inr health, h') \<and> th_Status health = HealthHealthy"
proof -
  obtain r h' where went: "run_state (HealthCheckTunnel a_checker probed_proxy) bare_host = (r, h')" by (rule prod.exhaust)
  have valid: "HealthCheckValidate (t_Health probed_proxy) = Inr ()" by code_simp
  have "wp (HealthCheckTunnel a_checker probed_proxy) (\<lambda>r _. \<exists>health. r = Inr health \<and> th_Status health = HealthHealthy) bare_host"
    using valid
    by (simp add: HealthCheckTunnel_def Let_def wp_rules checkProxy_def probe_def tcp_probe_def https_probe_def dns_probe_def
        probe_with_def probed_proxy_def a_checker_def probed_verdict probe_count_def isOk_def)
  from wpD[OF this went] went show ?thesis by blast
qed

theorem healthy_means_measured_witness:
  "\<exists>health h'. run_state (HealthCheckTunnel a_checker probed_proxy) bare_host = (Inr health, h') \<and>
     evidence a_checker probed_proxy bare_host h'"
  using probed_proxy_healthy healthy_means_measured by blast

theorem probes_run_only_checked_targets_witness:
  "\<exists>health h'. run_state (HealthCheckTunnel a_checker probed_proxy) bare_host = (Inr health, h') \<and>
     (\<forall>e \<in> set (since bare_host h'). \<exists>cmd a. e = Ran cmd a \<and> (cmd \<in> own_cmds probed_proxy \<or> operand (last cmd)))"
proof -
  obtain health h' where went: "run_state (HealthCheckTunnel a_checker probed_proxy) bare_host = (Inr health, h')"
    using probed_proxy_healthy by blast
  from probes_run_only_checked_targets[OF this] went show ?thesis by blast
qed

end
