(* ===== verification/Canary.thy ===== *)
theory Canary
  imports EgressPass Subscriptions
begin

text \<open>
  \<open>internal/adapters/linux/canary.go\<close> and \<open>internal/application/subscription.go\<close>: a candidate upstream is
  tried in a namespace of its own before it may replace the link that carries traffic.

  \<open>ca_Lock\<close> is the error of taking the lock that makes a selection one step, and \<open>rf_Context\<close> tells
  whether the refresh ran out of its time or was ended by its caller.  The deadlines of the teardown
  belong to the commands it runs.
\<close>

record canary =
  ca_World :: world
  ca_Egress :: egress_adapter
  ca_Probe :: string
  ca_Timeout :: int
  ca_Lock :: "host_error option"

definition canaryNamespace :: string where "canaryNamespace = ''vpn-hub-canary''"
definition peerVethName :: string where "peerVethName = ''uplink0''"

definition canary_probe :: "canary \<Rightarrow> string" where
  "canary_probe c = (if ca_Probe c \<noteq> [] then ca_Probe c else ''https://1.1.1.1/cdn-cgi/trace'')"

definition canary_timeout :: "canary \<Rightarrow> int" where
  "canary_timeout c = (if ca_Timeout c \<noteq> 0 then ca_Timeout c else 20 * 1000000000)"

definition canary_seconds :: "canary \<Rightarrow> string" where
  "canary_seconds c = itoa_int (sgn (canary_timeout c) * (\<bar>canary_timeout c\<bar> div 1000000000))"

definition canary_spec :: "proxy_tunnel \<Rightarrow> egress_spec" where
  "canary_spec candidate =
     \<lparr>es_TunnelID = ''canary'', es_Namespace = canaryNamespace, es_HostVeth = ''vh-canary'', es_PeerVeth = peerVethName,
      es_HostAddress = ''10.91.0.1/30'', es_PeerAddress = ''10.91.0.2/30'', es_Mark = 0, es_RouteTable = 0,
      es_ClientCIDR = ''10.91.0.0/30'', es_Interface = SingBoxTunInterface, es_SocksPort = 0, es_Type = TunnelXray,
      es_Tunnel = zero_wireguard, es_Proxy = candidate, es_OpenVPN = zero_openvpn\<rparr>"

subsection \<open>The hole in the packet filter\<close>

definition canary_path :: "canary \<Rightarrow> string" where
  "canary_path c = joinPath (secretsDir (ca_Egress c)) ''canary.nft''"

definition canary_ruleset :: "egress_spec \<Rightarrow> string \<Rightarrow> string" where
  "canary_ruleset spec uplink =
     text_of [''table inet vpn_hub_canary'', ''delete table inet vpn_hub_canary'', [],
       ''table inet vpn_hub_canary {'', TAB # ''chain forward {'',
       [TAB, TAB] @ ''type filter hook forward priority filter; policy accept;'',
       [TAB, TAB] @ ''iifname '' @ Quote (es_HostVeth spec) @ '' oifname '' @ Quote uplink @ '' accept'', TAB # ''}'',
       TAB # ''chain postrouting {'', [TAB, TAB] @ ''type nat hook postrouting priority srcnat; policy accept;'',
       [TAB, TAB] @ ''ip saddr '' @ es_ClientCIDR spec @ '' oifname '' @ Quote uplink @ '' masquerade'', TAB # ''}'', ''}'']"

definition hole_cmd :: "canary \<Rightarrow> string list" where
  "hole_cmd c = [''nft'', ''-f'', canary_path c]"

definition allowCanaryOut :: "canary \<Rightarrow> egress_spec \<Rightarrow> string \<Rightarrow> unit try_op" where
  "allowCanaryOut c spec uplink =
     andThen (writeIfChanged (w_Env (ca_World c)) (canary_path c) (canary_ruleset spec uplink)) (\<lambda>_.
       run (w_Env (ca_World c)) (hole_cmd c))"

definition discard_cmd :: "string list" where
  "discard_cmd = [''nft'', ''delete'', ''table'', ''inet'', ''vpn_hub_canary'']"

definition Discard :: "canary \<Rightarrow> unit try_op" where
  "Discard c = do {
     discard (removeFile (w_Env (ca_World c)) (canary_path c));
     r \<leftarrow> exec (w_Env (ca_World c)) discard_cmd;
     returns (case r of
         Inr _ \<Rightarrow> Inr ()
       | Inl (RunFailed cmd e) \<Rightarrow>
           if Contains e ''No such file or directory'' then Inr ()
           else Inl (Wrapped ''remove the canary firewall table'' (RunFailed cmd e))
       | Inl e \<Rightarrow> Inl e) }"

subsection \<open>One attempt\<close>

definition canary_curl :: "canary \<Rightarrow> string list" where
  "canary_curl c =
     in_ns canaryNamespace [''curl'', ''-sS'', ''--max-time'', canary_seconds c, ''-o'', ''/dev/null'', canary_probe c]"

definition carry_traffic :: "canary \<Rightarrow> proxy_tunnel \<Rightarrow> string \<Rightarrow> unit try_op" where
  "carry_traffic c candidate uplink =
     andThen (wrapping ''bring the candidate up'' (applyOne (ca_World c) (ca_Egress c) (canary_spec candidate))) (\<lambda>_.
     andThen (allowCanaryOut c (canary_spec candidate) uplink) (\<lambda>_.
       wrapping ''the candidate did not carry traffic'' (run (w_Env (ca_World c)) (canary_curl c))))"

definition teardown_cmds :: "canary \<Rightarrow> string list list" where
  "teardown_cmds c =
     [stop_cmd (proxy_unit ''canary''), lifecycle_cmd (ca_Egress c) ''del'' canaryNamespace,
      [''ip'', ''link'', ''del'', ''vh-canary'']]"

text \<open>\<open>errors.Join\<close> of the attempt's error and the one of the discarding.\<close>

definition joined_error :: "(host_error, unit) result \<Rightarrow> (host_error, unit) result \<Rightarrow> (host_error, unit) result" where
  "joined_error result discarded =
     (case discarded of
        Inr _ \<Rightarrow> result
      | Inl e \<Rightarrow> Inl (Joined ((case result of Inl r \<Rightarrow> [r] | Inr _ \<Rightarrow> []) @ [e])))"

definition try_candidate :: "canary \<Rightarrow> proxy_tunnel \<Rightarrow> string \<Rightarrow> unit try_op" where
  "try_candidate c candidate uplink = do {
     r \<leftarrow> carry_traffic c candidate uplink;
     d \<leftarrow> Discard c;
     attemptAll (w_Env (ca_World c)) (teardown_cmds c);
     returns (joined_error r d) }"

definition Try :: "canary \<Rightarrow> proxy_tunnel \<Rightarrow> string \<Rightarrow> unit try_op" where
  "Try c candidate uplink =
     (case ca_Lock c of Some e \<Rightarrow> fails e | None \<Rightarrow> try_candidate c candidate uplink)"

subsection \<open>The selection\<close>

text \<open>The reasons of the rejected ones, and the first that carried traffic.\<close>

type_synonym rejection = "string \<times> 16 word \<times> host_error"

fun select_from :: "canary \<Rightarrow> string \<Rightarrow> rejection list \<Rightarrow> proxy_tunnel list \<Rightarrow> (rejection list \<times> (host_error, proxy_tunnel) result) io_op" where
  "select_from c uplink reasons [] = returns (reasons, Inl (Refused ''no candidate carried traffic''))"
| "select_from c uplink reasons (candidate # rest) = do {
     r \<leftarrow> try_candidate c candidate uplink;
     (case r of
        Inr _ \<Rightarrow> returns (reasons, Inr candidate)
      | Inl e \<Rightarrow> do {
          ended \<leftarrow> cancelled (w_Env (ca_World c));
          let reasons' = reasons @ [(py_Server candidate, py_Port candidate, e)];
          (if ended then returns (reasons', Inl (Refused ''no candidate carried traffic''))
           else select_from c uplink reasons' rest) }) }"

definition SelectCandidate :: "canary \<Rightarrow> proxy_tunnel list \<Rightarrow> string \<Rightarrow> (rejection list \<times> (host_error, proxy_tunnel) result) io_op" where
  "SelectCandidate c candidates uplink =
     (case ca_Lock c of Some e \<Rightarrow> returns ([], Inl e) | None \<Rightarrow> select_from c uplink [] candidates)"

subsection \<open>The refresh (application/subscription.go)\<close>

datatype refresh_context = Running | OutOfTime | EndedByCaller host_error

record refresher =
  rf_Fetch :: "(string \<Rightarrow> string try_op) option"
  rf_Parse :: "(string \<Rightarrow> (host_error, proxy_tunnel list) result) option"
  rf_Prove :: "(proxy_tunnel list \<Rightarrow> (rejection list \<times> (host_error, proxy_tunnel) result) io_op) option"
  rf_Store :: "(tunnel \<Rightarrow> proxy_tunnel \<Rightarrow> unit try_op) option"
  rf_Context :: "event list \<Rightarrow> refresh_context"
  rf_IsDeadline :: "host_error \<Rightarrow> bool"

definition exceeded :: host_error where
  "exceeded = Refused ''subscription refresh exceeded its time''"

definition context_error :: "refresh_context \<Rightarrow> host_error option" where
  "context_error x = (case x of Running \<Rightarrow> None | OutOfTime \<Rightarrow> Some exceeded | EndedByCaller e \<Rightarrow> Some e)"

definition timeout_error :: "refresher \<Rightarrow> refresh_context \<Rightarrow> host_error \<Rightarrow> host_error option" where
  "timeout_error r x e = (if rf_IsDeadline r e \<and> x = OutOfTime then Some exceeded else None)"

definition context_now :: "refresher \<Rightarrow> refresh_context io_op" where
  "context_now r = State (\<lambda>h. (rf_Context r (h_Log h), h))"

definition or_else :: "host_error \<Rightarrow> host_error option \<Rightarrow> host_error" where
  "or_else e x = (case x of Some better \<Rightarrow> better | None \<Rightarrow> e)"

definition refresh_with ::
    "refresher \<Rightarrow> (string \<Rightarrow> string try_op) \<Rightarrow> (string \<Rightarrow> (host_error, proxy_tunnel list) result) \<Rightarrow>
     (proxy_tunnel list \<Rightarrow> (rejection list \<times> (host_error, proxy_tunnel) result) io_op) \<Rightarrow>
     (tunnel \<Rightarrow> proxy_tunnel \<Rightarrow> unit try_op) \<Rightarrow> tunnel \<Rightarrow> (rejection list \<times> (host_error, proxy_tunnel) result) io_op" where
  "refresh_with r fetch parse prove store t = do {
     payload \<leftarrow> fetch (ts_Value (t_Source t));
     x \<leftarrow> context_now r;
     (case payload of
        Inl e \<Rightarrow> returns ([], Inl (or_else (Wrapped ''fetch subscription'' e) (timeout_error r x e)))
      | Inr text \<Rightarrow>
          (case context_error x of Some e \<Rightarrow> returns ([], Inl e) | None \<Rightarrow>
          (case parse text of
             Inl e \<Rightarrow> returns ([], Inl (Wrapped ''read subscription'' e))
           | Inr candidates \<Rightarrow> do {
               (rejected, choice) \<leftarrow> prove candidates;
               x \<leftarrow> context_now r;
               (case choice of
                  Inl e \<Rightarrow> returns (rejected, Inl (or_else e (timeout_error r x e)))
                | Inr chosen \<Rightarrow>
                    (case context_error x of Some e \<Rightarrow> returns (rejected, Inl e) | None \<Rightarrow> do {
                       written \<leftarrow> store t chosen;
                       x \<leftarrow> context_now r;
                       returns (rejected, case written of
                           Inl e \<Rightarrow> Inl (or_else (Wrapped ''save the chosen candidate'' e) (timeout_error r x e))
                         | Inr _ \<Rightarrow> Inr chosen) })) }))) }"

definition Refresh :: "refresher \<Rightarrow> tunnel \<Rightarrow> (rejection list \<times> (host_error, proxy_tunnel) result) io_op" where
  "Refresh r t =
     (case (rf_Fetch r, rf_Parse r, rf_Prove r, rf_Store r) of
        (Some fetch, Some parse, Some prove, Some store) \<Rightarrow>
          if ts_Kind (t_Source t) \<noteq> SourceSubscription then returns ([], Inl (Refused ''the tunnel is not a subscription''))
          else refresh_with r fetch parse prove store t
      | _ \<Rightarrow> returns ([], Inl (Refused ''subscription refresher is not fully configured'')))"

text \<open>The assembly of \<open>hubctl subscription refresh\<close> (\<open>hubctl.go\<close>): what it fetches is pinned, tried and stored.\<close>

definition provePublicCandidates ::
    "resolver option \<Rightarrow> canary \<Rightarrow> string \<Rightarrow> proxy_tunnel list \<Rightarrow> (rejection list \<times> (host_error, proxy_tunnel) result) io_op" where
  "provePublicCandidates res c uplink candidates =
     (case PinPublicEndpoints res candidates of
        Inl _ \<Rightarrow> returns ([], Inl (Wrapped ''validate subscription candidates'' (Refused ''no public endpoint'')))
      | Inr pinned \<Rightarrow> SelectCandidate c pinned uplink)"

definition hub_refresher ::
    "(string \<Rightarrow> string try_op) \<Rightarrow> resolver option \<Rightarrow> canary \<Rightarrow> string \<Rightarrow> string \<Rightarrow> (event list \<Rightarrow> refresh_context) \<Rightarrow>
     (host_error \<Rightarrow> bool) \<Rightarrow> refresher" where
  "hub_refresher fetch res c uplink dir context deadline =
     \<lparr>rf_Fetch = Some fetch, rf_Parse = Some (\<lambda>payload. mapErr (\<lambda>_. Refused ''subscription'') (ParseSubscription payload)),
      rf_Prove = Some (\<lambda>candidates. provePublicCandidates res c uplink candidates),
      rf_Store = Some (\<lambda>t chosen. UpstreamWrite (w_Env (ca_World c)) dir (t_ID t) chosen),
      rf_Context = context, rf_IsDeadline = deadline\<rparr>"

end
