(* ===== verification/PublicClaims.thy ===== *)
theory PublicClaims
  imports PublicEndpoint Canonical
begin

text \<open>
  Which addresses a provider's endpoint may be, as ranges of numbers, and that every endpoint the hub
  accepts is one of them.
\<close>

subsection \<open>Prefixes as ranges\<close>

text \<open>The addresses that share their first \<open>bits\<close> bits with \<open>base\<close>.\<close>

definition block :: "nat \<Rightarrow> nat \<Rightarrow> nat \<Rightarrow> nat set" where
  "block len base bits = {base div 2 ^ (len - bits) * 2 ^ (len - bits) ..< (base div 2 ^ (len - bits) + 1) * 2 ^ (len - bits)}"

lemma div_eq_range:
  assumes "0 < q"
  shows "(n :: nat) div q = c \<longleftrightarrow> n \<in> {c * q ..< (c + 1) * q}"
proof
  assume "n div q = c"
  then show "n \<in> {c * q ..< (c + 1) * q}"
    using div_mult_mod_eq[of n q] mod_less_divisor[OF assms, of n] by auto
next
  assume "n \<in> {c * q ..< (c + 1) * q}"
  then show "n div q = c" by (intro div_nat_eqI) (simp_all add: mult.commute)
qed

lemma unat_drop_bit: "unat (drop_bit n (w :: 'a::len word)) = unat w div 2 ^ n"
proof -
  have "unat (drop_bit n w) = drop_bit n (unat w)" by (simp add: unsigned_drop_bit_eq take_bit_nat_eq_self[OF unsigned_less])
  then show ?thesis by (simp add: drop_bit_eq_div)
qed

lemma drop_bit_block:
  "drop_bit (len - bits) (w :: 'a::len word) = drop_bit (len - bits) a \<longleftrightarrow> unat w \<in> block len (unat a) bits"
proof -
  have "drop_bit (len - bits) w = drop_bit (len - bits) a \<longleftrightarrow> unat w div 2 ^ (len - bits) = unat a div 2 ^ (len - bits)"
    by (simp add: unat_drop_bit[symmetric] word_unat_eq_iff)
  then show ?thesis by (simp add: block_def div_eq_range del: atLeastLessThan_iff)
qed

lemma contains_v4: "PrefixContains \<lparr>pfx_addr = IPv4 a, pfx_bits = b\<rparr> (IPv4 w) \<longleftrightarrow> unat w \<in> block 32 (unat a) b"
  by (simp add: PrefixContains_v4 drop_bit_block)

lemma contains_v6:
  "PrefixContains \<lparr>pfx_addr = IPv6 a y, pfx_bits = b\<rparr> (IPv6 w z) \<longleftrightarrow> z = [] \<and> unat w \<in> block 128 (unat a) b"
  by (auto simp: PrefixContains_v6 drop_bit_block)

lemma contains_other [simp]:
  "\<not> PrefixContains \<lparr>pfx_addr = IPv4 a, pfx_bits = b\<rparr> (IPv6 w z)" "\<not> PrefixContains \<lparr>pfx_addr = IPv6 v y, pfx_bits = b\<rparr> (IPv4 u)"
  by (simp_all add: PrefixContains_def)


subsection \<open>The ranges\<close>

definition reserved_v4 :: "(nat \<times> nat) list" where
  "reserved_v4 =
     [(0x00000000, 0x01000000), (0x0A000000, 0x0B000000), (0x64400000, 0x64800000), (0x7F000000, 0x80000000),
      (0xA9FE0000, 0xA9FF0000), (0xAC100000, 0xAC200000), (0xC0000000, 0xC0000100), (0xC0000200, 0xC0000300),
      (0xC01FC400, 0xC01FC500), (0xC034C100, 0xC034C200), (0xC0586300, 0xC0586400), (0xC0A80000, 0xC0A90000),
      (0xC0AF3000, 0xC0AF3100), (0xC6120000, 0xC6140000), (0xC6336400, 0xC6336500), (0xCB007100, 0xCB007200),
      (0xE0000000, 0xF0000000), (0xF0000000, 0x100000000)]"

definition public_v4 :: "nat \<Rightarrow> bool" where
  "public_v4 n \<longleftrightarrow> list_all (\<lambda>(lo, hi). n < lo \<or> hi \<le> n) reserved_v4"

text \<open>The global unicast range, \<open>2000::/3\<close>.\<close>

definition global_v6 :: "nat \<Rightarrow> bool" where
  "global_v6 n \<longleftrightarrow> n \<in> {2 * 2 ^ 124 ..< 4 * 2 ^ 124}"

text \<open>The table of special prefixes as numbers.\<close>

definition prefix_number :: "ip_prefix \<Rightarrow> nat \<times> nat" where
  "prefix_number p = (case pfx_addr p of IPv4 a \<Rightarrow> unat a | IPv6 a z \<Rightarrow> unat a | NoAddr \<Rightarrow> 0, pfx_bits p)"

lemma special_v4_numbers:
  "map prefix_number special_v4 =
    [(0x00000000, 8), (0x0A000000, 8), (0x64400000, 10), (0x7F000000, 8), (0xA9FE0000, 16), (0xAC100000, 12),
     (0xC0000000, 24), (0xC0000200, 24), (0xC01FC400, 24), (0xC034C100, 24), (0xC0586300, 24), (0xC0A80000, 16), (0xC0AF3000, 24),
     (0xC6120000, 15), (0xC6336400, 24), (0xCB007100, 24), (0xE0000000, 4), (0xF0000000, 4)]"
  by code_simp

lemma special_v4_family: "list_all (\<lambda>p. Is4 (pfx_addr p)) special_v4"
  by code_simp

text \<open>A prefix written with a colon is one of IPv6 addresses.\<close>

definition written_v6 :: "string \<Rightarrow> bool" where
  "written_v6 s = (case CutLastByte CHR ''/'' s of
     None \<Rightarrow> True
   | Some (a, _) \<Rightarrow> find (\<lambda>c. c = CHR ''.'' \<or> c = CHR '':'' \<or> c = CHR ''%'') a = Some CHR '':'')"

lemma parse_v6_family: "parse_v6 s = Some ip \<Longrightarrow> Is6 ip"
  by (auto simp: parse_v6_def v6_finish_def Let_def bind_eq_Some_conv split: option.splits prod.splits if_splits)

lemma written_v6_family: "written_v6 s \<Longrightarrow> ParsePrefix s = Some p \<Longrightarrow> Is6 (pfx_addr p)"
  by (auto simp: ParsePrefix_def written_v6_def ParseAddr_def split: option.splits prod.splits if_splits dest: parse_v6_family)

lemma map_filter_family: "list_all written_v6 ss \<Longrightarrow> list_all (\<lambda>p. Is6 (pfx_addr p)) (List.map_filter ParsePrefix ss)"
  by (induction ss) (auto simp: List.map_filter_simps written_v6_family split: option.splits)

lemma special_v6_family: "list_all (\<lambda>p. Is6 (pfx_addr p)) special_v6"
  unfolding special_v6_def by (rule map_filter_family) code_simp

lemma contains_number:
  "Is4 (pfx_addr p) \<Longrightarrow> PrefixContains p (IPv4 w) \<longleftrightarrow> unat w \<in> (case prefix_number p of (a, b) \<Rightarrow> block 32 a b)"
  "Is6 (pfx_addr p) \<Longrightarrow> \<not> PrefixContains p (IPv4 w)"
  by (cases p; cases "pfx_addr p"; auto simp: prefix_number_def contains_v4)+

lemma special_number_v4:
  "list_ex (\<lambda>p. PrefixContains p (IPv4 w)) specialPurposePrefixes \<longleftrightarrow>
     list_ex (\<lambda>(a, b). unat w \<in> block 32 a b) (map prefix_number special_v4)"
proof -
  have "list_ex (\<lambda>p. PrefixContains p (IPv4 w)) special_v4 =
      list_ex (\<lambda>p. unat w \<in> (case prefix_number p of (a, b) \<Rightarrow> block 32 a b)) special_v4"
    using special_v4_family contains_number(1)[of _ w] by (intro list_ex_cong) (simp_all add: list_all_iff)
  moreover have "\<not> list_ex (\<lambda>p. PrefixContains p (IPv4 w)) special_v6"
    using special_v6_family contains_number(2)[of _ w] by (auto simp: list_ex_iff list_all_iff)
  ultimately show ?thesis by (auto simp: specialPurposePrefixes_def list_ex_iff case_prod_beta')
qed

lemma reserved_blocks: "list_ex (\<lambda>(a, b). n \<in> block 32 a b) (map prefix_number special_v4) \<longleftrightarrow> \<not> public_v4 n"
proof -
  have "map (\<lambda>(a, b). block 32 a b) (map prefix_number special_v4) = map (\<lambda>(lo, hi). {lo ..< hi}) reserved_v4"
    unfolding special_v4_numbers reserved_v4_def by (simp add: block_def)
  moreover have "list_ex (\<lambda>(a, b). n \<in> block 32 a b) qs = list_ex (\<lambda>I. n \<in> I) (map (\<lambda>(a, b). block 32 a b) qs)" for qs
    by (induction qs) auto
  moreover have "list_ex (\<lambda>I. n \<in> I) (map (\<lambda>(lo, hi). {lo ..< hi}) qs) = (\<not> list_all (\<lambda>(lo, hi). n < lo \<or> hi \<le> n) qs)" for qs :: "(nat \<times> nat) list"
    by (induction qs) auto
  ultimately show ?thesis by (simp add: public_v4_def)
qed

text \<open>The flags of an IPv4 address are ranges too.\<close>

lemma flags_v4:
  "IsGlobalUnicast (IPv4 w) \<longleftrightarrow> unat w \<noteq> 0 \<and> unat w \<noteq> 0xFFFFFFFF \<and> unat w \<notin> {0x7F000000 ..< 0x80000000} \<and>
     unat w \<notin> {0xE0000000 ..< 0xF0000000} \<and> unat w \<notin> {0xA9FE0000 ..< 0xA9FF0000}"
proof -
  have zero: "w = 0 \<longleftrightarrow> unat w = 0" "w = 0xFFFFFFFF \<longleftrightarrow> unat w = 0xFFFFFFFF"
    by (simp_all add: word_unat_eq_iff)
  have drop: "drop_bit k w = c \<longleftrightarrow> unat w \<in> {unat c * 2 ^ k ..< (unat c + 1) * 2 ^ k}" for k and c :: "32 word"
    using div_eq_range[of "2 ^ k" "unat w" "unat c"] by (simp add: word_unat_eq_iff unat_drop_bit)
  show ?thesis
    by (auto simp: IsGlobalUnicast_def IsLoopback_def IsMulticast_def IsLinkLocalUnicast_def zero drop)
qed

lemma reserved_member: "public_v4 n \<Longrightarrow> (lo, hi) \<in> set reserved_v4 \<Longrightarrow> n < lo \<or> hi \<le> n"
  by (auto simp: public_v4_def list_all_iff)

lemma public_v4_flags:
  assumes "n < 0x100000000" "public_v4 n"
  shows "n \<noteq> 0 \<and> n \<noteq> 0xFFFFFFFF \<and> n \<notin> {0x7F000000 ..< 0x80000000} \<and> n \<notin> {0xE0000000 ..< 0xF0000000} \<and>
    n \<notin> {0xA9FE0000 ..< 0xA9FF0000}"
proof -
  have members: "(0, 0x01000000) \<in> set reserved_v4" "(0x7F000000, 0x80000000) \<in> set reserved_v4"
    "(0xA9FE0000, 0xA9FF0000) \<in> set reserved_v4" "(0xE0000000, 0xF0000000) \<in> set reserved_v4"
    "(0xF0000000, 0x100000000) \<in> set reserved_v4"
    by (simp_all add: reserved_v4_def)
  show ?thesis
    using reserved_member[OF assms(2) members(1)] reserved_member[OF assms(2) members(2)] reserved_member[OF assms(2) members(3)]
      reserved_member[OF assms(2) members(4)] reserved_member[OF assms(2) members(5)] assms(1) by auto
qed

lemma accepted_v4: "validatePublicEndpoint (IPv4 w) = Inr () \<longleftrightarrow> public_v4 (unat w)"
proof -
  have "unat w < 0x100000000" using unsigned_less[of w, where 'a = nat] by simp
  moreover have "validatePublicEndpoint (IPv4 w) = Inr () \<longleftrightarrow>
      IsGlobalUnicast (IPv4 w) \<and> \<not> list_ex (\<lambda>p. PrefixContains p (IPv4 w)) specialPurposePrefixes"
    by (simp add: validatePublicEndpoint_def)
  ultimately show ?thesis
    unfolding special_number_v4 reserved_blocks flags_v4 using public_v4_flags[of "unat w"] by blast
qed

lemma accepted_v6:
  assumes "validatePublicEndpoint (IPv6 w z) = Inr ()"
  shows "z = [] \<and> global_v6 (unat w)"
proof -
  have range: "globalIPv6Unicast = Some \<lparr>pfx_addr = IPv6 0x20000000000000000000000000000000 [], pfx_bits = 3\<rparr>" by code_simp
  have "PrefixContains \<lparr>pfx_addr = IPv6 0x20000000000000000000000000000000 [], pfx_bits = 3\<rparr> (IPv6 w z)"
    using assms unfolding validatePublicEndpoint_def range by (simp split: if_splits)
  then show ?thesis unfolding contains_v6 by (simp add: block_def global_v6_def)
qed


subsection \<open>What is dialled\<close>

definition may_dial :: "ip_addr \<Rightarrow> bool" where
  "may_dial ip = (case ip of IPv4 w \<Rightarrow> public_v4 (unat w) | IPv6 w z \<Rightarrow> z = [] \<and> global_v6 (unat w) | NoAddr \<Rightarrow> False)"

lemma accepted_may_dial:
  assumes "validatePublicEndpoint ip = Inr ()"
  shows "may_dial ip"
proof (cases ip)
  case NoAddr
  then show ?thesis using assms by (simp add: validatePublicEndpoint_def IsGlobalUnicast_def)
qed (use assms accepted_v4 accepted_v6 in \<open>auto simp: may_dial_def\<close>)

lemma public_answers: "mapE public_answer answers = Inr addresses \<Longrightarrow>
    addresses = map Unmap answers \<and> (\<forall>a \<in> set answers. validatePublicEndpoint (Unmap a) = Inr ())"
  by (induction answers arbitrary: addresses) (auto simp: public_answer_def bindE_Inr_iff)

lemma first_addr_in: "first_addr a as \<in> set (a # as)"
proof (induction as arbitrary: a)
  case (Cons x as)
  then show ?case using Cons[of x] Cons[of a] by auto
qed simp

lemma before_trans: "addr_before a b \<Longrightarrow> addr_before b c \<Longrightarrow> addr_before a c"
  by (auto simp: addr_before_def)

lemma before_irrefl: "\<not> addr_before a a"
  by (simp add: addr_before_def)

lemma before_total: "\<not> addr_before a b \<Longrightarrow> \<not> addr_before b a \<Longrightarrow> addr_before c a \<longleftrightarrow> addr_before c b"
  by (auto simp: addr_before_def)

lemma first_addr_least: "\<forall>b \<in> set (a # as). \<not> addr_before b (first_addr a as)"
proof (induction as arbitrary: a)
  case Nil
  then show ?case by (simp add: before_irrefl)
next
  case (Cons x as)
  show ?case
  proof (cases "addr_before x a")
    case True
    then show ?thesis using Cons[of x] before_trans by auto
  next
    case False
    have "\<not> addr_before x (first_addr a as)"
    proof
      assume x: "addr_before x (first_addr a as)"
      have "\<not> addr_before a (first_addr a as)" using Cons[of a] by simp
      then show False using x False before_total[of a "first_addr a as" x] before_trans[of x "first_addr a as" a] by blast
    qed
    then show ?thesis using Cons[of a] False by simp
  qed
qed


definition two_answers :: "string \<Rightarrow> (string, ip_addr list) result" where
  "two_answers name = (if name = ''node.example.com'' then Inr [IPv4 0xC6290005, IPv4 0xC6290004] else Inl ''no such host'')"


text \<open>C26: For IPv4 the check is exact: an address is accepted when it lies outside eighteen ranges of numbers and not
  otherwise, whichever flags and prefixes the code goes through.\<close>
theorem public_v4_is_exact:
  "validatePublicEndpoint (IPv4 w) = Inr () \<longleftrightarrow> list_all (\<lambda>(lo, hi). unat w < lo \<or> hi \<le> unat w) reserved_v4"
  using accepted_v4[of w] by (simp add: public_v4_def)

end
