(* ===== verification/CanaryClaims.thy ===== *)
theory CanaryClaims
  imports Canary LinkClaims EgressClaims PublicClaims
begin

text \<open>
  The trial of a candidate: what it touches, that it is torn down whatever happened, and that only a
  candidate that carried traffic replaces the link in service.
\<close>

subsection \<open>What commands leave alone\<close>

text \<open>
  A relation of the host before and after that commands respect is respected by every part of an
  egress pass that only runs commands.
\<close>

locale command_frame =
  fixes R :: "host \<Rightarrow> host \<Rightarrow> bool" and w :: world
  assumes refl: "reflp R" and trans: "transp R" and answers: "state_io_rel R (answered (w_Env w) cmd)"
begin

lemma steps:
  "state_io_rel R (exec (w_Env w) cmd)" "state_io_rel R (run (w_Env w) cmd)" "state_io_rel R (attempt (w_Env w) cmd)"
  "state_io_rel R (cancelled (w_Env w))"
  unfolding exec_def attempt_def run_def cancelled_def by (intro io_rel io_rel_state refl trans answers)+

lemmas frame = io_rel refl trans answers steps

lemma awaited: "state_io_rel R (await_device w failure n cmd)"
  by (induction n) (auto intro!: frame)

lemma restarted: "state_io_rel R (restart_supervised w u ns program)"
  unfolding restart_supervised_def by (intro frame)

lemma active: "state_io_rel R (is_active w u)"
  unfolding is_active_def by (intro frame)

lemma kept: "state_io_rel R running \<Longrightarrow> state_io_rel R (keep_or_restart w changed running u ns program)"
  unfolding keep_or_restart_def by (intro frame restarted)

lemma ruled: "state_io_rel R (add_rule_once w s a t)"
  unfolding add_rule_once_def by (intro frame)

lemma rulesets: "state_io_rel R (ensureNamespaceNAT w spec)"
  unfolding ensureNamespaceNAT_def applyNamespaceRuleset_def by (intro frame)

lemma observed: "state_io_rel R (EgressObserve w)"
  unfolding EgressObserve_def by (intro frame)

lemma lived: "state_io_rel R (namespaceLifecycle w e a ns)"
  unfolding namespaceLifecycle_def by (intro frame)

lemma namespaced: "state_io_rel R (ensureNamespace w e spec)"
  unfolding ensureNamespace_def prove_namespace_def enableForwarding_def by (intro frame observed lived)

lemma linked: "state_io_rel R (ensureLink w spec)"
  unfolding ensureLink_def create_link_def by (intro frame)

lemma routed: "state_io_rel R (ensurePolicyRouting w e spec)"
  unfolding ensurePolicyRouting_def by (intro frame ruled)

lemma proxy_routed: "state_io_rel R (ensureProxyEscapeRoute w spec)" "state_io_rel R (ensureProxyRoutes w spec)"
  unfolding ensureProxyEscapeRoute_def ensureProxyRoutes_def Let_def by (intro frame ruled awaited rulesets)+

lemma proxied:
  "(\<And>config. state_io_rel R (writeIfChanged (w_Env w) (proxy_path e spec) config)) \<Longrightarrow> state_io_rel R (ensureProxy w e spec)"
  unfolding ensureProxy_def by (intro frame proxy_routed kept active)

lemma applied:
  assumes "es_Type spec = TunnelXray" "es_SocksPort spec = 0"
    and "\<And>config. state_io_rel R (writeIfChanged (w_Env w) (proxy_path e spec) config)"
  shows "state_io_rel R (applyOne w e spec)"
  unfolding applyOne_def ensureTunnel_def ensureSocks_def forwardSocks_def
  using assms by (simp, intro frame namespaced linked routed proxied)

lemma attempted: "state_io_rel R (attemptAll (w_Env w) cmds)"
  by (rule io_rel_attemptAll[OF refl trans steps(3)])

end

subsection \<open>The link file is spared\<close>

definition spares :: "string \<Rightarrow> host \<Rightarrow> host \<Rightarrow> bool" where
  "spares path h h' \<longleftrightarrow> extends h h' \<and> h_Files h' path = h_Files h path"

lemma spares_trans: "spares p h h1 \<Longrightarrow> spares p h1 h2 \<Longrightarrow> spares p h h2"
  using extends_trans[of h h1 h2] by (simp add: spares_def)

lemma spares_preorder: "reflp (spares p)" "transp (spares p)"
  by (auto simp: reflp_def spares_def[of p x x for x] intro!: transpI elim: spares_trans)

interpretation sparing: command_frame "spares p" w for p w
  by unfold_locales (auto simp: io_rel_iff wp_rules spares_def extends_def spares_preorder)

lemma spares_files:
  assumes "q \<noteq> p"
  shows "state_io_rel (spares p) (writeIfChanged env q c)" "state_io_rel (spares p) (removeFile env q)"
  using assms by (auto simp: io_rel_iff wp_rules spares_def extends_def split: option.split)

text \<open>No file of the trial ends like a link.\<close>

lemma trial_files:
  "proxy_path e (canary_spec candidate) \<noteq> link_path dir i" "canary_path c \<noteq> link_path dir i"
proof -
  have "last (proxy_path e (canary_spec candidate)) = CHR ''n''" "last (canary_path c) = CHR ''t''" "last (link_path dir i) = CHR ''k''"
    by (simp_all add: proxy_path_def canary_path_def link_path_def joinPath_def canary_spec_def)
  then show "proxy_path e (canary_spec candidate) \<noteq> link_path dir i" "canary_path c \<noteq> link_path dir i" by auto
qed


lemma hole_spares: "state_io_rel (spares (link_path dir i)) (allowCanaryOut c spec uplink)"
  unfolding allowCanaryOut_def by (intro sparing.frame spares_files trial_files)

lemma carry_spares: "state_io_rel (spares (link_path dir i)) (carry_traffic c candidate uplink)"
proof -
  have "state_io_rel (spares (link_path dir i)) (applyOne (ca_World c) (ca_Egress c) (canary_spec candidate))"
  proof (rule sparing.applied)
    show "es_Type (canary_spec candidate) = TunnelXray" "es_SocksPort (canary_spec candidate) = 0" by (simp_all add: canary_spec_def)
  qed (rule spares_files(1)[OF trial_files(1)])
  then show ?thesis unfolding carry_traffic_def by (intro sparing.frame hole_spares)
qed

lemma discard_spares: "state_io_rel (spares (link_path dir i)) (Discard c)"
  unfolding Discard_def by (intro sparing.frame spares_files trial_files)

lemma trial_spares: "state_io_rel (spares (link_path dir i)) (try_candidate c candidate uplink)"
  unfolding try_candidate_def by (intro sparing.frame sparing.attempted carry_spares discard_spares)

subsection \<open>The selection\<close>

text \<open>The candidate's own trial succeeded meanwhile.\<close>

definition proven :: "canary \<Rightarrow> string \<Rightarrow> proxy_tunnel \<Rightarrow> host \<Rightarrow> host \<Rightarrow> bool" where
  "proven c uplink candidate h h' \<longleftrightarrow>
     (\<exists>h1 h2. extends h h1 \<and> run_state (try_candidate c candidate uplink) h1 = (Inr (), h2) \<and> extends h2 h')"

lemma proven_mono: "proven c uplink x h1 h2 \<Longrightarrow> extends h h1 \<Longrightarrow> extends h2 h' \<Longrightarrow> proven c uplink x h h'"
  unfolding proven_def by (meson extends_trans)

definition selected :: "canary \<Rightarrow> string \<Rightarrow> proxy_tunnel list \<Rightarrow> string \<Rightarrow> host \<Rightarrow> rejection list \<times> (host_error, proxy_tunnel) result \<Rightarrow> host \<Rightarrow> bool" where
  "selected c uplink candidates path h answer h' \<longleftrightarrow>
     spares path h h' \<and> (\<forall>chosen. snd answer = Inr chosen \<longrightarrow> chosen \<in> set candidates \<and> proven c uplink chosen h h')"

lemma select_from_outcome:
  "wp (select_from c uplink reasons candidates) (selected c uplink candidates (link_path dir i) h) h"
proof (induction candidates arbitrary: h reasons)
  case Nil
  then show ?case by (simp add: wp_rules selected_def spares_def)
next
  case (Cons x xs)
  let ?p = "link_path dir i"
  obtain r h1 where went: "run_state (try_candidate c x uplink) h = (r, h1)" by (rule prod.exhaust)
  have spared: "spares ?p h h1" using io_rel_wp[OF trial_spares, THEN wpD, OF went] .
  have later: "selected c uplink (x # xs) ?p h answer h'" if "selected c uplink xs ?p h1 answer h'" for answer h'
    using that spared spares_trans[OF spared] proven_mono[of c uplink _ h1 h' h h'] by (auto simp: selected_def spares_def)
  have here: "r = Inr () \<Longrightarrow> selected c uplink (x # xs) ?p h (reasons, Inr x) h1"
    using spared went extends_refl unfolding selected_def proven_def by (metis list.set_intros(1) snd_conv sum.inject(2))
  have none: "selected c uplink (x # xs) ?p h (rs, Inl e) h1" for rs e
    using spared by (simp add: selected_def)
  have rest: "wp (select_from c uplink rs xs) (selected c uplink (x # xs) ?p h) h1" for rs
    by (rule wp_mono[OF Cons.IH]) (rule later)
  show ?case
    using rest here none by (auto simp: wp_bind wp_run[OF went] wp_rules Let_def split: sum.split)
qed

lemma select_outcome: "wp (provePublicCandidates res c uplink candidates) (\<lambda>answer h'.
   spares (link_path dir i) h h' \<and> (\<forall>chosen. snd answer = Inr chosen \<longrightarrow>
     (\<exists>pinned. PinPublicEndpoints res candidates = Inr pinned \<and> chosen \<in> set pinned) \<and> proven c uplink chosen h h')) h"
proof (cases "PinPublicEndpoints res candidates")
  case (Inl e)
  then show ?thesis by (simp add: provePublicCandidates_def wp_rules spares_def)
next
  case (Inr pinned)
  show ?thesis
  proof (cases "ca_Lock c")
    case None
    have "wp (select_from c uplink [] pinned) (\<lambda>answer h'. spares (link_path dir i) h h' \<and> (\<forall>chosen. snd answer = Inr chosen \<longrightarrow>
       (\<exists>pinned. PinPublicEndpoints res candidates = Inr pinned \<and> chosen \<in> set pinned) \<and> proven c uplink chosen h h')) h"
      by (rule wp_mono[OF select_from_outcome[of c uplink "[]" pinned dir i h]]) (use Inr in \<open>auto simp: selected_def\<close>)
    with Inr None show ?thesis by (simp add: provePublicCandidates_def SelectCandidate_def)
  qed (simp add: provePublicCandidates_def SelectCandidate_def Inr wp_rules spares_def)
qed


subsection \<open>The refresh\<close>

lemma wp_context [wp_rules]: "wp (context_now r) Q = (\<lambda>h. Q (rf_Context r (h_Log h)) h)"
  by (simp add: wp_def context_now_def fun_eq_iff)

text \<open>What a refresh may leave in the link file: what it had, or the link of a candidate that was proven.\<close>

definition refreshed :: "canary \<Rightarrow> string \<Rightarrow> resolver option \<Rightarrow> string \<Rightarrow> host \<Rightarrow> host \<Rightarrow> proxy_tunnel \<Rightarrow> bool" where
  "refreshed c uplink res path h h' chosen \<longleftrightarrow>
     (\<exists>payload candidates pinned. ParseSubscription payload = Inr candidates \<and> PinPublicEndpoints res candidates = Inr pinned \<and>
        chosen \<in> set pinned) \<and>
     proven c uplink chosen h h' \<and> (\<exists>link. RenderVLESS chosen = Inr link \<and> h_Files h' path = Some (link @ [NL]))"

text \<open>A write of the store leaves the file, or puts the whole of the new link in its place.\<close>

lemma store_extends: "state_io_rel extends (UpstreamWrite env dir i t)"
proof -
  have "state_io_rel extends (replaceFile env p c)" "state_io_rel extends (makeDir env p)" "state_io_rel extends (alive env)" for p c
    by (auto simp: io_rel_iff wp_rules extends_def Let_def split: option.split)
  then show ?thesis unfolding UpstreamWrite_def keep_previous_def by (auto intro!: io_rel split: read_answer.split)
qed

definition link_stored :: "string \<Rightarrow> proxy_tunnel \<Rightarrow> host \<Rightarrow> bool" where
  "link_stored path t h \<longleftrightarrow> (\<exists>link. RenderVLESS t = Inr link \<and> h_Files h path = Some (link @ [NL]))"

lemma store_outcome:
  "wp (UpstreamWrite env dir i t) (\<lambda>r h'. extends h h' \<and> (isOk r \<longrightarrow> link_stored (link_path dir i) t h') \<and>
     (h_Files h' (link_path dir i) = h_Files h (link_path dir i) \<or> link_stored (link_path dir i) t h')) h"
  by (rule wp_mono[OF wp_both[OF io_rel_wp[OF store_extends] UpstreamWrite_kept]])
    (auto simp: write_kept_def link_stored_def printed_def isOk_def split: sum.splits)

lemma refreshedI:
  assumes "ParseSubscription payload = Inr candidates" "PinPublicEndpoints res candidates = Inr pinned" "chosen \<in> set pinned"
    "proven c uplink chosen h1 h2" "extends h h1" "extends h2 h'" "link_stored path chosen h'"
  shows "refreshed c uplink res path h h' chosen"
  using assms proven_mono[OF assms(4-6)] unfolding refreshed_def link_stored_def by blast

definition refresh_safe :: "canary \<Rightarrow> string \<Rightarrow> resolver option \<Rightarrow> string \<Rightarrow> host \<Rightarrow> rejection list \<times> (host_error, proxy_tunnel) result \<Rightarrow> host \<Rightarrow> bool" where
  "refresh_safe c uplink res path h answer h' \<longleftrightarrow>
     (\<forall>chosen. snd answer = Inr chosen \<longrightarrow> refreshed c uplink res path h h' chosen) \<and>
     (h_Files h' path = h_Files h path \<or> (\<exists>chosen. refreshed c uplink res path h h' chosen))"

lemma refresh_safe_untouched: "h_Files h' path = h_Files h path \<Longrightarrow> refresh_safe c uplink res path h (rejected, Inl e) h'"
  by (simp add: refresh_safe_def)

lemma refresh_outcome:
  assumes "\<forall>url. state_io_rel (spares (link_path dir (t_ID t))) (fetch url)"
  shows "wp (Refresh (hub_refresher fetch res c uplink dir context deadline) t) (refresh_safe c uplink res (link_path dir (t_ID t)) h) h"
proof (cases "ts_Kind (t_Source t) = SourceSubscription")
  case True
  let ?p = "link_path dir (t_ID t)" and ?r = "hub_refresher fetch res c uplink dir context deadline"
  let ?Q = "refresh_safe c uplink res ?p h"
  let ?store = "\<lambda>rejected chosen. do { written \<leftarrow> UpstreamWrite (w_Env (ca_World c)) dir (t_ID t) chosen; x \<leftarrow> context_now ?r;
      returns (rejected, case written of Inl e \<Rightarrow> Inl (or_else (Wrapped ''save the chosen candidate'' e) (timeout_error ?r x e))
                                       | Inr _ \<Rightarrow> Inr chosen) }"
  have storing: "wp (?store rejected chosen) ?Q h2"
    if "spares ?p h h2" "proven c uplink chosen h1 h2" "extends h h1" "ParseSubscription payload = Inr candidates"
      "PinPublicEndpoints res candidates = Inr pinned" "chosen \<in> set pinned" for rejected chosen h1 h2 payload candidates pinned
  proof (rule wp_then[OF store_outcome])
    fix written :: "(host_error, unit) result" and h'
    assume out: "extends h2 h' \<and> (isOk written \<longrightarrow> link_stored ?p chosen h') \<and> (h_Files h' ?p = h_Files h2 ?p \<or> link_stored ?p chosen h')"
    have stored_ok: "link_stored ?p chosen h' \<Longrightarrow> refreshed c uplink res ?p h h' chosen"
      using refreshedI[OF that(4-6,2,3)] out by blast
    show "wp (do { x \<leftarrow> context_now ?r; returns (rejected, case written of
        Inl e \<Rightarrow> Inl (or_else (Wrapped ''save the chosen candidate'' e) (timeout_error ?r x e)) | Inr _ \<Rightarrow> Inr chosen) }) ?Q h'"
      using out stored_ok that(1) by (auto simp: wp_rules refresh_safe_def spares_def isOk_def split: sum.splits)
  qed
  let ?parse = "\<lambda>payload. mapErr (\<lambda>_. Refused ''subscription'') (ParseSubscription payload)"
  have parts: "Refresh ?r t = refresh_with ?r fetch ?parse (provePublicCandidates res c uplink)
      (\<lambda>t chosen. UpstreamWrite (w_Env (ca_World c)) dir (t_ID t) chosen) t"
    using True by (simp add: Refresh_def hub_refresher_def)
  let ?rest = "\<lambda>rejected choice x. case choice of
      Inl e \<Rightarrow> returns (rejected, Inl (or_else e (timeout_error ?r x e)))
    | Inr chosen \<Rightarrow> (case context_error x of Some e \<Rightarrow> returns (rejected, Inl e) | None \<Rightarrow> ?store rejected chosen)"
  have proving: "wp (do { (rejected, choice) \<leftarrow> provePublicCandidates res c uplink candidates; x \<leftarrow> context_now ?r; ?rest rejected choice x }) ?Q h1"
    if "spares ?p h h1" "ParseSubscription payload = Inr candidates" for h1 payload candidates
  proof (rule wp_then[OF select_outcome])
    fix answer :: "rejection list \<times> (host_error, proxy_tunnel) result" and h2
    assume out: "spares ?p h1 h2 \<and> (\<forall>chosen. snd answer = Inr chosen \<longrightarrow>
       (\<exists>pinned. PinPublicEndpoints res candidates = Inr pinned \<and> chosen \<in> set pinned) \<and> proven c uplink chosen h1 h2)"
    obtain rejected choice where a: "answer = (rejected, choice)" by (cases answer)
    have same: "spares ?p h h2" using spares_trans that(1) out by blast
    have finish: "wp (?rest rejected choice x) ?Q h2" for x
    proof (cases choice)
      case (Inl e)
      then show ?thesis using same by (simp add: wp_rules refresh_safe_untouched spares_def)
    next
      case (Inr chosen)
      then obtain pinned where pinned: "PinPublicEndpoints res candidates = Inr pinned" "chosen \<in> set pinned" "proven c uplink chosen h1 h2"
        using out a by auto
      have "extends h h1" using that(1) by (simp add: spares_def)
      from storing[OF same pinned(3) this that(2) pinned(1,2)] same Inr show ?thesis
        by (auto simp: wp_rules refresh_safe_untouched spares_def split: option.split)
    qed
    then show "wp (case answer of (rejected, choice) \<Rightarrow> do { x \<leftarrow> context_now ?r; ?rest rejected choice x }) ?Q h2"
      by (simp add: a wp_bind wp_context)
  qed
  show ?thesis
    unfolding parts refresh_with_def
  proof (rule wp_then[OF io_rel_wp[OF assms[rule_format]]])
    fix payload :: "(host_error, string) result" and h1 assume same: "spares ?p h h1"
    show "wp (do { x \<leftarrow> context_now ?r; (case payload of
        Inl e \<Rightarrow> returns ([], Inl (or_else (Wrapped ''fetch subscription'' e) (timeout_error ?r x e)))
      | Inr text \<Rightarrow> (case context_error x of Some e \<Rightarrow> returns ([], Inl e) | None \<Rightarrow>
          (case ?parse text of Inl e \<Rightarrow> returns ([], Inl (Wrapped ''read subscription'' e))
           | Inr candidates \<Rightarrow> do { (rejected, choice) \<leftarrow> provePublicCandidates res c uplink candidates; x \<leftarrow> context_now ?r;
               ?rest rejected choice x }))) }) ?Q h1"
    proof (cases payload)
      case (Inl e)
      then show ?thesis using same by (simp add: wp_rules refresh_safe_untouched spares_def)
    next
      case (Inr body)
      show ?thesis
      proof (cases "ParseSubscription body")
        case (Inl e)
        then show ?thesis using same \<open>payload = Inr body\<close> by (simp add: wp_rules refresh_safe_untouched spares_def mapErr_def split: option.split)
      next
        case (Inr candidates)
        then show ?thesis
          using same \<open>payload = Inr body\<close> proving[OF same Inr]
          by (auto simp: wp_rules refresh_safe_untouched spares_def mapErr_def split: option.split)
      qed
    qed
  qed
qed (simp add: Refresh_def hub_refresher_def wp_rules refresh_safe_def)



subsection \<open>The teardown\<close>

definition curl_done :: "canary \<Rightarrow> event \<Rightarrow> bool" where
  "curl_done c e \<longleftrightarrow> (\<exists>out. e = Ran (canary_curl c) (Inr out))"

lemma carry_ensures: "ensures (carry_traffic c candidate uplink) (curl_done c)"
proof -
  have "state_io_rel extends (allowCanaryOut c spec uplink)" for spec unfolding allowCanaryOut_def by (intro io_rel) simp_all
  then show ?thesis
    unfolding carry_traffic_def by (intro ensures_then ensures_wrapping ensures_run io_rel) (simp_all add: curl_done_def)
qed

definition hole_closed :: "(string, string) result \<Rightarrow> bool" where
  "hole_closed a \<longleftrightarrow> (case a of Inr _ \<Rightarrow> True | Inl e \<Rightarrow> Contains e ''No such file or directory'')"

lemma discard_outcome:
  "wp (Discard c) (\<lambda>d h'. \<exists>a older. h_Log h' = Ran discard_cmd a # older @ h_Log h \<and> (isOk d \<longleftrightarrow> hole_closed a)) h"
  by (auto simp: Discard_def wp_rules hole_closed_def isOk_def mapErr_def split: sum.split)

lemma teardown_outcome:
  "wp (attemptAll env (teardown_cmds c)) (\<lambda>_ h'. \<exists>a2 a3 a4. h_Log h' =
     Ran [''ip'', ''link'', ''del'', ''vh-canary''] a4 # Ran (lifecycle_cmd (ca_Egress c) ''del'' canaryNamespace) a3 #
     Ran (stop_cmd (proxy_unit ''canary'')) a2 # h_Log h) h"
  by (simp add: teardown_cmds_def wp_rules)

definition torn_down :: "canary \<Rightarrow> host \<Rightarrow> (host_error, unit) result \<Rightarrow> host \<Rightarrow> bool" where
  "torn_down c h r h' \<longleftrightarrow> (\<exists>a1 a2 a3 a4 older. since h h' =
     Ran [''ip'', ''link'', ''del'', ''vh-canary''] a4 # Ran (lifecycle_cmd (ca_Egress c) ''del'' canaryNamespace) a3 #
     Ran (stop_cmd (proxy_unit ''canary'')) a2 # Ran discard_cmd a1 # older \<and>
     (isOk r \<longrightarrow> hole_closed a1 \<and> (\<exists>out. Ran (canary_curl c) (Inr out) \<in> set older)))"

text \<open>C17: However a trial goes, its last four commands remove the hole in the packet filter, the process, the namespace and the
  link, the hole first; and it succeeds only when traffic was carried and the hole is closed.\<close>
theorem trials_are_taken_down:
  assumes "run_state (try_candidate c candidate uplink) h = (r, h')"
  shows "torn_down c h r h'"
proof -
  have "wp (try_candidate c candidate uplink) (torn_down c h) h"
    unfolding try_candidate_def
  proof (rule wp_then[OF carry_ensures[of c candidate uplink, unfolded ensures_def, rule_format]])
    fix carried :: "(host_error, unit) result" and h1
    assume 1: "extends h h1 \<and> (isOk carried \<longrightarrow> (\<exists>e \<in> set (since h h1). curl_done c e))"
    show "wp (do { d \<leftarrow> Discard c; attemptAll (w_Env (ca_World c)) (teardown_cmds c); returns (joined_error carried d) }) (torn_down c h) h1"
    proof (rule wp_then[OF discard_outcome], rule wp_then[OF teardown_outcome])
      fix d :: "(host_error, unit) result" and u :: unit and h2 h3 :: host
      assume 2: "\<exists>a older. h_Log h2 = Ran discard_cmd a # older @ h_Log h1 \<and> (isOk d \<longleftrightarrow> hole_closed a)"
        and 3: "\<exists>a2 a3 a4. h_Log h3 =
          Ran [''ip'', ''link'', ''del'', ''vh-canary''] a4 # Ran (lifecycle_cmd (ca_Egress c) ''del'' canaryNamespace) a3 #
          Ran (stop_cmd (proxy_unit ''canary'')) a2 # h_Log h2"
      from 2 obtain a1 older where a1: "h_Log h2 = Ran discard_cmd a1 # older @ h_Log h1" "isOk d \<longleftrightarrow> hole_closed a1" by blast
      from 3 obtain a2 a3 a4 where a2: "h_Log h3 =
          Ran [''ip'', ''link'', ''del'', ''vh-canary''] a4 # Ran (lifecycle_cmd (ca_Egress c) ''del'' canaryNamespace) a3 #
          Ran (stop_cmd (proxy_unit ''canary'')) a2 # h_Log h2" by blast
      obtain early where log: "h_Log h1 = early @ h_Log h" "since h h1 = early" using 1 by (auto simp: extends_def)
      have good: "isOk (joined_error carried d) \<longrightarrow> isOk d \<and> isOk carried"
        by (cases carried; cases d) (simp_all add: joined_error_def isOk_def)
      have "since h h3 = Ran [''ip'', ''link'', ''del'', ''vh-canary''] a4 # Ran (lifecycle_cmd (ca_Egress c) ''del'' canaryNamespace) a3 #
          Ran (stop_cmd (proxy_unit ''canary'')) a2 # Ran discard_cmd a1 # older @ early"
        by (rule since_eq) (simp add: a2 a1(1) log(1))
      moreover have "isOk (joined_error carried d) \<longrightarrow> hole_closed a1 \<and> (\<exists>out. Ran (canary_curl c) (Inr out) \<in> set (older @ early))"
        using good a1(2) 1 log(2) by (auto simp: curl_done_def)
      ultimately show "wp (returns (joined_error carried d)) (torn_down c h) h3"
        unfolding wp_returns torn_down_def
        by (intro exI[of _ a1] exI[of _ a2] exI[of _ a3] exI[of _ a4] exI[of _ "older @ early"] conjI)
    qed
  qed
  from wpD[OF this assms] show ?thesis .
qed

lemma joined_ok: "isOk (joined_error carried d) \<Longrightarrow> isOk carried"
  by (cases carried; cases d) (simp_all add: joined_error_def isOk_def)

lemma trial_ensures:
  assumes "ensures (carry_traffic c candidate uplink) E"
  shows "ensures (try_candidate c candidate uplink) E"
proof (rule ensuresI)
  fix h
  have rest: "state_io_rel extends (do { d \<leftarrow> Discard c; attemptAll (w_Env (ca_World c)) (teardown_cmds c); returns (f d) })" for f
    unfolding Discard_def by (intro io_rel) simp_all
  show "wp (try_candidate c candidate uplink) (\<lambda>r h'. extends h h' \<and> (isOk r \<longrightarrow> (\<exists>e \<in> set (since h h'). E e))) h"
    unfolding try_candidate_def
  proof (rule wp_then[OF assms[unfolded ensures_def, rule_format]])
    fix carried :: "(host_error, unit) result" and h1
    assume 1: "extends h h1 \<and> (isOk carried \<longrightarrow> (\<exists>e \<in> set (since h h1). E e))"
    show "wp (do { d \<leftarrow> Discard c; attemptAll (w_Env (ca_World c)) (teardown_cmds c); returns (joined_error carried d) })
        (\<lambda>r h'. extends h h' \<and> (isOk r \<longrightarrow> (\<exists>e \<in> set (since h h'). E e))) h1"
    proof (rule wp_mono[OF wp_both[OF io_rel_wp[OF rest[of "joined_error carried"]]]])
      show "wp (do { d \<leftarrow> Discard c; attemptAll (w_Env (ca_World c)) (teardown_cmds c); returns (joined_error carried d) })
          (\<lambda>r _. isOk r \<longrightarrow> isOk carried) h1"
        using joined_ok by (simp add: wp_def split_beta returns_def)
    next
      fix r and h' :: host assume 2: "extends h1 h' \<and> (isOk r \<longrightarrow> isOk carried)"
      then show "extends h h' \<and> (isOk r \<longrightarrow> (\<exists>e \<in> set (since h h'). E e))"
        using 1 since_split[of h h1 h'] extends_trans[of h h1 h'] by auto
    qed
  qed
qed

lemma applied_routes: "ensures (applyOne w e spec) (\<lambda>ev. \<exists>out. ev = Ran (mark_route_cmd spec) (Inr out))"
proof (rule ensuresI)
  fix h
  obtain r h' where went: "run_state (applyOne w e spec) h = (r, h')" by (rule prod.exhaust)
  have "extends h h'" using wpD[OF io_rel_wp[OF apply_extends(1)] went] .
  moreover have "isOk r \<longrightarrow> (\<exists>ev \<in> set (since h h'). \<exists>out. ev = Ran (mark_route_cmd spec) (Inr out))"
    using apply_one_done[of w e spec h h'] went by (cases r) (auto simp: isOk_def steered_def)
  ultimately show "wp (applyOne w e spec) (\<lambda>r h'. extends h h' \<and> (isOk r \<longrightarrow>
      (\<exists>ev \<in> set (since h h'). \<exists>out. ev = Ran (mark_route_cmd spec) (Inr out)))) h"
    by (simp add: wp_run[OF went])
qed

lemma carry_routes: "ensures (carry_traffic c candidate uplink) (\<lambda>ev. \<exists>out. ev = Ran (mark_route_cmd (canary_spec candidate)) (Inr out))"
proof -
  have "state_io_rel extends (allowCanaryOut c spec uplink)" for spec unfolding allowCanaryOut_def by (intro io_rel) simp_all
  then show ?thesis
    unfolding carry_traffic_def by (intro ensures_first ensures_wrapping applied_routes io_rel) simp_all
qed

text \<open>C31: A trial that succeeded has run, outside its namespace, the replacement of a default route by one through its own
  link, in the table its specification never set: zero.\<close>
theorem trials_replace_a_default_route:
  assumes "run_state (try_candidate c candidate uplink) h = (Inr (), h')"
  shows "\<exists>out. Ran [''ip'', ''route'', ''replace'', ''default'', ''via'', ''10.91.0.2'', ''dev'', ''vh-canary'', ''table'', ''0''] (Inr out)
    \<in> set (since h h')"
proof -
  have cmd: "mark_route_cmd (canary_spec candidate) =
      [''ip'', ''route'', ''replace'', ''default'', ''via'', ''10.91.0.2'', ''dev'', ''vh-canary'', ''table'', ''0'']"
  proof -
    have "hostOf ''10.91.0.2/30'' = ''10.91.0.2''" "itoa_int 0 = ''0''" by code_simp+
    then show ?thesis by (simp add: mark_route_cmd_def canary_spec_def spec_table_def)
  qed
  from ensuresD(2)[OF trial_ensures[OF carry_routes] assms] show ?thesis unfolding cmd by auto
qed

subsection \<open>Samples\<close>

definition a_canary :: canary where
  "a_canary = \<lparr>ca_World = dumping, ca_Egress = sample_egress_adapter, ca_Probe = [], ca_Timeout = 0, ca_Lock = None\<rparr>"

lemma trial_succeeds:
  assumes "isOk (RenderSingBoxConfig a_candidate)"
  shows "\<exists>h'. run_state (try_candidate a_canary a_candidate ''eth0'') h = (Inr (), h')"
proof -
  have co: "cooperative dumping (canary_spec a_candidate)"
  proof -
    have "isOk (ParseDump bare_dump)" by code_simp
    with assms show ?thesis
      by (simp add: cooperative_def obliging_def isOk_def dumping_def world_with_def parseNamespaces_def Let_def canary_spec_def)
  qed
  have obliging: "obliging (w_Env dumping)" using co by (simp add: cooperative_def)
  have "succeeds (carry_traffic a_canary a_candidate ''eth0'')"
    using co obliging unfolding carry_traffic_def allowCanaryOut_def
    by (intro successes) (simp_all add: a_canary_def cooperative_one)
  then obtain u h1 where carried: "run_state (carry_traffic a_canary a_candidate ''eth0'') h = (Inr u, h1)"
    using succeeds_run by blast
  obtain r h' where went: "run_state (try_candidate a_canary a_candidate ''eth0'') h = (r, h')" by (rule prod.exhaust)
  have "wp (try_candidate a_canary a_candidate ''eth0'') (\<lambda>r _. r = Inr ()) h"
    by (simp add: try_candidate_def wp_bind wp_run[OF carried])
      (simp add: Discard_def wp_rules a_canary_def teardown_cmds_def joined_error_def mapErr_def)
  from wpD[OF this went] went show ?thesis by blast
qed

definition a_candidate :: proxy_tunnel where
  "a_candidate = a_tunnel"

lemma a_trial_succeeds: "\<exists>h'. run_state (try_candidate a_canary a_candidate ''eth0'') h = (Inr (), h')"
proof -
  have "isOk (RenderSingBoxConfig a_candidate)" by code_simp
  then show ?thesis by (rule trial_succeeds)
qed

theorem trials_are_taken_down_witness:
  "\<exists>h' out. run_state (try_candidate a_canary a_candidate ''eth0'') bare_host = (Inr (), h') \<and>
     Ran (canary_curl a_canary) (Inr out) \<in> set (since bare_host h')"
proof -
  obtain h' where went: "run_state (try_candidate a_canary a_candidate ''eth0'') bare_host = (Inr (), h')" using a_trial_succeeds by blast
  from trials_are_taken_down[OF went] went show ?thesis by (fastforce simp: torn_down_def isOk_def)
qed

theorem trials_replace_a_default_route_witness:
  "\<exists>h' out. run_state (try_candidate a_canary a_candidate ''eth0'') bare_host = (Inr (), h') \<and>
     Ran [''ip'', ''route'', ''replace'', ''default'', ''via'', ''10.91.0.2'', ''dev'', ''vh-canary'', ''table'', ''0''] (Inr out)
       \<in> set (since bare_host h')"
proof -
  obtain h' where went: "run_state (try_candidate a_canary a_candidate ''eth0'') bare_host = (Inr (), h')" using a_trial_succeeds by blast
  from trials_replace_a_default_route[OF went] went show ?thesis by blast
qed


definition a_listing :: string where
  "a_listing = ''vless://11111111-2222-3333-4444-555555555555@198.41.0.4:443?type=tcp&security=tls&sni=node.example.com''"

definition a_subscription :: tunnel where
  "a_subscription = \<lparr>t_ID = ''nl'', t_Type = TunnelXray, t_Role = ''internet'', t_Enabled = None,
     t_Source = \<lparr>ts_Kind = SourceSubscription, ts_Value = ''https://provider.example/s''\<rparr>, t_Routes = [], t_DNSServers = [], t_DNSZones = [],
     t_AllowedDevices = [], t_Health = \<lparr>hc_TCPAddress = [], hc_HTTPSURL = [], hc_DNSName = []\<rparr>\<rparr>"

definition a_refresher :: refresher where
  "a_refresher = hub_refresher (\<lambda>_. returns (Inr a_listing)) None a_canary ''eth0'' [] (\<lambda>_. Running) (\<lambda>_. False)"


end
