(* ===== verification/Notify.thy ===== *)
theory Notify
  imports Domain
begin

text \<open>
  \<open>internal/delivery/bot/notify.go\<close> and the gate of \<open>ops.go\<close>: what the bot says on its own.  The watchers
  are steps from one observation to the next, and the notifier decides, from the events in the order
  they arrive, which of them reaches the chat.  The texts of a language are a parameter: \<open>l\<close> maps a
  message and its arguments to a text; the buttons below a message are left out.  Times and durations
  are nanoseconds; the zero time is 0.
\<close>

type_synonym localizer = "string \<Rightarrow> string list \<Rightarrow> string"

record notice =
  nt_Category :: string
  nt_Text :: string
  nt_Debounce :: int

definition seconds :: "int \<Rightarrow> int" where "seconds n = n * 1000000000"
definition minutes :: "int \<Rightarrow> int" where "minutes n = seconds (60 * n)"

definition say :: "string \<Rightarrow> string \<Rightarrow> notice" where
  "say category t = \<lparr>nt_Category = category, nt_Text = t, nt_Debounce = 0\<rparr>"

subsection \<open>The notifier\<close>

record notifier_state =
  ns_LastSent :: "string \<Rightarrow> int option"
  ns_LastRollback :: int
  ns_LongestDebounce :: int

definition newNotifierState :: notifier_state where
  "newNotifierState = \<lparr>ns_LastSent = \<lambda>_. None, ns_LastRollback = 0, ns_LongestDebounce = 0\<rparr>"

definition forget :: "int \<Rightarrow> notifier_state \<Rightarrow> notifier_state" where
  "forget now st =
     (if ns_LongestDebounce st = 0 then st
      else st\<lparr>ns_LastSent := \<lambda>key. case ns_LastSent st key of
          None \<Rightarrow> None
        | Some sent \<Rightarrow> if ns_LongestDebounce st \<le> now - sent then None else Some sent\<rparr>)"

definition notice_key :: "notice \<Rightarrow> string" where
  "notice_key ev = nt_Category ev @ ''|'' @ nt_Text ev"

definition remember :: "int \<Rightarrow> notice \<Rightarrow> notifier_state \<Rightarrow> notifier_state" where
  "remember now ev st = st\<lparr>ns_LastSent := (ns_LastSent st)(notice_key ev := Some now)\<rparr>"

text \<open>\<open>enabled\<close> is what the switches say of the event's category when it arrives.\<close>

definition shouldDeliver :: "bool \<Rightarrow> notice \<Rightarrow> int \<Rightarrow> notifier_state \<Rightarrow> bool \<times> notifier_state" where
  "shouldDeliver enabled ev now st0 =
     (let st = (if nt_Category ev = ''rollback'' then st0\<lparr>ns_LastRollback := now\<rparr> else st0) in
      if \<not> enabled then (False, st)
      else if nt_Category ev = ''oob'' \<and> now - ns_LastRollback st < minutes 2 then (False, st)
      else if 0 < nt_Debounce ev then
        (case ns_LastSent st (notice_key ev) of
           Some sent \<Rightarrow>
             if now - sent < nt_Debounce ev then (False, st)
             else (True, remember now ev (forget now (st\<lparr>ns_LongestDebounce := max (ns_LongestDebounce st) (nt_Debounce ev)\<rparr>)))
         | None \<Rightarrow> (True, remember now ev (forget now (st\<lparr>ns_LongestDebounce := max (ns_LongestDebounce st) (nt_Debounce ev)\<rparr>))))
      else (True, st))"

text \<open>The decisions on a stream of events.\<close>

fun deliver_all :: "(bool \<times> notice \<times> int) list \<Rightarrow> notifier_state \<Rightarrow> bool list" where
  "deliver_all [] st = []"
| "deliver_all ((enabled, ev, now) # evs) st =
     (let (sent, st') = shouldDeliver enabled ev now st in sent # deliver_all evs st')"

subsection \<open>Switches\<close>

definition notificationCategories :: "string list" where
  "notificationCategories =
     [''rollback'', ''agent-error'', ''converge'', ''health'', ''drift'', ''subscription'', ''oob'']"

type_synonym switches = "string \<Rightarrow> bool option"

definition newAlertSwitches :: switches where
  "newAlertSwitches = (\<lambda>k. if k \<in> set notificationCategories then Some True else None)"

definition switch_get :: "switches \<Rightarrow> string \<Rightarrow> bool" where
  "switch_get s key = (case s key of None \<Rightarrow> True | Some v \<Rightarrow> v)"

text \<open>A key that is not there reads as false in Go, so its first toggle switches it on.\<close>

definition switch_toggle :: "string \<Rightarrow> switches \<Rightarrow> bool \<times> switches" where
  "switch_toggle key s =
     (let v = \<not> (case s key of None \<Rightarrow> False | Some v \<Rightarrow> v) in (v, s(key := Some v)))"

definition switch_set :: "string \<Rightarrow> bool \<Rightarrow> switches \<Rightarrow> switches" where
  "switch_set key v s = s(key := Some v)"

subsection \<open>The health board\<close>

record health_entry =
  he_ID :: string
  he_Status :: health_status
  he_Reason :: string
  he_CheckedAt :: int

record health_board =
  hb_Entries :: "string \<Rightarrow> health_entry option"
  hb_Fails :: "string \<Rightarrow> nat"
  hb_Alerted :: "string \<Rightarrow> bool"

definition emptyBoard :: health_board where
  "emptyBoard = \<lparr>hb_Entries = \<lambda>_. None, hb_Fails = \<lambda>_. 0, hb_Alerted = \<lambda>_. False\<rparr>"

definition board_store :: "health_entry \<Rightarrow> health_board \<Rightarrow> health_board" where
  "board_store e b = b\<lparr>hb_Entries := (hb_Entries b)(he_ID e := Some e)\<rparr>"

text \<open>Whether an alert goes out, and whether a recovery does.\<close>

definition board_observe :: "health_entry \<Rightarrow> health_board \<Rightarrow> (bool \<times> bool) \<times> health_board" where
  "board_observe e b0 =
     (let i = he_ID e; b = board_store e b0 in
      case he_Status e of
        HealthUnhealthy \<Rightarrow>
          (let b' = b\<lparr>hb_Fails := (hb_Fails b)(i := Suc (hb_Fails b i))\<rparr> in
           if hb_Fails b' i = 2 \<and> \<not> hb_Alerted b' i then ((True, False), b'\<lparr>hb_Alerted := (hb_Alerted b')(i := True)\<rparr>)
           else ((False, False), b'))
      | HealthHealthy \<Rightarrow>
          (let b' = b\<lparr>hb_Fails := (hb_Fails b)(i := 0)\<rparr> in
           if hb_Alerted b' i then ((False, True), b'\<lparr>hb_Alerted := (hb_Alerted b')(i := False)\<rparr>)
           else ((False, False), b'))
      | HealthUnknown \<Rightarrow> ((False, False), b\<lparr>hb_Fails := (hb_Fails b)(i := 0)\<rparr>))"

definition board_prune :: "string set \<Rightarrow> health_board \<Rightarrow> health_board" where
  "board_prune known b =
     (let gone = (\<lambda>i. hb_Entries b i \<noteq> None \<and> i \<notin> known) in
      b\<lparr>hb_Entries := \<lambda>i. if gone i then None else hb_Entries b i,
        hb_Fails := \<lambda>i. if gone i then 0 else hb_Fails b i,
        hb_Alerted := \<lambda>i. if gone i then False else hb_Alerted b i\<rparr>)"

definition healthNotification :: "localizer \<Rightarrow> (string \<Rightarrow> string) \<Rightarrow> string \<Rightarrow> string \<Rightarrow> bool \<Rightarrow> notice" where
  "healthNotification l esc tunnelID reason recovered =
     say ''health'' (l (if recovered then ''notification/health/up'' else ''notification/health/down'') [esc tunnelID, esc reason])"

text \<open>
  \<open>probeAllTunnels\<close>: the tunnels that are enabled are probed in their order, and what is not probed any
  more is forgotten.  A probe that fails to run (\<open>None\<close>) changes nothing.
\<close>

fun probe_tunnels ::
    "localizer \<Rightarrow> (string \<Rightarrow> string) \<Rightarrow> (tunnel \<Rightarrow> tunnel_health option) \<Rightarrow> tunnel list \<Rightarrow> health_board \<Rightarrow> notice list \<times> health_board" where
  "probe_tunnels l esc test [] b = ([], b)"
| "probe_tunnels l esc test (t # ts) b =
     (if \<not> IsEnabled t then probe_tunnels l esc test ts b
      else case test t of
        None \<Rightarrow> probe_tunnels l esc test ts b
      | Some health \<Rightarrow>
          (let ((down, up), b1) = board_observe \<lparr>he_ID = t_ID t, he_Status = th_Status health, he_Reason = th_Reason health,
                 he_CheckedAt = th_CheckedAt health\<rparr> b;
               (more, b2) = probe_tunnels l esc test ts b1 in
           ((if down then [healthNotification l esc (t_ID t) (th_Reason health) False] else []) @
            (if up then [healthNotification l esc (t_ID t) (th_Reason health) True] else []) @ more, b2)))"

definition probeAllTunnels ::
    "localizer \<Rightarrow> (string \<Rightarrow> string) \<Rightarrow> (tunnel \<Rightarrow> tunnel_health option) \<Rightarrow> config option \<Rightarrow> health_board \<Rightarrow> notice list \<times> health_board" where
  "probeAllTunnels l esc test loaded b =
     (case loaded of
        None \<Rightarrow> ([], b)
      | Some cfg \<Rightarrow>
          (let (notices, b') = probe_tunnels l esc test (cfg_Tunnels cfg) b in
           (notices, board_prune (t_ID ` set (filter IsEnabled (cfg_Tunnels cfg))) b')))"

subsection \<open>The journal of the agent\<close>

text \<open>\<open>^(create|update|delete) [a-z]+/\<close>\<close>

definition operation_line :: "string \<Rightarrow> bool" where
  "operation_line s \<longleftrightarrow> list_ex (\<lambda>kind. HasPrefix s (kind @ '' '') \<and>
     (let rest = drop (Suc (length kind)) s; word = takeWhile is_lower rest in
      word \<noteq> [] \<and> HasPrefix (drop (length word) rest) ''/'')) [''create'', ''update'', ''delete'']"

definition classifyAgentLine :: "localizer \<Rightarrow> (string \<Rightarrow> string) \<Rightarrow> string \<Rightarrow> (string \<times> string) option" where
  "classifyAgentLine l esc raw =
     (let message = TrimSpace raw in
      if message = [] then None
      else if Contains message ''was not confirmed within the deadline; restored'' then
        Some (''rollback'', l ''notification/agent_rollback'' [esc message])
      else if HasPrefix message ''converged on revision '' then
        Some (''converge'', l ''notification/agent_converged'' [esc (TrimSpace (TrimPrefix message ''converged on revision ''))])
      else if operation_line message then None
      else Some (''agent-error'', l ''notification/agent_error'' [esc message]))"

definition journalNotification :: "localizer \<Rightarrow> (string \<Rightarrow> string) \<Rightarrow> string \<Rightarrow> notice option" where
  "journalNotification l esc message =
     (case classifyAgentLine l esc message of
        None \<Rightarrow> None
      | Some (category, t) \<Rightarrow>
          Some ((say category t)\<lparr>nt_Debounce := if category = ''agent-error'' then minutes 15 else 0\<rparr>))"

subsection \<open>The state files\<close>

record observedState =
  ob_Revision :: string
  ob_Pending :: string
  ob_Revoked :: string

definition orDash :: "string \<Rightarrow> string" where
  "orDash v = (if v = [] then [CHR 0xE2, CHR 0x80, CHR 0x94] else v)"

definition outOfBandNotifications :: "localizer \<Rightarrow> (string \<Rightarrow> string) \<Rightarrow> observedState \<Rightarrow> observedState \<Rightarrow> notice list" where
  "outOfBandNotifications l esc previous current =
     (if ob_Pending current \<noteq> ob_Pending previous \<and> ob_Pending current \<noteq> []
      then [say ''oob'' (l ''notification/oob/pending'' [esc (ob_Pending current)])] else []) @
     (if ob_Pending current \<noteq> ob_Pending previous \<and> ob_Pending current = [] \<and> ob_Revision current = ob_Revision previous
      then [say ''oob'' (l ''notification/oob/protection_cleared'' [])] else []) @
     (if ob_Revision current \<noteq> ob_Revision previous
      then [say ''oob'' (l ''notification/oob/revision'' [esc (orDash (ob_Revision previous)), esc (orDash (ob_Revision current))])] else []) @
     (if ob_Revoked current \<noteq> ob_Revoked previous then [say ''oob'' (l ''notification/oob/revocations'' [])] else [])"

text \<open>What a tick reads; a file that cannot be read leaves its part empty.\<close>

definition observed_now :: "string option \<Rightarrow> string option \<Rightarrow> string list option \<Rightarrow> observedState" where
  "observed_now revision pending revoked =
     \<lparr>ob_Revision = (case revision of None \<Rightarrow> [] | Some r \<Rightarrow> r), ob_Pending = (case pending of None \<Rightarrow> [] | Some p \<Rightarrow> p),
      ob_Revoked = (case revoked of None \<Rightarrow> [] | Some ids \<Rightarrow> Join '','' ids)\<rparr>"

text \<open>The bot's own writes are followed by silence for fifteen seconds.\<close>

definition self_recent :: "int \<Rightarrow> int \<Rightarrow> bool" where
  "self_recent marked now \<longleftrightarrow> marked \<noteq> 0 \<and> now - marked < seconds 15"

definition watch_tick ::
    "localizer \<Rightarrow> (string \<Rightarrow> string) \<Rightarrow> bool \<Rightarrow> observedState \<Rightarrow> observedState option \<Rightarrow> notice list \<times> observedState option" where
  "watch_tick l esc self current previous =
     (case previous of
        None \<Rightarrow> ([], Some current)
      | Some p \<Rightarrow> (if self then [] else outOfBandNotifications l esc p current, Some current))"

subsection \<open>Drift\<close>

datatype drift_say = DriftSeen | DriftOver

text \<open>One tick: the operations a plan found, or nothing when the check could not be made.\<close>

definition drift_tick :: "nat option \<Rightarrow> bool \<times> bool \<Rightarrow> drift_say list \<times> bool \<times> bool" where
  "drift_tick operations = (\<lambda>(sawDrift, alerted).
     case operations of
       None \<Rightarrow> ([], sawDrift, alerted)
     | Some 0 \<Rightarrow> (if alerted then [DriftOver] else [], False, False)
     | Some (Suc _) \<Rightarrow>
         if sawDrift \<and> \<not> alerted then ([DriftSeen], sawDrift, True) else ([], True, alerted))"

definition driftNotification :: "localizer \<Rightarrow> (string \<Rightarrow> string) \<Rightarrow> (nat \<Rightarrow> string) \<Rightarrow> operation list \<Rightarrow> notice" where
  "driftNotification l esc plural operations =
     say ''drift'' (l ''notification/drift/header'' [Itoa (length operations), plural (length operations)] @
       concat (map (\<lambda>o'. l ''notification/drift/operation'' [esc (OperationString o')]) (take 10 operations)) @
       (if 10 < length operations then l ''notification/drift/more'' [Itoa (length operations - 10)] else []) @
       l ''notification/drift/advice'' [])"

definition driftRecoveredNotification :: "localizer \<Rightarrow> notice" where
  "driftRecoveredNotification l = say ''drift'' (l ''notification/drift/recovered'' [])"

subsection \<open>The gate of the operations (ops.go)\<close>

text \<open>The operation that runs, when one does.\<close>

definition gate_acquire :: "'o \<Rightarrow> 'o option \<Rightarrow> 'o option \<times> 'o option" where
  "gate_acquire name gate = (case gate of Some current \<Rightarrow> (Some current, gate) | None \<Rightarrow> (None, Some name))"

definition gate_release :: "'o option \<Rightarrow> 'o option" where
  "gate_release gate = None"

end
