(* ===== verification/NotifyClaims.thy ===== *)
theory NotifyClaims
  imports Notify
begin

text \<open>
  What the bot says on its own, as a function of what happened and of what it has said: the notifier
  against a history that never forgets, the health alerts against the probes and alerts so far.
\<close>

subsection \<open>The notifier and its history\<close>

text \<open>The events so far, the latest first, each with whether it was said and when it came.\<close>

type_synonym history = "(bool \<times> notice \<times> int) list"

definition rolled_back_lately :: "history \<Rightarrow> int \<Rightarrow> bool" where
  "rolled_back_lately past now = list_ex (\<lambda>(said, e, t). nt_Category e = ''rollback'' \<and> now - t < minutes 2) past"

definition said_lately :: "history \<Rightarrow> string \<Rightarrow> int \<Rightarrow> int \<Rightarrow> bool" where
  "said_lately past key window now = list_ex (\<lambda>(said, e, t). said \<and> notice_key e = key \<and> now - t < window) past"

definition worth_saying :: "history \<Rightarrow> bool \<Rightarrow> notice \<Rightarrow> int \<Rightarrow> bool" where
  "worth_saying past enabled ev now \<longleftrightarrow>
     enabled \<and> \<not> (nt_Category ev = ''oob'' \<and> rolled_back_lately past now) \<and>
     \<not> (0 < nt_Debounce ev \<and> said_lately past (notice_key ev) (nt_Debounce ev) now)"

fun deliver_spec :: "history \<Rightarrow> (bool \<times> notice \<times> int) list \<Rightarrow> bool list" where
  "deliver_spec past [] = []"
| "deliver_spec past ((enabled, ev, now) # evs) =
     (let said = worth_saying past enabled ev now in said # deliver_spec ((said, ev, now) # past) evs)"

text \<open>
  What the state remembers of a history up to \<open>now0\<close>: enough to answer every later question about it.
  \<open>window\<close> is the window of each key.
\<close>

definition recalls :: "(string \<Rightarrow> int) \<Rightarrow> int \<Rightarrow> history \<Rightarrow> notifier_state \<Rightarrow> bool" where
  "recalls window now0 past st \<longleftrightarrow>
     (\<forall>now \<ge> now0. now - ns_LastRollback st < minutes 2 \<longleftrightarrow> rolled_back_lately past now) \<and>
     (\<forall>now \<ge> now0. \<forall>k. 0 < window k \<longrightarrow>
        ((\<exists>t. ns_LastSent st k = Some t \<and> now - t < window k) \<longleftrightarrow> said_lately past k (window k) now)) \<and>
     (\<forall>k t. ns_LastSent st k = Some t \<longrightarrow> window k \<le> ns_LongestDebounce st) \<and>
     (\<forall>(said, e, t) \<in> set past. t \<le> now0)"

lemma recalls_later: "recalls window now0 past st \<Longrightarrow> now0 \<le> now \<Longrightarrow> recalls window now past st"
  unfolding recalls_def case_prod_beta by (elim conjE, intro conjI) (meson order_trans)+

lemma recalls_new: "minutes 2 \<le> now0 \<Longrightarrow> recalls window now0 [] newNotifierState"
  by (simp add: recalls_def newNotifierState_def rolled_back_lately_def said_lately_def)

lemma lately_Cons:
  "rolled_back_lately ((said, e, t) # past) now \<longleftrightarrow>
     nt_Category e = ''rollback'' \<and> now - t < minutes 2 \<or> rolled_back_lately past now"
  "said_lately ((said, e, t) # past) k w now \<longleftrightarrow>
     said \<and> notice_key e = k \<and> now - t < w \<or> said_lately past k w now"
  by (simp_all add: rolled_back_lately_def said_lately_def)

lemma older:
  assumes "\<forall>(said, e, t) \<in> set past. t \<le> now0"
  shows "rolled_back_lately past now \<Longrightarrow> now - now0 < minutes 2" and "said_lately past k w now \<Longrightarrow> now - now0 < w"
  using assms unfolding rolled_back_lately_def said_lately_def list_ex_iff by fastforce+

text \<open>The step on the state, apart from the answer.\<close>

lemma recalls_rollback:
  assumes "recalls window now past st"
  shows "recalls window now ((False, ev, now) # past)
     (if nt_Category ev = ''rollback'' then st\<lparr>ns_LastRollback := now\<rparr> else st)"
  using assms older(1)[of past now] unfolding recalls_def by (auto simp: lately_Cons)

lemma recalls_unsaid: "recalls window now ((False, ev, t) # past) st \<Longrightarrow> window (notice_key ev) \<le> 0 \<Longrightarrow> recalls window now ((True, ev, t) # past) st"
  unfolding recalls_def by (auto simp: lately_Cons)

lemma recalls_said:
  assumes "recalls window now ((False, ev, now) # past) st" "0 < window (notice_key ev)"
  defines "st' \<equiv> st\<lparr>ns_LongestDebounce := max (ns_LongestDebounce st) (window (notice_key ev))\<rparr>"
  shows "recalls window now ((True, ev, now) # past) (remember now ev (forget now st'))"
proof -
  let ?k = "notice_key ev" and ?f = "remember now ev (forget now st')"
  have longest: "0 < ns_LongestDebounce st'" using assms(2) by (simp add: st'_def)
  have sent: "ns_LastSent ?f k = (if k = ?k then Some now else
      case ns_LastSent st k of None \<Rightarrow> None | Some t \<Rightarrow> if ns_LongestDebounce st' \<le> now - t then None else Some t)" for k
    using longest by (cases "ns_LastSent st k") (simp_all add: remember_def forget_def st'_def)
  have short: "window k \<le> ns_LongestDebounce st'" if "ns_LastSent st k = Some t" for k t
    using assms(1) that unfolding recalls_def st'_def by (fastforce simp: max_def)
  have known: "(\<exists>t. ns_LastSent st k = Some t \<and> u - t < window k) \<longleftrightarrow> said_lately past k (window k) u"
    if "now \<le> u" "0 < window k" for k u
    using assms(1) that unfolding recalls_def by (simp add: lately_Cons)
  have past: "\<forall>(said, e, t) \<in> set past. t \<le> now" using assms(1) by (simp add: recalls_def)
  have "(\<exists>t. ns_LastSent ?f k = Some t \<and> u - t < window k) \<longleftrightarrow> said_lately ((True, ev, now) # past) k (window k) u"
    if u: "now \<le> u" "0 < window k" for k u
  proof (cases "k = ?k")
    case True
    then show ?thesis using older(2)[OF past, of k "window k" u] by (auto simp: sent lately_Cons)
  next
    case False
    have "(\<exists>t. ns_LastSent ?f k = Some t \<and> u - t < window k) \<longleftrightarrow> (\<exists>t. ns_LastSent st k = Some t \<and> u - t < window k)"
      using False u short[of k] by (auto simp: sent split: option.splits)
    then show ?thesis using False known[OF u] by (auto simp: lately_Cons)
  qed
  moreover have "ns_LastRollback ?f = ns_LastRollback st" "ns_LongestDebounce ?f = ns_LongestDebounce st'"
    by (simp_all add: remember_def forget_def st'_def)
  moreover have "window k \<le> ns_LongestDebounce st'" if "ns_LastSent ?f k = Some t" for k t
  proof -
    have "window ?k \<le> ns_LongestDebounce st'" by (simp add: st'_def)
    then show ?thesis using that short[of k] unfolding sent by (auto split: if_splits option.splits)
  qed
  ultimately show ?thesis using assms(1) unfolding recalls_def by (simp add: lately_Cons)
qed

lemma shouldDeliver_recalls:
  assumes "recalls window now past st" "nt_Debounce ev = window (notice_key ev)" "shouldDeliver enabled ev now st = (said, st')"
  shows "said = worth_saying past enabled ev now \<and> recalls window now ((said, ev, now) # past) st'"
proof -
  let ?s = "if nt_Category ev = ''rollback'' then st\<lparr>ns_LastRollback := now\<rparr> else st" and ?d = "nt_Debounce ev"
  let ?l = "?s\<lparr>ns_LongestDebounce := max (ns_LongestDebounce ?s) ?d\<rparr>"
  have unsaid: "recalls window now ((False, ev, now) # past) ?s" by (rule recalls_rollback) (rule assms(1))
  have rolled: "now - ns_LastRollback ?s < minutes 2 \<longleftrightarrow> rolled_back_lately past now" if "nt_Category ev = ''oob''"
    using assms(1) that unfolding recalls_def by simp
  have heard: "(\<exists>t. ns_LastSent ?s (notice_key ev) = Some t \<and> now - t < ?d) \<longleftrightarrow> said_lately past (notice_key ev) ?d now" if "0 < ?d"
    using assms(1,2) that unfolding recalls_def by simp
  consider (quiet) "\<not> worth_saying past enabled ev now" | (plain) "worth_saying past enabled ev now" "?d \<le> 0"
    | (window) "worth_saying past enabled ev now" "0 < ?d" by linarith
  then show ?thesis
  proof cases
    case quiet
    then have "shouldDeliver enabled ev now st = (False, ?s)"
      using rolled heard unfolding worth_saying_def shouldDeliver_def Let_def by (auto split: option.splits)
    then show ?thesis using assms(3) unsaid quiet by simp
  next
    case plain
    then have "shouldDeliver enabled ev now st = (True, ?s)"
      using rolled unfolding worth_saying_def shouldDeliver_def Let_def by (auto split: option.splits)
    then show ?thesis using assms(2,3) recalls_unsaid[OF unsaid] plain by simp
  next
    case window
    then have "shouldDeliver enabled ev now st = (True, remember now ev (forget now ?l))"
      using rolled heard unfolding worth_saying_def shouldDeliver_def Let_def by (auto split: option.splits)
    then show ?thesis using assms(2,3) recalls_said[OF unsaid] window by simp
  qed
qed

lemma deliver_all_recalls:
  assumes "recalls window now0 past st" "sorted_wrt (\<le>) (now0 # map (\<lambda>(enabled, ev, now). now) evs)"
    "\<forall>(enabled, ev, now) \<in> set evs. nt_Debounce ev = window (notice_key ev)"
  shows "deliver_all evs st = deliver_spec past evs"
  using assms
proof (induction evs arbitrary: now0 past st)
  case (Cons x evs)
  obtain enabled ev now where x: "x = (enabled, ev, now)" by (rule prod_cases3)
  obtain said st' where step: "shouldDeliver enabled ev now st = (said, st')" by (rule prod.exhaust)
  have "recalls window now past st" using Cons.prems(1,2) recalls_later by (simp add: x)
  with step Cons.prems(3) have "said = worth_saying past enabled ev now" "recalls window now ((said, ev, now) # past) st'"
    using shouldDeliver_recalls[of window now past st ev enabled said st'] by (auto simp: x)
  then show ?case using Cons.IH[of now "(said, ev, now) # past" st'] Cons.prems(2,3) by (simp add: x step Let_def)
qed simp

text \<open>C37: The bot says exactly what a notifier with a full memory would say: an event is delivered when its
  category is switched on, when it is not a change seen less than two minutes after an automatic
  rollback, and when the same text was not delivered within the event's own window.  So the entries
  that \<open>forget\<close> drops are never missed, as its comment claims, whatever the events and however long the
  bot runs; what is asked of the events is that they come in the order of their times and that the
  window depends on the category and text only.
\<close>

theorem forgetting_is_never_noticed:
  assumes "sorted (map (\<lambda>(enabled, ev, now). now) evs)" and "\<forall>(enabled, ev, now) \<in> set evs. minutes 2 \<le> now"
    and "\<forall>(enabled, ev, now) \<in> set evs. nt_Debounce ev = window (notice_key ev)"
  shows "deliver_all evs newNotifierState = deliver_spec [] evs"
proof (rule deliver_all_recalls[of window "minutes 2"])
  show "recalls window (minutes 2) [] newNotifierState" by (rule recalls_new) simp
  show "sorted_wrt (\<le>) (minutes 2 # map (\<lambda>(enabled, ev, now). now) evs)" using assms(1,2) by auto
qed (rule assms(3))

definition sample_error :: "string \<Rightarrow> notice" where
  "sample_error t = (say ''agent-error'' t)\<lparr>nt_Debounce := minutes 15\<rparr>"

definition sample_events :: "(bool \<times> notice \<times> int) list" where
  "sample_events = map (\<lambda>(ev, m). (True, ev, minutes m))
     [(sample_error ''a'', 10), (sample_error ''b'', 12), (sample_error ''a'', 20), (sample_error ''a'', 26), (say ''rollback'' ''r'', 30),
      (say ''oob'' ''o'', 31), (sample_error ''b'', 40), (say ''oob'' ''o'', 41), (sample_error ''a'', 40 + 1)]"

theorem forgetting_is_never_noticed_witness:
  "deliver_all sample_events newNotifierState = deliver_spec [] sample_events \<and>
   deliver_spec [] sample_events = [True, True, False, True, True, False, True, True, True]"
proof
  show "deliver_all sample_events newNotifierState = deliver_spec [] sample_events"
    by (rule forgetting_is_never_noticed[of _ "\<lambda>k. if HasPrefix k ''agent-error'' then minutes 15 else 0"]) code_simp+
  show "deliver_spec [] sample_events = [True, True, False, True, True, False, True, True, True]" by code_simp
qed

text \<open>
  C1: An automatic rollback silences the changes that follow it even when the operator has switched the
  rollback category off and was told nothing: its time is noted before the switch is asked, so for two
  minutes no out-of-band change is reported, neither the rollback's own nor anybody else's.
\<close>

theorem a_muted_rollback_mutes_changes:
  assumes "nt_Category rolled = ''rollback''" and "\<forall>(enabled, ev, now) \<in> set evs. nt_Category ev = ''oob'' \<and> now < at + minutes 2"
  shows "deliver_all ((False, rolled, at) # evs) st = replicate (Suc (length evs)) False"
proof -
  have silent: "deliver_all evs st' = replicate (length evs) False" if "ns_LastRollback st' = at" for st'
    using assms(2) that
  proof (induction evs arbitrary: st')
    case (Cons x evs)
    then show ?case by (cases x) (simp add: shouldDeliver_def)
  qed simp
  show ?thesis using assms(1) silent[of "st\<lparr>ns_LastRollback := at\<rparr>"] by (simp add: shouldDeliver_def)
qed

theorem a_muted_rollback_mutes_changes_witness:
  "deliver_all [(False, say ''rollback'' ''r'', minutes 10), (True, say ''oob'' ''o'', minutes 11)] newNotifierState = [False, False] \<and>
   deliver_all [(True, say ''oob'' ''o'', minutes 11)] newNotifierState = [True]"
proof
  have "deliver_all [(False, say ''rollback'' ''r'', minutes 10), (True, say ''oob'' ''o'', minutes 11)] newNotifierState =
      replicate (Suc (length [(True, say ''oob'' ''o'', minutes 11)])) False"
    by (rule a_muted_rollback_mutes_changes) (code_simp, code_simp)
  then show "deliver_all [(False, say ''rollback'' ''r'', minutes 10), (True, say ''oob'' ''o'', minutes 11)] newNotifierState = [False, False]"
    by simp
  show "deliver_all [(True, say ''oob'' ''o'', minutes 11)] newNotifierState = [True]" by code_simp
qed

subsection \<open>The health alerts\<close>

text \<open>A board sees probes, and forgets the tunnels that are not probed any more.\<close>

datatype board_step = Probed health_entry | Known "string set"

fun board_run :: "board_step list \<Rightarrow> health_board \<Rightarrow> (bool \<times> bool) list" where
  "board_run [] b = []"
| "board_run (Probed e # steps) b = (let (said, b') = board_observe e b in said # board_run steps b')"
| "board_run (Known ids # steps) b = board_run steps (board_prune ids b)"

text \<open>The probes so far, the latest first, with what was said of each.\<close>

type_synonym probe_history = "((bool \<times> bool) \<times> health_entry) list"

fun last_status :: "string \<Rightarrow> probe_history \<Rightarrow> health_status option" where
  "last_status i [] = None"
| "last_status i ((said, e) # past) = (if he_ID e = i then Some (he_Status e) else last_status i past)"

text \<open>The last thing said of the tunnel is that it is down.\<close>

fun said_down :: "string \<Rightarrow> probe_history \<Rightarrow> bool" where
  "said_down i [] = False"
| "said_down i (((down, up), e) # past) = (if he_ID e = i \<and> (down \<or> up) then down else said_down i past)"

definition news :: "probe_history \<Rightarrow> health_entry \<Rightarrow> bool \<times> bool" where
  "news past e =
     (he_Status e = HealthUnhealthy \<and> last_status (he_ID e) past = Some HealthUnhealthy \<and> \<not> said_down (he_ID e) past,
      he_Status e = HealthHealthy \<and> said_down (he_ID e) past)"

fun board_spec :: "probe_history \<Rightarrow> board_step list \<Rightarrow> (bool \<times> bool) list" where
  "board_spec past [] = []"
| "board_spec past (Probed e # steps) = (let said = news past e in said # board_spec ((said, e) # past) steps)"
| "board_spec past (Known ids # steps) = board_spec (filter (\<lambda>(said, e). he_ID e \<in> ids) past) steps"

definition board_recalls :: "probe_history \<Rightarrow> health_board \<Rightarrow> bool" where
  "board_recalls past b \<longleftrightarrow>
     (\<forall>i. hb_Alerted b i = said_down i past \<and> (0 < hb_Fails b i \<longleftrightarrow> last_status i past = Some HealthUnhealthy) \<and>
        (2 \<le> hb_Fails b i \<longrightarrow> hb_Alerted b i) \<and> (hb_Entries b i = None \<longrightarrow> last_status i past = None \<and> \<not> said_down i past))"

lemma board_recalls_new: "board_recalls [] emptyBoard"
  by (simp add: board_recalls_def emptyBoard_def)

lemma board_observe_recalls:
  assumes "board_recalls past b" "board_observe e b = (said, b')"
  shows "said = news past e \<and> board_recalls ((said, e) # past) b'"
proof -
  have now: "hb_Alerted b (he_ID e) = said_down (he_ID e) past"
    "0 < hb_Fails b (he_ID e) \<longleftrightarrow> last_status (he_ID e) past = Some HealthUnhealthy"
    "2 \<le> hb_Fails b (he_ID e) \<Longrightarrow> hb_Alerted b (he_ID e)"
    using assms(1) unfolding board_recalls_def by blast+
  have said: "said = news past e"
    using assms(2) now by (cases "he_Status e") (auto simp: board_observe_def board_store_def Let_def news_def split: if_splits)
  have "hb_Alerted b' i = said_down i ((said, e) # past) \<and>
      (0 < hb_Fails b' i \<longleftrightarrow> last_status i ((said, e) # past) = Some HealthUnhealthy) \<and>
      (2 \<le> hb_Fails b' i \<longrightarrow> hb_Alerted b' i) \<and>
      (hb_Entries b' i = None \<longrightarrow> last_status i ((said, e) # past) = None \<and> \<not> said_down i ((said, e) # past))" for i
  proof (cases "i = he_ID e")
    case True
    then show ?thesis using assms(2) now
      by (cases "he_Status e") (auto simp: said news_def board_observe_def board_store_def Let_def split: if_splits)
  next
    case False
    then have "hb_Alerted b' i = hb_Alerted b i" "hb_Fails b' i = hb_Fails b i" "hb_Entries b' i = hb_Entries b i"
      using assms(2) by (cases "he_Status e"; auto simp: board_observe_def board_store_def Let_def split: if_splits)+
    then show ?thesis using assms(1) False by (cases said) (auto simp: board_recalls_def)
  qed
  then show ?thesis using said unfolding board_recalls_def by blast
qed

lemma kept_history:
  "last_status i (filter (\<lambda>(said, e). he_ID e \<in> ids) past) = (if i \<in> ids then last_status i past else None)"
  "said_down i (filter (\<lambda>(said, e). he_ID e \<in> ids) past) \<longleftrightarrow> i \<in> ids \<and> said_down i past"
  by (induction past) (auto split: prod.splits)

lemma board_prune_recalls:
  assumes "board_recalls past b"
  shows "board_recalls (filter (\<lambda>(said, e). he_ID e \<in> ids) past) (board_prune ids b)"
proof -
  have "hb_Alerted (board_prune ids b) i = (i \<in> ids \<and> said_down i past) \<and>
      (0 < hb_Fails (board_prune ids b) i \<longleftrightarrow> (if i \<in> ids then last_status i past else None) = Some HealthUnhealthy) \<and>
      (2 \<le> hb_Fails (board_prune ids b) i \<longrightarrow> hb_Alerted (board_prune ids b) i) \<and>
      (hb_Entries (board_prune ids b) i = None \<longrightarrow>
        (if i \<in> ids then last_status i past else None) = None \<and> \<not> (i \<in> ids \<and> said_down i past))" for i
  proof -
    have "hb_Alerted b i = said_down i past" "0 < hb_Fails b i \<longleftrightarrow> last_status i past = Some HealthUnhealthy"
      "2 \<le> hb_Fails b i \<longrightarrow> hb_Alerted b i" "hb_Entries b i = None \<longrightarrow> last_status i past = None \<and> \<not> said_down i past"
      using assms unfolding board_recalls_def by blast+
    then show ?thesis by (cases "hb_Entries b i = None"; cases "i \<in> ids") (simp_all add: board_prune_def Let_def)
  qed
  then show ?thesis unfolding board_recalls_def kept_history by blast
qed

text \<open>C38: Whatever the sequence of probes and of prunings, a tunnel is announced as down exactly when it was
  found unhealthy twice running since it was last forgotten and the last thing said of it is not
  already that it is down, and as up exactly when it is healthy and the last thing said was that it is
  down.  So no failure of one probe alerts, a long outage alerts once, a probe that could not measure
  neither counts nor cancels an alert, and downs and ups of a tunnel alternate.
\<close>

theorem alerts_follow_two_failures: "board_run steps emptyBoard = board_spec [] steps"
proof -
  have "board_run steps b = board_spec past steps" if "board_recalls past b" for past b
    using that
  proof (induction steps arbitrary: past b)
    case (Cons x steps)
    show ?case
    proof (cases x)
      case (Probed e)
      obtain said b' where step: "board_observe e b = (said, b')" by (rule prod.exhaust)
      then have "said = news past e" "board_recalls ((said, e) # past) b'"
        using board_observe_recalls Cons.prems by blast+
      then show ?thesis using Cons.IH by (simp add: Probed step Let_def)
    qed (simp add: Cons.IH[OF board_prune_recalls] Cons.prems)
  qed simp
  then show ?thesis using board_recalls_new by blast
qed

end
