(* ===== verification/UpstreamClaims.thy ===== *)
theory UpstreamClaims
  imports LinkFacts
begin

text \<open>
  What an accepted OpenVPN configuration cannot do: name a file of the host, outside the blocks whose
  text OpenVPN takes as data, or ask for a password nobody is there to type.
\<close>

subsection \<open>Loops over numbered lines\<close>

lemma foldE_enumerate:
  assumes "foldE f s (enumerate n xs) = Inr s'" "I n s"
    and "\<And>i s s'. i < length xs \<Longrightarrow> I (n + i) s \<Longrightarrow> f s (n + i, xs ! i) = Inr s' \<Longrightarrow> I (Suc (n + i)) s'"
  shows "I (n + length xs) s'"
  using assms
proof (induction xs arbitrary: n s)
  case (Cons x xs)
  then obtain s1 where s1: "f s (n, x) = Inr s1" "foldE f s1 (enumerate (Suc n) xs) = Inr s'"
    by (auto simp: bindE_Inr_iff)
  have "I (Suc n + length xs) s'"
  proof (rule Cons.IH[OF s1(2)])
    show "I (Suc n) s1" using Cons.prems(3)[of 0 s s1] Cons.prems(2) s1(1) by simp
    show "I (Suc (Suc n + i)) s2" if "i < length xs" "I (Suc n + i) s3" "f s3 (Suc n + i, xs ! i) = Inr s2" for i s3 s2
      using Cons.prems(3)[of "Suc i" s3 s2] that by simp
  qed
  then show ?case by simp
qed simp

lemma foldE_steps:
  assumes "foldE f s xs = Inr s'" "x \<in> set xs"
  obtains s1 s2 where "f s1 x = Inr s2"
  using assms by (induction xs arbitrary: s) (auto simp: bindE_Inr_iff)

subsection \<open>Blocks of inline material\<close>

definition conf_lines :: "string \<Rightarrow> string list" where
  "conf_lines content = map TrimSpace (Split NL content)"

definition open_tag :: "string \<Rightarrow> string" where "open_tag b = ''<'' @ b @ ''>''"
definition close_tag :: "string \<Rightarrow> string" where "close_tag b = ''</'' @ b @ ''>''"

text \<open>A line behind the opening of a block of data and not behind its close.\<close>

definition embedded_in :: "string \<Rightarrow> string list \<Rightarrow> nat \<Rightarrow> bool" where
  "embedded_in b ls i \<longleftrightarrow> (\<exists>j < i. ls ! j = open_tag b \<and> (\<forall>k. j < k \<and> k < i \<longrightarrow> ls ! k \<noteq> close_tag b))"

definition embedded :: "string list \<Rightarrow> nat \<Rightarrow> bool" where
  "embedded ls i \<longleftrightarrow> (\<exists>b \<in> set inlineBlocks. embedded_in b ls i)"

definition scan_ok :: "string list \<Rightarrow> nat \<Rightarrow> inline_state \<Rightarrow> bool" where
  "scan_ok ls n st \<longleftrightarrow>
     (in_Block st \<noteq> [] \<longrightarrow> embedded_in (in_Block st) ls n) \<and>
     (\<forall>m \<in> set (in_Lines st). HasPrefix (ls ! m) ''<'' \<or> embedded ls m)"

lemma embedded_next: "embedded_in b ls n \<Longrightarrow> ls ! n \<noteq> close_tag b \<Longrightarrow> embedded_in b ls (Suc n)"
  unfolding embedded_in_def by (metis less_Suc_eq)

lemma embedded_start: "ls ! n = open_tag b \<Longrightarrow> embedded_in b ls (Suc n)"
  unfolding embedded_in_def by (metis lessI not_less_eq)

lemma tag_text:
  assumes "parseOpenVPNInlineTag line = Some (name, False)" "HasPrefix line ''<''"
  shows "line = open_tag name"
proof -
  from assms(2) obtain r where r: "line = CHR ''<'' # r" by (auto simp: HasPrefix_iff)
  from assms(1) have "HasSuffix line ''>''" "3 \<le> length line" by (auto simp: parseOpenVPNInlineTag_def split: if_splits)
  then obtain m where m: "line = m @ ''>''" by (auto simp: HasSuffix_iff)
  with r \<open>3 \<le> length line\<close> obtain i where i: "line = CHR ''<'' # i @ ''>''" by (cases m) auto
  with assms(1) have "name = i" by (auto simp: parseOpenVPNInlineTag_def Let_def split: if_splits)
  with i show ?thesis by (simp add: open_tag_def)
qed

lemma scan_step:
  assumes "scan_ok ls n st" "inline_line st (n, raw) = Inr st'" "ls ! n = TrimSpace raw"
  shows "scan_ok ls (Suc n) st'"
proof (cases "in_Block st \<in> set inlineBlocks")
  case True
  then have "in_Block st \<noteq> []" by (auto simp: inlineBlocks_def)
  then have inside: "embedded_in (in_Block st) ls n" using assms(1) by (simp add: scan_ok_def)
  then have "embedded ls n" using True by (auto simp: embedded_def)
  then show ?thesis
    using assms True embedded_next[OF inside]
    by (auto simp: scan_ok_def inline_line_def close_block_def close_tag_def Let_def split: if_splits)
next
  case False
  show ?thesis
  proof (cases "HasPrefix (TrimSpace raw) ''<''")
    case True
    show ?thesis
      using assms False True embedded_start[of ls n] tag_text[OF _ True]
      by (auto simp: scan_ok_def inline_line_def tag_line_def close_block_def Let_def split: option.splits prod.splits if_splits)
  next
    case no: False
    then have "st' = st" using assms(2) False by (simp add: inline_line_def Let_def)
    moreover have "ls ! n \<noteq> close_tag b" for b using no assms(3) by (auto simp: close_tag_def HasPrefix_def)
    ultimately show ?thesis using assms(1) embedded_next by (auto simp: scan_ok_def)
  qed
qed

lemma inline_lines_embedded:
  assumes "validateOpenVPNInlineBlocks content = Inr (inline, credentials)" "m \<in> set inline"
  shows "HasPrefix (conf_lines content ! m) ''<'' \<or> embedded (conf_lines content) m"
proof -
  from assms(1) obtain st where st: "foldE inline_line no_block (enumerate 0 (Split NL content)) = Inr st" "inline = in_Lines st"
    by (auto simp: validateOpenVPNInlineBlocks_def bindE_Inr_iff split: if_splits)
  have "scan_ok (conf_lines content) (0 + length (Split NL content)) st"
  proof (rule foldE_enumerate[OF st(1)])
    show "scan_ok (conf_lines content) 0 no_block" by (simp add: scan_ok_def no_block_def)
    show "scan_ok (conf_lines content) (Suc (0 + i)) s'" if "i < length (Split NL content)" "scan_ok (conf_lines content) (0 + i) s"
      "inline_line s (0 + i, Split NL content ! i) = Inr s'" for i s s'
      using scan_step[OF that(2,3)] that(1) by (simp add: conf_lines_def)
  qed
  then show ?thesis using assms(2) st(2) by (simp add: scan_ok_def)
qed

subsection \<open>Directives\<close>

text \<open>The words of a line that would make OpenVPN open a file or run a command of the host.\<close>

definition reaches_out :: "string \<Rightarrow> bool" where
  "reaches_out line \<longleftrightarrow> 1 < length (Fields line) \<and>
     (TrimPrefix (hd (Fields line)) ''--'' \<in> set externalFileDirectives \<or> TrimPrefix (hd (Fields line)) ''--'' = ''tls-crypt-v2-verify'')"

lemma eat_nothing: "eat space_runes [] = None"
  by code_simp

lemma fields_first: "w \<noteq> [] \<Longrightarrow> \<exists>u rest. fields_from w s = (rev w @ u) # rest"
proof (induction w s rule: fields_from.induct)
  case (1 w s)
  show ?case
  proof (cases "eat space_runes s")
    case None
    show ?thesis
    proof (cases s)
      case Nil
      then show ?thesis using "1.prems" eat_nothing by (simp add: fields_from.simps[of w "[]"])
    next
      case (Cons c t)
      obtain u rest where "fields_from (c # w) t = (rev (c # w) @ u) # rest"
        using "1.IH"(1)[OF None Cons] by auto
      then show ?thesis using None Cons by (simp add: fields_from.simps[of w "c # t"])
    qed
  next
    case (Some t)
    then show ?thesis using "1.prems" by (auto simp: fields_from.simps[of w s])
  qed
qed

lemma first_field:
  assumes "HasPrefix line [c]" "c \<in> set ''<#;''"
  shows "\<exists>u. hd (Fields line) = c # u"
proof -
  obtain r where r: "line = c # r" using assms(1) by (auto simp: HasPrefix_iff)
  have "eat space_runes (c # r) = None"
    using assms(2) by (intro eat_visible[OF space_heads(1)]) (auto simp: visible_def code_def)
  then have "Fields line = fields_from [c] r" unfolding Fields_def r by (simp add: fields_from.simps[of "[]" "c # r"])
  then show ?thesis using fields_first[of "[c]" r] by auto
qed

lemma mark_is_quiet:
  assumes "HasPrefix line ''<'' \<or> is_comment line" "reaches_out line"
  shows "False"
proof (cases "line = []")
  case True
  then show False using assms(2) eat_nothing by (simp add: reaches_out_def Fields_def fields_from.simps[of "[]" "[]"])
next
  case False
  with assms(1) obtain c where "HasPrefix line [c]" "c \<in> set ''<#;''" by (auto simp: is_comment_def)
  then obtain u where "hd (Fields line) = c # u" using first_field by blast
  then show False
    using assms(2) \<open>c \<in> set ''<#;''\<close>
    by (auto simp: reaches_out_def externalFileDirectives_def TrimPrefix_def HasPrefix_def)
qed

lemma accepted_lines:
  assumes "validateOpenVPNInlineBlocks content = Inr (inline, credentials)" "ovpn_line inline credentials t (i, raw) = Inr t'"
    "conf_lines content ! i = TrimSpace raw" "reaches_out (TrimSpace raw)"
  shows "embedded (conf_lines content) i"
proof -
  have "i \<in> set inline"
    using assms(2,4) mark_is_quiet[of "TrimSpace raw"] by (auto simp: ovpn_line_def reaches_out_def Let_def split: if_splits)
  from inline_lines_embedded[OF assms(1) this] show ?thesis using mark_is_quiet assms(3,4) by auto
qed


definition nasty_conf :: string where
  "nasty_conf = ''remote n'' @ [NL] @ ''<ca>'' @ [NL] @ ''askpass /k'' @ [NL] @ ''</ca>''"


end
