(* ===== verification/Spec2Isabelle.thy ===== *)
theory Spec2Isabelle
  imports ReconcileClaims DeployClaims ConntrackClaims DnsmasqClaims RealityClaims IngressClaims EgressClaims
    OpenVPNClaims ClientProfileClaims DeviceEditClaims HealthClaims CanaryClaims NotifyClaims PublicClaims UpstreamClaims
begin

text \<open>
  A verification library for vpn-hub: a hub that terminates client VPN connections, sends each
  device's traffic through the egress tunnel it chose, and reaches private networks through
  tunnels of their own.

  \<^bold>\<open>The program.\<close>  A configuration (a directory of YAML files, edited by \<open>adapters/config\<close>) is validated
  and compiled into a desired state (\<open>application/service.go\<close>), saved as a revision with a
  confirmation timer (\<open>deploy.go\<close>, \<open>adapters/runtime\<close>) and, pass after pass, carried out on the host by
  the reconciler (\<open>reconcile.go\<close>): a packet filter with one mark per egress group, an ingress interface,
  a network namespace per tunnel, a resolver per group and an optional fallback listener
  (\<open>adapters/linux\<close>).  Beside the pass, tunnels are probed, subscriptions are refreshed through a trial of
  each candidate, and a chat client reports what changed.

  \<^bold>\<open>The theories\<close>, in the order of their dependence; sources are below \<open>src/internal\<close>.

  \<^item> The standard library of the program: \<open>Prelude\<close> (fallible functions as sums, loops that stop at an
    error, association lists), \<open>GoStrings\<close>, \<open>GoRunes\<close>, \<open>GoNetip\<close>, \<open>GoNet\<close>, \<open>GoURL\<close>, \<open>GoCrypto\<close>
    (SHA-256, HMAC, X25519 on bytes), \<open>Json\<close>, \<open>JsonIndent\<close>, \<open>Canonical\<close>.  They model what the sources use of
    package strings, strconv, net, net/netip, net/url, encoding/json and the crypto packages.
  \<^item> The configuration side: \<open>Domain\<close> and \<open>DomainRules\<close> (\<open>domain\<close>), \<open>Validation\<close>, \<open>ValidConfig\<close> (what a valid
    configuration is, without loops), \<open>DesiredState\<close>, \<open>FirewallPlan\<close>, \<open>HostSpecs\<close>, \<open>Diff\<close>
    (\<open>application\<close>); facts about them in \<open>StateFacts\<close>, \<open>PlanFacts\<close>, \<open>HostFacts\<close>.
  \<^item> The agent: \<open>Reconcile\<close> (\<open>reconcile.go\<close> over the interfaces of \<open>ports.go\<close>), \<open>Stores\<close> and \<open>Deploy\<close>
    (\<open>adapters/runtime\<close>, \<open>deploy.go\<close>, the rollback step of \<open>delivery/cli/agent.go\<close>).
  \<^item> The packet filter: \<open>Nftables\<close> (\<open>RenderRuleset\<close>), \<open>NftFacts\<close> and \<open>NftPolicy\<close> (what rendered chains
    decide), \<open>Conntrack\<close> and \<open>ConntrackFacts\<close> (\<open>Apply\<close> and the file that remembers DNS connections).
  \<^item> The adapters that run commands: \<open>Runner\<close> and \<open>RunnerFacts\<close> (commands, files, weakest preconditions),
    \<open>Dnsmasq\<close>, \<open>SingBox\<close>, \<open>Reality\<close>, \<open>AwgDump\<close>, \<open>IngressAdapter\<close>, \<open>EgressAdapter\<close>, \<open>EgressTunnels\<close>,
    \<open>EgressPass\<close>, \<open>Health\<close>, \<open>Canary\<close> (with \<open>application/subscription.go\<close>).
  \<^item> What comes in from outside: \<open>UpstreamParsers\<close>, \<open>Subscriptions\<close>, \<open>LinkFacts\<close>, \<open>PublicEndpoint\<close>; what goes
    out to devices: \<open>ClientProfiles\<close>; the operator's edits: \<open>Editor\<close>, \<open>EditorFacts\<close>
    (\<open>adapters/config\<close>); what the bot says: \<open>Notify\<close> (\<open>delivery/bot/notify.go\<close>, \<open>ops.go\<close>).
  \<^item> \<open>Sample\<close> is the configuration of the witnesses.  Every theory named \<open>...Claims\<close> holds the properties of
    its component, each after a paragraph that states it, with a witness where it has hypotheses.

  \<^bold>\<open>How the code is modelled.\<close>  A struct is a record with the fields of the source, an enumeration a
  datatype, a port or a mark a word of its width; a Go map is an association list or a map.  What returns
  an error in Go has a sum as its result, whose left side keeps the branch that failed.  Strings are lists
  of bytes; \<open>ToLower\<close> folds ASCII letters only, and \<open>%q\<close> is written out for printable text.  Where Go
  iterates a map in no fixed order the model sorts where the code sorts and takes any order otherwise.

  An adapter is a computation over a \<open>host\<close>, the files the hub wrote and the log of everything it did.
  What a command answers, how a write ends (it may leave the old file, the new one or anything else),
  what a removal does and when a context ends are an \<open>env\<close> of answers that depend on the log so far: nft,
  ip, awg, systemctl, conntrack, openvpn, sing-box and dnsmasq are therefore parameters, and a property
  that needs one of them to behave says so in a hypothesis.  The same holds for the YAML codec (documents
  are trees of nodes), sops, DNS, the HTTPS transfer, the clock, the random source and the texts of a
  language.  What runs under a lock is one step.

  \<^bold>\<open>Bounds.\<close>  The code has 16384 link networks (a /16 of /30s) and fails beyond; properties of a plan that
  must exist ask for at most 16384 tunnels.  Marks and tables count up from a base in 32-bit words;
  properties that need them to differ ask for less than 2^31 devices and tunnels together, far more than
  there are links.  What polls does so with the code's own bounds: 8 attempts for the fallback listener, 10
  for the device of a proxy and 60 for that of an OpenVPN client.  A subscription has at most 32 candidates
  and 8192 bytes per line.  The readers recurse on their input and need no fuel, except the IPv6 parser,
  which is given one step for each of the groups an address can have.

  \<^bold>\<open>Interfaces.\<close>  \<open>json_store\<close> (\<open>Deploy\<close>) is the contract of a file of the state directory, provided by the
  revision, confirmation and revocation stores and by the DNS connection file; \<open>refill_port\<close>
  (\<open>ConntrackFacts\<close>) is what a pass relies on in the packet filter; \<open>command_frame\<close> (\<open>CanaryClaims\<close>) is a
  relation that commands respect and the egress pass therefore keeps; \<open>fields\<close> (\<open>EditorFacts\<close>) is what an
  edit relies on in a mapping, provided by plain and by nested fields.  The state directory (\<open>reachable\<close>)
  and the directory of the fallback listener (\<open>reality_host\<close>) are inductive relations whose steps are
  the operations, crashes included.

  \<^bold>\<open>What is shown.\<close>  Validation accepts exactly the valid configurations, and what is compiled from one is
  well formed and compiles to every specification a pass needs (\<open>ConfigClaims\<close>, \<open>PlanClaims\<close>, \<open>HostClaims\<close>,
  \<open>CompileClaims\<close>).  The ruleset lets a device's traffic leave only by the tunnel it chose, with its own
  mark, by its own link and with its own resolver, and exposes only the hub's ports (\<open>NftClaims\<close>).  A
  pass changes the host in the documented order, its success means every step succeeded, and a dry run
  only reads (\<open>ReconcileClaims\<close>).  A deploy that is not confirmed is undone, and every reachable state
  directory can recover (\<open>DeployClaims\<close>).  Connections of clients whose resolver moved are cleared or
  remembered (\<open>ConntrackClaims\<close>).  Resolvers, fallback listener, ingress interface and tunnels end up as the
  specification asks, in an order that never lets traffic past its tunnel (\<open>DnsmasqClaims\<close>, \<open>RealityClaims\<close>,
  \<open>IngressClaims\<close>, \<open>EgressClaims\<close>, \<open>OpenVPNClaims\<close>).  A tunnel is healthy only when measured
  (\<open>HealthClaims\<close>), a candidate replaces a link only when it carried traffic (\<open>CanaryClaims\<close>), what it names is
  a public address (\<open>PublicClaims\<close>), links survive being printed and stored (\<open>LinkClaims\<close>), accepted OpenVPN
  files name nothing of the host (\<open>UpstreamClaims\<close>) and profiles name this hub (\<open>ClientProfileClaims\<close>).  An
  edit changes one field of one file and keeps documents well formed (\<open>EditorClaims\<close>, \<open>DeviceEditClaims\<close>).  The
  bot repeats nothing within its window and forgets nothing it needs (\<open>NotifyClaims\<close>).  Some properties are
  of kind error: they state where the code departs from what it means to do.

  \<^bold>\<open>What is not modelled.\<close>  The chat screens, dialogs and texts of the bot, the HTTP client of the chat
  service, the command line and the wiring, which call the operations above; reading of units, journal,
  routes and host facts for display; the lock and the settings file; viper; every program outside the
  repository.
\<close>

end
